(* ===== verification/Prelude.thy ===== *)
theory Prelude
  imports Main "HOL-Library.Word"
begin

section \<open>Prelude: results, machine arithmetic, sums over maps\<close>

text \<open>
  What every component of the development shares: the names of the program's integer types,
  the result type in which a panic is a value, Rust's arithmetic on fixed-width integers
  (checked, and the plain operators under both settings of \<open>overflow-checks\<close>), and the sum of
  the machine words that a finite map holds.
\<close>

subsection \<open>The program's basic types\<close>

type_synonym u8 = "8 word"
type_synonym u16 = "16 word"
type_synonym u32 = "32 word"
type_synonym u64 = "64 word"
type_synonym u128 = "128 word"
type_synonym i32 = "32 word"
type_synonym i128 = "128 word"

type_synonym Balance = u128
type_synonym Gas = u64
type_synonym Timestamp = u64
type_synonym Duration = u64
type_synonym StorageUsage = u64
type_synonym AccountId = string
type_synonym bytes = "u8 list"

subsection \<open>Collections of facts\<close>

named_theorems unat_arith_simps \<open>checked arithmetic as equations between natural numbers\<close>
named_theorems result_simps \<open>when a composed operation returns\<close>

subsection \<open>Results\<close>

text \<open>
  A contract call either returns or panics, and a panic aborts the whole receipt: the host
  discards every state change and every promise of the call.  An operation is therefore a
  function into a sum type, \<open>Inl\<close> holding the panic and \<open>Inr\<close> the returned value together
  with the new state.  Panics that any crate can raise have constructors of their own; the
  messages a crate passes to \<open>env::panic_str\<close>, \<open>require!\<close> and \<open>assert!\<close> are the values of that
  crate's own message type \<open>'e\<close>.
\<close>

datatype 'e panic =
    Msg 'e
  | ArithmeticOverflow
  | DivisionByZero
  | IndexOutOfBounds
  | UnwrapNone
  | NotImplemented
  | UnreachableReached
  | HostError
  | NotOneYocto
  | DepositNotAccepted
  | MethodIsPrivate

definition rbind :: "'e + 'a \<Rightarrow> ('a \<Rightarrow> 'e + 'b) \<Rightarrow> 'e + 'b" where
  "rbind r f = (case r of Inl e \<Rightarrow> Inl e | Inr x \<Rightarrow> f x)"

lemma rbind_Inl [simp]: "rbind (Inl e) f = Inl e"
  by (simp add: rbind_def)

lemma rbind_Inr [simp]: "rbind (Inr x) f = f x"
  by (simp add: rbind_def)

lemma rbind_eq_Inr [result_simps]:
  "rbind r f = Inr y \<longleftrightarrow> (\<exists>x. r = Inr x \<and> f x = Inr y)"
  by (cases r) simp_all

lemma rbind_eq_Inl:
  "rbind r f = Inl e \<longleftrightarrow> r = Inl e \<or> (\<exists>x. r = Inr x \<and> f x = Inl e)"
  by (cases r) simp_all

lemma rbind_assoc: "rbind (rbind r f) g = rbind r (\<lambda>x. rbind (f x) g)"
  by (cases r) simp_all

text \<open>\<open>require!\<close> and \<open>assert!\<close>: continue when the condition holds, panic otherwise.\<close>

definition require :: "bool \<Rightarrow> 'p \<Rightarrow> 'p + unit" where
  "require b p = (if b then Inr () else Inl p)"

lemma require_True [simp]: "require True p = Inr ()"
  by (simp add: require_def)

lemma require_False [simp]: "require False p = Inl p"
  by (simp add: require_def)

lemma require_eq_Inr [result_simps]: "require b p = Inr u \<longleftrightarrow> b"
  by (simp add: require_def)

lemma rbind_require: "rbind (require b p) f = (if b then f () else Inl p)"
  by (simp add: require_def)

text \<open>\<open>unwrap_or_else(|| panic)\<close>: the value of an option, or a panic.\<close>

definition unwrap_or_panic :: "'p \<Rightarrow> 'a option \<Rightarrow> 'p + 'a" where
  "unwrap_or_panic p v = (case v of None \<Rightarrow> Inl p | Some x \<Rightarrow> Inr x)"

lemma unwrap_or_panic_None [simp]: "unwrap_or_panic p None = Inl p"
  by (simp add: unwrap_or_panic_def)

lemma unwrap_or_panic_Some [simp]: "unwrap_or_panic p (Some x) = Inr x"
  by (simp add: unwrap_or_panic_def)

lemma unwrap_or_panic_eq_Inr [result_simps]: "unwrap_or_panic p v = Inr x \<longleftrightarrow> v = Some x"
  by (cases v) simp_all

definition unwrap_or :: "'a \<Rightarrow> 'a option \<Rightarrow> 'a" where
  "unwrap_or d v = (case v of None \<Rightarrow> d | Some x \<Rightarrow> x)"

lemma unwrap_or_simps [simp]: "unwrap_or d None = d" "unwrap_or d (Some x) = x"
  by (simp_all add: unwrap_or_def)

definition returns :: "'e + 'a \<Rightarrow> bool" where
  "returns r \<longleftrightarrow> (\<exists>x. r = Inr x)"

lemma returns_simps [simp]: "returns (Inr x)" "\<not> returns (Inl e)"
  by (simp_all add: returns_def)

lemma returns_rbind: "returns (rbind r f) \<longleftrightarrow> (\<exists>x. r = Inr x \<and> returns (f x))"
  by (cases r) simp_all

lemma returns_require [simp]: "returns (require b p) \<longleftrightarrow> b"
  by (simp add: require_def)

subsection \<open>Checked and plain arithmetic on fixed-width integers\<close>

definition checked_add :: "'w::len word \<Rightarrow> 'w word \<Rightarrow> 'w word option" where
  "checked_add a b = (if unat a + unat b < 2 ^ LENGTH('w) then Some (a + b) else None)"

definition checked_sub :: "'w::len word \<Rightarrow> 'w word \<Rightarrow> 'w word option" where
  "checked_sub a b = (if b \<le> a then Some (a - b) else None)"

definition checked_mul :: "'w::len word \<Rightarrow> 'w word \<Rightarrow> 'w word option" where
  "checked_mul a b = (if unat a * unat b < 2 ^ LENGTH('w) then Some (a * b) else None)"

text \<open>
  The plain operators \<open>+\<close>, \<open>-\<close>, \<open>*\<close> panic on overflow when the crate is built with
  \<open>overflow-checks = true\<close> and wrap around when it is not; the flag is the first argument.
\<close>

definition plain_op :: "bool \<Rightarrow> 'w::len word option \<Rightarrow> 'w word \<Rightarrow> 'e panic + 'w word" where
  "plain_op checks c w =
     (case c of Some x \<Rightarrow> Inr x
      | None \<Rightarrow> if checks then Inl ArithmeticOverflow else Inr w)"

definition add_op :: "bool \<Rightarrow> 'w::len word \<Rightarrow> 'w word \<Rightarrow> 'e panic + 'w word" where
  "add_op checks a b = plain_op checks (checked_add a b) (a + b)"

definition sub_op :: "bool \<Rightarrow> 'w::len word \<Rightarrow> 'w word \<Rightarrow> 'e panic + 'w word" where
  "sub_op checks a b = plain_op checks (checked_sub a b) (a - b)"

definition mul_op :: "bool \<Rightarrow> 'w::len word \<Rightarrow> 'w word \<Rightarrow> 'e panic + 'w word" where
  "mul_op checks a b = plain_op checks (checked_mul a b) (a * b)"

lemma checked_add_eq_Some [unat_arith_simps]:
  fixes a b c :: "'w::len word"
  shows "checked_add a b = Some c \<longleftrightarrow> unat c = unat a + unat b"
proof
  assume "checked_add a b = Some c"
  then show "unat c = unat a + unat b"
    by (auto simp: checked_add_def unat_add_lem split: if_splits)
next
  assume c: "unat c = unat a + unat b"
  have "unat c < 2 ^ LENGTH('w)" by (rule unsigned_less)
  moreover from this c have "unat (a + b) = unat c"
    by (simp add: unat_add_lem [THEN iffD1])
  ultimately show "checked_add a b = Some c"
    using c by (simp add: checked_add_def word_unat_eq_iff)
qed

lemma checked_add_eq_None [unat_arith_simps]:
  fixes a b :: "'w::len word"
  shows "checked_add a b = None \<longleftrightarrow> 2 ^ LENGTH('w) \<le> unat a + unat b"
  by (auto simp: checked_add_def)

lemma checked_sub_eq_Some [unat_arith_simps]:
  fixes a b c :: "'w::len word"
  shows "checked_sub a b = Some c \<longleftrightarrow> unat a = unat c + unat b"
proof
  assume "checked_sub a b = Some c"
  then have "b \<le> a" and c: "c = a - b"
    by (auto simp: checked_sub_def split: if_splits)
  then have "unat c = unat a - unat b" and "unat b \<le> unat a"
    by (simp_all add: unat_sub word_le_nat_alt)
  then show "unat a = unat c + unat b" by simp
next
  assume a: "unat a = unat c + unat b"
  then have le: "b \<le> a" by (simp add: word_le_nat_alt)
  then have "unat (a - b) = unat c" using a by (simp add: unat_sub)
  then have "a - b = c" by (simp add: word_unat_eq_iff)
  with le show "checked_sub a b = Some c" by (simp add: checked_sub_def)
qed

lemma checked_sub_eq_None [unat_arith_simps]:
  "checked_sub a b = None \<longleftrightarrow> unat a < unat b"
  by (auto simp: checked_sub_def word_le_nat_alt)

lemma checked_mul_eq_Some [unat_arith_simps]:
  fixes a b c :: "'w::len word"
  shows "checked_mul a b = Some c \<longleftrightarrow> unat c = unat a * unat b"
proof
  assume "checked_mul a b = Some c"
  then show "unat c = unat a * unat b"
    by (auto simp: checked_mul_def unat_mult_lem split: if_splits)
next
  assume c: "unat c = unat a * unat b"
  have "unat c < 2 ^ LENGTH('w)" by (rule unsigned_less)
  moreover from this c have "unat (a * b) = unat c"
    by (simp add: unat_mult_lem [THEN iffD1])
  ultimately show "checked_mul a b = Some c"
    using c by (simp add: checked_mul_def word_unat_eq_iff)
qed

lemma checked_mul_eq_None [unat_arith_simps]:
  fixes a b :: "'w::len word"
  shows "checked_mul a b = None \<longleftrightarrow> 2 ^ LENGTH('w) \<le> unat a * unat b"
  by (auto simp: checked_mul_def)

text \<open>In range, the plain operators return the exact result under either setting.\<close>

lemma add_op_exact:
  fixes a b :: "'w::len word"
  assumes "unat a + unat b < 2 ^ LENGTH('w)"
  shows "add_op checks a b = Inr (a + b)"
  using assms by (simp add: add_op_def plain_op_def checked_add_def)

lemma sub_op_exact: "unat b \<le> unat a \<Longrightarrow> sub_op checks a b = Inr (a - b)"
  by (simp add: sub_op_def plain_op_def checked_sub_def word_le_nat_alt)

lemma mul_op_exact:
  fixes a b :: "'w::len word"
  assumes "unat a * unat b < 2 ^ LENGTH('w)"
  shows "mul_op checks a b = Inr (a * b)"
  using assms by (simp add: mul_op_def plain_op_def checked_mul_def)

lemma add_op_checked [unat_arith_simps]:
  "add_op True a b = Inr c \<longleftrightarrow> unat c = unat a + unat b"
  by (simp add: add_op_def plain_op_def checked_add_eq_Some [symmetric] split: option.split)

lemma sub_op_checked [unat_arith_simps]:
  "sub_op True a b = Inr c \<longleftrightarrow> unat a = unat c + unat b"
  by (simp add: sub_op_def plain_op_def checked_sub_eq_Some [symmetric] split: option.split)

lemma mul_op_checked [unat_arith_simps]:
  "mul_op True a b = Inr c \<longleftrightarrow> unat c = unat a * unat b"
  by (simp add: mul_op_def plain_op_def checked_mul_eq_Some [symmetric] split: option.split)

lemma op_wraps [simp]:
  "add_op False a b = Inr (a + b)"
  "sub_op False a b = Inr (a - b)"
  "mul_op False a b = Inr (a * b)"
  by (auto simp: add_op_def sub_op_def mul_op_def plain_op_def
      checked_add_def checked_sub_def checked_mul_def)

lemma unat_sub_exact: "unat b \<le> unat a \<Longrightarrow> unat (a - b) = unat a - unat b"
  by (simp add: unat_sub word_le_nat_alt)

lemma unat_add_exact:
  fixes a b :: "'w::len word"
  assumes "unat a + unat b < 2 ^ LENGTH('w)"
  shows "unat (a + b) = unat a + unat b"
  using assms by (simp add: unat_add_lem)

lemma unat_add_u128:
  fixes a b :: u128
  assumes "unat a + unat b < 2 ^ 128"
  shows "unat (a + b) = unat a + unat b"
  using assms by (intro unat_add_exact) simp

lemma u128_less_pow: "unat (a :: u128) < 2 ^ 128"
  using unsigned_less [of a] by simp

lemmas u128_less [simp] = u128_less_pow [simplified]

lemma unat_ucast_u64_u128 [simp]: "unat (ucast (x :: u64) :: u128) = unat x"
proof -
  have "unat x < 2 ^ 64" using unsigned_less [of x] by simp
  then have "unat x < 2 ^ 128" by simp
  then show ?thesis by (simp add: unsigned_ucast_eq take_bit_nat_eq_self)
qed

lemma unat_min: "unat (min a b) = min (unat a) (unat b)"
  by (simp add: min_def word_le_nat_alt)

subsection \<open>Sums over finite maps of machine words\<close>

definition word_sum :: "('k \<rightharpoonup> 'w::len word) \<Rightarrow> nat" where
  "word_sum m = (\<Sum>k \<in> dom m. unat (the (m k)))"

lemma word_sum_empty [simp]: "word_sum Map.empty = 0"
  by (simp add: word_sum_def)

lemma word_sum_split:
  assumes "finite (dom m)" and "m k = Some v"
  shows "word_sum m = unat v + word_sum (m(k := None))"
proof -
  have "word_sum m = unat (the (m k)) + (\<Sum>x \<in> dom m - {k}. unat (the (m x)))"
    unfolding word_sum_def using assms by (intro sum.remove) auto
  also have "(\<Sum>x \<in> dom m - {k}. unat (the (m x))) = word_sum (m(k := None))"
    unfolding word_sum_def by (intro sum.cong) auto
  finally show ?thesis using assms by simp
qed

lemma word_sum_update:
  assumes "finite (dom m)"
  shows "word_sum (m(k \<mapsto> v)) = unat v + word_sum (m(k := None))"
proof -
  have "finite (dom (m(k \<mapsto> v)))" using assms by simp
  then have "word_sum (m(k \<mapsto> v)) = unat v + word_sum ((m(k \<mapsto> v))(k := None))"
    by (rule word_sum_split) simp
  then show ?thesis by simp
qed

lemma word_sum_insert_fresh:
  assumes "finite (dom m)" and "m k = None"
  shows "word_sum (m(k \<mapsto> v)) = word_sum m + unat v"
proof -
  have "m(k := None) = m" using assms(2) by auto
  then show ?thesis using word_sum_update [OF assms(1), of k v] by simp
qed

lemma word_sum_change:
  assumes "finite (dom m)" and "m k = Some u"
  shows "word_sum (m(k \<mapsto> v)) + unat u = word_sum m + unat v"
  using word_sum_split [OF assms] word_sum_update [OF assms(1), of k v] by simp

lemma word_sum_delete:
  assumes "finite (dom m)" and "m k = Some u"
  shows "word_sum (m(k := None)) + unat u = word_sum m"
  using word_sum_split [OF assms] by simp

lemma word_sum_member_le:
  assumes "finite (dom m)" and "m k = Some v"
  shows "unat v \<le> word_sum m"
  using word_sum_split [OF assms] by simp

lemma word_sum_two_le:
  assumes "finite (dom m)" and "m k = Some v" and "m l = Some w" and "k \<noteq> l"
  shows "unat v + unat w \<le> word_sum m"
proof -
  have "unat w \<le> word_sum (m(k := None))"
    using assms by (intro word_sum_member_le) auto
  with word_sum_split [OF assms(1,2)] show ?thesis by simp
qed

subsection \<open>Transition systems\<close>

text \<open>
  A contract on the chain is a transition system: other receipts run between a call and its
  callback.  The states reachable from an initial state, and the principle that an inductive
  property holds in all of them, are shared by every component that has callbacks.
\<close>

inductive reachable :: "('s \<Rightarrow> bool) \<Rightarrow> ('s \<Rightarrow> 's \<Rightarrow> bool) \<Rightarrow> 's \<Rightarrow> bool"
  for init :: "'s \<Rightarrow> bool" and step :: "'s \<Rightarrow> 's \<Rightarrow> bool" where
  reachable_init: "init s \<Longrightarrow> reachable init step s"
| reachable_step: "reachable init step s \<Longrightarrow> step s t \<Longrightarrow> reachable init step t"

locale invariant_system =
  fixes init :: "'s \<Rightarrow> bool" and step :: "'s \<Rightarrow> 's \<Rightarrow> bool" and inv :: "'s \<Rightarrow> bool"
  assumes init_inv: "init s \<Longrightarrow> inv s"
    and step_inv: "inv s \<Longrightarrow> step s t \<Longrightarrow> inv t"
begin

lemma reachable_inv: "reachable init step s \<Longrightarrow> inv s"
  by (induction rule: reachable.induct) (auto intro: init_inv step_inv)

end

end
