(* ===== verification/Near.thy ===== *)
theory Near
  imports Prelude
begin

section \<open>The host a contract runs on\<close>

text \<open>
  The values a contract reads through \<open>near_sdk::env\<close> are inputs of a call, collected in the
  record \<open>env\<close>; nothing is assumed about them.  What a call asks the host to do, log lines and
  promises (receipts for other accounts, possibly with a callback), is collected in the record
  \<open>effects\<close>, in the order in which the code asks for it.  The type of the cross-contract calls
  \<open>'c\<close> is the component's own: its constructors are the methods of the \<open>#[ext_contract]\<close> traits
  the component calls, with their arguments.  The type of the log entries \<open>'l\<close> is the component's
  own too.
\<close>

datatype PromiseResult = NotReady | Successful bytes | Failed

record env =
  current_account_id :: AccountId
  predecessor_account_id :: AccountId
  attached_deposit :: Balance
  prepaid_gas :: Gas
  used_gas :: Gas
  block_timestamp :: Timestamp
  storage_byte_cost :: Balance
  promise_results :: "PromiseResult list"
  overflow_checks :: bool  \<comment> \<open>the \<open>overflow-checks\<close> setting of the build\<close>

text \<open>
  \<open>env::promise_result(i)\<close>: the result of the \<open>i\<close>-th promise this call is a callback of; the host
  ends the call when there is no such promise.
\<close>

definition env_promise_result :: "env \<Rightarrow> nat \<Rightarrow> 'e panic + PromiseResult" where
  "env_promise_result e i =
     (if i < length (promise_results e) then Inr (promise_results e ! i) else Inl HostError)"

datatype 'c Promise =
    Transfer AccountId Balance
  | DeployContract AccountId bytes
  | FunctionCall AccountId 'c Balance Gas  \<comment> \<open>callee, call, attached deposit, static gas\<close>
  | Then "'c Promise" "'c Promise"

record ('l, 'c) effects =
  logs :: "'l list"
  promises :: "'c Promise list"

definition no_effects :: "('l, 'c) effects" where
  "no_effects = \<lparr>logs = [], promises = []\<rparr>"

definition log :: "'l \<Rightarrow> ('l, 'c) effects \<Rightarrow> ('l, 'c) effects" where
  "log l h = h\<lparr>logs := logs h @ [l]\<rparr>"

definition schedule :: "'c Promise \<Rightarrow> ('l, 'c) effects \<Rightarrow> ('l, 'c) effects" where
  "schedule p h = h\<lparr>promises := promises h @ [p]\<rparr>"

lemma effects_log [simp]:
  "logs (log l h) = logs h @ [l]" "promises (log l h) = promises h"
  by (simp_all add: log_def)

lemma effects_schedule [simp]:
  "logs (schedule p h) = logs h" "promises (schedule p h) = promises h @ [p]"
  by (simp_all add: schedule_def)

lemma effects_none [simp]:
  "logs no_effects = []" "promises no_effects = []"
  by (simp_all add: no_effects_def)

text \<open>The native tokens a list of promises pays to an account without calling it.\<close>

fun paid_to :: "AccountId \<Rightarrow> 'c Promise \<Rightarrow> nat" where
  "paid_to a (Transfer b x) = (if a = b then unat x else 0)"
| "paid_to a (DeployContract b code) = 0"
| "paid_to a (FunctionCall b c x g) = 0"
| "paid_to a (Then p q) = paid_to a p + paid_to a q"

definition total_paid_to :: "AccountId \<Rightarrow> ('l, 'c) effects \<Rightarrow> nat" where
  "total_paid_to a h = sum_list (map (paid_to a) (promises h))"

lemma total_paid_to_simps [simp]:
  "total_paid_to a no_effects = 0"
  "total_paid_to a (log l h) = total_paid_to a h"
  "total_paid_to a (schedule p h) = total_paid_to a h + paid_to a p"
  by (simp_all add: total_paid_to_def)

text \<open>
  The guards that the source states by calling \<open>assert_one_yocto\<close> or by an attribute of
  \<open>#[near_bindgen]\<close>: exactly one yoctoNEAR attached, the caller is the contract itself
  (\<open>#[private]\<close>), and, for a method that changes the state and is not \<open>#[payable]\<close>, no deposit.
\<close>

definition assert_one_yocto :: "env \<Rightarrow> 'e panic + unit" where
  "assert_one_yocto e = require (attached_deposit e = 1) NotOneYocto"

definition assert_private :: "env \<Rightarrow> 'e panic + unit" where
  "assert_private e = require (predecessor_account_id e = current_account_id e) MethodIsPrivate"

definition assert_not_payable :: "env \<Rightarrow> 'e panic + unit" where
  "assert_not_payable e = require (attached_deposit e = 0) DepositNotAccepted"

lemma guards_eq_Inr [result_simps]:
  "assert_one_yocto e = Inr u \<longleftrightarrow> attached_deposit e = 1"
  "assert_private e = Inr u \<longleftrightarrow> predecessor_account_id e = current_account_id e"
  "assert_not_payable e = Inr u \<longleftrightarrow> attached_deposit e = 0"
  by (simp_all add: assert_one_yocto_def assert_private_def assert_not_payable_def
      require_eq_Inr)

end
