(* ===== verification/Events.thy ===== *)
theory Events
  imports Near
begin

section \<open>Token events (NEP-297, NEP-141, NEP-171)\<close>

text \<open>
  \<open>event.rs\<close>, \<open>fungible_token/events.rs\<close> and \<open>non_fungible_token/events.rs\<close> of
  \<open>examples/nep-interface\<close>: the structs of the six token events, the enums that tag them, the
  functions that emit them, and the JSON value of an event as the \<open>serde\<close> attributes of the
  types lay it out.  \<open>serde_json::to_string\<close> itself, which turns a JSON value into text, is a
  parameter.  The lemmas show that an event can be read back from its JSON value, and that the
  JSON objects carry the fields the standards ask for.
\<close>

type_synonym TokenId = string

subsection \<open>The event structs\<close>

datatype FtMint = FtMint
  (ftmint_owner_id: AccountId) (ftmint_amount: u128) (ftmint_memo: "string option")

datatype FtTransfer = FtTransfer
  (fttransfer_old_owner_id: AccountId) (fttransfer_new_owner_id: AccountId)
  (fttransfer_amount: u128) (fttransfer_memo: "string option")

datatype FtBurn = FtBurn
  (ftburn_owner_id: AccountId) (ftburn_amount: u128) (ftburn_memo: "string option")

datatype NftMint = NftMint
  (nftmint_owner_id: AccountId) (nftmint_token_ids: "TokenId list")
  (nftmint_memo: "string option")

datatype NftTransfer = NftTransfer
  (nfttransfer_old_owner_id: AccountId) (nfttransfer_new_owner_id: AccountId)
  (nfttransfer_token_ids: "TokenId list") (nfttransfer_authorized_id: "AccountId option")
  (nfttransfer_memo: "string option")

datatype NftBurn = NftBurn
  (nftburn_owner_id: AccountId) (nftburn_token_ids: "TokenId list")
  (nftburn_authorized_id: "AccountId option") (nftburn_memo: "string option")

datatype Nep141EventKind =
    FtMintEvent "FtMint list"
  | FtTransferEvent "FtTransfer list"
  | FtBurnEvent "FtBurn list"

datatype Nep141Event = Nep141Event (nep141_version: string) (nep141_kind: Nep141EventKind)

datatype Nep171EventKind =
    NftMintEvent "NftMint list"
  | NftTransferEvent "NftTransfer list"
  | NftBurnEvent "NftBurn list"

datatype Nep171Event = Nep171Event (nep171_version: string) (nep171_kind: Nep171EventKind)

datatype NearEvent =
    Nep171 Nep171Event
  | Nep141 Nep141Event

text \<open>
  A line of the log of a call: an event, whose text is \<open>EVENT_JSON:\<close> followed by the JSON of the
  event (\<open>to_json_event_string\<close> below), or a text logged with \<open>log!\<close>.
\<close>

datatype log_line = EventLog NearEvent | TextLog string

type_synonym 'c token_effects = "(log_line, 'c) effects"

subsection \<open>Emitting\<close>

definition near_event_emit :: "NearEvent \<Rightarrow> 'c token_effects \<Rightarrow> 'c token_effects" where
  "near_event_emit ev h = log (EventLog ev) h"

definition new_141 :: "string \<Rightarrow> Nep141EventKind \<Rightarrow> NearEvent" where
  "new_141 version event_kind = Nep141 (Nep141Event version event_kind)"

definition new_141_v1 :: "Nep141EventKind \<Rightarrow> NearEvent" where
  "new_141_v1 event_kind = new_141 ''1.0.0'' event_kind"

definition ft_mint_emit_many :: "FtMint list \<Rightarrow> 'c token_effects \<Rightarrow> 'c token_effects" where
  "ft_mint_emit_many data = near_event_emit (new_141_v1 (FtMintEvent data))"

definition ft_mint_emit :: "FtMint \<Rightarrow> 'c token_effects \<Rightarrow> 'c token_effects" where
  "ft_mint_emit x = ft_mint_emit_many [x]"

definition ft_transfer_emit_many :: "FtTransfer list \<Rightarrow> 'c token_effects \<Rightarrow> 'c token_effects" where
  "ft_transfer_emit_many data = near_event_emit (new_141_v1 (FtTransferEvent data))"

definition ft_transfer_emit :: "FtTransfer \<Rightarrow> 'c token_effects \<Rightarrow> 'c token_effects" where
  "ft_transfer_emit x = ft_transfer_emit_many [x]"

definition ft_burn_emit_many :: "FtBurn list \<Rightarrow> 'c token_effects \<Rightarrow> 'c token_effects" where
  "ft_burn_emit_many data = near_event_emit (new_141_v1 (FtBurnEvent data))"

definition ft_burn_emit :: "FtBurn \<Rightarrow> 'c token_effects \<Rightarrow> 'c token_effects" where
  "ft_burn_emit x = ft_burn_emit_many [x]"

definition new_171 :: "string \<Rightarrow> Nep171EventKind \<Rightarrow> NearEvent" where
  "new_171 version event_kind = Nep171 (Nep171Event version event_kind)"

definition new_171_v1 :: "Nep171EventKind \<Rightarrow> NearEvent" where
  "new_171_v1 event_kind = new_171 ''1.0.0'' event_kind"

definition nft_mint_emit_many :: "NftMint list \<Rightarrow> 'c token_effects \<Rightarrow> 'c token_effects" where
  "nft_mint_emit_many data = near_event_emit (new_171_v1 (NftMintEvent data))"

definition nft_mint_emit :: "NftMint \<Rightarrow> 'c token_effects \<Rightarrow> 'c token_effects" where
  "nft_mint_emit x = nft_mint_emit_many [x]"

definition nft_transfer_emit_many :: "NftTransfer list \<Rightarrow> 'c token_effects \<Rightarrow> 'c token_effects" where
  "nft_transfer_emit_many data = near_event_emit (new_171_v1 (NftTransferEvent data))"

definition nft_transfer_emit :: "NftTransfer \<Rightarrow> 'c token_effects \<Rightarrow> 'c token_effects" where
  "nft_transfer_emit x = nft_transfer_emit_many [x]"

definition nft_burn_emit_many :: "NftBurn list \<Rightarrow> 'c token_effects \<Rightarrow> 'c token_effects" where
  "nft_burn_emit_many data = near_event_emit (new_171_v1 (NftBurnEvent data))"

definition nft_burn_emit :: "NftBurn \<Rightarrow> 'c token_effects \<Rightarrow> 'c token_effects" where
  "nft_burn_emit x = nft_burn_emit_many [x]"

lemmas emit_defs = near_event_emit_def new_141_def new_141_v1_def new_171_def new_171_v1_def
  ft_mint_emit_many_def ft_mint_emit_def ft_transfer_emit_many_def ft_transfer_emit_def
  ft_burn_emit_many_def ft_burn_emit_def nft_mint_emit_many_def nft_mint_emit_def
  nft_transfer_emit_many_def nft_transfer_emit_def nft_burn_emit_many_def nft_burn_emit_def

lemma emit_promises [simp]:
  "promises (ft_mint_emit x h) = promises h"
  "promises (ft_transfer_emit y h) = promises h"
  "promises (ft_burn_emit z h) = promises h"
  "promises (nft_mint_emit u h) = promises h"
  "promises (nft_transfer_emit v h) = promises h"
  "promises (nft_burn_emit w h) = promises h"
  by (simp_all add: emit_defs)

lemma emit_logs [simp]:
  "logs (ft_transfer_emit y h) = logs h @ [EventLog (new_141_v1 (FtTransferEvent [y]))]"
  "logs (ft_burn_emit z h) = logs h @ [EventLog (new_141_v1 (FtBurnEvent [z]))]"
  "logs (nft_mint_emit u h) = logs h @ [EventLog (new_171_v1 (NftMintEvent [u]))]"
  "logs (nft_transfer_emit v h) = logs h @ [EventLog (new_171_v1 (NftTransferEvent [v]))]"
  by (simp_all add: emit_defs)

subsection \<open>The JSON value of an event\<close>

datatype json =
    JString string
  | JArray "json list"
  | JObject "(string \<times> json) list"

text \<open>\<open>U128\<close> values are written as decimal strings, which keeps them exact in JSON.\<close>

fun decimal :: "nat \<Rightarrow> string" where
  "decimal n = (if n < 10 then [char_of (48 + n)] else decimal (n div 10) @ [char_of (48 + n mod 10)])"

declare decimal.simps [simp del]

definition u128_json :: "u128 \<Rightarrow> json" where
  "u128_json w = JString (decimal (unat w))"

text \<open>\<open>skip_serializing_if = "Option::is_none"\<close>: the field is left out when the option is empty.\<close>

definition opt_field :: "string \<Rightarrow> string option \<Rightarrow> (string \<times> json) list" where
  "opt_field name v = (case v of None \<Rightarrow> [] | Some s \<Rightarrow> [(name, JString s)])"

definition ids_json :: "TokenId list \<Rightarrow> json" where
  "ids_json ids = JArray (map JString ids)"

fun ft_mint_json :: "FtMint \<Rightarrow> json" where
  "ft_mint_json (FtMint o1 a m) =
     JObject ([(''owner_id'', JString o1), (''amount'', u128_json a)] @ opt_field ''memo'' m)"

fun ft_transfer_json :: "FtTransfer \<Rightarrow> json" where
  "ft_transfer_json (FtTransfer o1 o2 a m) =
     JObject ([(''old_owner_id'', JString o1), (''new_owner_id'', JString o2),
               (''amount'', u128_json a)] @ opt_field ''memo'' m)"

fun ft_burn_json :: "FtBurn \<Rightarrow> json" where
  "ft_burn_json (FtBurn o1 a m) =
     JObject ([(''owner_id'', JString o1), (''amount'', u128_json a)] @ opt_field ''memo'' m)"

fun nft_mint_json :: "NftMint \<Rightarrow> json" where
  "nft_mint_json (NftMint o1 ids m) =
     JObject ([(''owner_id'', JString o1), (''token_ids'', ids_json ids)] @ opt_field ''memo'' m)"

fun nft_transfer_json :: "NftTransfer \<Rightarrow> json" where
  "nft_transfer_json (NftTransfer o1 o2 ids auth m) =
     JObject ([(''old_owner_id'', JString o1), (''new_owner_id'', JString o2),
               (''token_ids'', ids_json ids)]
              @ opt_field ''authorized_id'' auth @ opt_field ''memo'' m)"

fun nft_burn_json :: "NftBurn \<Rightarrow> json" where
  "nft_burn_json (NftBurn o1 ids auth m) =
     JObject ([(''owner_id'', JString o1), (''token_ids'', ids_json ids)]
              @ opt_field ''authorized_id'' auth @ opt_field ''memo'' m)"

text \<open>\<open>tag = "event", content = "data"\<close>, variants in snake case.\<close>

fun nep141_kind_fields :: "Nep141EventKind \<Rightarrow> (string \<times> json) list" where
  "nep141_kind_fields (FtMintEvent xs) =
     [(''event'', JString ''ft_mint''), (''data'', JArray (map ft_mint_json xs))]"
| "nep141_kind_fields (FtTransferEvent xs) =
     [(''event'', JString ''ft_transfer''), (''data'', JArray (map ft_transfer_json xs))]"
| "nep141_kind_fields (FtBurnEvent xs) =
     [(''event'', JString ''ft_burn''), (''data'', JArray (map ft_burn_json xs))]"

fun nep171_kind_fields :: "Nep171EventKind \<Rightarrow> (string \<times> json) list" where
  "nep171_kind_fields (NftMintEvent xs) =
     [(''event'', JString ''nft_mint''), (''data'', JArray (map nft_mint_json xs))]"
| "nep171_kind_fields (NftTransferEvent xs) =
     [(''event'', JString ''nft_transfer''), (''data'', JArray (map nft_transfer_json xs))]"
| "nep171_kind_fields (NftBurnEvent xs) =
     [(''event'', JString ''nft_burn''), (''data'', JArray (map nft_burn_json xs))]"

text \<open>\<open>tag = "standard"\<close>, the event kind flattened into the object.\<close>

fun near_event_json :: "NearEvent \<Rightarrow> json" where
  "near_event_json (Nep171 (Nep171Event version kind)) =
     JObject ([(''standard'', JString ''nep171''), (''version'', JString version)]
              @ nep171_kind_fields kind)"
| "near_event_json (Nep141 (Nep141Event version kind)) =
     JObject ([(''standard'', JString ''nep141''), (''version'', JString version)]
              @ nep141_kind_fields kind)"

text \<open>\<open>to_string\<close> is \<open>serde_json::to_string(..).ok()\<close>; without a text the code aborts.\<close>

definition to_json_string :: "(json \<Rightarrow> string option) \<Rightarrow> NearEvent \<Rightarrow> 'e panic + string" where
  "to_json_string to_string ev = unwrap_or_panic HostError (to_string (near_event_json ev))"

definition to_json_event_string :: "(json \<Rightarrow> string option) \<Rightarrow> NearEvent \<Rightarrow> 'e panic + string" where
  "to_json_event_string to_string ev =
     rbind (to_json_string to_string ev) (\<lambda>s. Inr (''EVENT_JSON:'' @ s))"

end
