(* ===== verification/Collections.thy ===== *)
theory Collections
  imports Prelude "HOL-Library.DAList" "HOL-Library.Dlist"
begin

section \<open>The persistent collections of near-sdk, as interfaces\<close>

text \<open>
  \<open>near_sdk::collections\<close> is not part of the repository.  Every definition that stores data in
  one of its collections takes the collection's operations as an argument, a record of
  functions; what the code relies on is stated as a locale, whose assumptions are the documented
  behaviour of the collection.  \<open>LookupMap\<close> and \<open>UnorderedMap\<close> are used through the same
  operations, \<open>TreeMap\<close> adds iteration and a length.  The locales are interpreted at the end of
  the theory by implementations that evaluate, which also shows that the laws can hold.
\<close>

subsection \<open>LookupMap and UnorderedMap\<close>

record ('m, 'k, 'v) map_ops =
  lm_new :: "bytes \<Rightarrow> 'm"
  lm_get :: "'m \<Rightarrow> 'k \<Rightarrow> 'v option"
  lm_contains_key :: "'m \<Rightarrow> 'k \<Rightarrow> bool"
  lm_insert :: "'m \<Rightarrow> 'k \<Rightarrow> 'v \<Rightarrow> 'm \<times> 'v option"
  lm_remove :: "'m \<Rightarrow> 'k \<Rightarrow> 'm \<times> 'v option"

locale lookup_map =
  fixes L :: "('m, 'k, 'v, 'z) map_ops_scheme"
  assumes get_new: "lm_get L (lm_new L p) = Map.empty"
    and contains_key: "lm_contains_key L m k \<longleftrightarrow> lm_get L m k \<noteq> None"
    and get_insert: "lm_get L (fst (lm_insert L m k v)) = (lm_get L m)(k \<mapsto> v)"
    and insert_old: "snd (lm_insert L m k v) = lm_get L m k"
    and get_remove: "lm_get L (fst (lm_remove L m k)) = (lm_get L m)(k := None)"
    and remove_old: "snd (lm_remove L m k) = lm_get L m k"
begin

lemmas map_laws = get_new contains_key get_insert insert_old get_remove remove_old

text \<open>Removing a key that was just inserted restores what the map held, unless it was there.\<close>

lemma insert_remove:
  "lm_get L m k = None \<Longrightarrow> lm_get L (fst (lm_remove L (fst (lm_insert L m k v)) k)) = lm_get L m"
  by (auto simp: map_laws)

end

subsection \<open>TreeMap\<close>

record ('m, 'k, 'v) tree_map_ops = "('m, 'k, 'v) map_ops" +
  tm_iter :: "'m \<Rightarrow> ('k \<times> 'v) list"
  tm_len :: "'m \<Rightarrow> u64"

locale tree_map = lookup_map T
  for T :: "('m, 'k, 'v, 'z) tree_map_ops_scheme" +
  assumes iter_map_of: "map_of (tm_iter T m) = lm_get T m"
    and iter_distinct: "distinct (map fst (tm_iter T m))"
    and len_iter: "tm_len T m = of_nat (length (tm_iter T m))"
begin

lemma iter_keys: "set (map fst (tm_iter T m)) = dom (lm_get T m)"
  by (metis dom_map_of_conv_image_fst iter_map_of set_map)

lemma iter_mem: "(k, v) \<in> set (tm_iter T m) \<longleftrightarrow> lm_get T m k = Some v"
  by (metis iter_distinct iter_map_of map_of_eq_Some_iff)

lemma finite_dom: "finite (dom (lm_get T m))"
  by (metis List.finite_set iter_keys)

lemma length_iter: "length (tm_iter T m) = card (dom (lm_get T m))"
  by (metis distinct_card iter_distinct iter_keys length_map)

end

subsection \<open>UnorderedSet\<close>

record ('s, 'x) set_ops =
  us_new :: "bytes \<Rightarrow> 's"
  us_insert :: "'s \<Rightarrow> 'x \<Rightarrow> 's \<times> bool"
  us_remove :: "'s \<Rightarrow> 'x \<Rightarrow> 's \<times> bool"
  us_is_empty :: "'s \<Rightarrow> bool"
  us_len :: "'s \<Rightarrow> u64"
  us_iter :: "'s \<Rightarrow> 'x list"

locale unordered_set =
  fixes S :: "('s, 'x, 'z) set_ops_scheme"
  assumes us_iter_new: "us_iter S (us_new S p) = []"
    and us_iter_distinct: "distinct (us_iter S s)"
    and us_iter_insert: "set (us_iter S (fst (us_insert S s x))) = insert x (set (us_iter S s))"
    and us_insert_new: "snd (us_insert S s x) \<longleftrightarrow> x \<notin> set (us_iter S s)"
    and us_iter_remove: "set (us_iter S (fst (us_remove S s x))) = set (us_iter S s) - {x}"
    and us_remove_old: "snd (us_remove S s x) \<longleftrightarrow> x \<in> set (us_iter S s)"
    and us_is_empty_iff: "us_is_empty S s \<longleftrightarrow> us_iter S s = []"
    and us_len_iter: "us_len S s = of_nat (length (us_iter S s))"
begin

lemmas set_laws = us_iter_new us_iter_insert us_insert_new us_iter_remove us_remove_old
  us_is_empty_iff us_len_iter

lemma length_us_iter: "length (us_iter S s) = card (set (us_iter S s))"
  using us_iter_distinct by (simp add: distinct_card)

end

subsection \<open>Implementations that evaluate\<close>

text \<open>A map whose content is a function; it has no iteration.\<close>

definition fun_map :: "('k \<rightharpoonup> 'v, 'k, 'v) map_ops" where
  "fun_map = \<lparr>
     lm_new = (\<lambda>p. Map.empty),
     lm_get = (\<lambda>m. m),
     lm_contains_key = (\<lambda>m k. m k \<noteq> None),
     lm_insert = (\<lambda>m k v. (m(k \<mapsto> v), m k)),
     lm_remove = (\<lambda>m k. (m(k := None), m k))\<rparr>"

interpretation fm: lookup_map "fun_map :: ('k \<rightharpoonup> 'v, 'k, 'v) map_ops"
  by unfold_locales (auto simp: fun_map_def)

text \<open>A map kept as an association list with distinct keys.\<close>

definition list_map :: "(('k, 'v) alist, 'k, 'v) tree_map_ops" where
  "list_map = \<lparr>
     lm_new = (\<lambda>p. DAList.empty),
     lm_get = DAList.lookup,
     lm_contains_key = (\<lambda>m k. DAList.lookup m k \<noteq> None),
     lm_insert = (\<lambda>m k v. (DAList.update k v m, DAList.lookup m k)),
     lm_remove = (\<lambda>m k. (DAList.delete k m, DAList.lookup m k)),
     tm_iter = DAList.impl_of,
     tm_len = (\<lambda>m. of_nat (length (DAList.impl_of m)))\<rparr>"

interpretation am: tree_map "list_map :: (('k, 'v) alist, 'k, 'v) tree_map_ops"
proof unfold_locales
  fix m :: "('k, 'v) alist"
  show "map_of (tm_iter list_map m) = lm_get list_map m"
    by (simp add: list_map_def DAList.lookup.rep_eq)
qed (auto simp: list_map_def fun_eq_iff DAList.lookup_update)

text \<open>A set kept as a list without duplicates.\<close>

definition list_set :: "('x dlist, 'x) set_ops" where
  "list_set = \<lparr>
     us_new = (\<lambda>p. Dlist.empty),
     us_insert = (\<lambda>s x. (Dlist.insert x s, \<not> Dlist.member s x)),
     us_remove = (\<lambda>s x. (Dlist.remove x s, Dlist.member s x)),
     us_is_empty = Dlist.null,
     us_len = (\<lambda>s. of_nat (Dlist.length s)),
     us_iter = list_of_dlist\<rparr>"

interpretation ds: unordered_set "list_set :: ('x dlist, 'x) set_ops"
  by unfold_locales
    (auto simp: list_set_def Dlist.member_def Dlist.null_def Dlist.length_def)

end
