(* ===== verification/FungibleToken.thy ===== *)
theory FungibleToken
  imports Events Collections
begin

section \<open>The fungible token (NEP-141)\<close>

text \<open>
  \<open>examples/nep-interface/src/fungible_token/core_impl.rs\<close>: the state of the token, its internal
  operations (deposit, withdraw, transfer, registration), the public transfers and the callback
  that settles a \<open>ft_transfer_call\<close>.  The balances live in a \<open>LookupMap\<close> whose operations \<open>L\<close> are
  a parameter.  The lemmas of the locale \<open>balance_store\<close> say exactly when each operation returns and
  with which state; the invariant \<open>ft_supply_ok\<close>, that the recorded supply is the sum of the
  balances, is what makes the overflow branches of the code unreachable.
\<close>

subsection \<open>State, calls and messages\<close>

record 'm FungibleToken =
  accounts :: 'm
  total_supply :: Balance
  account_storage_usage :: StorageUsage

text \<open>The methods of \<open>FungibleTokenReceiver\<close> and \<open>FungibleTokenResolver\<close>.\<close>

datatype FtCall =
    FtOnTransfer AccountId u128 string
  | FtResolveTransfer AccountId AccountId u128

datatype FtError =
    NotRegistered AccountId
  | BalanceOverflow
  | TotalSupplyOverflow
  | NotEnoughBalance
  | SameAccount
  | AmountNotPositive
  | AlreadyRegistered
  | MoreGasRequired
  | PrepaidGasOverflow
  | ReceiverNotEnoughBalance
  | SenderBalanceOverflow
  | PositiveBalanceWithoutForce
  | DepositTooSmall
  | AmountExceedsAvailable

fun ft_error_message :: "FtError \<Rightarrow> string" where
  "ft_error_message (NotRegistered a) = ''The account '' @ a @ '' is not registered''"
| "ft_error_message BalanceOverflow = ''Balance overflow''"
| "ft_error_message TotalSupplyOverflow = ''Total supply overflow''"
| "ft_error_message NotEnoughBalance = ''The account doesn't have enough balance''"
| "ft_error_message SameAccount = ''Sender and receiver should be different''"
| "ft_error_message AmountNotPositive = ''The amount should be a positive number''"
| "ft_error_message AlreadyRegistered = ''The account is already registered''"
| "ft_error_message MoreGasRequired = ''More gas is required''"
| "ft_error_message PrepaidGasOverflow = ''Prepaid gas overflow''"
| "ft_error_message ReceiverNotEnoughBalance = ''The receiver account doesn't have enough balance''"
| "ft_error_message SenderBalanceOverflow = ''Sender balance overflow''"
| "ft_error_message PositiveBalanceWithoutForce =
     ''Can't unregister the account with the positive balance without force''"
| "ft_error_message DepositTooSmall =
     ''The attached deposit is less than the minimum storage balance''"
| "ft_error_message AmountExceedsAvailable =
     ''The amount is greater than the available storage balance''"

type_synonym ft_effects = "FtCall token_effects"
type_synonym 'a ft_result = "FtError panic + 'a"
type_synonym 'm balances_ops = "('m, AccountId, Balance) map_ops"

definition GAS_FOR_RESOLVE_TRANSFER :: Gas where
  "GAS_FOR_RESOLVE_TRANSFER = 5000000000000"

definition GAS_FOR_FT_TRANSFER_CALL :: Gas where
  "GAS_FOR_FT_TRANSFER_CALL = 25000000000000 + GAS_FOR_RESOLVE_TRANSFER"

subsection \<open>Construction\<close>

text \<open>
  \<open>env::storage_usage()\<close> is the host's accounting of the contract's storage.  While the token is
  built only the accounts change, so the host's answer is a function \<open>usage\<close> of them.
\<close>

definition ft_measure_account_storage_usage ::
    "'m balances_ops \<Rightarrow> ('m \<Rightarrow> StorageUsage) \<Rightarrow> env \<Rightarrow> 'm FungibleToken \<Rightarrow> 'm FungibleToken ft_result" where
  "ft_measure_account_storage_usage L usage e t =
     (let initial_storage_usage = usage (accounts t);
          tmp_account_id = replicate 64 (CHR ''a'');
          t1 = t\<lparr>accounts := fst (lm_insert L (accounts t) tmp_account_id 0)\<rparr>
      in rbind (sub_op (overflow_checks e) (usage (accounts t1)) initial_storage_usage) (\<lambda>u.
         let t2 = t1\<lparr>account_storage_usage := u\<rparr>
         in Inr (t2\<lparr>accounts := fst (lm_remove L (accounts t2) tmp_account_id)\<rparr>)))"

definition ft_new ::
    "'m balances_ops \<Rightarrow> ('m \<Rightarrow> StorageUsage) \<Rightarrow> env \<Rightarrow> bytes \<Rightarrow> 'm FungibleToken ft_result" where
  "ft_new L usage e prefix =
     ft_measure_account_storage_usage L usage e
       \<lparr>accounts = lm_new L prefix, total_supply = 0, account_storage_usage = 0\<rparr>"

subsection \<open>Internal operations\<close>

definition ft_internal_unwrap_balance_of ::
    "'m balances_ops \<Rightarrow> 'm FungibleToken \<Rightarrow> AccountId \<Rightarrow> Balance ft_result" where
  "ft_internal_unwrap_balance_of L t account_id =
     (case lm_get L (accounts t) account_id of
        Some balance \<Rightarrow> Inr balance
      | None \<Rightarrow> Inl (Msg (NotRegistered account_id)))"

definition ft_internal_deposit ::
    "'m balances_ops \<Rightarrow> 'm FungibleToken \<Rightarrow> AccountId \<Rightarrow> Balance \<Rightarrow> 'm FungibleToken ft_result" where
  "ft_internal_deposit L t account_id amount =
     rbind (ft_internal_unwrap_balance_of L t account_id) (\<lambda>balance.
       case checked_add balance amount of
         Some new_balance \<Rightarrow>
           (let t1 = t\<lparr>accounts := fst (lm_insert L (accounts t) account_id new_balance)\<rparr>
            in rbind (unwrap_or_panic (Msg TotalSupplyOverflow)
                        (checked_add (total_supply t1) amount)) (\<lambda>s.
               Inr (t1\<lparr>total_supply := s\<rparr>)))
       | None \<Rightarrow> Inl (Msg BalanceOverflow))"

definition ft_internal_withdraw ::
    "'m balances_ops \<Rightarrow> 'm FungibleToken \<Rightarrow> AccountId \<Rightarrow> Balance \<Rightarrow> 'm FungibleToken ft_result" where
  "ft_internal_withdraw L t account_id amount =
     rbind (ft_internal_unwrap_balance_of L t account_id) (\<lambda>balance.
       case checked_sub balance amount of
         Some new_balance \<Rightarrow>
           (let t1 = t\<lparr>accounts := fst (lm_insert L (accounts t) account_id new_balance)\<rparr>
            in rbind (unwrap_or_panic (Msg TotalSupplyOverflow)
                        (checked_sub (total_supply t1) amount)) (\<lambda>s.
               Inr (t1\<lparr>total_supply := s\<rparr>)))
       | None \<Rightarrow> Inl (Msg NotEnoughBalance))"

definition ft_internal_transfer ::
    "'m balances_ops \<Rightarrow> 'm FungibleToken \<Rightarrow> ft_effects \<Rightarrow> AccountId \<Rightarrow> AccountId \<Rightarrow> Balance \<Rightarrow>
     string option \<Rightarrow> ('m FungibleToken \<times> ft_effects) ft_result" where
  "ft_internal_transfer L t h sender_id receiver_id amount memo =
     rbind (require (sender_id \<noteq> receiver_id) (Msg SameAccount)) (\<lambda>_.
     rbind (require (0 < amount) (Msg AmountNotPositive)) (\<lambda>_.
     rbind (ft_internal_withdraw L t sender_id amount) (\<lambda>t1.
     rbind (ft_internal_deposit L t1 receiver_id amount) (\<lambda>t2.
     Inr (t2, ft_transfer_emit (FtTransfer sender_id receiver_id amount memo) h)))))"

definition ft_internal_register_account ::
    "'m balances_ops \<Rightarrow> 'm FungibleToken \<Rightarrow> AccountId \<Rightarrow> 'm FungibleToken ft_result" where
  "ft_internal_register_account L t account_id =
     (let (m, old) = lm_insert L (accounts t) account_id 0
      in if old \<noteq> None then Inl (Msg AlreadyRegistered) else Inr (t\<lparr>accounts := m\<rparr>))"

subsection \<open>\<open>FungibleTokenCore\<close>\<close>

definition ft_transfer ::
    "'m balances_ops \<Rightarrow> env \<Rightarrow> 'm FungibleToken \<Rightarrow> ft_effects \<Rightarrow> AccountId \<Rightarrow> u128 \<Rightarrow>
     string option \<Rightarrow> ('m FungibleToken \<times> ft_effects) ft_result" where
  "ft_transfer L e t h receiver_id amount memo =
     rbind (assert_one_yocto e) (\<lambda>_.
     let sender_id = predecessor_account_id e
     in ft_internal_transfer L t h sender_id receiver_id amount memo)"

text \<open>
  The promise that \<open>ft_transfer_call\<close> returns: the receiver's \<open>ft_on_transfer\<close>, then this
  contract's \<open>ft_resolve_transfer\<close>.
\<close>

definition ft_call_promise ::
    "env \<Rightarrow> Gas \<Rightarrow> AccountId \<Rightarrow> AccountId \<Rightarrow> u128 \<Rightarrow> string \<Rightarrow> FtCall Promise" where
  "ft_call_promise e receiver_gas sender_id receiver_id amount msg =
     Then (FunctionCall receiver_id (FtOnTransfer sender_id amount msg) 0 receiver_gas)
          (FunctionCall (current_account_id e) (FtResolveTransfer sender_id receiver_id amount) 0
             GAS_FOR_RESOLVE_TRANSFER)"

definition ft_transfer_call ::
    "'m balances_ops \<Rightarrow> env \<Rightarrow> 'm FungibleToken \<Rightarrow> ft_effects \<Rightarrow> AccountId \<Rightarrow> u128 \<Rightarrow>
     string option \<Rightarrow> string \<Rightarrow> ('m FungibleToken \<times> ft_effects) ft_result" where
  "ft_transfer_call L e t h receiver_id amount memo msg =
     rbind (assert_one_yocto e) (\<lambda>_.
     rbind (require (GAS_FOR_FT_TRANSFER_CALL < prepaid_gas e) (Msg MoreGasRequired)) (\<lambda>_.
     let sender_id = predecessor_account_id e in
     rbind (ft_internal_transfer L t h sender_id receiver_id amount memo) (\<lambda>(t1, h1).
     rbind (unwrap_or_panic (Msg PrepaidGasOverflow)
              (checked_sub (prepaid_gas e) GAS_FOR_FT_TRANSFER_CALL)) (\<lambda>receiver_gas.
     Inr (t1, schedule (ft_call_promise e receiver_gas sender_id receiver_id amount msg) h1)))))"

definition ft_total_supply :: "'m FungibleToken \<Rightarrow> u128" where
  "ft_total_supply t = total_supply t"

definition ft_balance_of :: "'m balances_ops \<Rightarrow> 'm FungibleToken \<Rightarrow> AccountId \<Rightarrow> u128" where
  "ft_balance_of L t account_id = unwrap_or 0 (lm_get L (accounts t) account_id)"

subsection \<open>Settling a transfer call\<close>

text \<open>
  \<open>from_slice\<close> stands for \<open>serde_json::from_slice::<U128>\<close>: the number a JSON text holds, if it
  holds one.
\<close>

definition ft_unused_amount ::
    "(bytes \<Rightarrow> u128 option) \<Rightarrow> u128 \<Rightarrow> PromiseResult \<Rightarrow> u128 ft_result" where
  "ft_unused_amount from_slice amount r =
     (case r of
        Successful value \<Rightarrow>
          (case from_slice value of
             Some unused_amount \<Rightarrow> Inr (min amount unused_amount)
           | None \<Rightarrow> Inr amount)
      | Failed \<Rightarrow> Inr amount
      | NotReady \<Rightarrow> Inl NotImplemented)"

definition ft_internal_resolve_transfer ::
    "'m balances_ops \<Rightarrow> (bytes \<Rightarrow> u128 option) \<Rightarrow> env \<Rightarrow> 'm FungibleToken \<Rightarrow> ft_effects \<Rightarrow>
     AccountId \<Rightarrow> AccountId \<Rightarrow> u128 \<Rightarrow> ('m FungibleToken \<times> ft_effects \<times> u128 \<times> u128) ft_result" where
  "ft_internal_resolve_transfer L from_slice e t h sender_id receiver_id amount =
     rbind (env_promise_result e 0) (\<lambda>r.
     rbind (ft_unused_amount from_slice amount r) (\<lambda>unused_amount.
     if 0 < unused_amount then
       (let receiver_balance = unwrap_or 0 (lm_get L (accounts t) receiver_id) in
        if 0 < receiver_balance then
          (let refund_amount = min receiver_balance unused_amount in
           rbind (unwrap_or_panic (Msg ReceiverNotEnoughBalance)
                    (checked_sub receiver_balance refund_amount)) (\<lambda>new_receiver_balance.
           let t1 = t\<lparr>accounts := fst (lm_insert L (accounts t) receiver_id new_receiver_balance)\<rparr> in
           case lm_get L (accounts t1) sender_id of
             Some sender_balance \<Rightarrow>
               rbind (unwrap_or_panic (Msg SenderBalanceOverflow)
                        (checked_add sender_balance refund_amount)) (\<lambda>new_sender_balance.
               let t2 = t1\<lparr>accounts := fst (lm_insert L (accounts t1) sender_id new_sender_balance)\<rparr>;
                   h1 = ft_transfer_emit
                          (FtTransfer receiver_id sender_id refund_amount (Some ''refund'')) h in
               rbind (unwrap_or_panic (Msg TotalSupplyOverflow)
                        (checked_sub amount refund_amount)) (\<lambda>used_amount.
               Inr (t2, h1, used_amount, 0)))
           | None \<Rightarrow>
               rbind (unwrap_or_panic (Msg TotalSupplyOverflow)
                        (checked_sub (total_supply t1) refund_amount)) (\<lambda>s.
               let t2 = t1\<lparr>total_supply := s\<rparr>;
                   h1 = log (TextLog ''The account of the sender was deleted'') h;
                   h2 = ft_burn_emit (FtBurn receiver_id refund_amount (Some ''refund'')) h1 in
               Inr (t2, h2, amount, refund_amount))))
        else Inr (t, h, amount, 0))
     else Inr (t, h, amount, 0)))"

definition ft_resolve_transfer ::
    "'m balances_ops \<Rightarrow> (bytes \<Rightarrow> u128 option) \<Rightarrow> env \<Rightarrow> 'm FungibleToken \<Rightarrow> ft_effects \<Rightarrow>
     AccountId \<Rightarrow> AccountId \<Rightarrow> u128 \<Rightarrow> ('m FungibleToken \<times> ft_effects \<times> u128) ft_result" where
  "ft_resolve_transfer L from_slice e t h sender_id receiver_id amount =
     rbind (ft_internal_resolve_transfer L from_slice e t h sender_id receiver_id amount)
       (\<lambda>(t1, h1, used_amount, burned_amount). Inr (t1, h1, used_amount))"

subsection \<open>What the token promises, over any lookup map\<close>

text \<open>The content of the accounts, and the invariant that ties the supply to it.\<close>

definition ft_balances :: "'m balances_ops \<Rightarrow> 'm FungibleToken \<Rightarrow> AccountId \<rightharpoonup> Balance" where
  "ft_balances L t = lm_get L (accounts t)"

definition ft_supply_ok :: "'m balances_ops \<Rightarrow> 'm FungibleToken \<Rightarrow> bool" where
  "ft_supply_ok L t \<longleftrightarrow>
     finite (dom (ft_balances L t)) \<and> unat (total_supply t) = word_sum (ft_balances L t)"

text \<open>
  The abstract ledger: balances are natural numbers, and an operation that the ledger does not
  allow is \<open>None\<close>.
\<close>

type_synonym ledger = "AccountId \<rightharpoonup> nat"

definition ledger_transfer :: "ledger \<Rightarrow> AccountId \<Rightarrow> AccountId \<Rightarrow> nat \<Rightarrow> ledger option" where
  "ledger_transfer b s r n =
     (if s = r \<or> n = 0 then None
      else case (b s, b r) of
        (Some x, Some y) \<Rightarrow> if n \<le> x then Some (b(s \<mapsto> x - n, r \<mapsto> y + n)) else None
      | _ \<Rightarrow> None)"

text \<open>
  Giving back the unused part of a transfer: at most what the receiver still has, to the sender
  if it is still registered, and burned otherwise.
\<close>

definition ledger_refund :: "ledger \<Rightarrow> AccountId \<Rightarrow> AccountId \<Rightarrow> nat \<Rightarrow> ledger" where
  "ledger_refund b s r unused =
     (let refund = min (unwrap_or 0 (b r)) unused in
      if refund = 0 then b
      else let b1 = b(r \<mapsto> the (b r) - refund) in
        case b1 s of Some x \<Rightarrow> b1(s \<mapsto> x + refund) | None \<Rightarrow> b1)"

definition ft_ledger :: "'m balances_ops \<Rightarrow> 'm FungibleToken \<Rightarrow> ledger" where
  "ft_ledger L t = (\<lambda>a. map_option unat (ft_balances L t a))"

lemma word_add_sub_cancel: "(x :: 'w::len word) - a + a = x"
  by simp

text \<open>
  What a settlement achieves: the ledger gives the unused part back, the supply falls by what is
  burned, and what is reported as used is the amount less the refund, or the whole amount if the
  refund was burned.
\<close>

definition ft_settled ::
    "'m balances_ops \<Rightarrow> 'm FungibleToken \<Rightarrow> AccountId \<Rightarrow> AccountId \<Rightarrow> u128 \<Rightarrow> u128 \<Rightarrow>
     'm FungibleToken \<Rightarrow> u128 \<Rightarrow> u128 \<Rightarrow> bool" where
  "ft_settled L t s rc amount u t' used burned \<longleftrightarrow>
     ft_supply_ok L t' \<and>
     ft_ledger L t' = ledger_refund (ft_ledger L t) s rc (unat u) \<and>
     unat (total_supply t') + unat burned = unat (total_supply t) \<and>
     unat used + min (unat (ft_balance_of L t rc)) (unat u) = unat amount + unat burned \<and>
     unat burned = (if ft_balances L t s = None
                    then min (unat (ft_balance_of L t rc)) (unat u) else 0)"

text \<open>The accounts are kept in a collection that behaves as a \<open>LookupMap\<close>.\<close>

locale balance_store = lookup_map L
  for L :: "'m balances_ops"
begin

lemma unwrap_balance_of_iff [result_simps]:
  "ft_internal_unwrap_balance_of L t a = Inr b \<longleftrightarrow> ft_balances L t a = Some b"
  by (simp add: ft_internal_unwrap_balance_of_def ft_balances_def split: option.split)

lemma withdraw_iff:
  "ft_internal_withdraw L t a x = Inr t' \<longleftrightarrow>
     (\<exists>b. ft_balances L t a = Some b \<and> unat x \<le> unat b \<and> unat x \<le> unat (total_supply t) \<and>
        t' = t\<lparr>accounts := fst (lm_insert L (accounts t) a (b - x)),
               total_supply := total_supply t - x\<rparr>)"
  by (auto simp: ft_internal_withdraw_def result_simps Let_def checked_sub_def word_le_nat_alt
      split: if_splits)

lemma deposit_iff:
  "ft_internal_deposit L t a x = Inr t' \<longleftrightarrow>
     (\<exists>b. ft_balances L t a = Some b \<and> unat b + unat x < 2 ^ 128 \<and>
        unat (total_supply t) + unat x < 2 ^ 128 \<and>
        t' = t\<lparr>accounts := fst (lm_insert L (accounts t) a (b + x)),
               total_supply := total_supply t + x\<rparr>)"
  by (auto simp: ft_internal_deposit_def result_simps Let_def checked_add_def split: if_splits)

lemma balances_insert:
  "ft_balances L (t\<lparr>accounts := fst (lm_insert L (accounts t) a b), total_supply := s\<rparr>) =
     (ft_balances L t)(a \<mapsto> b)"
  "ft_balances L (t\<lparr>accounts := fst (lm_insert L (accounts t) a b)\<rparr>) =
     (ft_balances L t)(a \<mapsto> b)"
  by (simp_all add: ft_balances_def map_laws)

lemma withdraw_balances:
  assumes "ft_internal_withdraw L t a x = Inr t'"
  obtains b where "ft_balances L t a = Some b" "unat x \<le> unat b"
    and "ft_balances L t' = (ft_balances L t)(a \<mapsto> b - x)"
    and "unat (total_supply t) = unat (total_supply t') + unat x"
  using assms by (auto simp: withdraw_iff balances_insert unat_sub_exact)

lemma deposit_balances:
  assumes "ft_internal_deposit L t a x = Inr t'"
  obtains b where "ft_balances L t a = Some b"
    and "ft_balances L t' = (ft_balances L t)(a \<mapsto> b + x)"
    and "unat (b + x) = unat b + unat x"
    and "unat (total_supply t') = unat (total_supply t) + unat x"
  using assms by (auto simp: deposit_iff balances_insert unat_add_u128)

lemma withdraw_supply_ok:
  assumes "ft_supply_ok L t" and "ft_internal_withdraw L t a x = Inr t'"
  shows "ft_supply_ok L t'"
  using assms(2)
proof (rule withdraw_balances)
  fix b assume b: "ft_balances L t a = Some b" "unat x \<le> unat b"
    "ft_balances L t' = (ft_balances L t)(a \<mapsto> b - x)"
    "unat (total_supply t) = unat (total_supply t') + unat x"
  have fin: "finite (dom (ft_balances L t))" using assms(1) by (simp add: ft_supply_ok_def)
  have "word_sum (ft_balances L t') + unat b = word_sum (ft_balances L t) + unat (b - x)"
    using word_sum_change [OF fin b(1)] b(3) by simp
  with assms(1) fin b show ?thesis by (simp add: ft_supply_ok_def unat_sub_exact)
qed

lemma deposit_supply_ok:
  assumes "ft_supply_ok L t" and "ft_internal_deposit L t a x = Inr t'"
  shows "ft_supply_ok L t'"
  using assms(2)
proof (rule deposit_balances)
  fix b assume b: "ft_balances L t a = Some b"
    "ft_balances L t' = (ft_balances L t)(a \<mapsto> b + x)" "unat (b + x) = unat b + unat x"
    "unat (total_supply t') = unat (total_supply t) + unat x"
  have fin: "finite (dom (ft_balances L t))" using assms(1) by (simp add: ft_supply_ok_def)
  have "word_sum (ft_balances L t') + unat b = word_sum (ft_balances L t) + unat (b + x)"
    using word_sum_change [OF fin b(1)] b(2) by simp
  with assms(1) fin b show ?thesis by (simp add: ft_supply_ok_def)
qed

lemma register_iff:
  "ft_internal_register_account L t a = Inr t' \<longleftrightarrow>
     ft_balances L t a = None \<and> t' = t\<lparr>accounts := fst (lm_insert L (accounts t) a 0)\<rparr>"
  using insert_old [of "accounts t" a 0]
  by (auto simp: ft_internal_register_account_def ft_balances_def split: prod.splits)

lemma register_supply_ok:
  assumes "ft_supply_ok L t" and "ft_internal_register_account L t a = Inr t'"
  shows "ft_supply_ok L t'"
  using assms word_sum_insert_fresh [of "ft_balances L t" a 0]
  by (auto simp: ft_supply_ok_def register_iff balances_insert)

text \<open>A transfer returns exactly when the ledger allows it and nothing overflows.\<close>

lemma internal_transfer_iff:
  "ft_internal_transfer L t h s r x memo = Inr (t', h') \<longleftrightarrow>
     s \<noteq> r \<and> 0 < x \<and>
     (\<exists>b c. ft_balances L t s = Some b \<and> ft_balances L t r = Some c \<and> unat x \<le> unat b \<and>
        unat x \<le> unat (total_supply t) \<and> unat c + unat x < 2 ^ 128 \<and>
        t' = t\<lparr>accounts := fst (lm_insert L
                 (fst (lm_insert L (accounts t) s (b - x))) r (c + x))\<rparr> \<and>
        h' = ft_transfer_emit (FtTransfer s r x memo) h)"
proof -
  have room: "unat (total_supply t - x) + unat x = unat (total_supply t)"
    if "unat x \<le> unat (total_supply t)"
    using that by (simp add: unat_sub_exact)
  show ?thesis
    by (auto simp: ft_internal_transfer_def result_simps withdraw_iff deposit_iff
        balances_insert room)
qed

lemma internal_transfer_supply_ok:
  assumes "ft_supply_ok L t" and "ft_internal_transfer L t h s r x memo = Inr (t', h')"
  shows "ft_supply_ok L t'" and "total_supply t' = total_supply t"
proof -
  from assms(2) obtain t1 where
    t1: "ft_internal_withdraw L t s x = Inr t1" "ft_internal_deposit L t1 r x = Inr t'"
    by (auto simp: ft_internal_transfer_def result_simps)
  show "ft_supply_ok L t'"
    using deposit_supply_ok [OF withdraw_supply_ok [OF assms(1) t1(1)] t1(2)] .
  show "total_supply t' = total_supply t"
    using assms(2) by (auto simp: internal_transfer_iff)
qed

text \<open>
  Under the invariant the overflow branches cannot be taken, and the transfer is the ledger's.
\<close>

lemma supply_ok_bounds:
  assumes "ft_supply_ok L t" and "ft_balances L t s = Some b"
  shows "unat b \<le> unat (total_supply t)"
    and "ft_balances L t r = Some c \<Longrightarrow> s \<noteq> r \<Longrightarrow> unat b + unat c \<le> unat (total_supply t)"
  using assms word_sum_member_le [of "ft_balances L t"] word_sum_two_le [of "ft_balances L t"]
  by (auto simp: ft_supply_ok_def)

lemma transfer_room:
  assumes "ft_supply_ok L t" and "s \<noteq> r"
    and "ft_balances L t s = Some b" and "ft_balances L t r = Some c" and "unat x \<le> unat b"
  shows "unat x \<le> unat (total_supply t)" and "unat c + unat x < 2 ^ 128"
proof -
  have "unat b + unat c \<le> unat (total_supply t)"
    using supply_ok_bounds(2) [OF assms(1,3,4,2)] .
  then show "unat x \<le> unat (total_supply t)" and "unat c + unat x < 2 ^ 128"
    using assms(5) u128_less_pow [of "total_supply t"] by linarith+
qed

lemma internal_transfer_ok_iff:
  assumes "ft_supply_ok L t"
  shows "ft_internal_transfer L t h s r x memo = Inr (t', h') \<longleftrightarrow>
     s \<noteq> r \<and> 0 < x \<and>
     (\<exists>b c. ft_balances L t s = Some b \<and> ft_balances L t r = Some c \<and> unat x \<le> unat b \<and>
        t' = t\<lparr>accounts := fst (lm_insert L
                 (fst (lm_insert L (accounts t) s (b - x))) r (c + x))\<rparr> \<and>
        h' = ft_transfer_emit (FtTransfer s r x memo) h)"
  unfolding internal_transfer_iff using transfer_room [OF assms] by blast

lemma internal_transfer_ledger_upd:
  assumes "ft_internal_transfer L t h s r x memo = Inr (t', h')"
    and "ft_balances L t s = Some b" and "ft_balances L t r = Some c"
  shows "ft_ledger L t' = (ft_ledger L t)(s \<mapsto> unat b - unat x, r \<mapsto> unat c + unat x)"
proof -
  from assms have bc: "s \<noteq> r" "unat x \<le> unat b" "unat c + unat x < 2 ^ 128"
    "t' = t\<lparr>accounts := fst (lm_insert L (fst (lm_insert L (accounts t) s (b - x))) r (c + x))\<rparr>"
    by (auto simp: internal_transfer_iff)
  then have "ft_balances L t' = (ft_balances L t)(s \<mapsto> b - x, r \<mapsto> c + x)"
    by (simp add: ft_balances_def map_laws)
  with bc show ?thesis
    by (auto simp: ft_ledger_def fun_eq_iff unat_sub_exact unat_add_u128)
qed

lemma internal_transfer_ledger:
  assumes ok: "ft_supply_ok L t"
  shows "map_option (ft_ledger L \<circ> fst)
           (case ft_internal_transfer L t h s r x memo of Inl p \<Rightarrow> None | Inr v \<Rightarrow> Some v) =
         ledger_transfer (ft_ledger L t) s r (unat x)"
proof (cases "ft_internal_transfer L t h s r x memo")
  case (Inl p)
  have "ledger_transfer (ft_ledger L t) s r (unat x) = None"
  proof (rule ccontr)
    assume "ledger_transfer (ft_ledger L t) s r (unat x) \<noteq> None"
    then obtain b c where "s \<noteq> r" "0 < x" "ft_balances L t s = Some b"
      "ft_balances L t r = Some c" "unat x \<le> unat b"
      by (auto simp: ledger_transfer_def ft_ledger_def unat_gt_0 word_neq_0_conv
          split: if_splits option.splits)
    then have "\<exists>t' h'. ft_internal_transfer L t h s r x memo = Inr (t', h')"
      unfolding internal_transfer_ok_iff [OF ok] by blast
    with Inl show False by simp
  qed
  with Inl show ?thesis by simp
next
  case (Inr v)
  then obtain t' h' where v: "v = (t', h')"
    and tr: "ft_internal_transfer L t h s r x memo = Inr (t', h')" by (cases v) auto
  then obtain b c where "s \<noteq> r" "0 < x" "ft_balances L t s = Some b"
    "ft_balances L t r = Some c" "unat x \<le> unat b"
    by (auto simp: internal_transfer_iff)
  with v Inr internal_transfer_ledger_upd [OF tr] show ?thesis
    by (simp add: ledger_transfer_def ft_ledger_def unat_eq_0 word_neq_0_conv)
qed

text \<open>
  Settling: what is unused goes back as far as the receiver still has it.  Under the invariant
  no overflow branch is reached, so the callback always returns.
\<close>

lemma resolve_nothing:
  assumes "env_promise_result e 0 = (Inr r :: FtError panic + PromiseResult)"
    and "ft_unused_amount from_slice amount r = Inr u"
    and "u = 0 \<or> unwrap_or 0 (ft_balances L t rc) = 0"
  shows "ft_internal_resolve_transfer L from_slice e t h s rc amount = Inr (t, h, amount, 0)"
  using assms by (auto simp: ft_internal_resolve_transfer_def ft_balances_def Let_def)

lemma resolve_refund:
  assumes "env_promise_result e 0 = (Inr r :: FtError panic + PromiseResult)"
    and "ft_unused_amount from_slice amount r = Inr u"
    and "0 < u" and "ft_balances L t rc = Some b" and "0 < b"
    and refund: "refund = min b u"
    and t1: "t1 = t\<lparr>accounts := fst (lm_insert L (accounts t) rc (b - refund))\<rparr>"
  shows "ft_internal_resolve_transfer L from_slice e t h s rc amount =
     (case ft_balances L t1 s of
        Some x \<Rightarrow>
          rbind (unwrap_or_panic (Msg SenderBalanceOverflow) (checked_add x refund)) (\<lambda>x'.
          rbind (unwrap_or_panic (Msg TotalSupplyOverflow) (checked_sub amount refund)) (\<lambda>used.
          Inr (t1\<lparr>accounts := fst (lm_insert L (accounts t1) s x')\<rparr>,
               ft_transfer_emit (FtTransfer rc s refund (Some ''refund'')) h, used, 0)))
      | None \<Rightarrow>
          rbind (unwrap_or_panic (Msg TotalSupplyOverflow)
                   (checked_sub (total_supply t1) refund)) (\<lambda>ts.
          Inr (t1\<lparr>total_supply := ts\<rparr>,
               ft_burn_emit (FtBurn rc refund (Some ''refund''))
                 (log (TextLog ''The account of the sender was deleted'') h),
               amount, refund)))"
proof -
  have "min b u \<le> b" by simp
  then have "checked_sub b refund = Some (b - refund)"
    by (simp add: checked_sub_def refund)
  then show ?thesis
    using assms by (simp add: ft_internal_resolve_transfer_def ft_balances_def Let_def
        split: option.split)
qed

lemma unused_amount_le: "ft_unused_amount from_slice amount r = Inr u \<Longrightarrow> u \<le> amount"
  by (auto simp: ft_unused_amount_def split: PromiseResult.splits option.splits)

text \<open>The receiver's part, then the sender's: how balances and their sum change.\<close>

lemma resolve_refund_balances:
  assumes ok: "ft_supply_ok L t" and b: "ft_balances L t rc = Some b" and "refund \<le> b"
    and t1: "t1 = t\<lparr>accounts := fst (lm_insert L (accounts t) rc (b - refund))\<rparr>"
  shows "ft_balances L t1 = (ft_balances L t)(rc \<mapsto> b - refund)"
    and "finite (dom (ft_balances L t1))"
    and "word_sum (ft_balances L t1) + unat refund = unat (total_supply t)"
    and "total_supply t1 = total_supply t"
proof -
  show t1b: "ft_balances L t1 = (ft_balances L t)(rc \<mapsto> b - refund)"
    by (simp add: t1 balances_insert)
  have fin: "finite (dom (ft_balances L t))" using ok by (simp add: ft_supply_ok_def)
  then show "finite (dom (ft_balances L t1))" by (simp add: t1b)
  have "word_sum (ft_balances L t1) + unat b = word_sum (ft_balances L t) + unat (b - refund)"
    using word_sum_change [OF fin b] by (simp add: t1b)
  moreover have "unat (b - refund) + unat refund = unat b"
    using \<open>refund \<le> b\<close> by (simp add: unat_sub_exact word_le_nat_alt)
  ultimately show "word_sum (ft_balances L t1) + unat refund = unat (total_supply t)"
    using ok by (simp add: ft_supply_ok_def)
  show "total_supply t1 = total_supply t" by (simp add: t1)
qed

lemma resolve_burns:
  assumes ok: "ft_supply_ok L t" and b: "ft_balances L t rc = Some b"
    and refund: "refund = min b u" "0 < refund"
    and t1: "t1 = t\<lparr>accounts := fst (lm_insert L (accounts t) rc (b - refund))\<rparr>"
    and gone: "ft_balances L t1 s = None"
  shows "checked_sub (total_supply t1) refund = Some (total_supply t - refund)"
    and "ft_settled L t s rc amount u (t1\<lparr>total_supply := total_supply t - refund\<rparr>) amount refund"
proof -
  have le: "refund \<le> b" by (simp add: refund)
  note t1' = resolve_refund_balances [OF ok b le t1]
  have rn: "min (unat b) (unat u) = unat refund" by (simp add: refund unat_min)
  have nz: "unat refund \<noteq> 0" using refund(2) by (simp add: unat_gt_0 word_neq_0_conv)
  have sub: "unat refund \<le> unat (total_supply t)" using t1'(3) by simp
  then show "checked_sub (total_supply t1) refund = Some (total_supply t - refund)"
    using t1'(4) by (simp add: checked_sub_def word_le_nat_alt)
  let ?t2 = "t1\<lparr>total_supply := total_supply t - refund\<rparr>"
  have t2: "ft_balances L ?t2 = ft_balances L t1" by (simp add: ft_balances_def)
  have "ft_supply_ok L ?t2"
    using t1'(2,3) t2 sub by (simp add: ft_supply_ok_def unat_sub_exact)
  moreover have "ft_ledger L ?t2 = ledger_refund (ft_ledger L t) s rc (unat u)"
    using b gone t1'(1) nz le t2
    by (auto simp: ft_ledger_def ledger_refund_def fun_eq_iff Let_def rn
        unat_sub_exact word_le_nat_alt split: if_splits)
  moreover have "ft_balances L t s = None" using gone t1'(1) by (auto split: if_splits)
  ultimately show "ft_settled L t s rc amount u ?t2 amount refund"
    using sub b rn
    by (simp add: ft_settled_def ft_balance_of_def ft_balances_def [symmetric] unat_sub_exact)
qed

lemma resolve_returns:
  assumes ok: "ft_supply_ok L t" and b: "ft_balances L t rc = Some b"
    and refund: "refund = min b u" "0 < refund" and u: "u \<le> amount"
    and t1: "t1 = t\<lparr>accounts := fst (lm_insert L (accounts t) rc (b - refund))\<rparr>"
    and there: "ft_balances L t1 s = Some x"
  shows "checked_add x refund = Some (x + refund)"
    and "checked_sub amount refund = Some (amount - refund)"
    and "ft_settled L t s rc amount u (t1\<lparr>accounts := fst (lm_insert L (accounts t1) s (x + refund))\<rparr>)
           (amount - refund) 0"
proof -
  have le: "refund \<le> b" "refund \<le> amount" using u by (auto simp: refund(1) min_def)
  note t1' = resolve_refund_balances [OF ok b le(1) t1]
  have rn: "min (unat b) (unat u) = unat refund" by (simp add: refund unat_min)
  have nz: "unat refund \<noteq> 0" using refund(2) by (simp add: unat_gt_0 word_neq_0_conv)
  have "unat x \<le> word_sum (ft_balances L t1)" using word_sum_member_le [OF t1'(2) there] .
  then have room: "unat x + unat refund < 2 ^ 128"
    using t1'(3) u128_less_pow [of "total_supply t"] by linarith
  then show "checked_add x refund = Some (x + refund)" by (simp add: checked_add_def)
  show "checked_sub amount refund = Some (amount - refund)" using le(2) by (simp add: checked_sub_def)
  let ?t2 = "t1\<lparr>accounts := fst (lm_insert L (accounts t1) s (x + refund))\<rparr>"
  have t2: "ft_balances L ?t2 = (ft_balances L t1)(s \<mapsto> x + refund)"
    by (simp add: balances_insert)
  note sum = word_sum_change [OF t1'(2) there, of "x + refund"] unat_add_u128 [OF room]
  have "ft_supply_ok L ?t2"
    using sum t1'(2-4) t2 by (simp add: ft_supply_ok_def)
  moreover have "ft_ledger L ?t2 = ledger_refund (ft_ledger L t) s rc (unat u)"
    using b there t1'(1) nz le(1) t2 sum(2)
    by (auto simp: ft_ledger_def ledger_refund_def fun_eq_iff Let_def rn
        unat_sub_exact word_le_nat_alt split: if_splits)
  moreover obtain y where "ft_balances L t s = Some y"
    using there t1'(1) b by (auto split: if_splits)
  ultimately show "ft_settled L t s rc amount u ?t2 (amount - refund) 0"
    using t1'(4) b rn le(2)
    by (simp add: ft_settled_def ft_balance_of_def ft_balances_def [symmetric]
        unat_sub_exact word_le_nat_alt)
qed

lemma resolve_spec:
  assumes ok: "ft_supply_ok L t"
    and r: "env_promise_result e 0 = (Inr r :: FtError panic + PromiseResult)"
    and u: "ft_unused_amount from_slice amount r = Inr u"
  shows "\<exists>t' h' used burned.
     ft_internal_resolve_transfer L from_slice e t h s rc amount = Inr (t', h', used, burned) \<and>
     ft_settled L t s rc amount u t' used burned"
proof (cases "u = 0 \<or> unwrap_or 0 (ft_balances L t rc) = 0")
  case True
  then have "ledger_refund (ft_ledger L t) s rc (unat u) = ft_ledger L t"
    by (cases "ft_balances L t rc") (auto simp: ledger_refund_def ft_ledger_def)
  with True ok resolve_nothing [OF r u True] show ?thesis
    by (auto simp: ft_settled_def ft_balance_of_def ft_balances_def)
next
  case False
  then obtain b where b: "ft_balances L t rc = Some b" "0 < b" "0 < u"
    by (cases "ft_balances L t rc") (auto simp: word_neq_0_conv)
  define refund where "refund = min b u"
  define t1 where "t1 = t\<lparr>accounts := fst (lm_insert L (accounts t) rc (b - refund))\<rparr>"
  have pos: "0 < refund" using b by (simp add: refund_def min_def)
  note eq = resolve_refund [OF r u b(3,1,2) refund_def t1_def, of h s]
  show ?thesis
  proof (cases "ft_balances L t1 s")
    case None
    with eq resolve_burns [OF ok b(1) refund_def pos t1_def None] show ?thesis by auto
  next
    case (Some x)
    with eq resolve_returns [OF ok b(1) refund_def pos unused_amount_le [OF u] t1_def Some]
    show ?thesis by auto
  qed
qed

text \<open>A transfer call is the transfer, with the two calls scheduled behind it.\<close>

lemma internal_transfer_effects:
  "ft_internal_transfer L t h s r x memo = Inr (t', h1) \<Longrightarrow>
     h1 = ft_transfer_emit (FtTransfer s r x memo) h"
  by (auto simp: internal_transfer_iff)

lemma transfer_call_iff:
  "ft_transfer_call L e t h r x memo msg = Inr (t', h') \<longleftrightarrow>
     attached_deposit e = 1 \<and> GAS_FOR_FT_TRANSFER_CALL < prepaid_gas e \<and>
     (\<exists>h1. ft_internal_transfer L t h (predecessor_account_id e) r x memo = Inr (t', h1)) \<and>
     h' = schedule (ft_call_promise e (prepaid_gas e - GAS_FOR_FT_TRANSFER_CALL)
                      (predecessor_account_id e) r x msg)
            (ft_transfer_emit (FtTransfer (predecessor_account_id e) r x memo) h)"
  (is "?call \<longleftrightarrow> ?rhs")
proof
  assume ?call
  then show ?rhs
    by (auto simp: ft_transfer_call_def result_simps Let_def checked_sub_def
        dest: internal_transfer_effects split: if_splits)
next
  assume rhs: ?rhs
  then obtain h1 where
    h1: "ft_internal_transfer L t h (predecessor_account_id e) r x memo = Inr (t', h1)" by blast
  from rhs have "checked_sub (prepaid_gas e) GAS_FOR_FT_TRANSFER_CALL =
      Some (prepaid_gas e - GAS_FOR_FT_TRANSFER_CALL)"
    by (simp add: checked_sub_def less_imp_le)
  with rhs h1 internal_transfer_effects [OF h1] show ?call
    by (simp add: ft_transfer_call_def assert_one_yocto_def Let_def)
qed

end

text \<open>
  What the receiver did not use: nothing of the amount when it answers with a number at least as
  large, all of it when its call failed or the answer is not a number.
\<close>

definition unused_of :: "(bytes \<Rightarrow> u128 option) \<Rightarrow> u128 \<Rightarrow> PromiseResult \<Rightarrow> u128" where
  "unused_of from_slice amount r =
     (case r of Successful v \<Rightarrow> (case from_slice v of Some n \<Rightarrow> min amount n | None \<Rightarrow> amount)
              | _ \<Rightarrow> amount)"

lemma unused_of_le: "unused_of from_slice amount r \<le> amount"
  by (auto simp: unused_of_def split: PromiseResult.splits option.splits)

context balance_store
begin

lemma resolve_settles:
  assumes "ft_supply_ok L t" and "promise_results e = [r]" and "r \<noteq> NotReady"
  shows "\<exists>t' h' used burned.
     ft_internal_resolve_transfer L from_slice e t h s rc amount = Inr (t', h', used, burned) \<and>
     ft_settled L t s rc amount (unused_of from_slice amount r) t' used burned"
proof -
  have "env_promise_result e 0 = (Inr r :: FtError panic + PromiseResult)"
    using assms(2) by (simp add: env_promise_result_def)
  moreover have "ft_unused_amount from_slice amount r = Inr (unused_of from_slice amount r)"
    using assms(3)
    by (auto simp: ft_unused_amount_def unused_of_def split: PromiseResult.splits option.splits)
  ultimately show ?thesis by (rule resolve_spec [OF assms(1)])
qed

text \<open>A transfer call that is settled before the receiver spends anything.\<close>

lemma call_then_settle:
  assumes ok: "ft_supply_ok L t"
    and call: "ft_transfer_call L e t h receiver amount memo msg = Inr (t1, h1)"
    and sender: "sender = predecessor_account_id e"
    and "promise_results e' = [r]" and "r \<noteq> NotReady"
    and u: "u = unused_of from_slice amount r"
  shows "\<exists>t2 h2.
     ft_internal_resolve_transfer L from_slice e' t1 h' sender receiver amount =
       Inr (t2, h2, amount - u, 0) \<and> ft_supply_ok L t2 \<and>
     ft_ledger L t2 = (ft_ledger L t)
       (sender \<mapsto> unat (ft_balance_of L t sender) - (unat amount - unat u),
        receiver \<mapsto> unat (ft_balance_of L t receiver) + (unat amount - unat u)) \<and>
     total_supply t2 = total_supply t"
proof -
  have le: "u \<le> amount" unfolding u by (rule unused_of_le)
  from call obtain h0 where
    tr: "ft_internal_transfer L t h sender receiver amount memo = Inr (t1, h0)"
    by (auto simp: transfer_call_iff sender)
  then obtain b c where bc: "sender \<noteq> receiver" "0 < amount" "ft_balances L t sender = Some b"
    "ft_balances L t receiver = Some c" "unat amount \<le> unat b" "unat c + unat amount < 2 ^ 128"
    by (auto simp: internal_transfer_iff)
  have l1: "ft_ledger L t1 = (ft_ledger L t)
      (sender \<mapsto> unat b - unat amount, receiver \<mapsto> unat c + unat amount)"
    using internal_transfer_ledger_upd [OF tr bc(3,4)] .
  have c1: "unat (ft_balance_of L t1 receiver) = unat c + unat amount"
    using fun_cong [OF l1, of receiver]
    by (auto simp: ft_ledger_def ft_balances_def ft_balance_of_def)
  have s1: "ft_balances L t1 sender \<noteq> None"
    using fun_cong [OF l1, of sender] bc(1) by (auto simp: ft_ledger_def)
  from internal_transfer_supply_ok [OF ok tr]
  have ok1: "ft_supply_ok L t1" and ts: "total_supply t1 = total_supply t" by simp_all
  from resolve_settles [OF ok1 assms(4,5), of from_slice h' sender receiver amount]
  obtain t2 h2 used burned where
    res: "ft_internal_resolve_transfer L from_slice e' t1 h' sender receiver amount =
       Inr (t2, h2, used, burned)"
    and ok2: "ft_supply_ok L t2"
    and l2: "ft_ledger L t2 = ledger_refund (ft_ledger L t1) sender receiver (unat u)"
    and sum: "unat (total_supply t2) + unat burned = unat (total_supply t1)"
    and used: "unat used + min (unat (ft_balance_of L t1 receiver)) (unat u) = unat amount + unat burned"
    and burned: "unat burned = (if ft_balances L t1 sender = None
      then min (unat (ft_balance_of L t1 receiver)) (unat u) else 0)"
    unfolding ft_settled_def u by blast
  have b0: "burned = 0" using burned s1 by (simp add: unat_eq_0)
  have mn: "min (unat c + unat amount) (unat u) = unat u"
    using le by (simp add: word_le_nat_alt)
  have "used = amount - u"
    using used c1 mn b0 le by (simp add: word_unat_eq_iff unat_sub_exact word_le_nat_alt)
  moreover have "ft_ledger L t2 = (ft_ledger L t)
      (sender \<mapsto> unat b - (unat amount - unat u), receiver \<mapsto> unat c + (unat amount - unat u))"
    using bc le mn unfolding l2 l1
    by (auto simp: ledger_refund_def Let_def fun_eq_iff word_le_nat_alt)
  moreover have "total_supply t2 = total_supply t" using sum b0 ts by (simp add: word_unat_eq_iff)
  ultimately show ?thesis
    using res b0 bc(3,4) ok2 by (simp add: ft_balance_of_def ft_balances_def)
qed

end

end
