(* ===== verification/FtStorage.thy ===== *)
theory FtStorage
  imports FungibleToken
begin

section \<open>Storage management of the fungible token (NEP-145)\<close>

text \<open>
  \<open>examples/nep-interface/src/storage_management/mod.rs\<close> (the two structs) and
  \<open>fungible_token/storage_impl.rs\<close>: registering an account against a deposit, unregistering it,
  and the queries.  The lemmas say when each operation returns and with what; that the excess
  deposit goes back to the caller to the last yoctoNEAR; and that under the supply invariant the
  plain subtraction \<open>self.total_supply -= balance\<close> cannot underflow, whatever the build's
  \<open>overflow-checks\<close> setting is.
\<close>

subsection \<open>Data\<close>

record StorageBalance =
  sb_total :: u128
  sb_available :: u128

record StorageBalanceBounds =
  bounds_min :: u128
  bounds_max :: "u128 option"

subsection \<open>Operations\<close>

definition ft_storage_balance_bounds ::
    "env \<Rightarrow> 'm FungibleToken \<Rightarrow> StorageBalanceBounds ft_result" where
  "ft_storage_balance_bounds e t =
     rbind (mul_op (overflow_checks e) (ucast (account_storage_usage t)) (storage_byte_cost e))
       (\<lambda>required_storage_balance.
     Inr \<lparr>bounds_min = required_storage_balance, bounds_max = Some required_storage_balance\<rparr>)"

definition ft_internal_storage_balance_of ::
    "'m balances_ops \<Rightarrow> env \<Rightarrow> 'm FungibleToken \<Rightarrow> AccountId \<Rightarrow> StorageBalance option ft_result" where
  "ft_internal_storage_balance_of L e t account_id =
     (if lm_contains_key L (accounts t) account_id
      then rbind (ft_storage_balance_bounds e t) (\<lambda>bounds.
             Inr (Some \<lparr>sb_total = bounds_min bounds, sb_available = 0\<rparr>))
      else Inr None)"

definition ft_storage_balance_of ::
    "'m balances_ops \<Rightarrow> env \<Rightarrow> 'm FungibleToken \<Rightarrow> AccountId \<Rightarrow> StorageBalance option ft_result" where
  "ft_storage_balance_of L e t account_id = ft_internal_storage_balance_of L e t account_id"

definition ft_internal_storage_unregister ::
    "'m balances_ops \<Rightarrow> env \<Rightarrow> 'm FungibleToken \<Rightarrow> ft_effects \<Rightarrow> bool option \<Rightarrow>
     ('m FungibleToken \<times> ft_effects \<times> (AccountId \<times> Balance) option) ft_result" where
  "ft_internal_storage_unregister L e t h force =
     rbind (assert_one_yocto e) (\<lambda>_.
     let account_id = predecessor_account_id e;
         force = unwrap_or False force in
     case lm_get L (accounts t) account_id of
       Some balance \<Rightarrow>
         if balance = 0 \<or> force then
           (let t1 = t\<lparr>accounts := fst (lm_remove L (accounts t) account_id)\<rparr> in
            rbind (sub_op (overflow_checks e) (total_supply t1) balance) (\<lambda>s.
            let t2 = t1\<lparr>total_supply := s\<rparr> in
            rbind (ft_storage_balance_bounds e t2) (\<lambda>bounds.
            rbind (add_op (overflow_checks e) (bounds_min bounds) 1) (\<lambda>back.
            Inr (t2, schedule (Transfer account_id back) h, Some (account_id, balance))))))
         else Inl (Msg PositiveBalanceWithoutForce)
     | None \<Rightarrow>
         Inr (t, log (TextLog (''The account '' @ account_id @ '' is not registered'')) h, None))"

definition ft_storage_unregister ::
    "'m balances_ops \<Rightarrow> env \<Rightarrow> 'm FungibleToken \<Rightarrow> ft_effects \<Rightarrow> bool option \<Rightarrow>
     ('m FungibleToken \<times> ft_effects \<times> bool) ft_result" where
  "ft_storage_unregister L e t h force =
     rbind (ft_internal_storage_unregister L e t h force) (\<lambda>(t1, h1, closed).
     Inr (t1, h1, closed \<noteq> None))"

definition ft_storage_deposit ::
    "'m balances_ops \<Rightarrow> env \<Rightarrow> 'm FungibleToken \<Rightarrow> ft_effects \<Rightarrow> AccountId option \<Rightarrow> bool option \<Rightarrow>
     ('m FungibleToken \<times> ft_effects \<times> StorageBalance) ft_result" where
  "ft_storage_deposit L e t h account_id registration_only =
     (let amount = attached_deposit e;
          account_id = unwrap_or (predecessor_account_id e) account_id in
      rbind
        (if lm_contains_key L (accounts t) account_id then
           (let h1 = log (TextLog ''The account is already registered, refunding the deposit'') h
            in Inr (t, if 0 < amount
                       then schedule (Transfer (predecessor_account_id e) amount) h1 else h1))
         else
           rbind (ft_storage_balance_bounds e t) (\<lambda>bounds.
           let min_balance = bounds_min bounds in
           if amount < min_balance then Inl (Msg DepositTooSmall)
           else
             rbind (ft_internal_register_account L t account_id) (\<lambda>t1.
             rbind (sub_op (overflow_checks e) amount min_balance) (\<lambda>refund.
             Inr (t1, if 0 < refund
                      then schedule (Transfer (predecessor_account_id e) refund) h else h)))))
        (\<lambda>(t1, h1).
      rbind (ft_internal_storage_balance_of L e t1 account_id) (\<lambda>sb.
      rbind (unwrap_or_panic UnwrapNone sb) (\<lambda>storage_balance.
      Inr (t1, h1, storage_balance)))))"

definition ft_storage_withdraw ::
    "'m balances_ops \<Rightarrow> env \<Rightarrow> 'm FungibleToken \<Rightarrow> u128 option \<Rightarrow> StorageBalance ft_result" where
  "ft_storage_withdraw L e t amount =
     rbind (assert_one_yocto e) (\<lambda>_.
     let account_id = predecessor_account_id e in
     rbind (ft_internal_storage_balance_of L e t account_id) (\<lambda>sb.
     case sb of
       Some storage_balance \<Rightarrow>
         (case amount of
            Some a \<Rightarrow> if 0 < a then Inl (Msg AmountExceedsAvailable) else Inr storage_balance
          | None \<Rightarrow> Inr storage_balance)
     | None \<Rightarrow> Inl (Msg (NotRegistered account_id))))"

subsection \<open>What the storage operations promise\<close>

text \<open>The price of one account, and the condition that it fits into a balance.\<close>

definition storage_price :: "env \<Rightarrow> 'm FungibleToken \<Rightarrow> nat" where
  "storage_price e t = unat (account_storage_usage t) * unat (storage_byte_cost e)"

definition price_fits :: "env \<Rightarrow> 'm FungibleToken \<Rightarrow> bool" where
  "price_fits e t \<longleftrightarrow> storage_price e t + 1 < 2 ^ 128"

definition price :: "env \<Rightarrow> 'm FungibleToken \<Rightarrow> u128" where
  "price e t = ucast (account_storage_usage t) * storage_byte_cost e"

lemma unat_price: "price_fits e t \<Longrightarrow> unat (price e t) = storage_price e t"
proof -
  assume "price_fits e t"
  then have "checked_mul (ucast (account_storage_usage t)) (storage_byte_cost e) = Some (price e t)"
    by (simp add: checked_mul_def price_def price_fits_def storage_price_def)
  then show ?thesis by (simp add: unat_arith_simps storage_price_def)
qed

lemma bounds_eq:
  "price_fits e t \<Longrightarrow>
     ft_storage_balance_bounds e t = Inr \<lparr>bounds_min = price e t, bounds_max = Some (price e t)\<rparr>"
  by (simp add: ft_storage_balance_bounds_def mul_op_exact price_fits_def storage_price_def
      price_def)

lemma price_frame [simp]:
  "price e (t\<lparr>accounts := m\<rparr>) = price e t"
  "price e (t\<lparr>accounts := m, total_supply := s\<rparr>) = price e t"
  "price_fits e (t\<lparr>accounts := m\<rparr>) = price_fits e t"
  "price_fits e (t\<lparr>accounts := m, total_supply := s\<rparr>) = price_fits e t"
  by (simp_all add: price_def price_fits_def storage_price_def)

context balance_store
begin

lemma storage_balance_of_eq:
  "price_fits e t \<Longrightarrow>
     ft_internal_storage_balance_of L e t a =
       Inr (if ft_balances L t a = None then None
            else Some \<lparr>sb_total = price e t, sb_available = 0\<rparr>)"
  by (simp add: ft_internal_storage_balance_of_def bounds_eq contains_key ft_balances_def)

lemma unregister_eq:
  assumes ok: "ft_supply_ok L t" and fits: "price_fits e t" and yocto: "attached_deposit e = 1"
  shows "ft_internal_storage_unregister L e t h force =
     (let a = predecessor_account_id e in
      case ft_balances L t a of
        Some b \<Rightarrow>
          if b = 0 \<or> unwrap_or False force
          then Inr (t\<lparr>accounts := fst (lm_remove L (accounts t) a), total_supply := total_supply t - b\<rparr>,
                    schedule (Transfer a (price e t + 1)) h, Some (a, b))
          else Inl (Msg PositiveBalanceWithoutForce)
      | None \<Rightarrow>
          Inr (t, log (TextLog (''The account '' @ a @ '' is not registered'')) h, None))"
proof -
  have "sub_op (overflow_checks e) (total_supply t) b = (Inr (total_supply t - b) :: FtError panic + _)"
    if "ft_balances L t a = Some b" for a b
    using supply_ok_bounds(1) [OF ok that] by (rule sub_op_exact)
  moreover have "add_op (overflow_checks e) (price e t) 1 = (Inr (price e t + 1) :: FtError panic + _)"
    using fits by (intro add_op_exact) (simp add: unat_price price_fits_def)
  ultimately show ?thesis
    using yocto fits
    by (simp add: ft_internal_storage_unregister_def assert_one_yocto_def Let_def bounds_eq
        ft_balances_def [symmetric] split: option.split)
qed

lemma unregister_supply_ok:
  assumes ok: "ft_supply_ok L t" and b: "ft_balances L t a = Some b"
  shows "ft_supply_ok L (t\<lparr>accounts := fst (lm_remove L (accounts t) a),
                            total_supply := total_supply t - b\<rparr>)"
proof -
  have fin: "finite (dom (ft_balances L t))" using ok by (simp add: ft_supply_ok_def)
  then have "finite (dom ((ft_balances L t)(a := None)))" by simp
  then show ?thesis
    using ok fin word_sum_delete [OF fin b] supply_ok_bounds(1) [OF ok b]
    by (simp add: ft_supply_ok_def ft_balances_def map_laws unat_sub_exact)
qed

text \<open>Without the assumptions on the price: whatever returns keeps the invariant.\<close>

lemma internal_unregister_supply_ok:
  assumes ok: "ft_supply_ok L t"
    and "ft_internal_storage_unregister L e t h force = Inr (t', h', closed)"
  shows "ft_supply_ok L t'"
proof (cases "ft_balances L t (predecessor_account_id e)")
  case None
  then show ?thesis using assms
    by (auto simp: ft_internal_storage_unregister_def result_simps Let_def ft_balances_def)
next
  case (Some b)
  have "sub_op (overflow_checks e) (total_supply t) b = (Inr (total_supply t - b) :: FtError panic + _)"
    using supply_ok_bounds(1) [OF ok Some] by (rule sub_op_exact)
  then have "t' = t\<lparr>accounts := fst (lm_remove L (accounts t) (predecessor_account_id e)),
                    total_supply := total_supply t - b\<rparr>"
    using assms(2) Some
    by (auto simp: ft_internal_storage_unregister_def result_simps Let_def ft_balances_def
        split: if_splits)
  then show ?thesis using unregister_supply_ok [OF ok Some] by simp
qed

lemma deposit_registered_eq:
  assumes "price_fits e t" and "unwrap_or (predecessor_account_id e) acc = a"
    and "ft_balances L t a \<noteq> None"
  shows "ft_storage_deposit L e t h acc ro =
     Inr (t, (let h1 = log (TextLog ''The account is already registered, refunding the deposit'') h in
              if 0 < attached_deposit e
              then schedule (Transfer (predecessor_account_id e) (attached_deposit e)) h1 else h1),
          \<lparr>sb_total = price e t, sb_available = 0\<rparr>)"
  using assms
  by (auto simp: ft_storage_deposit_def Let_def contains_key ft_balances_def storage_balance_of_eq)

lemma deposit_new_eq:
  assumes "price_fits e t" and "unwrap_or (predecessor_account_id e) acc = a"
    and "ft_balances L t a = None"
  shows "ft_storage_deposit L e t h acc ro =
     (if attached_deposit e < price e t then Inl (Msg DepositTooSmall)
      else Inr (t\<lparr>accounts := fst (lm_insert L (accounts t) a 0)\<rparr>,
                (let refund = attached_deposit e - price e t in
                 if 0 < refund then schedule (Transfer (predecessor_account_id e) refund) h else h),
                \<lparr>sb_total = price e t, sb_available = 0\<rparr>))"
proof (cases "attached_deposit e < price e t")
  case True
  with assms show ?thesis
    by (simp add: ft_storage_deposit_def Let_def contains_key ft_balances_def bounds_eq)
next
  case False
  then have sub: "sub_op (overflow_checks e) (attached_deposit e) (price e t) =
      (Inr (attached_deposit e - price e t) :: FtError panic + _)"
    by (intro sub_op_exact) (simp add: word_le_nat_alt [symmetric] not_less)
  have reg: "ft_internal_register_account L t a = Inr (t\<lparr>accounts := fst (lm_insert L (accounts t) a 0)\<rparr>)"
    using assms(3) by (simp add: register_iff)
  from False assms sub reg show ?thesis
    by (simp add: ft_storage_deposit_def Let_def contains_key ft_balances_def bounds_eq
        storage_balance_of_eq get_insert)
qed

lemma deposit_storage_supply_ok:
  assumes "ft_supply_ok L t" and "ft_storage_deposit L e t h acc ro = Inr (t', h', sb)"
  shows "ft_supply_ok L t'"
proof -
  have "t' = t \<or> (\<exists>a. ft_internal_register_account L t a = Inr t')"
    using assms(2) by (auto simp: ft_storage_deposit_def result_simps Let_def split: if_splits)
  then show ?thesis using assms(1) register_supply_ok by blast
qed

end

end
