(* ===== verification/FtContract.thy ===== *)
theory FtContract
  imports FtStorage "HOL-Library.Multiset"
begin

section \<open>A contract with the token, and its life on the chain\<close>

text \<open>
  \<open>fungible_token/macros.rs\<close>: the public methods that \<open>impl_fungible_token_core!\<close> and
  \<open>impl_fungible_token_storage!\<close> give a contract, with the two optional hooks.  On top of them
  the life of such a contract as a transition system: receipts of any callers in any order, the
  contract's own mints and burns, and the callbacks of transfer calls, which arrive at any later
  time and with any result.
\<close>

subsection \<open>The public methods\<close>

text \<open>A contract struct: the token field and whatever else the contract stores.\<close>

record ('m, 'r) ft_contract =
  token :: "'m FungibleToken"
  rest :: 'r

text \<open>The hooks \<open>on_tokens_burned\<close> and \<open>on_account_closed\<close> are methods of the contract.\<close>

type_synonym ('m, 'r) ft_hook =
  "('m, 'r) ft_contract \<Rightarrow> ft_effects \<Rightarrow> AccountId \<Rightarrow> Balance \<Rightarrow>
   (('m, 'r) ft_contract \<times> ft_effects) ft_result"

definition run_hook ::
    "('m, 'r) ft_hook option \<Rightarrow> ('m, 'r) ft_contract \<Rightarrow> ft_effects \<Rightarrow> AccountId \<Rightarrow> Balance \<Rightarrow>
     (('m, 'r) ft_contract \<times> ft_effects) ft_result" where
  "run_hook hook c h a x = (case hook of None \<Rightarrow> Inr (c, h) | Some f \<Rightarrow> f c h a x)"

definition contract_ft_transfer ::
    "'m balances_ops \<Rightarrow> env \<Rightarrow> ('m, 'r) ft_contract \<Rightarrow> ft_effects \<Rightarrow> AccountId \<Rightarrow> u128 \<Rightarrow>
     string option \<Rightarrow> (('m, 'r) ft_contract \<times> ft_effects) ft_result" where
  "contract_ft_transfer L e c h receiver_id amount memo =
     rbind (ft_transfer L e (token c) h receiver_id amount memo) (\<lambda>(t, h1).
     Inr (c\<lparr>token := t\<rparr>, h1))"

definition contract_ft_transfer_call ::
    "'m balances_ops \<Rightarrow> env \<Rightarrow> ('m, 'r) ft_contract \<Rightarrow> ft_effects \<Rightarrow> AccountId \<Rightarrow> u128 \<Rightarrow>
     string option \<Rightarrow> string \<Rightarrow> (('m, 'r) ft_contract \<times> ft_effects) ft_result" where
  "contract_ft_transfer_call L e c h receiver_id amount memo msg =
     rbind (ft_transfer_call L e (token c) h receiver_id amount memo msg) (\<lambda>(t, h1).
     Inr (c\<lparr>token := t\<rparr>, h1))"

definition contract_ft_total_supply :: "('m, 'r) ft_contract \<Rightarrow> u128" where
  "contract_ft_total_supply c = ft_total_supply (token c)"

definition contract_ft_balance_of ::
    "'m balances_ops \<Rightarrow> ('m, 'r) ft_contract \<Rightarrow> AccountId \<Rightarrow> u128" where
  "contract_ft_balance_of L c account_id = ft_balance_of L (token c) account_id"

text \<open>\<open>#[private]\<close>, and not \<open>#[payable]\<close>.\<close>

definition contract_ft_resolve_transfer ::
    "('m, 'r) ft_hook option \<Rightarrow> 'm balances_ops \<Rightarrow> (bytes \<Rightarrow> u128 option) \<Rightarrow> env \<Rightarrow>
     ('m, 'r) ft_contract \<Rightarrow> ft_effects \<Rightarrow> AccountId \<Rightarrow> AccountId \<Rightarrow> u128 \<Rightarrow>
     (('m, 'r) ft_contract \<times> ft_effects \<times> u128) ft_result" where
  "contract_ft_resolve_transfer on_tokens_burned L from_slice e c h sender_id receiver_id amount =
     rbind (assert_private e) (\<lambda>_.
     rbind (assert_not_payable e) (\<lambda>_.
     rbind (ft_internal_resolve_transfer L from_slice e (token c) h sender_id receiver_id amount)
       (\<lambda>(t, h1, used_amount, burned_amount).
     rbind (if 0 < burned_amount
            then run_hook on_tokens_burned (c\<lparr>token := t\<rparr>) h1 sender_id burned_amount
            else Inr (c\<lparr>token := t\<rparr>, h1)) (\<lambda>(c1, h2).
     Inr (c1, h2, used_amount)))))"

definition contract_storage_deposit ::
    "'m balances_ops \<Rightarrow> env \<Rightarrow> ('m, 'r) ft_contract \<Rightarrow> ft_effects \<Rightarrow> AccountId option \<Rightarrow>
     bool option \<Rightarrow> (('m, 'r) ft_contract \<times> ft_effects \<times> StorageBalance) ft_result" where
  "contract_storage_deposit L e c h account_id registration_only =
     rbind (ft_storage_deposit L e (token c) h account_id registration_only) (\<lambda>(t, h1, sb).
     Inr (c\<lparr>token := t\<rparr>, h1, sb))"

definition contract_storage_withdraw ::
    "'m balances_ops \<Rightarrow> env \<Rightarrow> ('m, 'r) ft_contract \<Rightarrow> u128 option \<Rightarrow> StorageBalance ft_result" where
  "contract_storage_withdraw L e c amount = ft_storage_withdraw L e (token c) amount"

definition contract_storage_unregister ::
    "('m, 'r) ft_hook option \<Rightarrow> 'm balances_ops \<Rightarrow> env \<Rightarrow> ('m, 'r) ft_contract \<Rightarrow> ft_effects \<Rightarrow>
     bool option \<Rightarrow> (('m, 'r) ft_contract \<times> ft_effects \<times> bool) ft_result" where
  "contract_storage_unregister on_account_closed L e c h force =
     rbind (ft_internal_storage_unregister L e (token c) h force) (\<lambda>(t, h1, closed).
     case closed of
       Some (account_id, balance) \<Rightarrow>
         rbind (run_hook on_account_closed (c\<lparr>token := t\<rparr>) h1 account_id balance) (\<lambda>(c1, h2).
         Inr (c1, h2, True))
     | None \<Rightarrow> Inr (c\<lparr>token := t\<rparr>, h1, False))"

definition contract_storage_balance_bounds ::
    "env \<Rightarrow> ('m, 'r) ft_contract \<Rightarrow> StorageBalanceBounds ft_result" where
  "contract_storage_balance_bounds e c = ft_storage_balance_bounds e (token c)"

definition contract_storage_balance_of ::
    "'m balances_ops \<Rightarrow> env \<Rightarrow> ('m, 'r) ft_contract \<Rightarrow> AccountId \<Rightarrow> StorageBalance option ft_result" where
  "contract_storage_balance_of L e c account_id = ft_storage_balance_of L e (token c) account_id"

subsection \<open>The life of the contract\<close>

text \<open>
  A settlement the contract has asked for: sender, receiver and amount of a pending
  \<open>ft_resolve_transfer\<close> on the contract itself.
\<close>

type_synonym settlement = "AccountId \<times> AccountId \<times> u128"

fun settlements :: "AccountId \<Rightarrow> FtCall Promise \<Rightarrow> settlement multiset" where
  "settlements self (Then p q) = settlements self p + settlements self q"
| "settlements self (FunctionCall a (FtResolveTransfer s r x) d g) =
     (if a = self then {#(s, r, x)#} else {#})"
| "settlements self _ = {#}"

definition pending_of :: "AccountId \<Rightarrow> ft_effects \<Rightarrow> settlement multiset" where
  "pending_of self h = sum_list (map (settlements self) (promises h))"

record ('m, 'r) ft_system =
  contract :: "('m, 'r) ft_contract"
  pending :: "settlement multiset"

text \<open>
  One receipt.  A receipt that panics changes nothing: it is a step only where it also consumes a
  pending settlement (\<open>step_settle_panics\<close>).  \<open>self\<close> is the contract's account.  A hook may change
  the contract, but is expected not to break the token's books.
\<close>

definition hook_keeps_supply :: "'m balances_ops \<Rightarrow> ('m, 'r) ft_hook option \<Rightarrow> bool" where
  "hook_keeps_supply L hook \<longleftrightarrow>
     (\<forall>f c h a x c' h'. hook = Some f \<longrightarrow> ft_supply_ok L (token c) \<longrightarrow> f c h a x = Inr (c', h') \<longrightarrow>
        ft_supply_ok L (token c'))"

inductive ft_step ::
    "('m, 'r) ft_hook option \<Rightarrow> ('m, 'r) ft_hook option \<Rightarrow> 'm balances_ops \<Rightarrow>
     (bytes \<Rightarrow> u128 option) \<Rightarrow> AccountId \<Rightarrow> ('m, 'r) ft_system \<Rightarrow> ('m, 'r) ft_system \<Rightarrow> bool"
  for burned closed L from_slice self where
  step_transfer:
    "contract_ft_transfer L e (contract s) no_effects r x memo = Inr (c, h) \<Longrightarrow>
     current_account_id e = self \<Longrightarrow>
     ft_step burned closed L from_slice self s
       (s\<lparr>contract := c, pending := pending s + pending_of self h\<rparr>)"
| step_transfer_call:
    "contract_ft_transfer_call L e (contract s) no_effects r x memo msg = Inr (c, h) \<Longrightarrow>
     current_account_id e = self \<Longrightarrow>
     ft_step burned closed L from_slice self s
       (s\<lparr>contract := c, pending := pending s + pending_of self h\<rparr>)"
| step_deposit:
    "contract_storage_deposit L e (contract s) no_effects a ro = Inr (c, h, sb) \<Longrightarrow>
     current_account_id e = self \<Longrightarrow>
     ft_step burned closed L from_slice self s
       (s\<lparr>contract := c, pending := pending s + pending_of self h\<rparr>)"
| step_unregister:
    "contract_storage_unregister closed L e (contract s) no_effects force = Inr (c, h, b) \<Longrightarrow>
     current_account_id e = self \<Longrightarrow>
     ft_step burned closed L from_slice self s
       (s\<lparr>contract := c, pending := pending s + pending_of self h\<rparr>)"
| step_mint:
    "ft_internal_deposit L (token (contract s)) a x = Inr t \<Longrightarrow>
     ft_step burned closed L from_slice self s (s\<lparr>contract := (contract s)\<lparr>token := t\<rparr>\<rparr>)"
| step_burn:
    "ft_internal_withdraw L (token (contract s)) a x = Inr t \<Longrightarrow>
     ft_step burned closed L from_slice self s (s\<lparr>contract := (contract s)\<lparr>token := t\<rparr>\<rparr>)"
| step_settle:
    "(snd', r, x) \<in># pending s \<Longrightarrow> current_account_id e = self \<Longrightarrow>
     contract_ft_resolve_transfer burned L from_slice e (contract s) no_effects snd' r x =
       Inr (c, h, used) \<Longrightarrow>
     ft_step burned closed L from_slice self s
       (s\<lparr>contract := c, pending := pending s - {#(snd', r, x)#} + pending_of self h\<rparr>)"
| step_settle_panics:
    "(snd', r, x) \<in># pending s \<Longrightarrow> current_account_id e = self \<Longrightarrow>
     contract_ft_resolve_transfer burned L from_slice e (contract s) no_effects snd' r x = Inl p \<Longrightarrow>
     ft_step burned closed L from_slice self s (s\<lparr>pending := pending s - {#(snd', r, x)#}\<rparr>)"

text \<open>A system starts with a token just built and nothing pending.\<close>

definition ft_initial ::
    "'m balances_ops \<Rightarrow> ('m \<Rightarrow> StorageUsage) \<Rightarrow> ('m, 'r) ft_system \<Rightarrow> bool" where
  "ft_initial L usage s \<longleftrightarrow>
     (\<exists>e prefix. ft_new L usage e prefix = Inr (token (contract s))) \<and> pending s = {#}"

text \<open>The invariant: the recorded supply is the sum of the balances.\<close>

definition ft_system_inv :: "'m balances_ops \<Rightarrow> ('m, 'r) ft_system \<Rightarrow> bool" where
  "ft_system_inv L s \<longleftrightarrow> ft_supply_ok L (token (contract s))"

inductive_cases ft_stepE: "ft_step burned closed L from_slice self s t"

subsection \<open>Lemmas\<close>

lemma run_hook_keeps:
  assumes "hook_keeps_supply L hook" and "ft_supply_ok L (token c)"
    and "run_hook hook c h a x = Inr (c', h')"
  shows "ft_supply_ok L (token c')"
  using assms unfolding run_hook_def hook_keeps_supply_def
  by (cases hook) (auto, metis)

context balance_store
begin

lemma new_empty:
  assumes "ft_new L usage e prefix = Inr t"
  shows "ft_balances L t = Map.empty" and "total_supply t = 0"
  using assms
  by (auto simp: ft_new_def ft_measure_account_storage_usage_def result_simps Let_def
      ft_balances_def map_laws)

lemma new_supply_ok: "ft_new L usage e prefix = Inr t \<Longrightarrow> ft_supply_ok L t"
  by (simp add: ft_supply_ok_def new_empty)

lemma transfer_supply_ok:
  assumes "ft_supply_ok L t" and "ft_transfer L e t h r x memo = Inr (t', h')"
  shows "ft_supply_ok L t'" and "total_supply t' = total_supply t"
  using assms internal_transfer_supply_ok by (auto simp: ft_transfer_def result_simps Let_def)

lemma transfer_call_supply_ok:
  assumes "ft_supply_ok L t" and "ft_transfer_call L e t h r x memo msg = Inr (t', h')"
  shows "ft_supply_ok L t'" and "total_supply t' = total_supply t"
  using assms internal_transfer_supply_ok
  by (auto simp: ft_transfer_call_def result_simps Let_def)

lemma resolve_supply_ok:
  assumes "ft_supply_ok L t"
    and "ft_internal_resolve_transfer L from_slice e t h s rc x = Inr (t', h', used, burned)"
  shows "ft_supply_ok L t'"
proof -
  from assms(2) obtain r u where
    "env_promise_result e 0 = (Inr r :: FtError panic + PromiseResult)"
    "ft_unused_amount from_slice x r = Inr u"
    by (auto simp: ft_internal_resolve_transfer_def result_simps)
  from resolve_spec [OF assms(1) this, of h s rc] assms(2) show ?thesis
    by (auto simp: ft_settled_def)
qed

end

text \<open>The chain around a contract whose hooks keep the books.\<close>

locale ft_chain = balance_store L for L :: "'m balances_ops" +
  fixes burned closed :: "('m, 'r) ft_hook option"
    and usage :: "'m \<Rightarrow> StorageUsage"
    and from_slice :: "bytes \<Rightarrow> u128 option"
    and self :: AccountId
  assumes burned_keeps: "hook_keeps_supply L burned"
    and closed_keeps: "hook_keeps_supply L closed"
begin

lemma contract_resolve_supply_ok:
  assumes "ft_supply_ok L (token c)"
    and "contract_ft_resolve_transfer burned L from_slice e c h s r x = Inr (c', h', used)"
  shows "ft_supply_ok L (token c')"
proof -
  from assms(2) obtain t h1 u b where
    t: "ft_internal_resolve_transfer L from_slice e (token c) h s r x = Inr (t, h1, u, b)"
    and c': "(if 0 < b then run_hook burned (c\<lparr>token := t\<rparr>) h1 s b else Inr (c\<lparr>token := t\<rparr>, h1)) =
               Inr (c', h')"
    by (auto simp: contract_ft_resolve_transfer_def result_simps)
  have "ft_supply_ok L t" using resolve_supply_ok [OF assms(1) t] .
  then show ?thesis
    using c' run_hook_keeps [OF burned_keeps, of "c\<lparr>token := t\<rparr>"] by (auto split: if_splits)
qed

lemma contract_unregister_supply_ok:
  assumes "ft_supply_ok L (token c)"
    and "contract_storage_unregister closed L e c h force = Inr (c', h', b)"
  shows "ft_supply_ok L (token c')"
proof -
  from assms(2) obtain t h1 cl where
    t: "ft_internal_storage_unregister L e (token c) h force = Inr (t, h1, cl)"
    and c': "(case cl of
                None \<Rightarrow> Inr (c\<lparr>token := t\<rparr>, h1, False)
              | Some (a, x) \<Rightarrow> rbind (run_hook closed (c\<lparr>token := t\<rparr>) h1 a x) (\<lambda>(c1, h2).
                  Inr (c1, h2, True))) = Inr (c', h', b)"
    unfolding contract_storage_unregister_def rbind_eq_Inr by (fastforce split: prod.splits)
  have "ft_supply_ok L t" using internal_unregister_supply_ok [OF assms(1) t] .
  then show ?thesis
    using c' run_hook_keeps [OF closed_keeps, of "c\<lparr>token := t\<rparr>"]
    by (auto simp: result_simps split: option.splits)
qed

lemma step_supply_ok:
  assumes "ft_step burned closed L from_slice self s t" and "ft_system_inv L s"
  shows "ft_system_inv L t"
  using assms unfolding ft_system_inv_def
  by (induction rule: ft_step.induct)
    (auto simp: contract_ft_transfer_def contract_ft_transfer_call_def contract_storage_deposit_def
      result_simps
      dest: transfer_supply_ok(1) transfer_call_supply_ok(1) deposit_storage_supply_ok
        contract_unregister_supply_ok deposit_supply_ok withdraw_supply_ok
        contract_resolve_supply_ok)

lemma initial_supply_ok: "ft_initial L usage s \<Longrightarrow> ft_system_inv L s"
  using new_supply_ok by (auto simp: ft_initial_def ft_system_inv_def)

sublocale invariant_system
  "ft_initial L usage :: ('m, 'r) ft_system \<Rightarrow> bool"
  "ft_step burned closed L from_slice self" "ft_system_inv L"
  by unfold_locales (rule initial_supply_ok, assumption, rule step_supply_ok)

lemma chain_supply_ok:
  "reachable (ft_initial L usage) (ft_step burned closed L from_slice self) s \<Longrightarrow>
     ft_supply_ok L (token (contract s))"
  using reachable_inv by (simp add: ft_system_inv_def)

end

interpretation fun_chain: ft_chain fun_map None None usage from_slice self
  for usage :: "(AccountId \<rightharpoonup> Balance) \<Rightarrow> StorageUsage" and from_slice self
  by unfold_locales (simp_all add: hook_keeps_supply_def)

end
