(* ===== verification/FtProperties.thy ===== *)
theory FtProperties
  imports FtContract
begin

section \<open>Properties of the fungible token\<close>

text \<open>
  The properties of NEP-141 and NEP-145 that the code promises, each over any collection that
  behaves as a \<open>LookupMap\<close>, any JSON parser and any hooks that keep the books, with a witness
  that evaluates the theorem on a concrete run.
\<close>

subsection \<open>The concrete run of the witnesses\<close>

text \<open>
  Alice holds 100 tokens, Bob is registered, both in a token whose accounts cost 125 bytes at
  10 yoctoNEAR each.  The JSON parser of the witnesses reads a text of one byte as a number.
\<close>

type_synonym fun_accounts = "AccountId \<rightharpoonup> Balance"

definition demo_env :: "AccountId \<Rightarrow> Balance \<Rightarrow> PromiseResult list \<Rightarrow> env" where
  "demo_env who deposit results =
     \<lparr>current_account_id = ''ft'', predecessor_account_id = who, attached_deposit = deposit,
      prepaid_gas = 100000000000000, used_gas = 0, block_timestamp = 0, storage_byte_cost = 10,
      promise_results = results, overflow_checks = True\<rparr>"

definition demo_token :: "fun_accounts FungibleToken" where
  "demo_token = \<lparr>accounts = [''alice'' \<mapsto> 100, ''bob'' \<mapsto> 0], total_supply = 100,
                 account_storage_usage = 125\<rparr>"

fun demo_from_slice :: "bytes \<Rightarrow> u128 option" where
  "demo_from_slice [b] = Some (ucast b)"
| "demo_from_slice _ = None"

lemma demo_env_simps [simp]:
  "current_account_id (demo_env who deposit results) = ''ft''"
  "predecessor_account_id (demo_env who deposit results) = who"
  "attached_deposit (demo_env who deposit results) = deposit"
  "prepaid_gas (demo_env who deposit results) = 100000000000000"
  "storage_byte_cost (demo_env who deposit results) = 10"
  "promise_results (demo_env who deposit results) = results"
  "overflow_checks (demo_env who deposit results) = True"
  by (simp_all add: demo_env_def)

lemma demo_token_simps [simp]:
  "accounts demo_token = [''alice'' \<mapsto> 100, ''bob'' \<mapsto> 0]"
  "total_supply demo_token = 100" "account_storage_usage demo_token = 125"
  "ft_balances fun_map demo_token = [''alice'' \<mapsto> 100, ''bob'' \<mapsto> 0]"
  by (simp_all add: demo_token_def ft_balances_def fun_map_def)

lemma demo_supply_ok: "ft_supply_ok fun_map demo_token"
  by (simp add: ft_supply_ok_def word_sum_def)

lemma demo_store: "balance_store (fun_map :: (fun_accounts, AccountId, Balance) map_ops)"
  by unfold_locales

lemma demo_price: "price_fits (demo_env who deposit results) demo_token"
  by (simp add: price_fits_def storage_price_def)

definition demo_sent :: "fun_accounts FungibleToken" where
  "demo_sent = demo_token\<lparr>accounts := [''alice'' \<mapsto> 70, ''bob'' \<mapsto> 30]\<rparr>"

lemma demo_transfer:
  "ft_internal_transfer fun_map demo_token no_effects ''alice'' ''bob'' 30 None =
     Inr (demo_sent, ft_transfer_emit (FtTransfer ''alice'' ''bob'' 30 None) no_effects)"
  by (simp add: balance_store.internal_transfer_iff [OF demo_store] demo_sent_def)
    (simp add: fun_map_def fun_eq_iff)

lemma demo_call:
  "\<exists>h. ft_transfer_call fun_map (demo_env ''alice'' 1 []) demo_token no_effects ''bob'' 30 None
     ''deal'' = Inr (demo_sent, h)"
  using demo_transfer
  by (auto simp: balance_store.transfer_call_iff [OF demo_store] GAS_FOR_FT_TRANSFER_CALL_def
      GAS_FOR_RESOLVE_TRANSFER_def)

text \<open>
  A run of the chain: the token is built, Alice and Bob register, Alice is minted 100 tokens and
  sends 30 of them to Bob with a transfer call, whose settlement is pending.
\<close>

definition demo_usage :: "fun_accounts \<Rightarrow> StorageUsage" where
  "demo_usage m = (if m (replicate 64 (CHR ''a'')) = None then 0 else 125)"

definition demo_system ::
    "fun_accounts \<Rightarrow> Balance \<Rightarrow> settlement multiset \<Rightarrow> (fun_accounts, unit) ft_system" where
  "demo_system m s p =
     \<lparr>contract = \<lparr>token = \<lparr>accounts = m, total_supply = s, account_storage_usage = 125\<rparr>, rest = ()\<rparr>,
      pending = p\<rparr>"

abbreviation demo_step :: "(fun_accounts, unit) ft_system \<Rightarrow> (fun_accounts, unit) ft_system \<Rightarrow> bool" where
  "demo_step \<equiv> ft_step None None fun_map demo_from_slice ''ft''"

lemma demo_new:
  "ft_new fun_map demo_usage (demo_env ''ft'' 0 []) [] =
     Inr \<lparr>accounts = Map.empty, total_supply = 0, account_storage_usage = 125\<rparr>"
  by (simp add: ft_new_def ft_measure_account_storage_usage_def fun_map_def demo_usage_def
      sub_op_exact Let_def)

lemma demo_initial: "ft_initial fun_map demo_usage (demo_system Map.empty 0 {#})"
  using demo_new by (auto simp: ft_initial_def demo_system_def)

lemma demo_register_call:
  assumes "m a = None"
  shows "\<exists>sb. contract_storage_deposit fun_map (demo_env a 1250 []) (contract (demo_system m s p))
      no_effects None None = Inr (contract (demo_system (m(a \<mapsto> 0)) s p), no_effects, sb)"
proof -
  let ?t = "\<lparr>accounts = m, total_supply = s, account_storage_usage = 125\<rparr>"
  have "price (demo_env a 1250 []) ?t = 1250" and fits: "price_fits (demo_env a 1250 []) ?t"
    by (simp_all add: price_def price_fits_def storage_price_def)
  then have "\<exists>sb. ft_storage_deposit fun_map (demo_env a 1250 []) ?t no_effects None None =
      Inr (?t\<lparr>accounts := m(a \<mapsto> 0)\<rparr>, no_effects, sb)"
    using balance_store.deposit_new_eq [OF demo_store fits, of None a] assms
    by (simp add: ft_balances_def fun_map_def)
  then show ?thesis by (auto simp: contract_storage_deposit_def demo_system_def)
qed

lemma demo_mint_call:
  "m a = Some 0 \<Longrightarrow> ft_internal_deposit fun_map (token (contract (demo_system m 0 p))) a 100 =
     Inr (token (contract (demo_system (m(a \<mapsto> 100)) 100 p)))"
  by (simp add: balance_store.deposit_iff [OF demo_store])
    (simp add: demo_system_def ft_balances_def fun_map_def)

lemma demo_register:
  assumes "m a = None"
  shows "demo_step (demo_system m s p) (demo_system (m(a \<mapsto> 0)) s p)"
proof -
  from demo_register_call [of m a s p] assms obtain sb where
    "contract_storage_deposit fun_map (demo_env a 1250 []) (contract (demo_system m s p)) no_effects
      None None = Inr (contract (demo_system (m(a \<mapsto> 0)) s p), no_effects, sb)"
    by blast
  from step_deposit [OF this, where self = "''ft''" and burned = None and closed = None
      and from_slice = demo_from_slice]
  show ?thesis by (simp add: demo_system_def pending_of_def)
qed

lemma demo_mint:
  assumes "m a = Some 0"
  shows "demo_step (demo_system m 0 p) (demo_system (m(a \<mapsto> 100)) 100 p)"
  using step_mint [OF demo_mint_call [of m a p]] assms by (simp add: demo_system_def)

lemma demo_state:
  "demo_system [''alice'' \<mapsto> 100, ''bob'' \<mapsto> 0] 100 {#} =
     \<lparr>contract = \<lparr>token = demo_token, rest = ()\<rparr>, pending = {#}\<rparr>"
  by (simp add: demo_system_def demo_token_def)

lemma demo_reachable:
  "reachable (ft_initial fun_map demo_usage) demo_step
     \<lparr>contract = \<lparr>token = demo_token, rest = ()\<rparr>, pending = {#}\<rparr>"
proof -
  let ?reach = "reachable (ft_initial fun_map demo_usage) demo_step"
  have "?reach (demo_system Map.empty 0 {#})"
    by (rule reachable_init) (rule demo_initial)
  then have "?reach (demo_system [''bob'' \<mapsto> 0] 0 {#})"
    by (rule reachable_step) (rule demo_register, simp)
  then have "?reach (demo_system [''bob'' \<mapsto> 0, ''alice'' \<mapsto> 0] 0 {#})"
    by (rule reachable_step) (rule demo_register, simp)
  then have "?reach (demo_system [''bob'' \<mapsto> 0, ''alice'' \<mapsto> 0, ''alice'' \<mapsto> 100] 100 {#})"
    by (rule reachable_step) (rule demo_mint, simp)
  moreover have "[''bob'' \<mapsto> 0, ''alice'' \<mapsto> 0, ''alice'' \<mapsto> 100] =
      [''alice'' \<mapsto> (100 :: Balance), ''bob'' \<mapsto> 0]"
    by (simp add: fun_eq_iff)
  ultimately show ?thesis by (simp add: demo_state [symmetric])
qed

lemma demo_reachable_pending:
  "reachable (ft_initial fun_map demo_usage) demo_step
     \<lparr>contract = \<lparr>token = demo_sent, rest = ()\<rparr>, pending = {#(''alice'', ''bob'', 30)#}\<rparr>"
proof -
  let ?s = "\<lparr>contract = \<lparr>token = demo_token, rest = ()\<rparr>, pending = {#}\<rparr>"
  obtain h where h: "ft_transfer_call fun_map (demo_env ''alice'' 1 []) demo_token no_effects ''bob''
      30 None ''deal'' = Inr (demo_sent, h)"
    using demo_call by blast
  then have "pending_of ''ft'' h = {#(''alice'', ''bob'', 30)#}"
    by (auto simp: balance_store.transfer_call_iff [OF demo_store] pending_of_def ft_call_promise_def)
  moreover have "contract_ft_transfer_call fun_map (demo_env ''alice'' 1 []) (contract ?s) no_effects
      ''bob'' 30 None ''deal'' = Inr (\<lparr>token = demo_sent, rest = ()\<rparr>, h)"
    using h by (simp add: contract_ft_transfer_call_def)
  ultimately show ?thesis
    using reachable_step [OF demo_reachable step_transfer_call, of "demo_env ''alice'' 1 []"
        "''bob''" 30 None "''deal''" "\<lparr>token = demo_sent, rest = ()\<rparr>" h]
    by simp
qed

subsection \<open>Transfers\<close>

text \<open>C14: a \<open>ft_transfer\<close> does what the abstract ledger says, and nothing else happens to the
  balances.  When exactly one yoctoNEAR is attached it returns exactly when the ledger allows the
  transfer (different registered accounts, a positive amount that the sender has) with the
  ledger's balances, and it never returns otherwise: the overflow branches of the code are
  unreachable as long as the supply is the sum of the balances.\<close>

theorem ft_transfer_refines_ledger:
  assumes "balance_store L" and "ft_supply_ok L t"
  shows "(case ft_transfer L e t h receiver amount memo of
            Inl p \<Rightarrow> None | Inr (t', h') \<Rightarrow> Some (ft_ledger L t')) =
         (if attached_deposit e = 1
          then ledger_transfer (ft_ledger L t) (predecessor_account_id e) receiver (unat amount)
          else None)"
  using balance_store.internal_transfer_ledger [OF assms, of h "predecessor_account_id e"
      receiver amount memo]
  by (auto simp: ft_transfer_def assert_one_yocto_def Let_def split: sum.splits)

theorem ft_transfer_refines_ledger_witness:
  "(case ft_transfer fun_map (demo_env ''alice'' 1 []) demo_token no_effects ''bob'' 30 None of
      Inl p \<Rightarrow> None | Inr (t', h') \<Rightarrow> Some (ft_ledger fun_map t')) =
     Some [''alice'' \<mapsto> 70, ''bob'' \<mapsto> 30]"
  unfolding ft_transfer_refines_ledger [OF demo_store demo_supply_ok]
  by (simp add: ledger_transfer_def ft_ledger_def fun_eq_iff)

text \<open>\<open>ft_transfer_call\<close>.  It returns exactly when one yoctoNEAR is attached, more than 30
  TGas are prepaid and the transfer itself is allowed; it then moves the tokens at once, emits the
  transfer event, and schedules \<open>ft_on_transfer\<close> on the receiver with all the gas that is not
  reserved, followed by the private \<open>ft_resolve_transfer\<close> on itself with 5 TGas and the same
  sender, receiver and amount.\<close>

theorem ft_transfer_call_schedules_settlement:
  assumes "balance_store L"
  shows "ft_transfer_call L e t h receiver amount memo msg = Inr (t', h') \<longleftrightarrow>
     attached_deposit e = 1 \<and> GAS_FOR_FT_TRANSFER_CALL < prepaid_gas e \<and>
     (\<exists>h1. ft_internal_transfer L t h (predecessor_account_id e) receiver amount memo =
             Inr (t', h1)) \<and>
     h' = schedule
            (Then (FunctionCall receiver (FtOnTransfer (predecessor_account_id e) amount msg) 0
                     (prepaid_gas e - GAS_FOR_FT_TRANSFER_CALL))
                  (FunctionCall (current_account_id e)
                     (FtResolveTransfer (predecessor_account_id e) receiver amount) 0
                     GAS_FOR_RESOLVE_TRANSFER))
            (ft_transfer_emit (FtTransfer (predecessor_account_id e) receiver amount memo) h)"
  using balance_store.transfer_call_iff [OF assms] by (simp add: ft_call_promise_def)

theorem ft_transfer_call_schedules_settlement_witness:
  "ft_transfer_call fun_map (demo_env ''alice'' 1 []) demo_token no_effects ''bob'' 30 None ''deal'' =
     Inr (demo_sent, schedule
       (Then (FunctionCall ''bob'' (FtOnTransfer ''alice'' 30 ''deal'') 0 70000000000000)
             (FunctionCall ''ft'' (FtResolveTransfer ''alice'' ''bob'' 30) 0 5000000000000))
       (ft_transfer_emit (FtTransfer ''alice'' ''bob'' 30 None) no_effects))"
  unfolding ft_transfer_call_schedules_settlement [OF demo_store]
  using demo_transfer by (auto simp: GAS_FOR_FT_TRANSFER_CALL_def GAS_FOR_RESOLVE_TRANSFER_def)

subsection \<open>Settlement\<close>

text \<open>C15: the callback \<open>ft_resolve_transfer\<close> of a token whose books are right always returns,
  whatever the receiver answered.  What the receiver did not use (all of it when the call failed
  or the answer is not a number) goes back as far as the receiver still has it; it reaches the
  sender, or is burned when the sender has unregistered; the supply falls exactly by what is
  burned; and the amount reported as used plus the refund is the amount of the transfer, or, if
  the refund was burned, the whole amount is reported as used.\<close>

theorem ft_resolve_transfer_settles:
  assumes "balance_store L" and "ft_supply_ok L t"
    and "promise_results e = [r]" and "r \<noteq> NotReady"
    and "u = (case r of Successful v \<Rightarrow> (case from_slice v of Some n \<Rightarrow> min amount n | None \<Rightarrow> amount)
                      | _ \<Rightarrow> amount)"
  shows "\<exists>t' h' used burned.
     ft_internal_resolve_transfer L from_slice e t h sender receiver amount =
       Inr (t', h', used, burned) \<and>
     ft_supply_ok L t' \<and>
     ft_ledger L t' = ledger_refund (ft_ledger L t) sender receiver (unat u) \<and>
     unat (total_supply t') + unat burned = unat (total_supply t) \<and>
     unat used + min (unat (ft_balance_of L t receiver)) (unat u) = unat amount + unat burned \<and>
     unat burned = (if ft_balances L t sender = None
                    then min (unat (ft_balance_of L t receiver)) (unat u) else 0)"
  using balance_store.resolve_settles [OF assms(1-4), of from_slice h sender receiver amount]
  unfolding ft_settled_def unused_of_def assms(5) .

theorem ft_resolve_transfer_settles_witness:
  "\<exists>t' h' used burned.
     ft_internal_resolve_transfer fun_map demo_from_slice
       (demo_env ''ft'' 0 [Successful [30]]) demo_token no_effects ''bob'' ''alice'' 40 =
       Inr (t', h', used, burned) \<and>
     ft_ledger fun_map t' = [''alice'' \<mapsto> 70, ''bob'' \<mapsto> 30]"
proof -
  have ledger: "ledger_refund (ft_ledger fun_map demo_token) ''bob'' ''alice'' 30 =
      [''alice'' \<mapsto> 70, ''bob'' \<mapsto> 30]"
    by (simp add: ledger_refund_def ft_ledger_def fun_eq_iff Let_def)
  have u: "(30 :: u128) = (case Successful [30] of
      Successful v \<Rightarrow> (case demo_from_slice v of Some n \<Rightarrow> min 40 n | None \<Rightarrow> 40) | _ \<Rightarrow> 40)"
    by (simp add: min_def)
  show ?thesis
    using ft_resolve_transfer_settles [OF demo_store demo_supply_ok _ _ u, of
        "demo_env ''ft'' 0 [Successful [30]]" no_effects "''bob''" "''alice''"] ledger
    by auto
qed

text \<open>A transfer call that settles before the receiver spends anything.  Whatever the answer,
  the sender has paid, and the receiver has received, exactly the part that was used: the whole
  transfer is undone when the call failed, and it stands when the receiver kept everything.\<close>

theorem ft_transfer_call_then_settle:
  assumes "balance_store L" and "ft_supply_ok L t"
    and call: "ft_transfer_call L e t h receiver amount memo msg = Inr (t1, h1)"
    and sender: "sender = predecessor_account_id e"
    and "promise_results e' = [r]" and "r \<noteq> NotReady"
    and u: "u = (case r of Successful v \<Rightarrow> (case from_slice v of Some n \<Rightarrow> min amount n | None \<Rightarrow> amount)
                         | _ \<Rightarrow> amount)"
  shows "\<exists>t2 h2.
     ft_internal_resolve_transfer L from_slice e' t1 h' sender receiver amount =
       Inr (t2, h2, amount - u, 0) \<and>
     ft_ledger L t2 = (ft_ledger L t)
       (sender \<mapsto> unat (ft_balance_of L t sender) - (unat amount - unat u),
        receiver \<mapsto> unat (ft_balance_of L t receiver) + (unat amount - unat u)) \<and>
     total_supply t2 = total_supply t"
  using balance_store.call_then_settle [OF assms(1-6), of u from_slice h'] u
  unfolding unused_of_def by blast

theorem ft_transfer_call_then_settle_witness:
  "\<exists>t2 h2. ft_internal_resolve_transfer fun_map demo_from_slice (demo_env ''ft'' 0 [Failed])
       demo_sent no_effects ''alice'' ''bob'' 30 = Inr (t2, h2, 0, 0) \<and>
     ft_ledger fun_map t2 = [''alice'' \<mapsto> 100, ''bob'' \<mapsto> 0]"
proof -
  obtain h where call: "ft_transfer_call fun_map (demo_env ''alice'' 1 []) demo_token no_effects
      ''bob'' 30 None ''deal'' = Inr (demo_sent, h)"
    using demo_call by blast
  have u: "(30 :: u128) = (case Failed of
      Successful v \<Rightarrow> (case demo_from_slice v of Some n \<Rightarrow> min 30 n | None \<Rightarrow> 30) | _ \<Rightarrow> 30)"
    by simp
  have "ft_balance_of fun_map demo_token ''alice'' = 100" "ft_balance_of fun_map demo_token ''bob'' = 0"
    by (simp_all add: ft_balance_of_def fun_map_def)
  then have "(ft_ledger fun_map demo_token)
      (''alice'' \<mapsto> unat (ft_balance_of fun_map demo_token ''alice'') - (unat (30 :: u128) - unat (30 :: u128)),
       ''bob'' \<mapsto> unat (ft_balance_of fun_map demo_token ''bob'') + (unat (30 :: u128) - unat (30 :: u128))) =
      [''alice'' \<mapsto> 100, ''bob'' \<mapsto> 0]"
    by (simp add: ft_ledger_def fun_eq_iff)
  then show ?thesis
    using ft_transfer_call_then_settle [OF demo_store demo_supply_ok call _ _ _ u,
        of "''alice''" "demo_env ''ft'' 0 [Failed]" no_effects]
    by auto
qed

subsection \<open>The life of the contract\<close>

text \<open>C16: in every state the contract can reach, however the receipts of its users, its own mints
  and burns and the late callbacks of its transfer calls interleave, and whatever results those
  callbacks see, the recorded total supply is the sum of the balances of the registered
  accounts.\<close>

theorem ft_reachable_supply_is_sum:
  assumes "balance_store L"
    and "hook_keeps_supply L burned" and "hook_keeps_supply L closed"
    and "reachable (ft_initial L usage) (ft_step burned closed L from_slice self) s"
  shows "finite (dom (lm_get L (accounts (token (contract s))))) \<and>
     unat (total_supply (token (contract s))) =
       (\<Sum>a \<in> dom (lm_get L (accounts (token (contract s)))).
          unat (the (lm_get L (accounts (token (contract s))) a)))"
proof -
  have "ft_chain L burned closed"
    using assms(1-3) by (simp add: ft_chain_def ft_chain_axioms_def)
  from ft_chain.chain_supply_ok [OF this assms(4)] show ?thesis
    by (simp add: ft_supply_ok_def word_sum_def ft_balances_def)
qed

theorem ft_reachable_supply_is_sum_witness:
  "unat (total_supply demo_sent) =
     (\<Sum>a \<in> dom (accounts demo_sent). unat (the (accounts demo_sent a)))"
  using ft_reachable_supply_is_sum [OF demo_store _ _ demo_reachable_pending]
  by (simp add: hook_keeps_supply_def fun_map_def)

text \<open>C24: no callback of a transfer call is ever lost.  In every reachable state every pending
  settlement returns when the contract calls itself back, whatever the receiver's answer was, and
  reports at most the transferred amount as used; so a transfer call never leaves the tokens
  of a failed call with the receiver because the callback panicked.\<close>

theorem ft_settlement_never_stuck:
  assumes "balance_store L" and "hook_keeps_supply L closed"
    and "reachable (ft_initial L usage) (ft_step None closed L from_slice self) s"
    and "(sender, receiver, amount) \<in># pending s"
    and "current_account_id e = self" and "predecessor_account_id e = self"
    and "attached_deposit e = 0" and "promise_results e = [r]" and "r \<noteq> NotReady"
  shows "\<exists>c h used. contract_ft_resolve_transfer None L from_slice e (contract s) no_effects
       sender receiver amount = Inr (c, h, used) \<and> used \<le> amount"
proof -
  have "ft_chain L None closed"
    using assms(1,2) by (simp add: ft_chain_def ft_chain_axioms_def hook_keeps_supply_def)
  note ok = ft_chain.chain_supply_ok [OF this assms(3)]
  define u where "u = (case r of
      Successful v \<Rightarrow> (case from_slice v of Some n \<Rightarrow> min amount n | None \<Rightarrow> amount) | _ \<Rightarrow> amount)"
  let ?t = "token (contract s)"
  obtain t h used burned where
    res: "ft_internal_resolve_transfer L from_slice e ?t no_effects sender receiver amount =
       Inr (t, h, used, burned)"
    and used: "unat used + min (unat (ft_balance_of L ?t receiver)) (unat u) =
       unat amount + unat burned"
      "unat burned = (if ft_balances L ?t sender = None
         then min (unat (ft_balance_of L ?t receiver)) (unat u) else 0)"
    using balance_store.resolve_settles [OF assms(1) ok assms(8,9), of from_slice no_effects sender
        receiver amount]
    unfolding ft_settled_def u_def unused_of_def by blast
  have "used \<le> amount" using used by (simp add: word_le_nat_alt split: if_splits)
  then show ?thesis
    using res assms(5-7)
    by (simp add: contract_ft_resolve_transfer_def assert_private_def assert_not_payable_def
        run_hook_def)
qed

theorem ft_settlement_never_stuck_witness:
  "\<exists>c h used. contract_ft_resolve_transfer None fun_map demo_from_slice
       (demo_env ''ft'' 0 [Successful [10]]) \<lparr>token = demo_sent, rest = ()\<rparr> no_effects
       ''alice'' ''bob'' 30 = Inr (c, h, used) \<and> used \<le> 30"
  using ft_settlement_never_stuck [OF demo_store _ demo_reachable_pending,
      of "''alice''" "''bob''" 30 "demo_env ''ft'' 0 [Successful [10]]" "Successful [10]"]
  by (simp add: hook_keeps_supply_def)

text \<open>The hook \<open>on_tokens_burned\<close> sees every token that a settlement destroys.  The public
  \<open>ft_resolve_transfer\<close> only runs when the contract calls itself without a deposit; either it
  leaves the supply as it was and does not call the hook, or it calls the hook once, with the
  sender and an amount by which the supply has just fallen.\<close>

theorem ft_burn_hook_sees_supply_drop:
  assumes "balance_store L" and "ft_supply_ok L (token c)"
    and "contract_ft_resolve_transfer (Some f) L from_slice e c h sender receiver amount =
           Inr (c', h', used)"
  shows "predecessor_account_id e = current_account_id e \<and> attached_deposit e = 0 \<and>
     (\<exists>t h1. ft_supply_ok L t \<and>
        (total_supply t = total_supply (token c) \<and> c' = c\<lparr>token := t\<rparr> \<and> h' = h1 \<or>
         (\<exists>burned. 0 < burned \<and> unat (total_supply t) + unat burned = unat (total_supply (token c)) \<and>
            f (c\<lparr>token := t\<rparr>) h1 sender burned = Inr (c', h'))))"
proof -
  from assms(3) obtain t h1 used' burned where
    guards: "predecessor_account_id e = current_account_id e" "attached_deposit e = 0"
    and res: "ft_internal_resolve_transfer L from_slice e (token c) h sender receiver amount =
      Inr (t, h1, used', burned)"
    and hook: "(if 0 < burned then f (c\<lparr>token := t\<rparr>) h1 sender burned
      else Inr (c\<lparr>token := t\<rparr>, h1)) = Inr (c', h')"
    by (auto simp: contract_ft_resolve_transfer_def result_simps run_hook_def split: if_splits)
  from res obtain r u where
    "env_promise_result e 0 = (Inr r :: FtError panic + PromiseResult)"
    "ft_unused_amount from_slice amount r = Inr u"
    by (auto simp: ft_internal_resolve_transfer_def result_simps)
  from balance_store.resolve_spec [OF assms(1,2) this, of h sender receiver] res
  have "ft_supply_ok L t" "unat (total_supply t) + unat burned = unat (total_supply (token c))"
    by (auto simp: ft_settled_def)
  with guards hook show ?thesis
    by (cases "0 < burned") (auto simp: word_unat_eq_iff word_gt_0)
qed

text \<open>The contract of the witness counts the burned tokens in its other field.\<close>

definition demo_count_burned :: "(fun_accounts, nat) ft_hook" where
  "demo_count_burned c h a x = Inr (c\<lparr>rest := rest c + unat x\<rparr>, h)"

definition demo_sender_gone :: "fun_accounts FungibleToken" where
  "demo_sender_gone = \<lparr>accounts = [''bob'' \<mapsto> 30], total_supply = 30, account_storage_usage = 125\<rparr>"

theorem ft_burn_hook_sees_supply_drop_witness:
  "\<exists>c' h' used. contract_ft_resolve_transfer (Some demo_count_burned) fun_map demo_from_slice
       (demo_env ''ft'' 0 [Failed]) \<lparr>token = demo_sender_gone, rest = 0\<rparr> no_effects ''alice'' ''bob'' 20 =
         Inr (c', h', used) \<and>
     (\<exists>t h1. ft_supply_ok fun_map t \<and>
        (total_supply t = 30 \<and> c' = \<lparr>token = t, rest = 0\<rparr> \<and> h' = h1 \<or>
         (\<exists>burned. 0 < burned \<and> unat (total_supply t) + unat burned = 30 \<and>
            demo_count_burned \<lparr>token = t, rest = 0\<rparr> h1 ''alice'' burned = Inr (c', h'))))"
proof -
  have ok: "ft_supply_ok fun_map (token \<lparr>token = demo_sender_gone, rest = 0 :: nat\<rparr>)"
    by (simp add: ft_supply_ok_def word_sum_def demo_sender_gone_def ft_balances_def fun_map_def)
  have "\<exists>c' h' used. contract_ft_resolve_transfer (Some demo_count_burned) fun_map demo_from_slice
       (demo_env ''ft'' 0 [Failed]) \<lparr>token = demo_sender_gone, rest = 0\<rparr> no_effects ''alice'' ''bob'' 20 =
         Inr (c', h', used)"
    by (simp add: contract_ft_resolve_transfer_def assert_private_def assert_not_payable_def
        ft_internal_resolve_transfer_def env_promise_result_def ft_unused_amount_def
        demo_sender_gone_def fun_map_def run_hook_def demo_count_burned_def checked_sub_def
        min_def Let_def)
  then show ?thesis
    using ft_burn_hook_sees_supply_drop [OF demo_store ok]
    by (fastforce simp: demo_sender_gone_def)
qed

subsection \<open>Storage management\<close>

text \<open>Closing an account with exactly one yoctoNEAR attached.  A registered caller with an
  empty balance, or with \<open>force\<close>, is removed, its balance leaves the supply with it, and it is
  paid the storage price and the attached yoctoNEAR back; a positive balance without \<open>force\<close>
  is refused; an unregistered caller gets \<open>false\<close> and nothing changes.  No subtraction of the code
  underflows and the books stay right, under either \<open>overflow-checks\<close> setting.\<close>

theorem ft_storage_unregister_closes:
  assumes "balance_store L" and "ft_supply_ok L t" and "price_fits e t"
    and "attached_deposit e = 1" and "a = predecessor_account_id e"
  shows "case ft_balances L t a of
       None \<Rightarrow> \<exists>h'. ft_storage_unregister L e t h force = Inr (t, h', False) \<and> promises h' = promises h
     | Some b \<Rightarrow>
         if b = 0 \<or> force = Some True then
           \<exists>t'. ft_storage_unregister L e t h force =
                  Inr (t', schedule (Transfer a (price e t + 1)) h, True) \<and>
              ft_balances L t' = (ft_balances L t)(a := None) \<and>
              unat (total_supply t') + unat b = unat (total_supply t) \<and> ft_supply_ok L t' \<and>
              unat (price e t + 1) = storage_price e t + 1
         else ft_storage_unregister L e t h force = Inl (Msg PositiveBalanceWithoutForce)"
proof (cases "ft_balances L t a")
  case None
  then show ?thesis
    using balance_store.unregister_eq [OF assms(1-4), of h force] assms(5)
    by (simp add: ft_storage_unregister_def Let_def)
next
  case (Some b)
  let ?t' = "t\<lparr>accounts := fst (lm_remove L (accounts t) a), total_supply := total_supply t - b\<rparr>"
  have force: "unwrap_or False force \<longleftrightarrow> force = Some True"
    by (cases force) auto
  have eq: "ft_storage_unregister L e t h force =
      (if b = 0 \<or> force = Some True
       then Inr (?t', schedule (Transfer a (price e t + 1)) h, True)
       else Inl (Msg PositiveBalanceWithoutForce))"
    using balance_store.unregister_eq [OF assms(1-4), of h force] assms(5) Some
    by (simp add: ft_storage_unregister_def Let_def force)
  have "ft_supply_ok L ?t'"
    using balance_store.unregister_supply_ok [OF assms(1,2) Some] .
  moreover have "ft_balances L ?t' = (ft_balances L t)(a := None)"
    using assms(1) by (simp add: ft_balances_def balance_store_def lookup_map.get_remove)
  moreover have "unat (total_supply t - b) + unat b = unat (total_supply t)"
    using balance_store.supply_ok_bounds(1) [OF assms(1,2) Some] by (simp add: unat_sub_exact)
  moreover have "unat (price e t + 1) = storage_price e t + 1"
    using assms(3) unat_price [OF assms(3)] by (subst unat_add_u128) (auto simp: price_fits_def)
  ultimately show ?thesis using Some eq by auto
qed

theorem ft_storage_unregister_closes_witness:
  "\<exists>t'. ft_storage_unregister fun_map (demo_env ''alice'' 1 []) demo_token no_effects (Some True) =
          Inr (t', schedule (Transfer ''alice'' 1251) no_effects, True) \<and>
      ft_balances fun_map t' = [''bob'' \<mapsto> 0] \<and> total_supply t' = 0"
proof -
  have "price (demo_env ''alice'' 1 []) demo_token = 1250" by (simp add: price_def)
  moreover have "(ft_balances fun_map demo_token)(''alice'' := None) = [''bob'' \<mapsto> 0]"
    by (auto simp: fun_eq_iff)
  ultimately show ?thesis
    using ft_storage_unregister_closes [OF demo_store demo_supply_ok demo_price, of "''alice''" 1 "[]"
        "''alice''" no_effects "Some True"]
    by (auto simp: unat_eq_0)
qed

text \<open>Paying for an account.  \<open>storage_deposit\<close> returns unless the account is new and the
  deposit is below the price; the account is then registered (a new one with an empty balance,
  every other balance untouched) and reported with the price as its total and nothing
  available; and of the attached deposit the contract keeps exactly the price of a new account
  and pays the rest back to the caller, to the last yoctoNEAR.\<close>

theorem ft_storage_deposit_accounts_for_deposit:
  assumes "balance_store L" and "price_fits e t"
    and "a = unwrap_or (predecessor_account_id e) account_id"
  shows "if ft_balances L t a = None \<and> attached_deposit e < price e t
    then ft_storage_deposit L e t h account_id registration_only = Inl (Msg DepositTooSmall)
    else \<exists>t' h'. ft_storage_deposit L e t h account_id registration_only =
             Inr (t', h', \<lparr>sb_total = price e t, sb_available = 0\<rparr>) \<and>
           ft_balances L t' =
             (if ft_balances L t a = None then (ft_balances L t)(a \<mapsto> 0) else ft_balances L t) \<and>
           total_supply t' = total_supply t \<and>
           total_paid_to (predecessor_account_id e) h' +
             (if ft_balances L t a = None then storage_price e t else 0) =
           total_paid_to (predecessor_account_id e) h + unat (attached_deposit e)"
proof (cases "ft_balances L t a")
  case None
  show ?thesis
  proof (cases "attached_deposit e < price e t")
    case True
    then show ?thesis
      using balance_store.deposit_new_eq [OF assms(1,2) assms(3) [symmetric] None] None by simp
  next
    case False
    then have le: "storage_price e t \<le> unat (attached_deposit e)"
      using unat_price [OF assms(2)] by (simp add: word_less_nat_alt)
    then have refund: "unat (attached_deposit e - price e t) = unat (attached_deposit e) - storage_price e t"
      using unat_price [OF assms(2)] by (simp add: unat_sub_exact)
    have zero: "unat (attached_deposit e) = storage_price e t" if "\<not> 0 < attached_deposit e - price e t"
      using that refund le by (simp add: word_gt_0)
    show ?thesis
      using balance_store.deposit_new_eq [OF assms(1,2) assms(3) [symmetric] None, of h registration_only]
        False None refund le zero balance_store.balances_insert(2) [OF assms(1), of t a 0]
      by (auto simp: Let_def)
  qed
next
  case (Some b)
  then have "ft_balances L t a \<noteq> None" by simp
  from balance_store.deposit_registered_eq [OF assms(1,2) assms(3) [symmetric] this, of h registration_only]
  show ?thesis using Some by (auto simp: Let_def word_gt_0)
qed

theorem ft_storage_deposit_accounts_for_deposit_witness:
  "\<exists>t' h'. ft_storage_deposit fun_map (demo_env ''alice'' 2000 []) demo_token no_effects
       (Some ''carol'') None = Inr (t', h', \<lparr>sb_total = 1250, sb_available = 0\<rparr>) \<and>
     ft_balances fun_map t' = [''alice'' \<mapsto> 100, ''bob'' \<mapsto> 0, ''carol'' \<mapsto> 0] \<and>
     total_paid_to ''alice'' h' = 750"
proof -
  have "price (demo_env ''alice'' 2000 []) demo_token = 1250"
    and "storage_price (demo_env ''alice'' 2000 []) demo_token = 1250"
    by (simp_all add: price_def storage_price_def)
  then show ?thesis
    using ft_storage_deposit_accounts_for_deposit [OF demo_store demo_price, of "''carol''" "''alice''"
        2000 "[]" "Some ''carol''" no_effects None]
    by auto
qed

text \<open>Withdrawing storage deposit never pays anything: \<open>storage_withdraw\<close> returns exactly when
  one yoctoNEAR is attached, the caller is registered and the amount is absent or zero, and then
  reports the price as total and nothing available.  It has no effect on the state.\<close>

theorem ft_storage_withdraw_iff:
  assumes "balance_store L" and "price_fits e t"
  shows "ft_storage_withdraw L e t amount = Inr sb \<longleftrightarrow>
     attached_deposit e = 1 \<and> ft_balances L t (predecessor_account_id e) \<noteq> None \<and>
     unwrap_or 0 amount = 0 \<and> sb = \<lparr>sb_total = price e t, sb_available = 0\<rparr>"
  using balance_store.storage_balance_of_eq [OF assms, of "predecessor_account_id e"]
  by (auto simp: ft_storage_withdraw_def result_simps Let_def word_gt_0 split: option.splits)

theorem ft_storage_withdraw_iff_witness:
  "ft_storage_withdraw fun_map (demo_env ''alice'' 1 []) demo_token (Some 0) =
     Inr \<lparr>sb_total = 1250, sb_available = 0\<rparr> \<and>
   ft_storage_withdraw fun_map (demo_env ''alice'' 1 []) demo_token (Some 5) \<noteq>
     Inr \<lparr>sb_total = 1250, sb_available = 0\<rparr>"
  using ft_storage_withdraw_iff [OF demo_store demo_price, of "''alice''" 1 "[]"]
  by (auto simp: price_def)

text \<open>A token just built has no accounts and no supply, its books are right, and the recorded
  storage size of one account is what the host charged for a longest account id while one was
  stored; the account used to measure it is gone again.\<close>

theorem ft_new_is_empty:
  assumes "balance_store L" and "ft_new L usage e prefix = Inr t"
    and "usage (lm_new L prefix) \<le> usage (fst (lm_insert L (lm_new L prefix) (replicate 64 (CHR ''a'')) 0))"
  shows "ft_balances L t = Map.empty \<and> total_supply t = 0 \<and> ft_supply_ok L t \<and>
     account_storage_usage t =
       usage (fst (lm_insert L (lm_new L prefix) (replicate 64 (CHR ''a'')) 0)) -
       usage (lm_new L prefix)"
proof -
  have "account_storage_usage t =
       usage (fst (lm_insert L (lm_new L prefix) (replicate 64 (CHR ''a'')) 0)) -
       usage (lm_new L prefix)"
    using assms(2,3)
    by (auto simp: ft_new_def ft_measure_account_storage_usage_def result_simps Let_def
        sub_op_exact word_le_nat_alt)
  then show ?thesis
    using balance_store.new_empty [OF assms(1,2)] balance_store.new_supply_ok [OF assms(1,2)] by simp
qed

theorem ft_new_is_empty_witness:
  "account_storage_usage \<lparr>accounts = Map.empty :: fun_accounts, total_supply = 0,
     account_storage_usage = 125\<rparr> =
   demo_usage [replicate 64 (CHR ''a'') \<mapsto> 0] - demo_usage Map.empty"
  using ft_new_is_empty [OF demo_store demo_new]
  by (simp add: fun_map_def demo_usage_def)

end
