(* ===== verification/NativeTokens.thy ===== *)
theory NativeTokens
  imports Near
begin

section \<open>What a call pays out\<close>

text \<open>
  The native tokens that leave a contract with the promises of a call: the plain transfers, and the
  deposits attached to calls of other contracts.
\<close>

fun outflow :: "'c Promise \<Rightarrow> nat" where
  "outflow (Transfer a x) = unat x"
| "outflow (DeployContract a code) = 0"
| "outflow (FunctionCall a c d g) = unat d"
| "outflow (Then p q) = outflow p + outflow q"

definition total_outflow :: "('l, 'c) effects \<Rightarrow> nat" where
  "total_outflow h = sum_list (map outflow (promises h))"

lemma total_outflow_simps [simp]:
  "total_outflow no_effects = 0"
  "total_outflow (log l h) = total_outflow h"
  "total_outflow (schedule p h) = total_outflow h + outflow p"
  by (simp_all add: total_outflow_def)

end
