(* ===== verification/FtSolvency.thy ===== *)
theory FtSolvency
  imports FtProperties NativeTokens
begin

section \<open>The deposits of the fungible token\<close>

text \<open>
  A contract of \<open>nep-interface\<close>'s fungible token holds the storage deposits of its accounts in
  native tokens.  Here its life is run with the money: what every call brings in as its attached
  deposit, and what its promises pay out.  The theorem says that the account of the contract always
  holds the price of every registered account, plus one yoctoNEAR for each call that demanded one
  and did not give it back, so that every account can be closed and paid.  The contract has no
  hooks, and registers accounts by \<open>storage_deposit\<close> only.
\<close>

subsection \<open>The life of a contract, with the money\<close>

record ('m, 'r) purse =
  purse_contract :: "('m, 'r) ft_contract"
  received :: nat
  paid :: nat
  yoctos :: nat

text \<open>\<open>cost\<close> is the price of a byte, the same for all calls.\<close>

inductive purse_step ::
    "'m balances_ops \<Rightarrow> (bytes \<Rightarrow> u128 option) \<Rightarrow> Balance \<Rightarrow> ('m, 'r) purse \<Rightarrow> ('m, 'r) purse \<Rightarrow> bool"
  for L :: "'m balances_ops" and from_slice :: "bytes \<Rightarrow> u128 option" and cost :: Balance where
  purse_transfer:
    "contract_ft_transfer L e c no_effects r x memo = Inr (c', h) \<Longrightarrow>
     purse_step L from_slice cost
       \<lparr>purse_contract = c, received = i, paid = p, yoctos = k\<rparr>
       \<lparr>purse_contract = c', received = i + unat (attached_deposit e), paid = p + total_outflow h,
        yoctos = Suc k\<rparr>"
| purse_transfer_call:
    "contract_ft_transfer_call L e c no_effects r x memo msg = Inr (c', h) \<Longrightarrow>
     purse_step L from_slice cost
       \<lparr>purse_contract = c, received = i, paid = p, yoctos = k\<rparr>
       \<lparr>purse_contract = c', received = i + unat (attached_deposit e), paid = p + total_outflow h,
        yoctos = Suc k\<rparr>"
| purse_settle:
    "contract_ft_resolve_transfer None L from_slice e c no_effects s r x = Inr (c', h, used) \<Longrightarrow>
     purse_step L from_slice cost
       \<lparr>purse_contract = c, received = i, paid = p, yoctos = k\<rparr>
       \<lparr>purse_contract = c', received = i + unat (attached_deposit e), paid = p + total_outflow h,
        yoctos = k\<rparr>"
| purse_register:
    "contract_storage_deposit L e c no_effects a ro = Inr (c', h, sb) \<Longrightarrow> storage_byte_cost e = cost \<Longrightarrow>
     purse_step L from_slice cost
       \<lparr>purse_contract = c, received = i, paid = p, yoctos = k\<rparr>
       \<lparr>purse_contract = c', received = i + unat (attached_deposit e), paid = p + total_outflow h,
        yoctos = k\<rparr>"
| purse_query:
    "contract_storage_withdraw L e c amount = Inr sb \<Longrightarrow>
     purse_step L from_slice cost
       \<lparr>purse_contract = c, received = i, paid = p, yoctos = k\<rparr>
       \<lparr>purse_contract = c, received = i + unat (attached_deposit e), paid = p, yoctos = Suc k\<rparr>"
| purse_unregister:
    "contract_storage_unregister None L e c no_effects force = Inr (c', h, closed) \<Longrightarrow>
     storage_byte_cost e = cost \<Longrightarrow>
     purse_step L from_slice cost
       \<lparr>purse_contract = c, received = i, paid = p, yoctos = k\<rparr>
       \<lparr>purse_contract = c', received = i + unat (attached_deposit e), paid = p + total_outflow h,
        yoctos = (if closed then k else Suc k)\<rparr>"
| purse_mint:
    "ft_internal_deposit L (token c) a x = Inr t \<Longrightarrow>
     purse_step L from_slice cost
       \<lparr>purse_contract = c, received = i, paid = p, yoctos = k\<rparr>
       \<lparr>purse_contract = c\<lparr>token := t\<rparr>, received = i, paid = p, yoctos = k\<rparr>"
| purse_burn:
    "ft_internal_withdraw L (token c) a x = Inr t \<Longrightarrow>
     purse_step L from_slice cost
       \<lparr>purse_contract = c, received = i, paid = p, yoctos = k\<rparr>
       \<lparr>purse_contract = c\<lparr>token := t\<rparr>, received = i, paid = p, yoctos = k\<rparr>"

definition purse_init :: "'m balances_ops \<Rightarrow> ('m \<Rightarrow> StorageUsage) \<Rightarrow> ('m, 'r) purse \<Rightarrow> bool" where
  "purse_init L usage s \<longleftrightarrow>
     (\<exists>e prefix. ft_new L usage e prefix = Inr (token (purse_contract s))) \<and>
     received s = 0 \<and> paid s = 0 \<and> yoctos s = 0"

text \<open>The price of an account, and the invariant, for prices that fit a balance.\<close>

definition account_price :: "Balance \<Rightarrow> 'm FungibleToken \<Rightarrow> nat" where
  "account_price cost t = unat (account_storage_usage t) * unat cost"

definition purse_ok :: "'m balances_ops \<Rightarrow> Balance \<Rightarrow> ('m, 'r) purse \<Rightarrow> bool" where
  "purse_ok L cost s \<longleftrightarrow>
     (let t = token (purse_contract s) in
      ft_supply_ok L t \<and>
      (account_price cost t + 1 < 2 ^ 128 \<longrightarrow>
         received s = paid s + card (dom (ft_balances L t)) * account_price cost t + yoctos s))"

subsection \<open>What each operation does to the accounts and the money\<close>

text \<open>The same accounts are registered, at the same price.\<close>

definition same_accounts :: "'m balances_ops \<Rightarrow> 'm FungibleToken \<Rightarrow> 'm FungibleToken \<Rightarrow> bool" where
  "same_accounts L t t' \<longleftrightarrow>
     dom (ft_balances L t') = dom (ft_balances L t) \<and>
     account_storage_usage t' = account_storage_usage t"

lemma price_fits_iff:
  "storage_byte_cost e = cost \<Longrightarrow> price_fits e t \<longleftrightarrow> account_price cost t + 1 < 2 ^ 128"
  "storage_byte_cost e = cost \<Longrightarrow> storage_price e t = account_price cost t"
  by (auto simp: price_fits_def storage_price_def account_price_def)

lemma emits_pay_nothing [simp]:
  "total_outflow (ft_transfer_emit ev h) = total_outflow h"
  "total_outflow (ft_burn_emit ev' h) = total_outflow h"
  by (simp_all add: total_outflow_def ft_transfer_emit_def ft_burn_emit_def ft_transfer_emit_many_def
      ft_burn_emit_many_def near_event_emit_def)

context balance_store
begin

lemma deposit_same: "ft_internal_deposit L t a x = Inr t' \<Longrightarrow> same_accounts L t t'"
  by (auto simp: deposit_iff same_accounts_def balances_insert split: if_splits)

lemma withdraw_same: "ft_internal_withdraw L t a x = Inr t' \<Longrightarrow> same_accounts L t t'"
  by (auto simp: withdraw_iff same_accounts_def balances_insert split: if_splits)

lemma internal_transfer_same:
  "ft_internal_transfer L t h s r x memo = Inr (t', h') \<Longrightarrow>
     same_accounts L t t' \<and> total_outflow h' = total_outflow h"
  by (auto simp: internal_transfer_iff same_accounts_def ft_balances_def map_laws split: if_splits)

lemma transfer_call_same:
  "ft_transfer_call L e t h r x memo msg = Inr (t', h') \<Longrightarrow>
     same_accounts L t t' \<and> total_outflow h' = total_outflow h"
  by (auto simp: transfer_call_iff ft_call_promise_def dest!: internal_transfer_same)

lemma resolve_same:
  "ft_internal_resolve_transfer L from_slice e t h s r x = Inr (t', h', used, burned) \<Longrightarrow>
     same_accounts L t t' \<and> total_outflow h' = total_outflow h"
  by (cases "lm_get L (accounts t) r")
    (auto simp: ft_internal_resolve_transfer_def result_simps Let_def same_accounts_def
      ft_balances_def map_laws split: if_splits option.splits)

lemma storage_usage_same:
  "ft_storage_deposit L e t h acc ro = Inr (t', h', sb) \<Longrightarrow>
     account_storage_usage t' = account_storage_usage t"
  "ft_internal_storage_unregister L e t h force = Inr (t', h', closed) \<Longrightarrow>
     account_storage_usage t' = account_storage_usage t"
  by (auto simp: ft_storage_deposit_def ft_internal_storage_unregister_def register_iff result_simps
      Let_def split: if_splits option.splits)

text \<open>Registering an account brings its price in; closing one pays it out, with the yoctoNEAR.\<close>

lemma register_money:
  assumes "ft_storage_deposit L e t no_effects acc ro = Inr (t', h, sb)" and "price_fits e t"
    and "finite (dom (ft_balances L t))"
  shows "unat (attached_deposit e) + card (dom (ft_balances L t)) * storage_price e t =
       total_outflow h + card (dom (ft_balances L t')) * storage_price e t"
proof (cases "ft_balances L t (unwrap_or (predecessor_account_id e) acc)")
  case None
  note eq = deposit_new_eq [OF assms(2) refl None, of no_effects ro]
  have le: "price e t \<le> attached_deposit e"
    using assms(1) eq by (auto split: if_splits)
  then have "unat (attached_deposit e - price e t) + storage_price e t = unat (attached_deposit e)"
    using unat_price [OF assms(2)] by (simp add: unat_sub_exact word_le_nat_alt)
  moreover have t': "t' = t\<lparr>accounts :=
        fst (lm_insert L (accounts t) (unwrap_or (predecessor_account_id e) acc) 0)\<rparr>"
    and h: "total_outflow h = unat (attached_deposit e - price e t)"
    using assms(1) leD [OF le] unfolding eq Let_def
    by (simp_all only: if_False sum.inject prod.inject) (auto simp: word_gt_0)
  have "card (dom (ft_balances L t')) = Suc (card (dom (ft_balances L t)))"
    using assms(3) None by (simp add: t' balances_insert domIff)
  with calculation h show ?thesis by (simp add: t')
next
  case (Some b)
  then have "ft_balances L t (unwrap_or (predecessor_account_id e) acc) \<noteq> None" by simp
  from deposit_registered_eq [OF assms(2) refl this, of no_effects ro] assms(1)
  show ?thesis by (auto simp: Let_def word_gt_0)
qed

lemma unregister_money:
  assumes "ft_internal_storage_unregister L e t no_effects force = Inr (t', h, closed)"
    and "ft_supply_ok L t" and "price_fits e t"
  shows "unat (attached_deposit e) + card (dom (ft_balances L t)) * storage_price e t =
       total_outflow h + card (dom (ft_balances L t')) * storage_price e t +
       (if closed = None then 1 else 0)"
proof -
  have yocto: "attached_deposit e = 1"
    using assms(1) by (auto simp: ft_internal_storage_unregister_def result_simps)
  note eq = unregister_eq [OF assms(2,3) yocto, of no_effects force]
  show ?thesis
  proof (cases "ft_balances L t (predecessor_account_id e)")
    case None
    then show ?thesis using assms(1) yocto unfolding eq by (auto simp: Let_def)
  next
    case (Some b)
    then have t': "t' = t\<lparr>accounts := fst (lm_remove L (accounts t) (predecessor_account_id e)),
          total_supply := total_supply t - b\<rparr>"
      and h: "h = schedule (Transfer (predecessor_account_id e) (price e t + 1)) no_effects"
      and closed: "closed \<noteq> None"
      using assms(1) eq by (auto simp: Let_def split: if_splits)
    have "unat (price e t + 1) = storage_price e t + 1"
      using assms(3) unat_price [OF assms(3)] by (subst unat_add_u128) (auto simp: price_fits_def)
    moreover have "ft_balances L t' = (ft_balances L t)(predecessor_account_id e := None)"
      by (simp add: t' ft_balances_def map_laws)
    then have "card (dom (ft_balances L t)) = Suc (card (dom (ft_balances L t')))"
      using assms(2) Some
      by (simp add: ft_supply_ok_def) (metis card.remove domI)
    ultimately show ?thesis using yocto h closed by (simp add: t')
  qed
qed

subsection \<open>The invariant\<close>

lemma purse_supply_ok:
  "purse_ok L cost \<lparr>purse_contract = c, received = i, paid = p, yoctos = k\<rparr> \<Longrightarrow> ft_supply_ok L (token c)"
  by (simp add: purse_ok_def Let_def)

lemma same_accounts_ok:
  assumes "purse_ok L cost \<lparr>purse_contract = c, received = i, paid = p, yoctos = k\<rparr>"
    and "same_accounts L (token c) t" and "ft_supply_ok L t"
    and "i' + p + k = i + p' + k'"
  shows "purse_ok L cost \<lparr>purse_contract = c\<lparr>token := t\<rparr>, received = i', paid = p', yoctos = k'\<rparr>"
  using assms by (auto simp: purse_ok_def Let_def same_accounts_def account_price_def)

lemma purse_register_ok:
  assumes "contract_storage_deposit L e c no_effects a ro = Inr (c', h, sb)"
    and "storage_byte_cost e = cost"
    and "purse_ok L cost \<lparr>purse_contract = c, received = i, paid = p, yoctos = k\<rparr>"
  shows "purse_ok L cost \<lparr>purse_contract = c', received = i + unat (attached_deposit e),
     paid = p + total_outflow h, yoctos = k\<rparr>"
proof -
  obtain t where dep: "ft_storage_deposit L e (token c) no_effects a ro = Inr (t, h, sb)"
    and c': "c' = c\<lparr>token := t\<rparr>"
    using assms(1) by (auto simp: contract_storage_deposit_def result_simps)
  with assms(2,3) show ?thesis
    using register_money [OF dep] deposit_storage_supply_ok [OF _ dep]
      price_fits_iff [of e cost "token c"] storage_usage_same(1) [OF dep]
    by (auto simp: purse_ok_def Let_def ft_supply_ok_def account_price_def)
qed

lemma purse_unregister_ok:
  assumes "contract_storage_unregister None L e c no_effects force = Inr (c', h, closed)"
    and "storage_byte_cost e = cost"
    and "purse_ok L cost \<lparr>purse_contract = c, received = i, paid = p, yoctos = k\<rparr>"
  shows "purse_ok L cost \<lparr>purse_contract = c', received = i + unat (attached_deposit e),
     paid = p + total_outflow h, yoctos = (if closed then k else Suc k)\<rparr>"
proof -
  obtain t cl where un: "ft_internal_storage_unregister L e (token c) no_effects force = Inr (t, h, cl)"
    and c': "c' = c\<lparr>token := t\<rparr>" and closed: "closed \<longleftrightarrow> cl \<noteq> None"
    using assms(1)
    by (auto simp: contract_storage_unregister_def run_hook_def result_simps split: option.splits)
  with assms(2,3) show ?thesis
    using unregister_money [OF un] internal_unregister_supply_ok [OF _ un]
      price_fits_iff [of e cost "token c"] storage_usage_same(2) [OF un]
    by (cases cl) (auto simp: purse_ok_def Let_def account_price_def)
qed

lemma purse_step_ok:
  assumes "purse_step L from_slice cost s s'" and "purse_ok L cost s"
  shows "purse_ok L cost s'"
  using assms
proof (induction rule: purse_step.induct)
  case (purse_transfer e c r x memo c' h i p k)
  then obtain t where tr: "ft_internal_transfer L (token c) no_effects (predecessor_account_id e) r x memo =
      Inr (t, h)" and c': "c' = c\<lparr>token := t\<rparr>" and yocto: "attached_deposit e = 1"
    by (auto simp: contract_ft_transfer_def ft_transfer_def result_simps Let_def)
  then show ?case
    using same_accounts_ok [OF purse_transfer.prems _
        internal_transfer_supply_ok(1) [OF purse_supply_ok [OF purse_transfer.prems] tr]]
      internal_transfer_same [OF tr] by simp
next
  case (purse_transfer_call e c r x memo msg c' h i p k)
  then obtain t where tr: "ft_transfer_call L e (token c) no_effects r x memo msg = Inr (t, h)"
    and c': "c' = c\<lparr>token := t\<rparr>"
    by (auto simp: contract_ft_transfer_call_def result_simps)
  then show ?case
    using same_accounts_ok [OF purse_transfer_call.prems _
        transfer_call_supply_ok(1) [OF purse_supply_ok [OF purse_transfer_call.prems] tr]]
      transfer_call_same [OF tr] by (simp add: transfer_call_iff)
next
  case (purse_settle e c s r x c' h used i p k)
  then obtain t b where res: "ft_internal_resolve_transfer L from_slice e (token c) no_effects s r x =
      Inr (t, h, used, b)" and c': "c' = c\<lparr>token := t\<rparr>" and "attached_deposit e = 0"
    by (auto simp: contract_ft_resolve_transfer_def run_hook_def result_simps split: if_splits)
  then show ?case
    using same_accounts_ok [OF purse_settle.prems _
        resolve_supply_ok [OF purse_supply_ok [OF purse_settle.prems] res]]
      resolve_same [OF res] by simp
next
  case (purse_register e c a ro c' h sb i p k)
  then show ?case by (intro purse_register_ok)
next
  case (purse_unregister e c force c' h closed i p k)
  then show ?case by (intro purse_unregister_ok)
next
  case (purse_query e c amount sb i p k)
  then show ?case
    by (auto simp: purse_ok_def Let_def contract_storage_withdraw_def ft_storage_withdraw_def
        result_simps)
next
  case (purse_mint c a x t i p k)
  then show ?case
    using same_accounts_ok [OF purse_mint.prems deposit_same
        deposit_supply_ok [OF purse_supply_ok [OF purse_mint.prems]]] by simp
next
  case (purse_burn c a x t i p k)
  then show ?case
    using same_accounts_ok [OF purse_burn.prems withdraw_same
        withdraw_supply_ok [OF purse_supply_ok [OF purse_burn.prems]]] by simp
qed

lemma purse_init_ok: "purse_init L usage s \<Longrightarrow> purse_ok L cost s"
  using new_supply_ok new_empty(1) by (auto simp: purse_init_def purse_ok_def Let_def)

sublocale purses: invariant_system "purse_init L usage" "purse_step L from_slice cost" "purse_ok L cost"
  by unfold_locales (rule purse_init_ok, assumption, rule purse_step_ok)

lemma purse_reachable_ok:
  "reachable (purse_init L usage) (purse_step L from_slice cost) s \<Longrightarrow> purse_ok L cost s"
  by (rule purses.reachable_inv)

lemma forced_unregister:
  assumes "ft_supply_ok L t" and "price_fits e t" and "attached_deposit e = 1"
    and "ft_balances L t (predecessor_account_id e) \<noteq> None"
  shows "\<exists>t' h. ft_storage_unregister L e t no_effects (Some True) = Inr (t', h, True) \<and>
     total_outflow h = storage_price e t + 1"
proof -
  have "unat (price e t + 1) = storage_price e t + 1"
    using assms(2) unat_price [OF assms(2)] by (subst unat_add_u128) (auto simp: price_fits_def)
  then show ?thesis
    using unregister_eq [OF assms(1-3), of no_effects "Some True"] assms(4)
    by (auto simp: ft_storage_unregister_def Let_def)
qed

end

subsection \<open>Property\<close>

text \<open>C9: the storage deposits are always there.  In every state that transfers, transfer calls,
  settlements, registrations, withdrawals, unregistrations, mints and burns can reach, what the
  contract has received is, to the last yoctoNEAR, what it has paid out, plus the price of each
  registered account, plus one yoctoNEAR for each call that demanded one and did not pay it back.
  So every registered account, whatever it holds, can be closed by \<open>storage_unregister\<close> with
  \<open>force\<close> at any time, and what the contract then owes it is covered.\<close>

theorem ft_storage_deposits_covered:
  assumes "balance_store L" and "reachable (purse_init L usage) (purse_step L from_slice cost) s"
    and "t = token (purse_contract s)" and "p = account_price cost t" and "p + 1 < 2 ^ 128"
  shows "received s = paid s + card (dom (lm_get L (accounts t))) * p + yoctos s \<and>
     (\<forall>e. lm_get L (accounts t) (predecessor_account_id e) \<noteq> None \<and> attached_deposit e = 1 \<and>
        storage_byte_cost e = cost \<longrightarrow>
        (\<exists>t' h. ft_storage_unregister L e t no_effects (Some True) = Inr (t', h, True) \<and>
           total_outflow h = p + 1 \<and>
           paid s + total_outflow h \<le> received s + unat (attached_deposit e)))"
proof (intro conjI allI impI)
  have inv: "purse_ok L cost s" by (rule balance_store.purse_reachable_ok [OF assms(1,2)])
  then show eq: "received s = paid s + card (dom (lm_get L (accounts t))) * p + yoctos s"
    using assms(3-5) by (simp add: purse_ok_def Let_def ft_balances_def)
  have ok: "ft_supply_ok L t" using inv assms(3) by (simp add: purse_ok_def Let_def)
  fix e :: env
  assume e: "lm_get L (accounts t) (predecessor_account_id e) \<noteq> None \<and> attached_deposit e = 1 \<and>
    storage_byte_cost e = cost"
  then have price: "price_fits e t" "storage_price e t = p"
    using price_fits_iff [of e cost t] assms(4,5) by simp_all
  have "card (dom (lm_get L (accounts t))) \<noteq> 0"
    using ok e by (auto simp: ft_supply_ok_def ft_balances_def)
  then obtain n where "card (dom (lm_get L (accounts t))) = Suc n" by (metis not0_implies_Suc)
  then have "paid s + (p + 1) \<le> received s + unat (attached_deposit e)" using eq e by simp
  with balance_store.forced_unregister [OF assms(1) ok price(1)] e price(2)
  show "\<exists>t' h. ft_storage_unregister L e t no_effects (Some True) = Inr (t', h, True) \<and>
      total_outflow h = p + 1 \<and> paid s + total_outflow h \<le> received s + unat (attached_deposit e)"
    by (fastforce simp: ft_balances_def)
qed

text \<open>Alice registers with 2000 attached, and gets 750 back; she can close her account for 1251.\<close>

definition purse_demo :: "(fun_accounts, unit) purse" where
  "purse_demo =
     \<lparr>purse_contract = \<lparr>token = \<lparr>accounts = [''alice'' \<mapsto> 0], total_supply = 0,
        account_storage_usage = 125\<rparr>, rest = ()\<rparr>, received = 2000, paid = 750, yoctos = 0\<rparr>"

lemma purse_demo_reachable:
  "reachable (purse_init fun_map demo_usage) (purse_step fun_map demo_from_slice 10) purse_demo"
proof (rule reachable_step, rule reachable_init)
  let ?t = "\<lparr>accounts = Map.empty :: fun_accounts, total_supply = 0, account_storage_usage = 125\<rparr>"
  let ?c = "\<lparr>token = ?t, rest = ()\<rparr>"
  show "purse_init fun_map demo_usage \<lparr>purse_contract = ?c, received = 0, paid = 0, yoctos = 0\<rparr>"
    using demo_new by (auto simp: purse_init_def)
  have price: "price (demo_env ''alice'' 2000 []) ?t = 1250"
    and fits: "price_fits (demo_env ''alice'' 2000 []) ?t"
    by (simp_all add: price_def price_fits_def storage_price_def)
  then obtain sb where "ft_storage_deposit fun_map (demo_env ''alice'' 2000 []) ?t no_effects None None =
      Inr (?t\<lparr>accounts := [''alice'' \<mapsto> 0]\<rparr>, schedule (Transfer ''alice'' 750) no_effects, sb)"
    using balance_store.deposit_new_eq [OF demo_store fits, of None "''alice''" no_effects None]
    by (auto simp: ft_balances_def fun_map_def Let_def)
  then have "contract_storage_deposit fun_map (demo_env ''alice'' 2000 []) ?c no_effects None None =
      Inr (?c\<lparr>token := ?t\<lparr>accounts := [''alice'' \<mapsto> 0]\<rparr>\<rparr>,
        schedule (Transfer ''alice'' 750) no_effects, sb)"
    by (simp add: contract_storage_deposit_def)
  from purse_register [OF this, of 10 demo_from_slice 0 0 0]
  show "purse_step fun_map demo_from_slice 10
      \<lparr>purse_contract = ?c, received = 0, paid = 0, yoctos = 0\<rparr> purse_demo"
    by (simp add: purse_demo_def)
qed

theorem ft_storage_deposits_covered_witness:
  "\<exists>t' h. ft_storage_unregister fun_map (demo_env ''alice'' 1 []) (token (purse_contract purse_demo))
       no_effects (Some True) = Inr (t', h, True) \<and> total_outflow h = 1251"
proof -
  let ?t = "token (purse_contract purse_demo)"
  have price: "1250 = account_price 10 ?t" by (simp add: account_price_def purse_demo_def)
  have "lm_get fun_map (accounts ?t) ''alice'' \<noteq> None" by (simp add: purse_demo_def fun_map_def)
  with ft_storage_deposits_covered [OF demo_store purse_demo_reachable refl price, THEN conjunct2,
      THEN spec, of "demo_env ''alice'' 1 []"]
  show ?thesis by auto
qed

end
