(* ===== verification/Metadata.thy ===== *)
theory Metadata
  imports Near
begin

section \<open>Token metadata (NEP-148 and NEP-177)\<close>

text \<open>
  \<open>fungible_token/metadata.rs\<close> and \<open>non_fungible_token/metadata.rs\<close>: the metadata structs and
  their \<open>assert_valid\<close> checks.  A \<open>require!\<close> without a message panics with a fixed text, here
  \<open>RequireFailed\<close>.  The lemmas state exactly which values pass.
\<close>

type_synonym Base64VecU8 = bytes

datatype MetadataError =
    RequireFailed
  | HashNot32Bytes
  | MediaHashNot32Bytes
  | ReferenceHashNot32Bytes
  | SpecNotNft
  | ReferenceAndHash

fun metadata_error_message :: "MetadataError \<Rightarrow> string" where
  "metadata_error_message RequireFailed = ''require! assertion failed''"
| "metadata_error_message HashNot32Bytes = ''Hash has to be 32 bytes''"
| "metadata_error_message MediaHashNot32Bytes = ''Media hash has to be 32 bytes''"
| "metadata_error_message ReferenceHashNot32Bytes = ''Reference hash has to be 32 bytes''"
| "metadata_error_message SpecNotNft = ''Spec is not NFT metadata''"
| "metadata_error_message ReferenceAndHash = ''Reference and reference hash must be present''"

type_synonym metadata_result = "MetadataError panic + unit"

text \<open>\<open>if let Some(hash) = ..  { require!(hash.0.len() == 32, ..) }\<close>\<close>

definition require_hash_length :: "MetadataError \<Rightarrow> Base64VecU8 option \<Rightarrow> metadata_result" where
  "require_hash_length err hash =
     (case hash of Some h \<Rightarrow> require (length h = 32) (Msg err) | None \<Rightarrow> Inr ())"

subsection \<open>Fungible tokens\<close>

record FungibleTokenMetadata =
  ftm_spec :: string
  ftm_name :: string
  ftm_symbol :: string
  ftm_icon :: "string option"
  ftm_reference :: "string option"
  ftm_reference_hash :: "Base64VecU8 option"
  ftm_decimals :: u8

definition FT_METADATA_SPEC :: string where
  "FT_METADATA_SPEC = ''ft-1.0.0''"

definition ft_metadata_assert_valid :: "FungibleTokenMetadata \<Rightarrow> metadata_result" where
  "ft_metadata_assert_valid m =
     rbind (require (ftm_spec m = FT_METADATA_SPEC) (Msg RequireFailed)) (\<lambda>_.
     rbind (require ((ftm_reference m \<noteq> None) = (ftm_reference_hash m \<noteq> None)) (Msg RequireFailed)) (\<lambda>_.
     require_hash_length HashNot32Bytes (ftm_reference_hash m)))"

subsection \<open>Non-fungible tokens\<close>

record NFTContractMetadata =
  nftm_spec :: string
  nftm_name :: string
  nftm_symbol :: string
  nftm_icon :: "string option"
  nftm_base_uri :: "string option"
  nftm_reference :: "string option"
  nftm_reference_hash :: "Base64VecU8 option"

record TokenMetadata =
  tm_title :: "string option"
  tm_description :: "string option"
  tm_media :: "string option"
  tm_media_hash :: "Base64VecU8 option"
  tm_copies :: "u64 option"
  tm_issued_at :: "string option"
  tm_expires_at :: "string option"
  tm_starts_at :: "string option"
  tm_updated_at :: "string option"
  tm_extra :: "string option"
  tm_reference :: "string option"
  tm_reference_hash :: "Base64VecU8 option"

definition NFT_METADATA_SPEC :: string where
  "NFT_METADATA_SPEC = ''nft-1.0.0''"

definition nft_contract_metadata_assert_valid :: "NFTContractMetadata \<Rightarrow> metadata_result" where
  "nft_contract_metadata_assert_valid m =
     rbind (require (nftm_spec m = NFT_METADATA_SPEC) (Msg SpecNotNft)) (\<lambda>_.
     rbind (require ((nftm_reference m \<noteq> None) = (nftm_reference_hash m \<noteq> None))
              (Msg ReferenceAndHash)) (\<lambda>_.
     require_hash_length HashNot32Bytes (nftm_reference_hash m)))"

definition token_metadata_assert_valid :: "TokenMetadata \<Rightarrow> metadata_result" where
  "token_metadata_assert_valid m =
     rbind (require ((tm_media m \<noteq> None) = (tm_media_hash m \<noteq> None)) (Msg RequireFailed)) (\<lambda>_.
     rbind (require_hash_length MediaHashNot32Bytes (tm_media_hash m)) (\<lambda>_.
     rbind (require ((tm_reference m \<noteq> None) = (tm_reference_hash m \<noteq> None)) (Msg RequireFailed)) (\<lambda>_.
     require_hash_length ReferenceHashNot32Bytes (tm_reference_hash m))))"

subsection \<open>What passes\<close>

text \<open>A link and its hash come together, and the hash has the length of a SHA-256 digest.\<close>

definition linked_with_digest :: "string option \<Rightarrow> Base64VecU8 option \<Rightarrow> bool" where
  "linked_with_digest link hash \<longleftrightarrow>
     (case (link, hash) of
        (None, None) \<Rightarrow> True
      | (Some l, Some h) \<Rightarrow> length h = 32
      | _ \<Rightarrow> False)"

lemma require_hash_length_iff [result_simps]:
  "require_hash_length err hash = Inr u \<longleftrightarrow> (\<forall>h. hash = Some h \<longrightarrow> length h = 32)"
  by (simp add: require_hash_length_def require_eq_Inr split: option.split)

text \<open>The two requirements of the code on a link and its hash are that predicate.\<close>

lemma linked_with_digest_iff [result_simps]:
  "((link \<noteq> None) = (hash \<noteq> None) \<and> (\<forall>h. hash = Some h \<longrightarrow> length h = 32)) \<longleftrightarrow>
     linked_with_digest link hash"
  by (cases link; cases hash) (simp_all add: linked_with_digest_def)

text \<open>What metadata passes.  Each \<open>assert_valid\<close> returns exactly when the version string is
  the standard's (for the two contract-level structs) and every link that is present comes with a
  hash of 32 bytes, and no hash comes without its link.\<close>

theorem metadata_valid_iff:
  "(ft_metadata_assert_valid f = Inr () \<longleftrightarrow>
      ftm_spec f = ''ft-1.0.0'' \<and> linked_with_digest (ftm_reference f) (ftm_reference_hash f)) \<and>
   (nft_contract_metadata_assert_valid c = Inr () \<longleftrightarrow>
      nftm_spec c = ''nft-1.0.0'' \<and> linked_with_digest (nftm_reference c) (nftm_reference_hash c)) \<and>
   (token_metadata_assert_valid t = Inr () \<longleftrightarrow>
      linked_with_digest (tm_media t) (tm_media_hash t) \<and>
      linked_with_digest (tm_reference t) (tm_reference_hash t))"
  by (auto simp: ft_metadata_assert_valid_def nft_contract_metadata_assert_valid_def
      token_metadata_assert_valid_def FT_METADATA_SPEC_def NFT_METADATA_SPEC_def rbind_eq_Inr
      require_eq_Inr require_hash_length_iff linked_with_digest_def split: option.splits)

end
