(* ===== verification/Nft.thy ===== *)
theory Nft
  imports Events Collections Metadata
begin

section \<open>The non-fungible token (NEP-171)\<close>

text \<open>
  \<open>examples/nep-interface/src/non_fungible_token\<close>: \<open>core/core_impl.rs\<close>, \<open>token.rs\<close> and
  \<open>utils.rs\<close>.  The token keeps the owner of every token id in a \<open>TreeMap\<close> and, for each
  extension that is switched on, one more collection in an \<open>Option\<close>.  All collections are
  parameters, bundled with the two host functions the code uses for storage keys in the record
  \<open>nft_ops\<close>.  A set of tokens is stored under a key derived from its owner alone and reached
  only through that owner's entry, so the sets are values here.  Rust's \<open>HashMap<AccountId, u64>\<close>
  is an association list with distinct keys; no result of the code depends on its order.
\<close>

subsection \<open>State, calls and messages\<close>

type_synonym approvals = "(AccountId, u64) alist"

record Token =
  tok_token_id :: TokenId
  tok_owner_id :: AccountId
  tok_metadata :: "TokenMetadata option"
  tok_approved_account_ids :: "approvals option"

record ('o, 'md, 'te, 'ap, 'nx) NonFungibleToken =
  nft_owner_id :: AccountId
  extra_storage_in_bytes_per_token :: StorageUsage
  owner_by_id :: 'o
  token_metadata_by_id :: "'md option"
  tokens_per_owner :: "'te option"
  approvals_by_id :: "'ap option"
  next_approval_id_by_id :: "'nx option"

datatype StorageKey = TokensPerOwner (account_hash: bytes)

record ('o, 'md, 'te, 'us, 'ap, 'nx) nft_ops =
  owners_ops :: "('o, TokenId, AccountId) tree_map_ops"
  metadata_ops :: "('md, TokenId, TokenMetadata) map_ops"
  per_owner_ops :: "('te, AccountId, 'us) map_ops"
  token_set_ops :: "('us, TokenId) set_ops"
  approvals_ops :: "('ap, TokenId, approvals) map_ops"
  next_id_ops :: "('nx, TokenId, u64) map_ops"
  sha256 :: "bytes \<Rightarrow> bytes"
  into_storage_key :: "StorageKey \<Rightarrow> bytes"

datatype NftCall =
    NftOnTransfer AccountId AccountId TokenId string
  | NftResolveTransfer AccountId AccountId TokenId "approvals option"
  | NftOnApprove TokenId AccountId u64 string

datatype NftError =
    TokenNotFound
  | Unauthorized
  | SenderNotApproved
  | WrongApprovalId "u64 option" "u64 option"
  | OwnersMustDiffer
  | NoTokensPerOwner
  | CallerNotContractOwner
  | MustProvideMetadata
  | TokenIdNotUnique
  | MustAttach Balance
  | AtLeastOneYocto
  | NftMoreGasRequired
  | NoApprovalManagement
  | NextApprovalIdMissing
  | PredecessorNotTokenOwner
  | EnumerationMissing
  | FromIndexOutOfBounds
  | LimitOfZero

type_synonym nft_effects = "NftCall token_effects"
type_synonym 'a nft_result = "NftError panic + 'a"

definition NFT_GAS_FOR_RESOLVE_TRANSFER :: Gas where
  "NFT_GAS_FOR_RESOLVE_TRANSFER = 5000000000000"

definition GAS_FOR_NFT_TRANSFER_CALL :: Gas where
  "GAS_FOR_NFT_TRANSFER_CALL = 25000000000000 + NFT_GAS_FOR_RESOLVE_TRANSFER"

text \<open>\<open>as_bytes\<close> of a string or an account id.\<close>

definition as_bytes :: "string \<Rightarrow> bytes" where
  "as_bytes s = map of_char s"

definition new_token_set ::
    "('o, 'md, 'te, 'us, 'ap, 'nx) nft_ops \<Rightarrow> AccountId \<Rightarrow> 'us" where
  "new_token_set K account_id =
     us_new (token_set_ops K)
       (into_storage_key K (TokensPerOwner (sha256 K (as_bytes account_id))))"

subsection \<open>Deposits and refunds (\<open>utils.rs\<close>)\<close>

definition bytes_for_approved_account_id :: "env \<Rightarrow> AccountId \<Rightarrow> u64 nft_result" where
  "bytes_for_approved_account_id e account_id =
     rbind (add_op (overflow_checks e) (of_nat (length account_id)) 4) (\<lambda>n.
     add_op (overflow_checks e) n 8)"

text \<open>\<open>.map(bytes_for_approved_account_id).sum()\<close>, from the left.\<close>

fun storage_released :: "env \<Rightarrow> u64 \<Rightarrow> AccountId list \<Rightarrow> u64 nft_result" where
  "storage_released e acc [] = Inr acc"
| "storage_released e acc (a # as) =
     rbind (bytes_for_approved_account_id e a) (\<lambda>n.
     rbind (add_op (overflow_checks e) acc n) (\<lambda>acc'.
     storage_released e acc' as))"

definition refund_approved_account_ids_iter ::
    "env \<Rightarrow> AccountId \<Rightarrow> AccountId list \<Rightarrow> nft_effects \<Rightarrow> nft_effects nft_result" where
  "refund_approved_account_ids_iter e account_id approved_account_ids h =
     rbind (storage_released e 0 approved_account_ids) (\<lambda>released.
     rbind (mul_op (overflow_checks e) (ucast released) (storage_byte_cost e)) (\<lambda>amount.
     Inr (schedule (Transfer account_id amount) h)))"

definition refund_approved_account_ids ::
    "env \<Rightarrow> AccountId \<Rightarrow> approvals \<Rightarrow> nft_effects \<Rightarrow> nft_effects nft_result" where
  "refund_approved_account_ids e account_id approved_account_ids h =
     refund_approved_account_ids_iter e account_id
       (map fst (DAList.impl_of approved_account_ids)) h"

definition refund_deposit_to_account ::
    "env \<Rightarrow> u64 \<Rightarrow> AccountId \<Rightarrow> nft_effects \<Rightarrow> nft_effects nft_result" where
  "refund_deposit_to_account e storage_used account_id h =
     rbind (mul_op (overflow_checks e) (storage_byte_cost e) (ucast storage_used)) (\<lambda>required_cost.
     rbind (require (required_cost \<le> attached_deposit e) (Msg (MustAttach required_cost))) (\<lambda>_.
     rbind (sub_op (overflow_checks e) (attached_deposit e) required_cost) (\<lambda>refund.
     Inr (if 1 < refund then schedule (Transfer account_id refund) h else h))))"

definition refund_deposit :: "env \<Rightarrow> u64 \<Rightarrow> nft_effects \<Rightarrow> nft_effects nft_result" where
  "refund_deposit e storage_used h =
     refund_deposit_to_account e storage_used (predecessor_account_id e) h"

definition assert_at_least_one_yocto :: "env \<Rightarrow> unit nft_result" where
  "assert_at_least_one_yocto e = require (1 \<le> attached_deposit e) (Msg AtLeastOneYocto)"

subsection \<open>Construction\<close>

definition a64 :: string where
  "a64 = replicate 64 (CHR ''a'')"

definition tmp_metadata :: TokenMetadata where
  "tmp_metadata =
     \<lparr>tm_title = Some a64, tm_description = Some a64, tm_media = Some a64,
      tm_media_hash = Some (as_bytes a64), tm_copies = Some 1, tm_issued_at = None,
      tm_expires_at = None, tm_starts_at = None, tm_updated_at = None, tm_extra = None,
      tm_reference = None, tm_reference_hash = None\<rparr>"

text \<open>Step 1 of \<open>measure_min_token_storage_cost\<close>: one longest token in every collection.\<close>

definition nft_set_dummy ::
    "('o, 'md, 'te, 'us, 'ap, 'nx) nft_ops \<Rightarrow> ('o, 'md, 'te, 'ap, 'nx) NonFungibleToken \<Rightarrow>
     ('o, 'md, 'te, 'ap, 'nx) NonFungibleToken" where
  "nft_set_dummy K t =
     t\<lparr>owner_by_id := fst (lm_insert (owners_ops K) (owner_by_id t) a64 a64),
       token_metadata_by_id :=
         map_option (\<lambda>m. fst (lm_insert (metadata_ops K) m a64 tmp_metadata)) (token_metadata_by_id t),
       tokens_per_owner :=
         map_option (\<lambda>m. fst (lm_insert (per_owner_ops K) m a64
             (fst (us_insert (token_set_ops K) (new_token_set K a64) a64)))) (tokens_per_owner t),
       approvals_by_id :=
         map_option (\<lambda>m. fst (lm_insert (approvals_ops K) m a64
             (DAList.update a64 1 DAList.empty))) (approvals_by_id t),
       next_approval_id_by_id :=
         map_option (\<lambda>m. fst (lm_insert (next_id_ops K) m a64 1)) (next_approval_id_by_id t)\<rparr>"

text \<open>
  Step 3: take it all out again.  The owner's set has to be there; the code empties it too, after
  it has been taken out of the map, and then drops it.
\<close>

definition nft_roll_back ::
    "('o, 'md, 'te, 'us, 'ap, 'nx) nft_ops \<Rightarrow> ('o, 'md, 'te, 'ap, 'nx) NonFungibleToken \<Rightarrow>
     ('o, 'md, 'te, 'ap, 'nx) NonFungibleToken nft_result" where
  "nft_roll_back K t =
     (let t1 = t\<lparr>next_approval_id_by_id :=
                  map_option (\<lambda>m. fst (lm_remove (next_id_ops K) m a64)) (next_approval_id_by_id t),
                approvals_by_id :=
                  map_option (\<lambda>m. fst (lm_remove (approvals_ops K) m a64)) (approvals_by_id t)\<rparr>
      in rbind (case tokens_per_owner t1 of
                  None \<Rightarrow> Inr t1
                | Some m \<Rightarrow>
                    (let (m1, u) = lm_remove (per_owner_ops K) m a64 in
                     rbind (unwrap_or_panic UnwrapNone u) (\<lambda>_.
                     Inr (t1\<lparr>tokens_per_owner := Some m1\<rparr>)))) (\<lambda>t2.
         Inr (t2\<lparr>token_metadata_by_id :=
                   map_option (\<lambda>m. fst (lm_remove (metadata_ops K) m a64)) (token_metadata_by_id t2),
                 owner_by_id := fst (lm_remove (owners_ops K) (owner_by_id t2) a64)\<rparr>)))"

text \<open>
  \<open>usage\<close> is the host's \<open>env::storage_usage()\<close>, a function of what the contract has stored.
\<close>

definition nft_measure_min_token_storage_cost ::
    "('o, 'md, 'te, 'us, 'ap, 'nx) nft_ops \<Rightarrow>
     (('o, 'md, 'te, 'ap, 'nx) NonFungibleToken \<Rightarrow> StorageUsage) \<Rightarrow> env \<Rightarrow>
     ('o, 'md, 'te, 'ap, 'nx) NonFungibleToken \<Rightarrow>
     ('o, 'md, 'te, 'ap, 'nx) NonFungibleToken nft_result" where
  "nft_measure_min_token_storage_cost K usage e t =
     (let initial_storage_usage = usage t;
          t1 = nft_set_dummy K t
      in rbind (sub_op (overflow_checks e) (usage t1) initial_storage_usage) (\<lambda>used.
         nft_roll_back K (t1\<lparr>extra_storage_in_bytes_per_token := used\<rparr>)))"

definition nft_new ::
    "('o, 'md, 'te, 'us, 'ap, 'nx) nft_ops \<Rightarrow>
     (('o, 'md, 'te, 'ap, 'nx) NonFungibleToken \<Rightarrow> StorageUsage) \<Rightarrow> env \<Rightarrow>
     bytes \<Rightarrow> AccountId \<Rightarrow> bytes option \<Rightarrow> bytes option \<Rightarrow> bytes option \<Rightarrow>
     ('o, 'md, 'te, 'ap, 'nx) NonFungibleToken nft_result" where
  "nft_new K usage e owner_by_id_prefix owner_id token_metadata_prefix enumeration_prefix
       approval_prefix =
     nft_measure_min_token_storage_cost K usage e
       \<lparr>nft_owner_id = owner_id,
        extra_storage_in_bytes_per_token = 0,
        owner_by_id = lm_new (owners_ops K) owner_by_id_prefix,
        token_metadata_by_id = map_option (lm_new (metadata_ops K)) token_metadata_prefix,
        tokens_per_owner = map_option (lm_new (per_owner_ops K)) enumeration_prefix,
        approvals_by_id = map_option (lm_new (approvals_ops K)) approval_prefix,
        next_approval_id_by_id =
          map_option (\<lambda>prefix. lm_new (next_id_ops K) (prefix @ as_bytes ''n'')) approval_prefix\<rparr>"

subsection \<open>Moving a token\<close>

definition nft_internal_transfer_unguarded ::
    "('o, 'md, 'te, 'us, 'ap, 'nx) nft_ops \<Rightarrow> ('o, 'md, 'te, 'ap, 'nx) NonFungibleToken \<Rightarrow>
     TokenId \<Rightarrow> AccountId \<Rightarrow> AccountId \<Rightarrow> ('o, 'md, 'te, 'ap, 'nx) NonFungibleToken nft_result" where
  "nft_internal_transfer_unguarded K t token_id from to =
     (let t1 = t\<lparr>owner_by_id := fst (lm_insert (owners_ops K) (owner_by_id t) token_id to)\<rparr> in
      case tokens_per_owner t1 of
        None \<Rightarrow> Inr t1
      | Some per_owner \<Rightarrow>
          rbind (unwrap_or_panic (Msg NoTokensPerOwner)
                   (lm_get (per_owner_ops K) per_owner from)) (\<lambda>owner_tokens.
          let owner_tokens1 = fst (us_remove (token_set_ops K) owner_tokens token_id);
              per_owner1 =
                (if us_is_empty (token_set_ops K) owner_tokens1
                 then fst (lm_remove (per_owner_ops K) per_owner from)
                 else fst (lm_insert (per_owner_ops K) per_owner from owner_tokens1));
              receiver_tokens =
                unwrap_or (new_token_set K to) (lm_get (per_owner_ops K) per_owner1 to);
              receiver_tokens1 = fst (us_insert (token_set_ops K) receiver_tokens token_id)
          in Inr (t1\<lparr>tokens_per_owner :=
                       Some (fst (lm_insert (per_owner_ops K) per_owner1 to receiver_tokens1))\<rparr>)))"

text \<open>\<open>sender_id.filter(|sender_id| *sender_id == owner_id)\<close> is the event's \<open>authorized_id\<close>.\<close>

definition nft_emit_transfer ::
    "AccountId \<Rightarrow> AccountId \<Rightarrow> TokenId \<Rightarrow> AccountId option \<Rightarrow> string option \<Rightarrow> nft_effects \<Rightarrow>
     nft_effects" where
  "nft_emit_transfer owner_id receiver_id token_id sender_id memo h =
     nft_transfer_emit
       (NftTransfer owner_id receiver_id [token_id]
          (case sender_id of Some s \<Rightarrow> if s = owner_id then Some s else None | None \<Rightarrow> None)
          memo) h"

text \<open>
  The check in the middle of \<open>internal_transfer\<close>: the owner, or an approved account, with the
  right approval id when one is given.  The result is the sender when it is not the owner.
\<close>

definition nft_authorize ::
    "AccountId \<Rightarrow> AccountId \<Rightarrow> approvals option \<Rightarrow> u64 option \<Rightarrow> AccountId option nft_result" where
  "nft_authorize sender_id owner_id approved_account_ids approval_id =
     (if sender_id \<noteq> owner_id then
        rbind (unwrap_or_panic (Msg Unauthorized) approved_account_ids) (\<lambda>app_acc_ids.
        let actual_approval_id = DAList.lookup app_acc_ids sender_id in
        if actual_approval_id = None then Inl (Msg SenderNotApproved)
        else
          rbind (require (approval_id = None \<or> actual_approval_id = approval_id)
                   (Msg (WrongApprovalId actual_approval_id approval_id))) (\<lambda>_.
          Inr (Some sender_id)))
      else Inr None)"

definition nft_internal_transfer ::
    "('o, 'md, 'te, 'us, 'ap, 'nx) nft_ops \<Rightarrow> ('o, 'md, 'te, 'ap, 'nx) NonFungibleToken \<Rightarrow>
     nft_effects \<Rightarrow> AccountId \<Rightarrow> AccountId \<Rightarrow> TokenId \<Rightarrow> u64 option \<Rightarrow> string option \<Rightarrow>
     (('o, 'md, 'te, 'ap, 'nx) NonFungibleToken \<times> nft_effects \<times> AccountId \<times> approvals option)
       nft_result" where
  "nft_internal_transfer K t h sender_id receiver_id token_id approval_id memo =
     rbind (unwrap_or_panic (Msg TokenNotFound)
              (lm_get (owners_ops K) (owner_by_id t) token_id)) (\<lambda>owner_id.
     let (by_id, approved_account_ids) =
           (case approvals_by_id t of
              None \<Rightarrow> (None, None)
            | Some m \<Rightarrow> (let (m1, old) = lm_remove (approvals_ops K) m token_id in (Some m1, old)));
         t1 = t\<lparr>approvals_by_id := by_id\<rparr>
     in
     rbind (nft_authorize sender_id owner_id approved_account_ids approval_id) (\<lambda>sender_id.
     rbind (require (owner_id \<noteq> receiver_id) (Msg OwnersMustDiffer)) (\<lambda>_.
     rbind (nft_internal_transfer_unguarded K t1 token_id owner_id receiver_id) (\<lambda>t2.
     Inr (t2, nft_emit_transfer owner_id receiver_id token_id sender_id memo h,
          owner_id, approved_account_ids)))))"

subsection \<open>Minting\<close>

definition nft_internal_mint_with_refund ::
    "('o, 'md, 'te, 'us, 'ap, 'nx) nft_ops \<Rightarrow>
     (('o, 'md, 'te, 'ap, 'nx) NonFungibleToken \<Rightarrow> StorageUsage) \<Rightarrow> env \<Rightarrow>
     ('o, 'md, 'te, 'ap, 'nx) NonFungibleToken \<Rightarrow> nft_effects \<Rightarrow>
     TokenId \<Rightarrow> AccountId \<Rightarrow> TokenMetadata option \<Rightarrow> AccountId option \<Rightarrow>
     (('o, 'md, 'te, 'ap, 'nx) NonFungibleToken \<times> nft_effects \<times> Token) nft_result" where
  "nft_internal_mint_with_refund K usage e t h token_id token_owner_id metadata refund_id =
     (let initial_storage_usage = map_option (\<lambda>account_id. (account_id, usage t)) refund_id in
      if token_metadata_by_id t \<noteq> None \<and> metadata = None then Inl (Msg MustProvideMetadata)
      else if lm_get (owners_ops K) (owner_by_id t) token_id \<noteq> None
      then Inl (Msg TokenIdNotUnique)
      else
        let owner_id = token_owner_id;
            t1 = t\<lparr>owner_by_id := fst (lm_insert (owners_ops K) (owner_by_id t) token_id owner_id)\<rparr>
        in
        rbind (case token_metadata_by_id t1 of
                 None \<Rightarrow> Inr t1
               | Some by_id \<Rightarrow>
                   rbind (unwrap_or_panic UnwrapNone metadata) (\<lambda>md.
                   Inr (t1\<lparr>token_metadata_by_id :=
                            Some (fst (lm_insert (metadata_ops K) by_id token_id md))\<rparr>))) (\<lambda>t2.
        let t3 =
              (case tokens_per_owner t2 of
                 None \<Rightarrow> t2
               | Some per_owner \<Rightarrow>
                   (let token_ids =
                          unwrap_or (new_token_set K owner_id)
                            (lm_get (per_owner_ops K) per_owner owner_id);
                        token_ids1 = fst (us_insert (token_set_ops K) token_ids token_id)
                    in t2\<lparr>tokens_per_owner :=
                            Some (fst (lm_insert (per_owner_ops K) per_owner owner_id token_ids1))\<rparr>));
            approved_account_ids =
              (if approvals_by_id t3 \<noteq> None then Some DAList.empty else None)
        in
        rbind (case initial_storage_usage of
                 None \<Rightarrow> Inr h
               | Some (refund_to, storage_usage) \<Rightarrow>
                   rbind (sub_op (overflow_checks e) (usage t3) storage_usage) (\<lambda>used.
                   refund_deposit_to_account e used refund_to h)) (\<lambda>h1.
        Inr (t3, h1,
             \<lparr>tok_token_id = token_id, tok_owner_id = owner_id, tok_metadata = metadata,
              tok_approved_account_ids = approved_account_ids\<rparr>))))"

definition nft_internal_mint ::
    "('o, 'md, 'te, 'us, 'ap, 'nx) nft_ops \<Rightarrow>
     (('o, 'md, 'te, 'ap, 'nx) NonFungibleToken \<Rightarrow> StorageUsage) \<Rightarrow> env \<Rightarrow>
     ('o, 'md, 'te, 'ap, 'nx) NonFungibleToken \<Rightarrow> nft_effects \<Rightarrow>
     TokenId \<Rightarrow> AccountId \<Rightarrow> TokenMetadata option \<Rightarrow>
     (('o, 'md, 'te, 'ap, 'nx) NonFungibleToken \<times> nft_effects \<times> Token) nft_result" where
  "nft_internal_mint K usage e t h token_id token_owner_id metadata =
     rbind (nft_internal_mint_with_refund K usage e t h token_id token_owner_id metadata
              (Some (predecessor_account_id e))) (\<lambda>(t1, h1, token).
     Inr (t1, nft_mint_emit (NftMint (tok_owner_id token) [tok_token_id token] None) h1, token))"

definition nft_mint ::
    "('o, 'md, 'te, 'us, 'ap, 'nx) nft_ops \<Rightarrow>
     (('o, 'md, 'te, 'ap, 'nx) NonFungibleToken \<Rightarrow> StorageUsage) \<Rightarrow> env \<Rightarrow>
     ('o, 'md, 'te, 'ap, 'nx) NonFungibleToken \<Rightarrow> nft_effects \<Rightarrow>
     TokenId \<Rightarrow> AccountId \<Rightarrow> TokenMetadata option \<Rightarrow>
     (('o, 'md, 'te, 'ap, 'nx) NonFungibleToken \<times> nft_effects \<times> Token) nft_result" where
  "nft_mint K usage e t h token_id token_owner_id metadata =
     rbind (require (predecessor_account_id e = nft_owner_id t) (Msg CallerNotContractOwner)) (\<lambda>_.
     nft_internal_mint K usage e t h token_id token_owner_id metadata)"

subsection \<open>\<open>NonFungibleTokenCore\<close>\<close>

definition nft_transfer ::
    "('o, 'md, 'te, 'us, 'ap, 'nx) nft_ops \<Rightarrow> env \<Rightarrow>
     ('o, 'md, 'te, 'ap, 'nx) NonFungibleToken \<Rightarrow> nft_effects \<Rightarrow>
     AccountId \<Rightarrow> TokenId \<Rightarrow> u64 option \<Rightarrow> string option \<Rightarrow>
     (('o, 'md, 'te, 'ap, 'nx) NonFungibleToken \<times> nft_effects) nft_result" where
  "nft_transfer K e t h receiver_id token_id approval_id memo =
     rbind (assert_one_yocto e) (\<lambda>_.
     let sender_id = predecessor_account_id e in
     rbind (nft_internal_transfer K t h sender_id receiver_id token_id approval_id memo)
       (\<lambda>(t1, h1, _, _). Inr (t1, h1)))"

definition nft_call_promise ::
    "env \<Rightarrow> Gas \<Rightarrow> AccountId \<Rightarrow> AccountId \<Rightarrow> AccountId \<Rightarrow> TokenId \<Rightarrow> approvals option \<Rightarrow> string \<Rightarrow>
     NftCall Promise" where
  "nft_call_promise e gas sender_id old_owner receiver_id token_id old_approvals msg =
     Then (FunctionCall receiver_id (NftOnTransfer sender_id old_owner token_id msg) 0 gas)
          (FunctionCall (current_account_id e)
             (NftResolveTransfer old_owner receiver_id token_id old_approvals) 0
             NFT_GAS_FOR_RESOLVE_TRANSFER)"

definition nft_transfer_call ::
    "('o, 'md, 'te, 'us, 'ap, 'nx) nft_ops \<Rightarrow> env \<Rightarrow>
     ('o, 'md, 'te, 'ap, 'nx) NonFungibleToken \<Rightarrow> nft_effects \<Rightarrow>
     AccountId \<Rightarrow> TokenId \<Rightarrow> u64 option \<Rightarrow> string option \<Rightarrow> string \<Rightarrow>
     (('o, 'md, 'te, 'ap, 'nx) NonFungibleToken \<times> nft_effects) nft_result" where
  "nft_transfer_call K e t h receiver_id token_id approval_id memo msg =
     rbind (assert_one_yocto e) (\<lambda>_.
     rbind (require (GAS_FOR_NFT_TRANSFER_CALL < prepaid_gas e) (Msg NftMoreGasRequired)) (\<lambda>_.
     let sender_id = predecessor_account_id e in
     rbind (nft_internal_transfer K t h sender_id receiver_id token_id approval_id memo)
       (\<lambda>(t1, h1, old_owner, old_approvals).
     rbind (sub_op (overflow_checks e) (prepaid_gas e) GAS_FOR_NFT_TRANSFER_CALL) (\<lambda>gas.
     Inr (t1, schedule (nft_call_promise e gas sender_id old_owner receiver_id token_id
                          old_approvals msg) h1)))))"

definition nft_token ::
    "('o, 'md, 'te, 'us, 'ap, 'nx) nft_ops \<Rightarrow> ('o, 'md, 'te, 'ap, 'nx) NonFungibleToken \<Rightarrow>
     TokenId \<Rightarrow> Token option" where
  "nft_token K t token_id =
     (case lm_get (owners_ops K) (owner_by_id t) token_id of
        None \<Rightarrow> None
      | Some owner_id \<Rightarrow>
          Some \<lparr>tok_token_id = token_id,
                tok_owner_id = owner_id,
                tok_metadata =
                  (case token_metadata_by_id t of
                     None \<Rightarrow> None | Some by_id \<Rightarrow> lm_get (metadata_ops K) by_id token_id),
                tok_approved_account_ids =
                  (case approvals_by_id t of
                     None \<Rightarrow> None
                   | Some by_id \<Rightarrow>
                       (case lm_get (approvals_ops K) by_id token_id of
                          None \<Rightarrow> Some DAList.empty | Some a \<Rightarrow> Some a))\<rparr>)"

subsection \<open>Settling a transfer call\<close>

text \<open>\<open>from_slice\<close> stands for \<open>serde_json::from_slice::<bool>\<close>.\<close>

definition nft_must_revert :: "(bytes \<Rightarrow> bool option) \<Rightarrow> PromiseResult \<Rightarrow> bool nft_result" where
  "nft_must_revert from_slice r =
     (case r of
        Successful value \<Rightarrow>
          (case from_slice value of Some yes_or_no \<Rightarrow> Inr yes_or_no | None \<Rightarrow> Inr True)
      | Failed \<Rightarrow> Inr True
      | NotReady \<Rightarrow> Inl NotImplemented)"

text \<open>
  The last part of \<open>nft_resolve_transfer\<close>: the approvals the receiver has set are refunded, and
  the previous owner's approvals, when there were any, take their place.
\<close>

definition nft_restore_approvals ::
    "('o, 'md, 'te, 'us, 'ap, 'nx) nft_ops \<Rightarrow> env \<Rightarrow>
     ('o, 'md, 'te, 'ap, 'nx) NonFungibleToken \<Rightarrow> nft_effects \<Rightarrow>
     AccountId \<Rightarrow> TokenId \<Rightarrow> approvals option \<Rightarrow>
     (('o, 'md, 'te, 'ap, 'nx) NonFungibleToken \<times> nft_effects) nft_result" where
  "nft_restore_approvals K e t h receiver_id token_id approved_account_ids =
     (case approvals_by_id t of
        None \<Rightarrow> Inr (t, h)
      | Some by_id \<Rightarrow>
          rbind (case lm_get (approvals_ops K) by_id token_id of
                   Some receiver_approvals \<Rightarrow>
                     refund_approved_account_ids e receiver_id receiver_approvals h
                 | None \<Rightarrow> Inr h) (\<lambda>h1.
          case approved_account_ids of
            Some previous_owner_approvals \<Rightarrow>
              Inr (t\<lparr>approvals_by_id := Some (fst (lm_insert (approvals_ops K) by_id token_id
                                                previous_owner_approvals))\<rparr>, h1)
          | None \<Rightarrow> Inr (t, h1)))"

definition nft_resolve_transfer ::
    "('o, 'md, 'te, 'us, 'ap, 'nx) nft_ops \<Rightarrow> (bytes \<Rightarrow> bool option) \<Rightarrow> env \<Rightarrow>
     ('o, 'md, 'te, 'ap, 'nx) NonFungibleToken \<Rightarrow> nft_effects \<Rightarrow>
     AccountId \<Rightarrow> AccountId \<Rightarrow> TokenId \<Rightarrow> approvals option \<Rightarrow>
     (('o, 'md, 'te, 'ap, 'nx) NonFungibleToken \<times> nft_effects \<times> bool) nft_result" where
  "nft_resolve_transfer K from_slice e t h previous_owner_id receiver_id token_id
       approved_account_ids =
     rbind (env_promise_result e 0) (\<lambda>r.
     rbind (nft_must_revert from_slice r) (\<lambda>must_revert.
     if \<not> must_revert then Inr (t, h, True)
     else
       case lm_get (owners_ops K) (owner_by_id t) token_id of
         None \<Rightarrow>
           (case approved_account_ids of
              Some a \<Rightarrow>
                rbind (refund_approved_account_ids e previous_owner_id a h) (\<lambda>h1.
                Inr (t, h1, True))
            | None \<Rightarrow> Inr (t, h, True))
       | Some current_owner \<Rightarrow>
           if current_owner \<noteq> receiver_id then Inr (t, h, True)
           else
             rbind (nft_internal_transfer_unguarded K t token_id receiver_id previous_owner_id)
               (\<lambda>t1.
             rbind (nft_restore_approvals K e t1 h receiver_id token_id approved_account_ids)
               (\<lambda>(t2, h1).
             Inr (t2, nft_emit_transfer receiver_id previous_owner_id token_id None None h1,
                  False)))))"

end
