(* ===== verification/NftExtensions.thy ===== *)
theory NftExtensions
  imports Nft
begin

section \<open>Approval management (NEP-178) and enumeration (NEP-181)\<close>

text \<open>
  \<open>non_fungible_token/approval/approval_impl.rs\<close> and
  \<open>non_fungible_token/enumeration/enumeration_impl.rs\<close>: the two extensions of the token, as the
  methods of \<open>NonFungibleToken\<close> they are.  The theory holds the definitions; what they promise is
  proved in the theories on the token's invariants.
\<close>

subsection \<open>Approvals\<close>

definition GAS_FOR_NFT_APPROVE :: Gas where
  "GAS_FOR_NFT_APPROVE = 10000000000000"

definition expect_token_found :: "'a option \<Rightarrow> 'a nft_result" where
  "expect_token_found v = unwrap_or_panic (Msg TokenNotFound) v"

definition expect_approval :: "'a option \<Rightarrow> 'a nft_result" where
  "expect_approval v = unwrap_or_panic (Msg NextApprovalIdMissing) v"

definition nft_approve ::
    "('o, 'md, 'te, 'us, 'ap, 'nx) nft_ops \<Rightarrow> env \<Rightarrow>
     ('o, 'md, 'te, 'ap, 'nx) NonFungibleToken \<Rightarrow> nft_effects \<Rightarrow>
     TokenId \<Rightarrow> AccountId \<Rightarrow> string option \<Rightarrow>
     (('o, 'md, 'te, 'ap, 'nx) NonFungibleToken \<times> nft_effects) nft_result" where
  "nft_approve K e t h token_id account_id msg =
     rbind (assert_at_least_one_yocto e) (\<lambda>_.
     rbind (unwrap_or_panic (Msg NoApprovalManagement) (approvals_by_id t)) (\<lambda>by_id.
     rbind (expect_token_found (lm_get (owners_ops K) (owner_by_id t) token_id)) (\<lambda>owner_id.
     rbind (require (predecessor_account_id e = owner_id) (Msg PredecessorNotTokenOwner)) (\<lambda>_.
     rbind (expect_approval (next_approval_id_by_id t)) (\<lambda>next_ids.
     let approved_account_ids =
           unwrap_or DAList.empty (lm_get (approvals_ops K) by_id token_id);
         approval_id = unwrap_or 1 (lm_get (next_id_ops K) next_ids token_id);
         old_approval_id = DAList.lookup approved_account_ids account_id;
         t1 = t\<lparr>approvals_by_id :=
                  Some (fst (lm_insert (approvals_ops K) by_id token_id
                               (DAList.update account_id approval_id approved_account_ids)))\<rparr>
     in
     rbind (add_op (overflow_checks e) approval_id 1) (\<lambda>next_id.
     let t2 = t1\<lparr>next_approval_id_by_id :=
                   Some (fst (lm_insert (next_id_ops K) next_ids token_id next_id))\<rparr>
     in
     rbind (if old_approval_id = None then bytes_for_approved_account_id e account_id
            else Inr 0) (\<lambda>storage_used.
     rbind (refund_deposit e storage_used h) (\<lambda>h1.
     case msg of
       None \<Rightarrow> Inr (t2, h1)
     | Some msg \<Rightarrow>
         rbind (sub_op (overflow_checks e) (prepaid_gas e) GAS_FOR_NFT_APPROVE) (\<lambda>gas.
         Inr (t2, schedule (FunctionCall account_id
                              (NftOnApprove token_id owner_id approval_id msg) 0 gas) h1))))))))))"

definition nft_revoke ::
    "('o, 'md, 'te, 'us, 'ap, 'nx) nft_ops \<Rightarrow> env \<Rightarrow>
     ('o, 'md, 'te, 'ap, 'nx) NonFungibleToken \<Rightarrow> nft_effects \<Rightarrow>
     TokenId \<Rightarrow> AccountId \<Rightarrow>
     (('o, 'md, 'te, 'ap, 'nx) NonFungibleToken \<times> nft_effects) nft_result" where
  "nft_revoke K e t h token_id account_id =
     rbind (assert_one_yocto e) (\<lambda>_.
     rbind (unwrap_or_panic (Msg NoApprovalManagement) (approvals_by_id t)) (\<lambda>by_id.
     rbind (expect_token_found (lm_get (owners_ops K) (owner_by_id t) token_id)) (\<lambda>owner_id.
     rbind (require (predecessor_account_id e = owner_id) (Msg PredecessorNotTokenOwner)) (\<lambda>_.
     case lm_get (approvals_ops K) by_id token_id of
       None \<Rightarrow> Inr (t, h)
     | Some approved_account_ids \<Rightarrow>
         let remaining = DAList.delete account_id approved_account_ids in
         if DAList.lookup approved_account_ids account_id = None then Inr (t, h)
         else
           rbind (refund_approved_account_ids_iter e (predecessor_account_id e) [account_id] h)
             (\<lambda>h1.
           Inr (t\<lparr>approvals_by_id := Some
                    (if DAList.impl_of remaining = []
                     then fst (lm_remove (approvals_ops K) by_id token_id)
                     else fst (lm_insert (approvals_ops K) by_id token_id remaining))\<rparr>, h1))))))"

definition nft_revoke_all ::
    "('o, 'md, 'te, 'us, 'ap, 'nx) nft_ops \<Rightarrow> env \<Rightarrow>
     ('o, 'md, 'te, 'ap, 'nx) NonFungibleToken \<Rightarrow> nft_effects \<Rightarrow>
     TokenId \<Rightarrow>
     (('o, 'md, 'te, 'ap, 'nx) NonFungibleToken \<times> nft_effects) nft_result" where
  "nft_revoke_all K e t h token_id =
     rbind (assert_one_yocto e) (\<lambda>_.
     rbind (unwrap_or_panic (Msg NoApprovalManagement) (approvals_by_id t)) (\<lambda>by_id.
     rbind (expect_token_found (lm_get (owners_ops K) (owner_by_id t) token_id)) (\<lambda>owner_id.
     rbind (require (predecessor_account_id e = owner_id) (Msg PredecessorNotTokenOwner)) (\<lambda>_.
     case lm_get (approvals_ops K) by_id token_id of
       None \<Rightarrow> Inr (t, h)
     | Some approved_account_ids \<Rightarrow>
         rbind (refund_approved_account_ids e (predecessor_account_id e) approved_account_ids h)
           (\<lambda>h1.
         Inr (t\<lparr>approvals_by_id := Some (fst (lm_remove (approvals_ops K) by_id token_id))\<rparr>, h1))))))"

definition nft_is_approved ::
    "('o, 'md, 'te, 'us, 'ap, 'nx) nft_ops \<Rightarrow> ('o, 'md, 'te, 'ap, 'nx) NonFungibleToken \<Rightarrow>
     TokenId \<Rightarrow> AccountId \<Rightarrow> u64 option \<Rightarrow> bool nft_result" where
  "nft_is_approved K t token_id approved_account_id approval_id =
     rbind (expect_token_found (lm_get (owners_ops K) (owner_by_id t) token_id)) (\<lambda>_.
     case approvals_by_id t of
       None \<Rightarrow> Inr False
     | Some by_id \<Rightarrow>
         (case lm_get (approvals_ops K) by_id token_id of
            None \<Rightarrow> Inr False
          | Some ids \<Rightarrow>
              (case DAList.lookup ids approved_account_id of
                 None \<Rightarrow> Inr False
               | Some actual_approval_id \<Rightarrow>
                   (case approval_id of
                      Some given_approval_id \<Rightarrow> Inr (given_approval_id = actual_approval_id)
                    | None \<Rightarrow> Inr True))))"

subsection \<open>Enumeration\<close>

text \<open>
  Contracts run on a 32-bit WebAssembly machine: \<open>as usize\<close> keeps the low 32 bits, and
  \<open>usize::MAX\<close> is \<open>2 ^ 32 - 1\<close>.
\<close>

type_synonym usize = "32 word"

definition enum_get_token ::
    "('o, 'md, 'te, 'us, 'ap, 'nx) nft_ops \<Rightarrow> ('o, 'md, 'te, 'ap, 'nx) NonFungibleToken \<Rightarrow>
     AccountId \<Rightarrow> TokenId \<Rightarrow> Token" where
  "enum_get_token K t owner_id token_id =
     \<lparr>tok_token_id = token_id,
      tok_owner_id = owner_id,
      tok_metadata =
        (case token_metadata_by_id t of
           None \<Rightarrow> None | Some m \<Rightarrow> lm_get (metadata_ops K) m token_id),
      tok_approved_account_ids =
        map_option (\<lambda>m. unwrap_or DAList.empty (lm_get (approvals_ops K) m token_id))
          (approvals_by_id t)\<rparr>"

definition nft_total_supply ::
    "('o, 'md, 'te, 'us, 'ap, 'nx) nft_ops \<Rightarrow> ('o, 'md, 'te, 'ap, 'nx) NonFungibleToken \<Rightarrow> u128" where
  "nft_total_supply K t = ucast (tm_len (owners_ops K) (owner_by_id t))"

definition page_limit :: "u64 option \<Rightarrow> usize nft_result" where
  "page_limit limit =
     (let limit = (case limit of Some v \<Rightarrow> ucast v | None \<Rightarrow> (- 1)) in
      rbind (require (limit \<noteq> 0) (Msg LimitOfZero)) (\<lambda>_. Inr limit))"

text \<open>\<open>.skip(start_index as usize).take(limit)\<close>\<close>

definition page :: "u128 \<Rightarrow> usize \<Rightarrow> 'a list \<Rightarrow> 'a list" where
  "page start_index limit xs =
     take (unat limit) (drop (unat (ucast start_index :: usize)) xs)"

definition nft_tokens ::
    "('o, 'md, 'te, 'us, 'ap, 'nx) nft_ops \<Rightarrow> ('o, 'md, 'te, 'ap, 'nx) NonFungibleToken \<Rightarrow>
     u128 option \<Rightarrow> u64 option \<Rightarrow> Token list nft_result" where
  "nft_tokens K t from_index limit =
     (let start_index = unwrap_or 0 from_index in
      rbind (require (start_index \<le> ucast (tm_len (owners_ops K) (owner_by_id t)))
               (Msg FromIndexOutOfBounds)) (\<lambda>_.
      rbind (page_limit limit) (\<lambda>limit.
      Inr (map (\<lambda>(token_id, owner_id). enum_get_token K t owner_id token_id)
             (page start_index limit (tm_iter (owners_ops K) (owner_by_id t)))))))"

definition nft_supply_for_owner ::
    "('o, 'md, 'te, 'us, 'ap, 'nx) nft_ops \<Rightarrow> ('o, 'md, 'te, 'ap, 'nx) NonFungibleToken \<Rightarrow>
     AccountId \<Rightarrow> u128 nft_result" where
  "nft_supply_for_owner K t account_id =
     rbind (unwrap_or_panic (Msg EnumerationMissing) (tokens_per_owner t)) (\<lambda>per_owner.
     Inr (case lm_get (per_owner_ops K) per_owner account_id of
            None \<Rightarrow> 0
          | Some account_tokens \<Rightarrow> ucast (us_len (token_set_ops K) account_tokens)))"

definition nft_tokens_for_owner ::
    "('o, 'md, 'te, 'us, 'ap, 'nx) nft_ops \<Rightarrow> ('o, 'md, 'te, 'ap, 'nx) NonFungibleToken \<Rightarrow>
     AccountId \<Rightarrow> u128 option \<Rightarrow> u64 option \<Rightarrow> Token list nft_result" where
  "nft_tokens_for_owner K t account_id from_index limit =
     rbind (unwrap_or_panic (Msg EnumerationMissing) (tokens_per_owner t)) (\<lambda>per_owner.
     case lm_get (per_owner_ops K) per_owner account_id of
       None \<Rightarrow> Inr []
     | Some token_set \<Rightarrow>
         if us_is_empty (token_set_ops K) token_set then Inr []
         else
           rbind (page_limit limit) (\<lambda>limit.
           let start_index = unwrap_or 0 from_index in
           rbind (require (start_index < ucast (us_len (token_set_ops K) token_set))
                    (Msg FromIndexOutOfBounds)) (\<lambda>_.
           Inr (map (\<lambda>token_id. enum_get_token K t account_id token_id)
                  (page start_index limit (us_iter (token_set_ops K) token_set))))))"

end
