(* ===== verification/NftStore.thy ===== *)
theory NftStore
  imports NftExtensions
begin

section \<open>What the non-fungible token's operations do\<close>

text \<open>
  The content of the token's collections as functions, the invariants that tie the collections to
  each other, and, over any collections that keep their documented laws (the locale \<open>nft_store\<close>),
  exactly when each operation returns and what it leaves behind.
\<close>

subsection \<open>The content of the collections\<close>

definition nft_owners ::
    "('o, 'md, 'te, 'us, 'ap, 'nx) nft_ops \<Rightarrow> ('o, 'md, 'te, 'ap, 'nx) NonFungibleToken \<Rightarrow>
     TokenId \<rightharpoonup> AccountId" where
  "nft_owners K t = lm_get (owners_ops K) (owner_by_id t)"

definition nft_approvals ::
    "('o, 'md, 'te, 'us, 'ap, 'nx) nft_ops \<Rightarrow> ('o, 'md, 'te, 'ap, 'nx) NonFungibleToken \<Rightarrow>
     TokenId \<rightharpoonup> approvals" where
  "nft_approvals K t tok =
     (case approvals_by_id t of None \<Rightarrow> None | Some m \<Rightarrow> lm_get (approvals_ops K) m tok)"

definition nft_approval ::
    "('o, 'md, 'te, 'us, 'ap, 'nx) nft_ops \<Rightarrow> ('o, 'md, 'te, 'ap, 'nx) NonFungibleToken \<Rightarrow>
     TokenId \<Rightarrow> AccountId \<Rightarrow> u64 option" where
  "nft_approval K t tok a =
     (case nft_approvals K t tok of None \<Rightarrow> None | Some A \<Rightarrow> DAList.lookup A a)"

definition nft_next_id ::
    "('o, 'md, 'te, 'us, 'ap, 'nx) nft_ops \<Rightarrow> ('o, 'md, 'te, 'ap, 'nx) NonFungibleToken \<Rightarrow>
     TokenId \<Rightarrow> u64" where
  "nft_next_id K t tok =
     (case next_approval_id_by_id t of
        None \<Rightarrow> 1 | Some m \<Rightarrow> unwrap_or 1 (lm_get (next_id_ops K) m tok))"

definition nft_metadata_of ::
    "('o, 'md, 'te, 'us, 'ap, 'nx) nft_ops \<Rightarrow> ('o, 'md, 'te, 'ap, 'nx) NonFungibleToken \<Rightarrow>
     TokenId \<rightharpoonup> TokenMetadata" where
  "nft_metadata_of K t tok =
     (case token_metadata_by_id t of None \<Rightarrow> None | Some m \<Rightarrow> lm_get (metadata_ops K) m tok)"

definition held_sets ::
    "('o, 'md, 'te, 'us, 'ap, 'nx) nft_ops \<Rightarrow> 'te \<Rightarrow> AccountId \<rightharpoonup> TokenId set" where
  "held_sets K m a =
     map_option (\<lambda>s. set (us_iter (token_set_ops K) s)) (lm_get (per_owner_ops K) m a)"

text \<open>The index by owner that a map of owners calls for: no entry for an account without tokens.\<close>

definition index_of :: "(TokenId \<rightharpoonup> AccountId) \<Rightarrow> AccountId \<rightharpoonup> TokenId set" where
  "index_of f a = (if {tok. f tok = Some a} = {} then None else Some {tok. f tok = Some a})"

lemma index_of_update:
  "index_of (f(tok \<mapsto> b)) a =
     (if a = b then Some (insert tok {x. f x = Some a})
      else if {x. f x = Some a} - {tok} = {} then None else Some ({x. f x = Some a} - {tok}))"
  by (cases "a = b") (auto simp: index_of_def)

lemma index_of_eq_None: "index_of f a = None \<longleftrightarrow> (\<forall>tok. f tok \<noteq> Some a)"
  by (auto simp: index_of_def)

lemma index_of_eq_Some: "index_of f a = Some s \<longleftrightarrow> s = {tok. f tok = Some a} \<and> s \<noteq> {}"
  by (auto simp: index_of_def)

subsection \<open>The invariants\<close>

text \<open>
  The index agrees with the owners; approvals exist for existing tokens only; metadata is there
  for exactly the existing tokens; and the two maps of the approval extension come together.
\<close>

definition nft_index_ok ::
    "('o, 'md, 'te, 'us, 'ap, 'nx) nft_ops \<Rightarrow> ('o, 'md, 'te, 'ap, 'nx) NonFungibleToken \<Rightarrow> bool" where
  "nft_index_ok K t \<longleftrightarrow>
     (case tokens_per_owner t of None \<Rightarrow> True | Some m \<Rightarrow> held_sets K m = index_of (nft_owners K t))"

definition nft_extensions_ok ::
    "('o, 'md, 'te, 'us, 'ap, 'nx) nft_ops \<Rightarrow> ('o, 'md, 'te, 'ap, 'nx) NonFungibleToken \<Rightarrow> bool" where
  "nft_extensions_ok K t \<longleftrightarrow>
     dom (nft_approvals K t) \<subseteq> dom (nft_owners K t) \<and>
     (token_metadata_by_id t \<noteq> None \<longrightarrow> dom (nft_metadata_of K t) = dom (nft_owners K t)) \<and>
     (approvals_by_id t = None \<longleftrightarrow> next_approval_id_by_id t = None)"

text \<open>
  Approval ids: every id in use is below the token's next id, and no two accounts hold the same.
\<close>

definition approval_ids_ok :: "u64 \<Rightarrow> approvals \<Rightarrow> bool" where
  "approval_ids_ok n A \<longleftrightarrow>
     (\<forall>a i. DAList.lookup A a = Some i \<longrightarrow> i < n) \<and>
     (\<forall>a b i. DAList.lookup A a = Some i \<and> DAList.lookup A b = Some i \<longrightarrow> a = b)"

definition nft_ids_ok ::
    "('o, 'md, 'te, 'us, 'ap, 'nx) nft_ops \<Rightarrow> ('o, 'md, 'te, 'ap, 'nx) NonFungibleToken \<Rightarrow> bool" where
  "nft_ids_ok K t \<longleftrightarrow>
     (\<forall>tok A. nft_approvals K t tok = Some A \<longrightarrow> approval_ids_ok (nft_next_id K t tok) A)"

lemma approval_ids_ok_empty: "approval_ids_ok n DAList.empty"
  by (simp add: approval_ids_ok_def)

lemma approval_ids_ok_mono: "approval_ids_ok n A \<Longrightarrow> n \<le> m \<Longrightarrow> approval_ids_ok m A"
  unfolding approval_ids_ok_def by (meson order.strict_trans2)

lemma approval_ids_ok_delete: "approval_ids_ok n A \<Longrightarrow> approval_ids_ok n (DAList.delete a A)"
  by (auto simp: approval_ids_ok_def DAList.lookup_delete)

text \<open>Giving out the next id, and moving on to a larger one.\<close>

lemma approval_ids_ok_update:
  assumes "approval_ids_ok n A" and "n < m"
  shows "approval_ids_ok m (DAList.update a n A)"
  using assms unfolding approval_ids_ok_def DAList.lookup_update
  by (auto split: if_splits) (meson order.strict_trans)

lemma nft_views_frame [simp]:
  "nft_owners K (t\<lparr>approvals_by_id := x\<rparr>) = nft_owners K t"
  "nft_owners K (t\<lparr>tokens_per_owner := y\<rparr>) = nft_owners K t"
  "nft_owners K (t\<lparr>next_approval_id_by_id := z\<rparr>) = nft_owners K t"
  "nft_owners K (t\<lparr>token_metadata_by_id := u\<rparr>) = nft_owners K t"
  "nft_approvals K (t\<lparr>owner_by_id := v\<rparr>) = nft_approvals K t"
  "nft_approvals K (t\<lparr>tokens_per_owner := y\<rparr>) = nft_approvals K t"
  "nft_approvals K (t\<lparr>next_approval_id_by_id := z\<rparr>) = nft_approvals K t"
  "nft_approvals K (t\<lparr>token_metadata_by_id := u\<rparr>) = nft_approvals K t"
  "nft_next_id K (t\<lparr>owner_by_id := v\<rparr>) = nft_next_id K t"
  "nft_next_id K (t\<lparr>tokens_per_owner := y\<rparr>) = nft_next_id K t"
  "nft_next_id K (t\<lparr>approvals_by_id := x\<rparr>) = nft_next_id K t"
  "nft_next_id K (t\<lparr>token_metadata_by_id := u\<rparr>) = nft_next_id K t"
  "nft_metadata_of K (t\<lparr>owner_by_id := v\<rparr>) = nft_metadata_of K t"
  "nft_metadata_of K (t\<lparr>tokens_per_owner := y\<rparr>) = nft_metadata_of K t"
  "nft_metadata_of K (t\<lparr>approvals_by_id := x\<rparr>) = nft_metadata_of K t"
  "nft_metadata_of K (t\<lparr>next_approval_id_by_id := z\<rparr>) = nft_metadata_of K t"
  by (simp_all add: nft_owners_def nft_approvals_def nft_next_id_def nft_metadata_of_def
      fun_eq_iff)

subsection \<open>What a move of a token is\<close>

text \<open>Who may move a token: its owner, or an approved account whose approval id fits.\<close>

definition nft_authorized ::
    "('o, 'md, 'te, 'us, 'ap, 'nx) nft_ops \<Rightarrow> ('o, 'md, 'te, 'ap, 'nx) NonFungibleToken \<Rightarrow>
     AccountId \<Rightarrow> TokenId \<Rightarrow> u64 option \<Rightarrow> bool" where
  "nft_authorized K t sender tok approval_id \<longleftrightarrow>
     nft_owners K t tok = Some sender \<or>
     (\<exists>i. nft_approval K t tok sender = Some i \<and> (approval_id = None \<or> approval_id = Some i))"

text \<open>The same extensions are switched on, and the contract has the same owner.\<close>

definition nft_same_shape ::
    "('o, 'md, 'te, 'ap, 'nx) NonFungibleToken \<Rightarrow> ('o, 'md, 'te, 'ap, 'nx) NonFungibleToken \<Rightarrow> bool" where
  "nft_same_shape t t' \<longleftrightarrow>
     nft_owner_id t' = nft_owner_id t \<and>
     (token_metadata_by_id t' = None \<longleftrightarrow> token_metadata_by_id t = None) \<and>
     (tokens_per_owner t' = None \<longleftrightarrow> tokens_per_owner t = None) \<and>
     (approvals_by_id t' = None \<longleftrightarrow> approvals_by_id t = None) \<and>
     (next_approval_id_by_id t' = None \<longleftrightarrow> next_approval_id_by_id t = None)"

text \<open>
  The token \<open>tok\<close> is \<open>to\<close>'s with the approvals \<open>A\<close>, and nothing else is different.
\<close>

definition nft_moved ::
    "('o, 'md, 'te, 'us, 'ap, 'nx) nft_ops \<Rightarrow> ('o, 'md, 'te, 'ap, 'nx) NonFungibleToken \<Rightarrow>
     TokenId \<Rightarrow> AccountId \<Rightarrow> approvals option \<Rightarrow> ('o, 'md, 'te, 'ap, 'nx) NonFungibleToken \<Rightarrow> bool" where
  "nft_moved K t tok to A t' \<longleftrightarrow>
     nft_owners K t' = (nft_owners K t)(tok \<mapsto> to) \<and>
     nft_approvals K t' = (nft_approvals K t)(tok := A) \<and>
     nft_next_id K t' = nft_next_id K t \<and>
     nft_metadata_of K t' = nft_metadata_of K t \<and>
     nft_same_shape t t'"

text \<open>The token without its approvals, when the extension is on.\<close>

definition nft_clear_approvals ::
    "('o, 'md, 'te, 'us, 'ap, 'nx) nft_ops \<Rightarrow> ('o, 'md, 'te, 'ap, 'nx) NonFungibleToken \<Rightarrow>
     TokenId \<Rightarrow> ('o, 'md, 'te, 'ap, 'nx) NonFungibleToken" where
  "nft_clear_approvals K t tok = t\<lparr>approvals_by_id :=
     map_option (\<lambda>m. fst (lm_remove (approvals_ops K) m tok)) (approvals_by_id t)\<rparr>"

lemma nft_same_shape_refl [simp]: "nft_same_shape t t"
  by (simp add: nft_same_shape_def)

lemma nft_same_shape_trans: "nft_same_shape t u \<Longrightarrow> nft_same_shape u v \<Longrightarrow> nft_same_shape t v"
  by (auto simp: nft_same_shape_def)

lemma nft_moved_extensions_ok:
  assumes "nft_moved K t tok to A t'" and "nft_extensions_ok K t"
    and "nft_owners K t tok \<noteq> None"
  shows "nft_extensions_ok K t'"
  using assms by (auto simp: nft_moved_def nft_extensions_ok_def nft_same_shape_def)

lemma nft_moved_ids_ok:
  assumes "nft_moved K t tok to A t'" and "nft_ids_ok K t"
    and "\<And>B. A = Some B \<Longrightarrow> approval_ids_ok (nft_next_id K t tok) B"
  shows "nft_ids_ok K t'"
  using assms by (simp add: nft_moved_def nft_ids_ok_def)

lemma nft_authorize_iff [result_simps]:
  "nft_authorize s owner A aid = Inr x \<longleftrightarrow>
     (if s = owner then x = None
      else x = Some s \<and> (\<exists>ids i. A = Some ids \<and> DAList.lookup ids s = Some i \<and>
             (aid = None \<or> aid = Some i)))"
  by (auto simp: nft_authorize_def result_simps Let_def)

text \<open>No event carries an authorized account: the sender kept for it differs from the owner.\<close>

lemma nft_emit_transfer_unauthorized:
  assumes "nft_authorize s owner A aid = Inr x"
  shows "nft_emit_transfer owner receiver tok x memo h =
    nft_transfer_emit (NftTransfer owner receiver [tok] None memo) h"
  using assms by (auto simp: nft_emit_transfer_def nft_authorize_iff split: if_splits)

subsection \<open>Over any collections that keep their laws\<close>

locale nft_store =
  ow: tree_map "owners_ops K" + md: lookup_map "metadata_ops K" +
  po: lookup_map "per_owner_ops K" + ts: unordered_set "token_set_ops K" +
  ap: lookup_map "approvals_ops K" + nx: lookup_map "next_id_ops K"
  for K :: "('o, 'md, 'te, 'us, 'ap, 'nx) nft_ops"
begin

text \<open>\<open>internal_transfer_unguarded\<close> on the index of owners.\<close>

lemma held_sets_insert:
  "held_sets K (fst (lm_insert (per_owner_ops K) m a s)) =
     (held_sets K m)(a \<mapsto> set (us_iter (token_set_ops K) s))"
  by (auto simp: held_sets_def po.map_laws)

lemma held_sets_remove:
  "held_sets K (fst (lm_remove (per_owner_ops K) m a)) = (held_sets K m)(a := None)"
  by (auto simp: held_sets_def po.map_laws)

lemma held_sets_new: "held_sets K (lm_new (per_owner_ops K) p) = Map.empty"
  by (auto simp: held_sets_def po.map_laws)

lemma iter_new_token_set: "us_iter (token_set_ops K) (new_token_set K a) = []"
  by (simp add: new_token_set_def ts.us_iter_new)

lemma iter_unwrap_new:
  "set (us_iter (token_set_ops K) (unwrap_or (new_token_set K a) (lm_get (per_owner_ops K) m a))) =
     unwrap_or {} (held_sets K m a)"
  by (cases "lm_get (per_owner_ops K) m a") (simp_all add: held_sets_def iter_new_token_set)

lemma add_to_index:
  assumes "held_sets K m = index_of f" and "f tok = None"
  shows "held_sets K (fst (lm_insert (per_owner_ops K) m a
           (fst (us_insert (token_set_ops K)
              (unwrap_or (new_token_set K a) (lm_get (per_owner_ops K) m a)) tok)))) =
         index_of (f(tok \<mapsto> a))"
proof
  fix b
  have "unwrap_or {} (index_of f a) = {x. f x = Some a}"
    by (auto simp: index_of_def)
  moreover have "{x. f x = Some b} - {tok} = {x. f x = Some b}" using assms(2) by auto
  ultimately show "held_sets K (fst (lm_insert (per_owner_ops K) m a
           (fst (us_insert (token_set_ops K)
              (unwrap_or (new_token_set K a) (lm_get (per_owner_ops K) m a)) tok)))) b =
         index_of (f(tok \<mapsto> a)) b"
    by (simp add: held_sets_insert ts.us_iter_insert iter_unwrap_new assms(1) index_of_update)
      (simp add: index_of_def)
qed

lemma owners_insert:
  "nft_owners K (t\<lparr>owner_by_id := fst (lm_insert (owners_ops K) (owner_by_id t) tok a)\<rparr>) =
     (nft_owners K t)(tok \<mapsto> a)"
  by (simp add: nft_owners_def ow.map_laws)

lemma unguarded_spec:
  assumes ok: "nft_index_ok K t" and owner: "nft_owners K t tok = Some from"
  obtains t' where "nft_internal_transfer_unguarded K t tok from to = Inr t'"
    and "nft_owners K t' = (nft_owners K t)(tok \<mapsto> to)" and "nft_index_ok K t'"
    and "approvals_by_id t' = approvals_by_id t"
    and "next_approval_id_by_id t' = next_approval_id_by_id t"
    and "token_metadata_by_id t' = token_metadata_by_id t"
    and "tokens_per_owner t' = None \<longleftrightarrow> tokens_per_owner t = None"
    and "nft_owner_id t' = nft_owner_id t"
proof (cases "tokens_per_owner t")
  case None
  then show ?thesis
    by (intro that [of "t\<lparr>owner_by_id := fst (lm_insert (owners_ops K) (owner_by_id t) tok to)\<rparr>"])
      (simp_all add: nft_internal_transfer_unguarded_def owners_insert nft_index_ok_def)
next
  case (Some m)
  let ?f = "nft_owners K t"
  have held: "held_sets K m = index_of ?f" using ok Some by (simp add: nft_index_ok_def)
  have "index_of ?f from = Some {x. ?f x = Some from}" using owner by (auto simp: index_of_def)
  then obtain s where s: "lm_get (per_owner_ops K) m from = Some s"
    and s_set: "set (us_iter (token_set_ops K) s) = {x. ?f x = Some from}"
    by (auto simp: held [symmetric] held_sets_def)
  define s1 where "s1 = fst (us_remove (token_set_ops K) s tok)"
  define m1 where "m1 = (if us_is_empty (token_set_ops K) s1
    then fst (lm_remove (per_owner_ops K) m from) else fst (lm_insert (per_owner_ops K) m from s1))"
  have s1_set: "set (us_iter (token_set_ops K) s1) = {x. ?f x = Some from} - {tok}"
    by (simp add: s1_def ts.us_iter_remove s_set)
  then have "us_is_empty (token_set_ops K) s1 \<longleftrightarrow> {x. ?f x = Some from} - {tok} = {}"
    by (metis set_empty ts.us_is_empty_iff)
  then have m1: "held_sets K m1 = index_of (?f(tok := None))"
    using s1_set held owner
    by (auto simp: m1_def held_sets_insert held_sets_remove index_of_def fun_eq_iff)
  define r where "r = fst (us_insert (token_set_ops K)
    (unwrap_or (new_token_set K to) (lm_get (per_owner_ops K) m1 to)) tok)"
  let ?t' = "t\<lparr>owner_by_id := fst (lm_insert (owners_ops K) (owner_by_id t) tok to),
              tokens_per_owner := Some (fst (lm_insert (per_owner_ops K) m1 to r))\<rparr>"
  have "nft_owners K ?t' = ?f(tok \<mapsto> to)" using owners_insert by (simp add: nft_owners_def)
  moreover have "held_sets K (fst (lm_insert (per_owner_ops K) m1 to r)) = index_of (?f(tok \<mapsto> to))"
    using add_to_index [OF m1, of tok to] by (simp add: r_def)
  ultimately show ?thesis
    using Some s by (intro that [of ?t'])
      (simp_all add: nft_internal_transfer_unguarded_def nft_index_ok_def s1_def m1_def r_def Let_def)
qed

lemma approvals_remove:
  "approvals_by_id t = Some m \<Longrightarrow>
     nft_approvals K (t\<lparr>approvals_by_id := Some (fst (lm_remove (approvals_ops K) m tok))\<rparr>) =
     (nft_approvals K t)(tok := None)"
  by (auto simp: nft_approvals_def ap.map_laws)

lemma approvals_insert:
  "approvals_by_id t = Some m \<Longrightarrow>
     nft_approvals K (t\<lparr>approvals_by_id := Some (fst (lm_insert (approvals_ops K) m tok A))\<rparr>) =
     (nft_approvals K t)(tok \<mapsto> A)"
  by (auto simp: nft_approvals_def ap.map_laws)

lemma clear_approvals_views:
  "nft_approvals K (nft_clear_approvals K t tok) = (nft_approvals K t)(tok := None)"
  "nft_owners K (nft_clear_approvals K t tok) = nft_owners K t"
  "nft_next_id K (nft_clear_approvals K t tok) = nft_next_id K t"
  "nft_metadata_of K (nft_clear_approvals K t tok) = nft_metadata_of K t"
  "nft_index_ok K (nft_clear_approvals K t tok) = nft_index_ok K t"
  "nft_same_shape t (nft_clear_approvals K t tok)"
  by (cases "approvals_by_id t")
    (auto simp: nft_clear_approvals_def nft_approvals_def ap.map_laws nft_index_ok_def
      nft_same_shape_def split: option.split)

lemma internal_transfer_eq:
  "nft_internal_transfer K t h s r tok aid memo =
     (case nft_owners K t tok of
        None \<Rightarrow> Inl (Msg TokenNotFound)
      | Some owner \<Rightarrow>
          rbind (nft_authorize s owner (nft_approvals K t tok) aid) (\<lambda>x.
          rbind (require (owner \<noteq> r) (Msg OwnersMustDiffer)) (\<lambda>_.
          rbind (nft_internal_transfer_unguarded K (nft_clear_approvals K t tok) tok owner r) (\<lambda>t2.
          Inr (t2, nft_transfer_emit (NftTransfer owner r [tok] None memo) h,
               owner, nft_approvals K t tok)))))"
proof (cases "nft_owners K t tok")
  case None
  then show ?thesis by (simp add: nft_internal_transfer_def nft_owners_def)
next
  case (Some owner)
  let ?rest = "\<lambda>x. rbind (require (owner \<noteq> r) (Msg OwnersMustDiffer)) (\<lambda>_.
          rbind (nft_internal_transfer_unguarded K (nft_clear_approvals K t tok) tok owner r) (\<lambda>t2.
          Inr (t2, nft_emit_transfer owner r tok x memo h, owner, nft_approvals K t tok)))"
  have "nft_internal_transfer K t h s r tok aid memo =
      rbind (nft_authorize s owner (nft_approvals K t tok) aid) ?rest"
    using Some by (cases "approvals_by_id t")
      (simp_all add: nft_internal_transfer_def nft_owners_def nft_clear_approvals_def
        nft_approvals_def ap.remove_old case_prod_beta)
  then show ?thesis
    using Some by (cases "nft_authorize s owner (nft_approvals K t tok) aid")
      (simp_all add: nft_emit_transfer_unauthorized)
qed

lemma internal_transfer_moves:
  assumes ok: "nft_index_ok K t" and owner: "nft_owners K t tok = Some owner"
    and auth: "nft_authorized K t s tok aid" and r: "owner \<noteq> r"
  obtains t' where "nft_internal_transfer K t h s r tok aid memo =
      Inr (t', nft_transfer_emit (NftTransfer owner r [tok] None memo) h, owner, nft_approvals K t tok)"
    and "nft_moved K t tok r None t'" and "nft_index_ok K t'"
proof -
  have "\<exists>x. nft_authorize s owner (nft_approvals K t tok) aid = Inr x"
    unfolding nft_authorize_iff using auth owner
    by (cases "s = owner") (auto simp: nft_authorized_def nft_approval_def split: option.splits)
  then obtain x where "nft_authorize s owner (nft_approvals K t tok) aid = Inr x" ..
  moreover obtain t' where t': "nft_internal_transfer_unguarded K (nft_clear_approvals K t tok) tok owner r = Inr t'"
      "nft_owners K t' = (nft_owners K t)(tok \<mapsto> r)" "nft_index_ok K t'"
      "approvals_by_id t' = approvals_by_id (nft_clear_approvals K t tok)"
      "next_approval_id_by_id t' = next_approval_id_by_id (nft_clear_approvals K t tok)"
      "token_metadata_by_id t' = token_metadata_by_id (nft_clear_approvals K t tok)"
      "tokens_per_owner t' = None \<longleftrightarrow> tokens_per_owner (nft_clear_approvals K t tok) = None"
      "nft_owner_id t' = nft_owner_id (nft_clear_approvals K t tok)"
    using unguarded_spec [of "nft_clear_approvals K t tok" tok owner r] ok owner
    unfolding clear_approvals_views by blast
  ultimately have "nft_internal_transfer K t h s r tok aid memo =
      Inr (t', nft_transfer_emit (NftTransfer owner r [tok] None memo) h, owner, nft_approvals K t tok)"
    using owner r by (simp add: internal_transfer_eq)
  moreover have "nft_approvals K t' = nft_approvals K (nft_clear_approvals K t tok)"
    "nft_next_id K t' = nft_next_id K (nft_clear_approvals K t tok)"
    "nft_metadata_of K t' = nft_metadata_of K (nft_clear_approvals K t tok)"
    using t' by (auto simp: nft_approvals_def nft_next_id_def nft_metadata_of_def)
  then have "nft_moved K t tok r None t'"
    using t' clear_approvals_views(6) [of t tok]
    by (auto simp: nft_moved_def clear_approvals_views nft_same_shape_def)
  ultimately show ?thesis using that t'(3) by blast
qed

lemma internal_transfer_returns:
  assumes "nft_internal_transfer K t h s r tok aid memo = Inr (t', h', owner, A)"
  shows "nft_owners K t tok = Some owner" and "nft_authorized K t s tok aid" and "owner \<noteq> r"
    and "A = nft_approvals K t tok"
  using assms
  by (auto simp: internal_transfer_eq result_simps nft_authorized_def nft_approval_def
      split: option.splits if_splits)

lemma internal_transfer_result:
  assumes "nft_index_ok K t"
    and "nft_internal_transfer K t h s r tok aid memo = Inr (t', h', owner, A)"
  shows "nft_moved K t tok r None t'" and "nft_index_ok K t'"
    and "h' = nft_transfer_emit (NftTransfer owner r [tok] None memo) h"
  using internal_transfer_moves [OF assms(1) internal_transfer_returns(1-3) [OF assms(2)]] assms(2)
  by (metis Inr_inject prod.inject)+

end

subsection \<open>Collections that evaluate\<close>

text \<open>
  The token over association lists, for concrete runs.  The digest is the identity and the storage
  key is the digest itself: the laws do not depend on either.
\<close>

type_synonym list_nft =
  "((TokenId, AccountId) alist, (TokenId, TokenMetadata) alist, (AccountId, TokenId dlist) alist,
    (TokenId, approvals) alist, (TokenId, u64) alist) NonFungibleToken"

definition plain_map :: "(('k, 'v) alist, 'k, 'v) map_ops" where
  "plain_map = map_ops.truncate list_map"

lemma plain_map_simps [simp]:
  "lm_new plain_map = (\<lambda>p. DAList.empty)" "lm_get plain_map = DAList.lookup"
  "lm_contains_key plain_map = (\<lambda>m k. DAList.lookup m k \<noteq> None)"
  "lm_insert plain_map = (\<lambda>m k v. (DAList.update k v m, DAList.lookup m k))"
  "lm_remove plain_map = (\<lambda>m k. (DAList.delete k m, DAList.lookup m k))"
  by (simp_all add: plain_map_def list_map_def map_ops.truncate_def)

interpretation pm: lookup_map "plain_map :: (('k, 'v) alist, 'k, 'v) map_ops"
  by unfold_locales (auto simp: fun_eq_iff DAList.lookup_update)

definition list_nft_ops ::
    "((TokenId, AccountId) alist, (TokenId, TokenMetadata) alist, (AccountId, TokenId dlist) alist,
      TokenId dlist, (TokenId, approvals) alist, (TokenId, u64) alist) nft_ops" where
  "list_nft_ops =
     \<lparr>owners_ops = list_map, metadata_ops = plain_map, per_owner_ops = plain_map,
      token_set_ops = list_set, approvals_ops = plain_map, next_id_ops = plain_map,
      sha256 = (\<lambda>b. b), into_storage_key = (\<lambda>k. account_hash k)\<rparr>"

lemma list_nft_ops_simps [simp]:
  "owners_ops list_nft_ops = list_map" "metadata_ops list_nft_ops = plain_map"
  "per_owner_ops list_nft_ops = plain_map" "token_set_ops list_nft_ops = list_set"
  "approvals_ops list_nft_ops = plain_map" "next_id_ops list_nft_ops = plain_map"
  "sha256 list_nft_ops = (\<lambda>b. b)" "into_storage_key list_nft_ops = (\<lambda>k. account_hash k)"
  by (simp_all add: list_nft_ops_def)

interpretation ln: nft_store list_nft_ops
  by (simp add: nft_store_def am.tree_map_axioms pm.lookup_map_axioms ds.unordered_set_axioms)

end
