(* ===== verification/NftRefunds.thy ===== *)
theory NftRefunds
  imports Nft
begin

section \<open>Storage deposits of the non-fungible token\<close>

text \<open>
  What the functions of \<open>non_fungible_token/utils.rs\<close> compute, as natural numbers: the bytes an
  approval takes, the price of some bytes, and the refunds.  The conditions say that the numbers
  fit their machine types; then the result is the same under both \<open>overflow-checks\<close> settings.
\<close>

definition approval_bytes :: "AccountId list \<Rightarrow> nat" where
  "approval_bytes as = (\<Sum>a\<leftarrow>as. length a + 12)"

lemma approval_bytes_simps [simp]:
  "approval_bytes [] = 0" "approval_bytes (a # as) = length a + 12 + approval_bytes as"
  by (simp_all add: approval_bytes_def)

definition bytes_price :: "env \<Rightarrow> nat \<Rightarrow> nat" where
  "bytes_price e n = n * unat (storage_byte_cost e)"

lemma unat_of_nat_u64: "n < 2 ^ 64 \<Longrightarrow> unat (of_nat n :: u64) = n"
  by (simp add: unsigned_of_nat take_bit_nat_eq_self)

lemma unat_add_u64:
  fixes a b :: u64
  assumes "unat a + unat b < 2 ^ 64"
  shows "unat (a + b) = unat a + unat b"
  using assms by (intro unat_add_exact) simp

lemma bytes_for_approved_account_id_eq:
  assumes "length a + 12 < 2 ^ 64"
  shows "bytes_for_approved_account_id e a = Inr (of_nat (length a + 12))"
proof -
  have n: "unat (of_nat (length a) :: u64) = length a"
    using assms by (intro unat_of_nat_u64) simp
  have n4: "unat (of_nat (length a) + 4 :: u64) = length a + 4"
    using assms n by (subst unat_add_u64) simp_all
  have "add_op (overflow_checks e) (of_nat (length a)) 4 =
      (Inr (of_nat (length a) + 4) :: NftError panic + u64)"
    using assms n by (intro add_op_exact) simp
  moreover have "add_op (overflow_checks e) (of_nat (length a) + 4) 8 =
      (Inr (of_nat (length a) + 4 + 8) :: NftError panic + u64)"
    using assms n4 by (intro add_op_exact) simp
  ultimately show ?thesis by (simp add: bytes_for_approved_account_id_def add.assoc)
qed

lemma storage_released_eq:
  "unat acc + approval_bytes as < 2 ^ 64 \<Longrightarrow>
     \<exists>r. storage_released e acc as = Inr r \<and> unat r = unat acc + approval_bytes as"
proof (induction as arbitrary: acc)
  case Nil
  then show ?case by simp
next
  case (Cons a as)
  let ?n = "of_nat (length a + 12) :: u64"
  have n: "unat ?n = length a + 12" using Cons.prems by (intro unat_of_nat_u64) simp
  have b: "bytes_for_approved_account_id e a = Inr ?n"
    using Cons.prems by (intro bytes_for_approved_account_id_eq) simp
  have add: "add_op (overflow_checks e) acc ?n = (Inr (acc + ?n) :: NftError panic + u64)"
    using Cons.prems n by (intro add_op_exact) simp
  have acc: "unat (acc + ?n) = unat acc + (length a + 12)"
    using Cons.prems n unat_add_u64 [of acc ?n] by simp
  have "unat (acc + ?n) + approval_bytes as < 2 ^ 64" using Cons.prems acc by simp
  from Cons.IH [OF this] obtain r where
    "storage_released e (acc + ?n) as = Inr r" "unat r = unat (acc + ?n) + approval_bytes as" by blast
  with b add acc show ?case by (simp del: of_nat_add)
qed

text \<open>The price of some bytes fits a balance.\<close>

lemma refund_approved_account_ids_iter_eq:
  assumes "approval_bytes as < 2 ^ 64" and "bytes_price e (approval_bytes as) < 2 ^ 128"
  shows "\<exists>x. refund_approved_account_ids_iter e a as h = Inr (schedule (Transfer a x) h) \<and>
     unat x = bytes_price e (approval_bytes as)"
proof -
  obtain r where r: "storage_released e 0 as = Inr r" "unat r = approval_bytes as"
    using storage_released_eq [of 0 as e] assms(1) by auto
  let ?x = "ucast r * storage_byte_cost e"
  have m: "checked_mul (ucast r :: u128) (storage_byte_cost e) = Some ?x"
    using assms(2) r(2) by (simp add: checked_mul_def bytes_price_def)
  then have "mul_op (overflow_checks e) (ucast r) (storage_byte_cost e) =
      (Inr ?x :: NftError panic + u128)"
    by (simp add: mul_op_def plain_op_def)
  moreover have "unat ?x = bytes_price e (approval_bytes as)"
    using m r(2) by (simp add: unat_arith_simps bytes_price_def)
  ultimately show ?thesis using r by (auto simp: refund_approved_account_ids_iter_def)
qed

lemma refund_approved_account_ids_iter_returns:
  "refund_approved_account_ids_iter e a as h = Inr h' \<Longrightarrow> \<exists>x. h' = schedule (Transfer a x) h"
  by (auto simp: refund_approved_account_ids_iter_def result_simps)

text \<open>A deposit pays for the bytes used; what is left over goes back, unless it is one yoctoNEAR.\<close>

lemma refund_deposit_to_account_eq:
  assumes "bytes_price e (unat n) < 2 ^ 128"
  shows "refund_deposit_to_account e n a h =
     (let cost = bytes_price e (unat n) in
      if cost \<le> unat (attached_deposit e)
      then Inr (if 1 < unat (attached_deposit e) - cost
                then schedule (Transfer a (attached_deposit e - storage_byte_cost e * ucast n)) h
                else h)
      else Inl (Msg (MustAttach (storage_byte_cost e * ucast n))))"
    and "unat (storage_byte_cost e * ucast n) = bytes_price e (unat n)"
proof -
  let ?x = "storage_byte_cost e * ucast n"
  have m: "checked_mul (storage_byte_cost e) (ucast n :: u128) = Some ?x"
    using assms by (simp add: checked_mul_def bytes_price_def mult.commute)
  then have op: "mul_op (overflow_checks e) (storage_byte_cost e) (ucast n) =
      (Inr ?x :: NftError panic + u128)"
    by (simp add: mul_op_def plain_op_def)
  show x: "unat ?x = bytes_price e (unat n)"
    using m by (simp add: unat_arith_simps bytes_price_def mult.commute)
  have le: "?x \<le> attached_deposit e \<longleftrightarrow> bytes_price e (unat n) \<le> unat (attached_deposit e)"
    by (simp add: word_le_nat_alt x)
  have gt: "1 < attached_deposit e - ?x \<longleftrightarrow> 1 < unat (attached_deposit e) - bytes_price e (unat n)"
    if "?x \<le> attached_deposit e"
    using that by (simp add: word_less_nat_alt unat_sub_exact x le)
  have "sub_op (overflow_checks e) (attached_deposit e) ?x =
      (Inr (attached_deposit e - ?x) :: NftError panic + u128)" if "?x \<le> attached_deposit e"
    using that by (intro sub_op_exact) (simp add: word_le_nat_alt)
  then show "refund_deposit_to_account e n a h =
     (let cost = bytes_price e (unat n) in
      if cost \<le> unat (attached_deposit e)
      then Inr (if 1 < unat (attached_deposit e) - cost
                then schedule (Transfer a (attached_deposit e - ?x)) h
                else h)
      else Inl (Msg (MustAttach ?x)))"
    using op le gt by (cases "?x \<le> attached_deposit e")
      (simp_all add: refund_deposit_to_account_def Let_def)
qed

lemma refund_deposit_to_account_returns:
  "refund_deposit_to_account e n a h = Inr h' \<Longrightarrow>
     logs h' = logs h \<and> (h' = h \<or> (\<exists>x. h' = schedule (Transfer a x) h))"
  by (auto simp: refund_deposit_to_account_def result_simps split: if_splits)

end
