(* ===== verification/NftOps.thy ===== *)
theory NftOps
  imports NftStore NftRefunds
begin

section \<open>Minting, approvals and settlements of the non-fungible token\<close>

text \<open>
  For each operation beside the transfer: what it leaves behind when it returns, in terms of the
  content of the collections, and when it does return.  The last part collects that every
  operation keeps the invariants.
\<close>

subsection \<open>Changes of the token's state\<close>

text \<open>A new token, and nothing else.\<close>

definition nft_minted ::
    "('o, 'md, 'te, 'us, 'ap, 'nx) nft_ops \<Rightarrow> ('o, 'md, 'te, 'ap, 'nx) NonFungibleToken \<Rightarrow>
     TokenId \<Rightarrow> AccountId \<Rightarrow> TokenMetadata option \<Rightarrow> ('o, 'md, 'te, 'ap, 'nx) NonFungibleToken \<Rightarrow>
     bool" where
  "nft_minted K t tok owner metadata t' \<longleftrightarrow>
     nft_owners K t tok = None \<and>
     nft_owners K t' = (nft_owners K t)(tok \<mapsto> owner) \<and>
     nft_approvals K t' = nft_approvals K t \<and>
     nft_next_id K t' = nft_next_id K t \<and>
     nft_metadata_of K t' =
       (if token_metadata_by_id t = None then nft_metadata_of K t
        else (nft_metadata_of K t)(tok := metadata)) \<and>
     (token_metadata_by_id t = None \<or> metadata \<noteq> None) \<and>
     nft_same_shape t t'"

text \<open>The approvals of a token are \<open>A\<close>, and nothing else is different.\<close>

definition nft_reapproved ::
    "('o, 'md, 'te, 'us, 'ap, 'nx) nft_ops \<Rightarrow> ('o, 'md, 'te, 'ap, 'nx) NonFungibleToken \<Rightarrow>
     TokenId \<Rightarrow> approvals option \<Rightarrow> ('o, 'md, 'te, 'ap, 'nx) NonFungibleToken \<Rightarrow> bool" where
  "nft_reapproved K t tok A t' \<longleftrightarrow>
     nft_owners K t' = nft_owners K t \<and>
     nft_approvals K t' = (nft_approvals K t)(tok := A) \<and>
     nft_next_id K t' = nft_next_id K t \<and>
     nft_metadata_of K t' = nft_metadata_of K t \<and>
     nft_index_ok K t' = nft_index_ok K t \<and>
     nft_same_shape t t'"

text \<open>The state after a mint: the owner, the metadata and the index by owner are recorded.\<close>

definition nft_with_token ::
    "('o, 'md, 'te, 'us, 'ap, 'nx) nft_ops \<Rightarrow> ('o, 'md, 'te, 'ap, 'nx) NonFungibleToken \<Rightarrow>
     TokenId \<Rightarrow> AccountId \<Rightarrow> TokenMetadata option \<Rightarrow> ('o, 'md, 'te, 'ap, 'nx) NonFungibleToken" where
  "nft_with_token K t tok owner metadata =
     (let t1 = t\<lparr>owner_by_id := fst (lm_insert (owners_ops K) (owner_by_id t) tok owner)\<rparr>;
          t2 = (case token_metadata_by_id t of
                  None \<Rightarrow> t1
                | Some m \<Rightarrow> t1\<lparr>token_metadata_by_id :=
                                Some (fst (lm_insert (metadata_ops K) m tok (the metadata)))\<rparr>)
      in case tokens_per_owner t of
           None \<Rightarrow> t2
         | Some m \<Rightarrow> t2\<lparr>tokens_per_owner :=
                         Some (fst (lm_insert (per_owner_ops K) m owner
                           (fst (us_insert (token_set_ops K)
                              (unwrap_or (new_token_set K owner) (lm_get (per_owner_ops K) m owner))
                              tok))))\<rparr>)"

lemma nft_mint_eq:
  "nft_internal_mint_with_refund K usage e t h tok owner metadata refund_id =
     (if token_metadata_by_id t \<noteq> None \<and> metadata = None then Inl (Msg MustProvideMetadata)
      else if nft_owners K t tok \<noteq> None then Inl (Msg TokenIdNotUnique)
      else
        rbind (case refund_id of
                 None \<Rightarrow> Inr h
               | Some a \<Rightarrow>
                   rbind (sub_op (overflow_checks e)
                            (usage (nft_with_token K t tok owner metadata)) (usage t)) (\<lambda>used.
                   refund_deposit_to_account e used a h)) (\<lambda>h1.
        Inr (nft_with_token K t tok owner metadata, h1,
             \<lparr>tok_token_id = tok, tok_owner_id = owner, tok_metadata = metadata,
              tok_approved_account_ids =
                (if approvals_by_id t \<noteq> None then Some DAList.empty else None)\<rparr>)))"
  by (cases "token_metadata_by_id t"; cases "tokens_per_owner t"; cases metadata; cases refund_id)
    (simp_all add: nft_internal_mint_with_refund_def nft_owners_def nft_with_token_def Let_def)

lemma nft_minted_extensions_ok:
  assumes "nft_minted K t tok owner metadata t'" and "nft_extensions_ok K t"
  shows "nft_extensions_ok K t'"
  using assms by (auto simp: nft_minted_def nft_extensions_ok_def nft_same_shape_def)

lemma nft_minted_ids_ok:
  assumes "nft_minted K t tok owner metadata t'" and "nft_ids_ok K t"
  shows "nft_ids_ok K t'"
  using assms by (simp add: nft_minted_def nft_ids_ok_def nft_approval_def)

lemma nft_reapproved_extensions_ok:
  assumes "nft_reapproved K t tok A t'" and "nft_extensions_ok K t"
    and "nft_owners K t tok \<noteq> None"
  shows "nft_extensions_ok K t'"
  using assms by (auto simp: nft_reapproved_def nft_extensions_ok_def nft_same_shape_def)

lemma nft_reapproved_approval:
  assumes "nft_reapproved K t tok A t'"
  shows "nft_approval K t' x a =
    (if x = tok then (case A of None \<Rightarrow> None | Some B \<Rightarrow> DAList.lookup B a) else nft_approval K t x a)"
  using assms by (simp add: nft_reapproved_def nft_approval_def)

lemma nft_reapproved_ids_ok:
  assumes "nft_reapproved K t tok A t'" and "nft_ids_ok K t"
    and "\<And>B. A = Some B \<Longrightarrow> approval_ids_ok (nft_next_id K t tok) B"
  shows "nft_ids_ok K t'"
  using assms by (simp add: nft_reapproved_def nft_ids_ok_def)

lemma nft_token_eq:
  "nft_token K t tok =
     map_option (\<lambda>owner. \<lparr>tok_token_id = tok, tok_owner_id = owner,
       tok_metadata = nft_metadata_of K t tok,
       tok_approved_account_ids = (if approvals_by_id t = None then None
         else Some (unwrap_or DAList.empty (nft_approvals K t tok)))\<rparr>) (nft_owners K t tok)"
  by (auto simp: nft_token_def nft_owners_def nft_metadata_of_def nft_approvals_def
      split: option.split)

lemma enum_get_token_eq:
  "nft_owners K t tok = Some owner \<Longrightarrow> nft_token K t tok = Some (enum_get_token K t owner tok)"
  by (auto simp: nft_token_eq enum_get_token_def nft_metadata_of_def nft_approvals_def
      split: option.split)

text \<open>Pages: the parts of a list, one after the other.\<close>

lemma concat_pages:
  "concat (map (\<lambda>i. take n (drop (i * n) xs)) [0..<k]) = take (k * n) xs"
proof (induction k)
  case (Suc k)
  have "take (k * n + n) xs = take (k * n) xs @ take n (drop (k * n) xs)"
    by (rule take_add)
  with Suc show ?case by (simp add: add.commute)
qed simp

lemma unat_ucast_to_usize:
  fixes x :: "'w::len word"
  assumes "unat x < 2 ^ 32"
  shows "unat (ucast x :: usize) = unat x"
  using assms by (simp add: unsigned_ucast_eq take_bit_nat_eq_self)

lemma page_eq:
  assumes "unat start < 2 ^ 32"
  shows "page start limit xs = take (unat limit) (drop (unat start) xs)"
  using assms unat_ucast_to_usize [of start] by (simp add: page_def)

lemma page_limit_small:
  assumes "0 < n" and "n < 2 ^ 32"
  shows "page_limit (Some (of_nat n)) = Inr (of_nat n)" and "unat (of_nat n :: usize) = n"
proof -
  have "unat (of_nat n :: u64) = n" using assms(2) by (intro unat_of_nat_u64) simp
  then have "unat (ucast (of_nat n :: u64) :: usize) = n"
    using assms(2) unat_ucast_to_usize [of "of_nat n :: u64"] by simp
  moreover show n: "unat (of_nat n :: usize) = n"
    using assms(2) by (simp add: unsigned_of_nat take_bit_nat_eq_self)
  ultimately have u: "(ucast (of_nat n :: u64) :: usize) = of_nat n"
    by (simp add: word_unat_eq_iff)
  have "(of_nat n :: usize) \<noteq> 0" using n assms(1) by (metis neq0_conv unat_0)
  then show "page_limit (Some (of_nat n)) = Inr (of_nat n)"
    by (simp add: page_limit_def u)
qed

lemma nft_is_approved_eq:
  "nft_is_approved K t tok a approval_id =
     (case nft_owners K t tok of
        None \<Rightarrow> Inl (Msg TokenNotFound)
      | Some owner \<Rightarrow>
          Inr (case nft_approval K t tok a of
                 None \<Rightarrow> False | Some i \<Rightarrow> approval_id = None \<or> approval_id = Some i))"
  by (auto simp: nft_is_approved_def expect_token_found_def nft_owners_def nft_approval_def
      nft_approvals_def split: option.split)

text \<open>What an approval costs, and that the rest of the call pays nobody.\<close>

lemma approve_paid:
  assumes "nft_approve K e t h tok a msg = Inr (t', h')"
  shows "\<exists>n h1. (if nft_approval K t tok a = None then bytes_for_approved_account_id e a else Inr 0) = Inr n \<and>
     refund_deposit_to_account e n (predecessor_account_id e) h = Inr h1 \<and>
     (\<forall>c. total_paid_to c h' = total_paid_to c h1)"
proof -
  from assms obtain m where m: "approvals_by_id t = Some m"
    by (auto simp: nft_approve_def result_simps)
  have look: "DAList.lookup (unwrap_or DAList.empty (lm_get (approvals_ops K) m tok)) a =
      nft_approval K t tok a"
    using m by (cases "lm_get (approvals_ops K) m tok") (simp_all add: nft_approval_def nft_approvals_def)
  show ?thesis
  proof (cases msg)
    case None
    with assms m show ?thesis
      by (auto simp: nft_approve_def result_simps Let_def look refund_deposit_def)
  next
    case (Some s)
    with assms m obtain n h1 p where
      "(if nft_approval K t tok a = None then bytes_for_approved_account_id e a else Inr 0) = Inr n"
      "refund_deposit_to_account e n (predecessor_account_id e) h = Inr h1"
      "h' = schedule p h1" "\<And>c. paid_to c p = 0"
      by (fastforce simp: nft_approve_def result_simps Let_def look refund_deposit_def)
    then show ?thesis by auto
  qed
qed

text \<open>The approvals a token has after it was returned: the previous owner's if there were any.\<close>

definition nft_resolved_approvals :: "approvals option \<Rightarrow> approvals option \<Rightarrow> approvals option" where
  "nft_resolved_approvals receiver_approvals previous =
     (case previous of None \<Rightarrow> receiver_approvals | Some A \<Rightarrow> Some A)"

context nft_store
begin

subsection \<open>Minting\<close>

lemma with_token_minted:
  assumes "nft_owners K t tok = None" and "token_metadata_by_id t = None \<or> metadata \<noteq> None"
  shows "nft_minted K t tok owner metadata (nft_with_token K t tok owner metadata)"
proof -
  let ?t' = "nft_with_token K t tok owner metadata"
  have "nft_metadata_of K ?t' = (if token_metadata_by_id t = None then nft_metadata_of K t
        else (nft_metadata_of K t)(tok := metadata))"
    using assms(2) by (cases "token_metadata_by_id t")
      (auto simp: nft_metadata_of_def nft_with_token_def md.map_laws Let_def fun_eq_iff
        split: option.split)
  moreover have "nft_owners K ?t' = (nft_owners K t)(tok \<mapsto> owner)"
    by (simp add: nft_owners_def nft_with_token_def ow.map_laws Let_def split: option.split)
  ultimately show ?thesis
    using assms
    by (simp add: nft_minted_def)
      (simp add: nft_with_token_def nft_same_shape_def nft_approvals_def nft_next_id_def fun_eq_iff
        Let_def split: option.split)
qed

lemma with_token_index_ok:
  assumes "nft_index_ok K t" and "nft_owners K t tok = None"
  shows "nft_index_ok K (nft_with_token K t tok owner metadata)"
proof (cases "tokens_per_owner t")
  case None
  then show ?thesis by (simp add: nft_index_ok_def nft_with_token_def Let_def split: option.split)
next
  case (Some m)
  then have "held_sets K m = index_of (nft_owners K t)" using assms(1) by (simp add: nft_index_ok_def)
  from add_to_index [OF this assms(2), of owner] Some show ?thesis
    by (simp add: nft_index_ok_def nft_with_token_def nft_owners_def ow.map_laws Let_def
        split: option.split)
qed

lemma mint_with_refund_returns:
  assumes "nft_internal_mint_with_refund K usage e t h tok owner metadata refund_id = Inr (t', h', token)"
  shows "nft_minted K t tok owner metadata t'"
    and "nft_index_ok K t \<Longrightarrow> nft_index_ok K t'"
    and "t' = nft_with_token K t tok owner metadata"
    and "token = \<lparr>tok_token_id = tok, tok_owner_id = owner, tok_metadata = metadata,
           tok_approved_account_ids = (if approvals_by_id t \<noteq> None then Some DAList.empty else None)\<rparr>"
proof -
  have t': "t' = nft_with_token K t tok owner metadata" "nft_owners K t tok = None"
    "token_metadata_by_id t = None \<or> metadata \<noteq> None"
    and token: "token = \<lparr>tok_token_id = tok, tok_owner_id = owner, tok_metadata = metadata,
           tok_approved_account_ids = (if approvals_by_id t \<noteq> None then Some DAList.empty else None)\<rparr>"
    using assms by (auto simp: nft_mint_eq result_simps split: if_splits)
  then show "nft_minted K t tok owner metadata t'" and "nft_index_ok K t \<Longrightarrow> nft_index_ok K t'"
    using with_token_minted with_token_index_ok by blast+
  show "t' = nft_with_token K t tok owner metadata" by (rule t'(1))
  show "token = \<lparr>tok_token_id = tok, tok_owner_id = owner, tok_metadata = metadata,
           tok_approved_account_ids = (if approvals_by_id t \<noteq> None then Some DAList.empty else None)\<rparr>"
    by (rule token)
qed

subsection \<open>Approvals\<close>

lemma approvals_set_reapproved:
  assumes "approvals_by_id t = Some m"
  shows "nft_reapproved K t tok (Some A)
           (t\<lparr>approvals_by_id := Some (fst (lm_insert (approvals_ops K) m tok A))\<rparr>)"
    and "nft_reapproved K t tok None
           (t\<lparr>approvals_by_id := Some (fst (lm_remove (approvals_ops K) m tok))\<rparr>)"
  using assms
  by (simp_all add: nft_reapproved_def approvals_insert approvals_remove nft_index_ok_def
      nft_same_shape_def split: option.split)

lemma reapproved_same: "nft_approvals K t tok = A \<Longrightarrow> nft_reapproved K t tok A t"
  by (auto simp: nft_reapproved_def)

lemma add_op_next:
  "add_op True (n :: u64) 1 = (Inr m :: NftError panic + u64) \<Longrightarrow> n < m"
  by (simp add: unat_arith_simps word_less_nat_alt)

text \<open>What \<open>nft_approve\<close> leaves behind: the next id is given to the account and used up.\<close>

lemma approve_returns:
  assumes "nft_approve K e t h tok a msg = Inr (t', h')"
  obtains next_id where "nft_owners K t tok = Some (predecessor_account_id e)"
    and "1 \<le> attached_deposit e" and "approvals_by_id t \<noteq> None"
    and "add_op (overflow_checks e) (nft_next_id K t tok) 1 = (Inr next_id :: NftError panic + u64)"
    and "nft_owners K t' = nft_owners K t"
    and "nft_approvals K t' = (nft_approvals K t)(tok \<mapsto>
           DAList.update a (nft_next_id K t tok) (unwrap_or DAList.empty (nft_approvals K t tok)))"
    and "nft_next_id K t' = (nft_next_id K t)(tok := next_id)"
    and "nft_metadata_of K t' = nft_metadata_of K t"
    and "nft_index_ok K t' = nft_index_ok K t" and "nft_same_shape t t'"
proof -
  from assms obtain m n next_id where
    m: "approvals_by_id t = Some m" and n: "next_approval_id_by_id t = Some n"
    and owner: "lm_get (owners_ops K) (owner_by_id t) tok = Some (predecessor_account_id e)"
    and pay: "1 \<le> attached_deposit e"
    and add: "add_op (overflow_checks e) (unwrap_or 1 (lm_get (next_id_ops K) n tok)) 1 =
      (Inr next_id :: NftError panic + u64)"
    and t': "t' = t\<lparr>approvals_by_id := Some (fst (lm_insert (approvals_ops K) m tok
          (DAList.update a (unwrap_or 1 (lm_get (next_id_ops K) n tok))
             (unwrap_or DAList.empty (lm_get (approvals_ops K) m tok))))),
        next_approval_id_by_id := Some (fst (lm_insert (next_id_ops K) n tok next_id))\<rparr>"
    by (auto simp: nft_approve_def assert_at_least_one_yocto_def expect_token_found_def
        expect_approval_def result_simps Let_def split: option.splits)
  have id: "nft_next_id K t tok = unwrap_or 1 (lm_get (next_id_ops K) n tok)"
    using n by (simp add: nft_next_id_def)
  have ids: "nft_approvals K t tok = lm_get (approvals_ops K) m tok"
    using m by (simp add: nft_approvals_def)
  have "nft_approvals K t' = (nft_approvals K t)(tok \<mapsto>
           DAList.update a (nft_next_id K t tok) (unwrap_or DAList.empty (nft_approvals K t tok)))"
    using approvals_insert [OF m] unfolding t' id ids by simp
  moreover have "nft_next_id K t' = (nft_next_id K t)(tok := next_id)"
    using n by (auto simp: t' nft_next_id_def nx.map_laws)
  moreover have "nft_index_ok K t' = nft_index_ok K t"
    by (simp add: t' nft_index_ok_def split: option.split)
  moreover have "nft_same_shape t t'" using m n by (simp add: t' nft_same_shape_def)
  ultimately show ?thesis
    using that [of next_id] owner pay m add id by (simp add: nft_owners_def t' nft_metadata_of_def fun_eq_iff)
qed

lemma approve_keeps:
  assumes res: "nft_approve K e t h tok a msg = Inr (t', h')"
    and index: "nft_index_ok K t" and ext: "nft_extensions_ok K t"
  shows "nft_index_ok K t'" and "nft_extensions_ok K t'"
    and "overflow_checks e \<Longrightarrow> nft_ids_ok K t \<Longrightarrow> nft_ids_ok K t'"
proof -
  from res obtain next_id where r:
    "nft_owners K t tok = Some (predecessor_account_id e)"
    "add_op (overflow_checks e) (nft_next_id K t tok) 1 = (Inr next_id :: NftError panic + u64)"
    "nft_owners K t' = nft_owners K t"
    "nft_approvals K t' = (nft_approvals K t)(tok \<mapsto>
       DAList.update a (nft_next_id K t tok) (unwrap_or DAList.empty (nft_approvals K t tok)))"
    "nft_next_id K t' = (nft_next_id K t)(tok := next_id)"
    "nft_metadata_of K t' = nft_metadata_of K t"
    "nft_index_ok K t' = nft_index_ok K t" "nft_same_shape t t'"
    by (rule approve_returns) blast
  show "nft_index_ok K t'" using r(7) index by simp
  show "nft_extensions_ok K t'"
    using ext r by (auto simp: nft_extensions_ok_def nft_same_shape_def)
  show "nft_ids_ok K t'" if checks: "overflow_checks e" and ids: "nft_ids_ok K t"
  proof -
    have less: "nft_next_id K t tok < next_id" using r(2) checks add_op_next by simp
    have "approval_ids_ok (nft_next_id K t tok) (unwrap_or DAList.empty (nft_approvals K t tok))"
      using ids by (cases "nft_approvals K t tok") (auto simp: nft_ids_ok_def approval_ids_ok_empty)
    from approval_ids_ok_update [OF this less] ids r(4,5) show ?thesis
      by (simp add: nft_ids_ok_def)
  qed
qed

lemma revoke_returns:
  assumes "nft_revoke K e t h tok a = Inr (t', h')"
  shows "nft_owners K t tok = Some (predecessor_account_id e)"
    and "attached_deposit e = 1" and "approvals_by_id t \<noteq> None"
    and "nft_reapproved K t tok
           (case nft_approvals K t tok of
              None \<Rightarrow> None
            | Some A \<Rightarrow> if DAList.lookup A a = None then Some A
                else if DAList.impl_of (DAList.delete a A) = [] then None
                else Some (DAList.delete a A)) t'"
proof -
  from assms obtain m where m: "approvals_by_id t = Some m"
    by (auto simp: nft_revoke_def result_simps)
  with assms show "nft_owners K t tok = Some (predecessor_account_id e)"
    and "attached_deposit e = 1" and "approvals_by_id t \<noteq> None"
    by (auto simp: nft_revoke_def result_simps expect_token_found_def nft_owners_def)
  have A: "nft_approvals K t tok = lm_get (approvals_ops K) m tok"
    using m by (simp add: nft_approvals_def)
  show "nft_reapproved K t tok
           (case nft_approvals K t tok of
              None \<Rightarrow> None
            | Some A \<Rightarrow> if DAList.lookup A a = None then Some A
                else if DAList.impl_of (DAList.delete a A) = [] then None
                else Some (DAList.delete a A)) t'"
    using assms m A approvals_set_reapproved [OF m] reapproved_same [of t tok]
    by (auto simp: nft_revoke_def result_simps Let_def split: option.splits if_splits)
qed

lemma revoke_all_returns:
  assumes "nft_revoke_all K e t h tok = Inr (t', h')"
  shows "nft_owners K t tok = Some (predecessor_account_id e)"
    and "attached_deposit e = 1" and "approvals_by_id t \<noteq> None"
    and "nft_reapproved K t tok None t'"
proof -
  from assms obtain m where m: "approvals_by_id t = Some m"
    by (auto simp: nft_revoke_all_def result_simps)
  with assms show "nft_owners K t tok = Some (predecessor_account_id e)"
    and "attached_deposit e = 1" and "approvals_by_id t \<noteq> None"
    by (auto simp: nft_revoke_all_def result_simps expect_token_found_def nft_owners_def)
  have A: "nft_approvals K t tok = lm_get (approvals_ops K) m tok"
    using m by (simp add: nft_approvals_def)
  show "nft_reapproved K t tok None t'"
    using assms m A approvals_set_reapproved(2) [OF m] reapproved_same [of t tok]
    by (auto simp: nft_revoke_all_def result_simps split: option.splits)
qed

subsection \<open>Settling a transfer call\<close>

text \<open>
  The three ways \<open>nft_resolve_transfer\<close> ends.  The token stays where it is when the receiver keeps
  it, when somebody else owns it by now, or when it is gone; otherwise it goes back.
\<close>

lemma restore_approvals_returns:
  assumes "nft_restore_approvals K e t h rc tok prev = Inr (t', h')"
  shows "nft_reapproved K t tok
     (if approvals_by_id t = None then None
      else nft_resolved_approvals (nft_approvals K t tok) prev) t'"
    and "logs h' = logs h"
proof -
  have "logs h1 = logs h" if "refund_approved_account_ids e rc A h = Inr h1" for A h1
    using that unfolding refund_approved_account_ids_def
    by (auto dest: refund_approved_account_ids_iter_returns)
  then show "logs h' = logs h"
    using assms by (auto simp: nft_restore_approvals_def result_simps split: option.splits)
  show "nft_reapproved K t tok
     (if approvals_by_id t = None then None
      else nft_resolved_approvals (nft_approvals K t tok) prev) t'"
  proof (cases "approvals_by_id t")
    case None
    then show ?thesis using assms reapproved_same [of t tok]
      by (simp add: nft_restore_approvals_def nft_approvals_def [of _ _ tok])
  next
    case (Some m)
    then have "t' = (case prev of None \<Rightarrow> t
        | Some A \<Rightarrow> t\<lparr>approvals_by_id := Some (fst (lm_insert (approvals_ops K) m tok A))\<rparr>)"
      using assms by (auto simp: nft_restore_approvals_def result_simps split: option.splits)
    then show ?thesis
      using Some approvals_set_reapproved(1) [OF Some, of tok] reapproved_same [of t tok]
      by (simp add: nft_resolved_approvals_def split: option.split)
  qed
qed

lemma resolve_transfer_eq:
  assumes "env_promise_result e 0 = (Inr r :: NftError panic + PromiseResult)"
    and "nft_must_revert from_slice r = Inr must_revert"
  shows "nft_resolve_transfer K from_slice e t h prev rc tok A =
     (if \<not> must_revert then Inr (t, h, True)
      else case nft_owners K t tok of
        None \<Rightarrow> (case A of
            Some a \<Rightarrow> rbind (refund_approved_account_ids e prev a h) (\<lambda>h1. Inr (t, h1, True))
          | None \<Rightarrow> Inr (t, h, True))
      | Some current_owner \<Rightarrow>
          if current_owner \<noteq> rc then Inr (t, h, True)
          else
            rbind (nft_internal_transfer_unguarded K t tok rc prev) (\<lambda>t1.
            rbind (nft_restore_approvals K e t1 h rc tok A) (\<lambda>(t2, h1).
            Inr (t2, nft_emit_transfer rc prev tok None None h1, False))))"
  using assms by (simp add: nft_resolve_transfer_def nft_owners_def)

text \<open>The token goes back only in the third case, and then it is the previous owner's again.\<close>

lemma resolve_transfer_returns:
  assumes res: "nft_resolve_transfer K from_slice e t h prev rc tok A = Inr (t', h', kept)"
    and index: "nft_index_ok K t"
  shows "nft_index_ok K t' \<and>
     (if kept then t' = t
      else nft_owners K t tok = Some rc \<and>
        nft_moved K t tok prev
          (if approvals_by_id t = None then None
           else nft_resolved_approvals (nft_approvals K t tok) A) t')"
proof -
  from res obtain r must_revert where
    r: "env_promise_result e 0 = (Inr r :: NftError panic + PromiseResult)"
      "nft_must_revert from_slice r = Inr must_revert"
    by (auto simp: nft_resolve_transfer_def result_simps)
  note eq = resolve_transfer_eq [OF r, of t h prev rc tok A]
  show ?thesis
  proof (cases "must_revert \<and> nft_owners K t tok = Some rc")
    case False
    then show ?thesis using res index unfolding eq
      by (auto simp: result_simps split: option.splits if_splits)
  next
    case True
    obtain t1 where t1: "nft_internal_transfer_unguarded K t tok rc prev = Inr t1"
      "nft_owners K t1 = (nft_owners K t)(tok \<mapsto> prev)" "nft_index_ok K t1"
      "approvals_by_id t1 = approvals_by_id t"
      "next_approval_id_by_id t1 = next_approval_id_by_id t"
      "token_metadata_by_id t1 = token_metadata_by_id t"
      "tokens_per_owner t1 = None \<longleftrightarrow> tokens_per_owner t = None"
      "nft_owner_id t1 = nft_owner_id t"
      using unguarded_spec [OF index, of tok rc prev] True by blast
    have views: "nft_approvals K t1 = nft_approvals K t" "nft_next_id K t1 = nft_next_id K t"
      "nft_metadata_of K t1 = nft_metadata_of K t" "nft_same_shape t t1"
      using t1 by (auto simp: nft_approvals_def nft_next_id_def nft_metadata_of_def nft_same_shape_def)
    from res True t1(1) obtain h1 where
      rest: "nft_restore_approvals K e t1 h rc tok A = Inr (t', h1)" and "\<not> kept"
      unfolding eq by (auto simp: result_simps)
    from restore_approvals_returns(1) [OF rest]
    have re: "nft_reapproved K t1 tok
       (if approvals_by_id t = None then None
        else nft_resolved_approvals (nft_approvals K t tok) A) t'"
      by (simp only: t1(4) views(1))
    from re have "nft_moved K t tok prev (if approvals_by_id t = None then None
        else nft_resolved_approvals (nft_approvals K t tok) A) t'"
      using t1(2) views nft_same_shape_trans [OF views(4)]
      by (auto simp: nft_reapproved_def nft_moved_def)
    moreover have "nft_index_ok K t'" using re t1(3) by (simp add: nft_reapproved_def)
    ultimately show ?thesis using True \<open>\<not> kept\<close> by simp
  qed
qed

end

end
