(* ===== verification/NftContract.thy ===== *)
theory NftContract
  imports NftOps "HOL-Library.Multiset"
begin

section \<open>A contract with the non-fungible token, and its life on the chain\<close>

text \<open>
  \<open>non_fungible_token/macros.rs\<close>: the public methods the three macros give a contract.  On top of
  them the life of such a contract as a transition system: receipts of any callers in any order,
  mints by the contract's own methods, and the callbacks of transfer calls, which arrive at any
  later time and with any result.
\<close>

subsection \<open>The public methods\<close>

record ('t, 'r) nft_contract =
  nft_field :: 't
  nft_rest :: 'r

type_synonym ('o, 'md, 'te, 'ap, 'nx, 'r) nft_holder =
  "(('o, 'md, 'te, 'ap, 'nx) NonFungibleToken, 'r) nft_contract"

definition contract_nft_transfer ::
    "('o, 'md, 'te, 'us, 'ap, 'nx) nft_ops \<Rightarrow> env \<Rightarrow> ('o, 'md, 'te, 'ap, 'nx, 'r) nft_holder \<Rightarrow>
     nft_effects \<Rightarrow> AccountId \<Rightarrow> TokenId \<Rightarrow> u64 option \<Rightarrow> string option \<Rightarrow>
     (('o, 'md, 'te, 'ap, 'nx, 'r) nft_holder \<times> nft_effects) nft_result" where
  "contract_nft_transfer K e c h receiver_id token_id approval_id memo =
     rbind (nft_transfer K e (nft_field c) h receiver_id token_id approval_id memo) (\<lambda>(t, h1).
     Inr (c\<lparr>nft_field := t\<rparr>, h1))"

definition contract_nft_transfer_call ::
    "('o, 'md, 'te, 'us, 'ap, 'nx) nft_ops \<Rightarrow> env \<Rightarrow> ('o, 'md, 'te, 'ap, 'nx, 'r) nft_holder \<Rightarrow>
     nft_effects \<Rightarrow> AccountId \<Rightarrow> TokenId \<Rightarrow> u64 option \<Rightarrow> string option \<Rightarrow> string \<Rightarrow>
     (('o, 'md, 'te, 'ap, 'nx, 'r) nft_holder \<times> nft_effects) nft_result" where
  "contract_nft_transfer_call K e c h receiver_id token_id approval_id memo msg =
     rbind (nft_transfer_call K e (nft_field c) h receiver_id token_id approval_id memo msg)
       (\<lambda>(t, h1). Inr (c\<lparr>nft_field := t\<rparr>, h1))"

definition contract_nft_token ::
    "('o, 'md, 'te, 'us, 'ap, 'nx) nft_ops \<Rightarrow> ('o, 'md, 'te, 'ap, 'nx, 'r) nft_holder \<Rightarrow>
     TokenId \<Rightarrow> Token option" where
  "contract_nft_token K c token_id = nft_token K (nft_field c) token_id"

text \<open>\<open>#[private]\<close>, and not \<open>#[payable]\<close>.\<close>

definition contract_nft_resolve_transfer ::
    "('o, 'md, 'te, 'us, 'ap, 'nx) nft_ops \<Rightarrow> (bytes \<Rightarrow> bool option) \<Rightarrow> env \<Rightarrow>
     ('o, 'md, 'te, 'ap, 'nx, 'r) nft_holder \<Rightarrow> nft_effects \<Rightarrow>
     AccountId \<Rightarrow> AccountId \<Rightarrow> TokenId \<Rightarrow> approvals option \<Rightarrow>
     (('o, 'md, 'te, 'ap, 'nx, 'r) nft_holder \<times> nft_effects \<times> bool) nft_result" where
  "contract_nft_resolve_transfer K from_slice e c h previous_owner_id receiver_id token_id
       approved_account_ids =
     rbind (assert_private e) (\<lambda>_.
     rbind (assert_not_payable e) (\<lambda>_.
     rbind (nft_resolve_transfer K from_slice e (nft_field c) h previous_owner_id receiver_id
              token_id approved_account_ids) (\<lambda>(t, h1, kept).
     Inr (c\<lparr>nft_field := t\<rparr>, h1, kept))))"

definition contract_nft_approve ::
    "('o, 'md, 'te, 'us, 'ap, 'nx) nft_ops \<Rightarrow> env \<Rightarrow> ('o, 'md, 'te, 'ap, 'nx, 'r) nft_holder \<Rightarrow>
     nft_effects \<Rightarrow> TokenId \<Rightarrow> AccountId \<Rightarrow> string option \<Rightarrow>
     (('o, 'md, 'te, 'ap, 'nx, 'r) nft_holder \<times> nft_effects) nft_result" where
  "contract_nft_approve K e c h token_id account_id msg =
     rbind (nft_approve K e (nft_field c) h token_id account_id msg) (\<lambda>(t, h1).
     Inr (c\<lparr>nft_field := t\<rparr>, h1))"

definition contract_nft_revoke ::
    "('o, 'md, 'te, 'us, 'ap, 'nx) nft_ops \<Rightarrow> env \<Rightarrow> ('o, 'md, 'te, 'ap, 'nx, 'r) nft_holder \<Rightarrow>
     nft_effects \<Rightarrow> TokenId \<Rightarrow> AccountId \<Rightarrow>
     (('o, 'md, 'te, 'ap, 'nx, 'r) nft_holder \<times> nft_effects) nft_result" where
  "contract_nft_revoke K e c h token_id account_id =
     rbind (nft_revoke K e (nft_field c) h token_id account_id) (\<lambda>(t, h1).
     Inr (c\<lparr>nft_field := t\<rparr>, h1))"

definition contract_nft_revoke_all ::
    "('o, 'md, 'te, 'us, 'ap, 'nx) nft_ops \<Rightarrow> env \<Rightarrow> ('o, 'md, 'te, 'ap, 'nx, 'r) nft_holder \<Rightarrow>
     nft_effects \<Rightarrow> TokenId \<Rightarrow>
     (('o, 'md, 'te, 'ap, 'nx, 'r) nft_holder \<times> nft_effects) nft_result" where
  "contract_nft_revoke_all K e c h token_id =
     rbind (nft_revoke_all K e (nft_field c) h token_id) (\<lambda>(t, h1).
     Inr (c\<lparr>nft_field := t\<rparr>, h1))"

definition contract_nft_is_approved ::
    "('o, 'md, 'te, 'us, 'ap, 'nx) nft_ops \<Rightarrow> ('o, 'md, 'te, 'ap, 'nx, 'r) nft_holder \<Rightarrow>
     TokenId \<Rightarrow> AccountId \<Rightarrow> u64 option \<Rightarrow> bool nft_result" where
  "contract_nft_is_approved K c token_id approved_account_id approval_id =
     nft_is_approved K (nft_field c) token_id approved_account_id approval_id"

definition contract_nft_total_supply ::
    "('o, 'md, 'te, 'us, 'ap, 'nx) nft_ops \<Rightarrow> ('o, 'md, 'te, 'ap, 'nx, 'r) nft_holder \<Rightarrow> u128" where
  "contract_nft_total_supply K c = nft_total_supply K (nft_field c)"

definition contract_nft_tokens ::
    "('o, 'md, 'te, 'us, 'ap, 'nx) nft_ops \<Rightarrow> ('o, 'md, 'te, 'ap, 'nx, 'r) nft_holder \<Rightarrow>
     u128 option \<Rightarrow> u64 option \<Rightarrow> Token list nft_result" where
  "contract_nft_tokens K c from_index limit = nft_tokens K (nft_field c) from_index limit"

definition contract_nft_supply_for_owner ::
    "('o, 'md, 'te, 'us, 'ap, 'nx) nft_ops \<Rightarrow> ('o, 'md, 'te, 'ap, 'nx, 'r) nft_holder \<Rightarrow>
     AccountId \<Rightarrow> u128 nft_result" where
  "contract_nft_supply_for_owner K c account_id = nft_supply_for_owner K (nft_field c) account_id"

definition contract_nft_tokens_for_owner ::
    "('o, 'md, 'te, 'us, 'ap, 'nx) nft_ops \<Rightarrow> ('o, 'md, 'te, 'ap, 'nx, 'r) nft_holder \<Rightarrow>
     AccountId \<Rightarrow> u128 option \<Rightarrow> u64 option \<Rightarrow> Token list nft_result" where
  "contract_nft_tokens_for_owner K c account_id from_index limit =
     nft_tokens_for_owner K (nft_field c) account_id from_index limit"

lemmas contract_nft_defs = contract_nft_transfer_def contract_nft_transfer_call_def
  contract_nft_resolve_transfer_def contract_nft_approve_def contract_nft_revoke_def
  contract_nft_revoke_all_def

subsection \<open>The life of the contract\<close>

text \<open>
  A settlement the contract has asked for: previous owner, receiver, token and the approvals to
  restore, of a pending \<open>nft_resolve_transfer\<close> on the contract itself.
\<close>

type_synonym nft_settlement = "AccountId \<times> AccountId \<times> TokenId \<times> approvals option"

fun nft_settlements :: "AccountId \<Rightarrow> NftCall Promise \<Rightarrow> nft_settlement multiset" where
  "nft_settlements self (Then p q) = nft_settlements self p + nft_settlements self q"
| "nft_settlements self (FunctionCall a (NftResolveTransfer o1 r tok A) d g) =
     (if a = self then {#(o1, r, tok, A)#} else {#})"
| "nft_settlements self _ = {#}"

definition nft_pending_of :: "AccountId \<Rightarrow> nft_effects \<Rightarrow> nft_settlement multiset" where
  "nft_pending_of self h = sum_list (map (nft_settlements self) (promises h))"

record ('t, 'r) nft_system =
  nft_contract_of :: "('t, 'r) nft_contract"
  nft_pending :: "nft_settlement multiset"

text \<open>What a step is: a call of an account, the callback of a settlement, or the contract's own.\<close>

datatype nft_label = CallBy env | SettleOf nft_settlement | OwnMint

text \<open>
  One receipt.  A receipt that panics changes nothing, except that the callback is used up.
  \<open>self\<close> is the contract's account, \<open>checks\<close> the \<open>overflow-checks\<close> setting of its build.
\<close>

inductive nft_step ::
    "('o, 'md, 'te, 'us, 'ap, 'nx) nft_ops \<Rightarrow>
     (('o, 'md, 'te, 'ap, 'nx) NonFungibleToken \<Rightarrow> StorageUsage) \<Rightarrow>
     (bytes \<Rightarrow> bool option) \<Rightarrow> AccountId \<Rightarrow> bool \<Rightarrow>
     (('o, 'md, 'te, 'ap, 'nx) NonFungibleToken, 'r) nft_system \<Rightarrow> nft_label \<Rightarrow>
     (('o, 'md, 'te, 'ap, 'nx) NonFungibleToken, 'r) nft_system \<Rightarrow> bool"
  for K usage from_slice self checks where
  nft_step_transfer:
    "contract_nft_transfer K e (nft_contract_of s) no_effects r tok aid memo = Inr (c, h) \<Longrightarrow>
     current_account_id e = self \<Longrightarrow> overflow_checks e = checks \<Longrightarrow>
     nft_step K usage from_slice self checks s (CallBy e)
       (s\<lparr>nft_contract_of := c, nft_pending := nft_pending s + nft_pending_of self h\<rparr>)"
| nft_step_transfer_call:
    "contract_nft_transfer_call K e (nft_contract_of s) no_effects r tok aid memo msg = Inr (c, h) \<Longrightarrow>
     current_account_id e = self \<Longrightarrow> overflow_checks e = checks \<Longrightarrow>
     nft_step K usage from_slice self checks s (CallBy e)
       (s\<lparr>nft_contract_of := c, nft_pending := nft_pending s + nft_pending_of self h\<rparr>)"
| nft_step_approve:
    "contract_nft_approve K e (nft_contract_of s) no_effects tok a omsg = Inr (c, h) \<Longrightarrow>
     current_account_id e = self \<Longrightarrow> overflow_checks e = checks \<Longrightarrow>
     nft_step K usage from_slice self checks s (CallBy e)
       (s\<lparr>nft_contract_of := c, nft_pending := nft_pending s + nft_pending_of self h\<rparr>)"
| nft_step_revoke:
    "contract_nft_revoke K e (nft_contract_of s) no_effects tok a = Inr (c, h) \<Longrightarrow>
     current_account_id e = self \<Longrightarrow> overflow_checks e = checks \<Longrightarrow>
     nft_step K usage from_slice self checks s (CallBy e)
       (s\<lparr>nft_contract_of := c, nft_pending := nft_pending s + nft_pending_of self h\<rparr>)"
| nft_step_revoke_all:
    "contract_nft_revoke_all K e (nft_contract_of s) no_effects tok = Inr (c, h) \<Longrightarrow>
     current_account_id e = self \<Longrightarrow> overflow_checks e = checks \<Longrightarrow>
     nft_step K usage from_slice self checks s (CallBy e)
       (s\<lparr>nft_contract_of := c, nft_pending := nft_pending s + nft_pending_of self h\<rparr>)"
| nft_step_mint:
    "nft_internal_mint_with_refund K usage e (nft_field (nft_contract_of s)) no_effects tok a md rf =
       Inr (t, h, token) \<Longrightarrow>
     current_account_id e = self \<Longrightarrow> overflow_checks e = checks \<Longrightarrow>
     nft_step K usage from_slice self checks s OwnMint
       (s\<lparr>nft_contract_of := (nft_contract_of s)\<lparr>nft_field := t\<rparr>,
         nft_pending := nft_pending s + nft_pending_of self h\<rparr>)"
| nft_step_settle:
    "(o1, r, tok, A) \<in># nft_pending s \<Longrightarrow>
     current_account_id e = self \<Longrightarrow> overflow_checks e = checks \<Longrightarrow>
     contract_nft_resolve_transfer K from_slice e (nft_contract_of s) no_effects o1 r tok A =
       Inr (c, h, kept) \<Longrightarrow>
     nft_step K usage from_slice self checks s (SettleOf (o1, r, tok, A))
       (s\<lparr>nft_contract_of := c,
         nft_pending := nft_pending s - {#(o1, r, tok, A)#} + nft_pending_of self h\<rparr>)"
| nft_step_settle_panics:
    "(o1, r, tok, A) \<in># nft_pending s \<Longrightarrow>
     current_account_id e = self \<Longrightarrow> overflow_checks e = checks \<Longrightarrow>
     contract_nft_resolve_transfer K from_slice e (nft_contract_of s) no_effects o1 r tok A = Inl p \<Longrightarrow>
     nft_step K usage from_slice self checks s (SettleOf (o1, r, tok, A))
       (s\<lparr>nft_pending := nft_pending s - {#(o1, r, tok, A)#}\<rparr>)"

definition nft_initial ::
    "('o, 'md, 'te, 'us, 'ap, 'nx) nft_ops \<Rightarrow>
     (('o, 'md, 'te, 'ap, 'nx) NonFungibleToken \<Rightarrow> StorageUsage) \<Rightarrow>
     (('o, 'md, 'te, 'ap, 'nx) NonFungibleToken, 'r) nft_system \<Rightarrow> bool" where
  "nft_initial K usage s \<longleftrightarrow>
     (\<exists>e op owner mp ep app. nft_new K usage e op owner mp ep app = Inr (nft_field (nft_contract_of s))) \<and>
     nft_pending s = {#}"

inductive_cases nft_stepE: "nft_step K usage from_slice self checks s l t"

subsection \<open>The invariants of the system\<close>

text \<open>
  Beside the token's own invariants: the approvals that a pending settlement may restore carry
  ids that the token has already given out, each to one account.
\<close>

fun settlement_ids_ok ::
    "('o, 'md, 'te, 'us, 'ap, 'nx) nft_ops \<Rightarrow> ('o, 'md, 'te, 'ap, 'nx) NonFungibleToken \<Rightarrow>
     nft_settlement \<Rightarrow> bool" where
  "settlement_ids_ok K t (o1, r, tok, A) \<longleftrightarrow>
     (case A of None \<Rightarrow> True | Some B \<Rightarrow> approval_ids_ok (nft_next_id K t tok) B)"

definition nft_pending_ids_ok ::
    "('o, 'md, 'te, 'us, 'ap, 'nx) nft_ops \<Rightarrow>
     (('o, 'md, 'te, 'ap, 'nx) NonFungibleToken, 'r) nft_system \<Rightarrow> bool" where
  "nft_pending_ids_ok K s \<longleftrightarrow>
     (\<forall>p \<in># nft_pending s. settlement_ids_ok K (nft_field (nft_contract_of s)) p)"

definition nft_ok ::
    "('o, 'md, 'te, 'us, 'ap, 'nx) nft_ops \<Rightarrow> bool \<Rightarrow> ('o, 'md, 'te, 'ap, 'nx) NonFungibleToken \<Rightarrow>
     bool" where
  "nft_ok K checks t \<longleftrightarrow>
     nft_index_ok K t \<and> nft_extensions_ok K t \<and> (checks \<longrightarrow> nft_ids_ok K t)"

definition nft_system_inv ::
    "('o, 'md, 'te, 'us, 'ap, 'nx) nft_ops \<Rightarrow> bool \<Rightarrow>
     (('o, 'md, 'te, 'ap, 'nx) NonFungibleToken, 'r) nft_system \<Rightarrow> bool" where
  "nft_system_inv K checks s \<longleftrightarrow>
     nft_ok K checks (nft_field (nft_contract_of s)) \<and> (checks \<longrightarrow> nft_pending_ids_ok K s)"

text \<open>A step of the token: the invariants hold again, and no next id goes back.\<close>

definition nft_goes ::
    "('o, 'md, 'te, 'us, 'ap, 'nx) nft_ops \<Rightarrow> bool \<Rightarrow> ('o, 'md, 'te, 'ap, 'nx) NonFungibleToken \<Rightarrow>
     ('o, 'md, 'te, 'ap, 'nx) NonFungibleToken \<Rightarrow> bool" where
  "nft_goes K checks t t' \<longleftrightarrow>
     nft_ok K checks t' \<and> (checks \<longrightarrow> (\<forall>tok. nft_next_id K t tok \<le> nft_next_id K t' tok))"

lemma settlement_ids_ok_mono:
  assumes "settlement_ids_ok K t p" and "\<And>tok. nft_next_id K t tok \<le> nft_next_id K t' tok"
  shows "settlement_ids_ok K t' p"
  using assms by (cases p) (auto split: option.splits intro: approval_ids_ok_mono)

lemma nft_goes_system_inv:
  assumes "nft_system_inv K checks s" and "nft_goes K checks (nft_field (nft_contract_of s)) t'"
    and "nft_field (nft_contract_of s') = t'"
    and "set_mset (nft_pending s') \<subseteq> set_mset (nft_pending s) \<union> set_mset new"
    and "\<And>p. checks \<Longrightarrow> p \<in># new \<Longrightarrow> settlement_ids_ok K (nft_field (nft_contract_of s)) p"
  shows "nft_system_inv K checks s'"
proof -
  have "settlement_ids_ok K t' p" if checks and "p \<in># nft_pending s'" for p
  proof -
    from that(2) assms(4) have "p \<in># nft_pending s \<or> p \<in># new" by auto
    then have "settlement_ids_ok K (nft_field (nft_contract_of s)) p"
      using assms(1,5) that(1) unfolding nft_system_inv_def nft_pending_ids_ok_def by blast
    then show ?thesis
      using assms(2) that(1) by (auto simp: nft_goes_def intro: settlement_ids_ok_mono)
  qed
  then show ?thesis
    using assms(2,3) by (simp add: nft_system_inv_def nft_pending_ids_ok_def nft_goes_def)
qed

subsection \<open>What the operations ask for\<close>

lemma nft_pending_of_simps [simp]:
  "nft_pending_of self no_effects = {#}"
  "nft_pending_of self (schedule p h) = nft_pending_of self h + nft_settlements self p"
  "nft_pending_of self (nft_transfer_emit x h) = nft_pending_of self h"
  "nft_pending_of self (nft_mint_emit y h) = nft_pending_of self h"
  by (simp_all add: nft_pending_of_def)

lemma nft_pending_of_call_promise [simp]:
  "nft_settlements self (nft_call_promise e g s o1 r tok A msg) =
     (if current_account_id e = self then {#(o1, r, tok, A)#} else {#})"
  by (simp add: nft_call_promise_def)

lemma refund_deposit_pending:
  "refund_deposit_to_account e n a h = Inr h' \<Longrightarrow> nft_pending_of self h' = nft_pending_of self h"
  by (auto dest: refund_deposit_to_account_returns)

lemma refund_ids_pending:
  "refund_approved_account_ids_iter e a as h = Inr h' \<Longrightarrow>
     nft_pending_of self h' = nft_pending_of self h"
  "refund_approved_account_ids e a A h = Inr h' \<Longrightarrow>
     nft_pending_of self h' = nft_pending_of self h"
  by (auto simp: refund_approved_account_ids_def dest!: refund_approved_account_ids_iter_returns)

lemma approve_no_settlement:
  "nft_approve K e t no_effects tok a omsg = Inr (t', h') \<Longrightarrow> nft_pending_of self h' = {#}"
  by (auto simp: nft_approve_def refund_deposit_def result_simps Let_def split: option.splits
      dest!: refund_deposit_pending [where self = self])

lemma revoke_no_settlement:
  assumes "nft_revoke K e t no_effects tok a = Inr (t', h')"
  shows "nft_pending_of self h' = {#}"
proof -
  from assms obtain m where m: "approvals_by_id t = Some m"
    by (auto simp: nft_revoke_def result_simps)
  with assms show ?thesis
    by (cases "lm_get (approvals_ops K) m tok")
      (auto simp: nft_revoke_def result_simps Let_def split: if_splits
        dest!: refund_ids_pending [where self = self])
qed

lemma revoke_all_no_settlement:
  assumes "nft_revoke_all K e t no_effects tok = Inr (t', h')"
  shows "nft_pending_of self h' = {#}"
proof -
  from assms obtain m where m: "approvals_by_id t = Some m"
    by (auto simp: nft_revoke_all_def result_simps)
  with assms show ?thesis
    by (cases "lm_get (approvals_ops K) m tok")
      (auto simp: nft_revoke_all_def result_simps dest!: refund_ids_pending [where self = self])
qed

lemma mint_no_settlement:
  "nft_internal_mint_with_refund K usage e t no_effects tok a md rf = Inr (t', h', token) \<Longrightarrow>
     nft_pending_of self h' = {#}"
  by (auto simp: nft_mint_eq result_simps split: option.splits if_splits
      dest!: refund_deposit_pending [where self = self])

lemma restore_no_settlement:
  "nft_restore_approvals K e t h rc tok A = Inr (t', h') \<Longrightarrow>
     nft_pending_of self h' = nft_pending_of self h"
  by (auto simp: nft_restore_approvals_def result_simps split: option.splits
      dest!: refund_ids_pending [where self = self])

lemma resolve_no_settlement:
  "nft_resolve_transfer K from_slice e t no_effects o1 r tok A = Inr (t', h', kept) \<Longrightarrow>
     nft_pending_of self h' = {#}"
  by (auto simp: nft_resolve_transfer_def nft_emit_transfer_def result_simps
      split: option.splits if_splits
      dest!: refund_ids_pending [where self = self] restore_no_settlement [where self = self])

lemmas no_new_settlements = approve_no_settlement revoke_no_settlement
  revoke_all_no_settlement  mint_no_settlement resolve_no_settlement

context nft_store
begin

text \<open>The two transfers, from the caller's point of view.\<close>

lemma transfer_returns:
  assumes "nft_transfer K e t h r tok aid memo = Inr (t', h')" and "nft_index_ok K t"
  shows "attached_deposit e = 1" and "nft_authorized K t (predecessor_account_id e) tok aid"
    and "nft_owners K t tok \<noteq> Some r" and "nft_owners K t tok \<noteq> None"
    and "nft_moved K t tok r None t'" and "nft_index_ok K t'"
    and "nft_pending_of self h' = nft_pending_of self h"
proof -
  from assms(1) obtain owner A where pay: "attached_deposit e = 1" and
    tr: "nft_internal_transfer K t h (predecessor_account_id e) r tok aid memo = Inr (t', h', owner, A)"
    by (auto simp: nft_transfer_def result_simps Let_def)
  note ret = internal_transfer_returns [OF tr] internal_transfer_result [OF assms(2) tr]
  show "attached_deposit e = 1" by (rule pay)
  show "nft_authorized K t (predecessor_account_id e) tok aid" by (rule ret(2))
  show "nft_owners K t tok \<noteq> Some r" "nft_owners K t tok \<noteq> None" using ret(1,3) by auto
  show "nft_moved K t tok r None t'" by (rule ret(5))
  show "nft_index_ok K t'" by (rule ret(6))
  show "nft_pending_of self h' = nft_pending_of self h" by (simp add: ret(7))
qed

lemma transfer_call_returns:
  assumes "nft_transfer_call K e t h r tok aid memo msg = Inr (t', h')" and "nft_index_ok K t"
  obtains (sent) owner gas where "attached_deposit e = 1" and "GAS_FOR_NFT_TRANSFER_CALL < prepaid_gas e"
    and "nft_authorized K t (predecessor_account_id e) tok aid"
    and "nft_owners K t tok = Some owner" and "owner \<noteq> r"
    and "nft_moved K t tok r None t'" and "nft_index_ok K t'"
    and "gas = prepaid_gas e - GAS_FOR_NFT_TRANSFER_CALL"
    and "h' = schedule (nft_call_promise e gas (predecessor_account_id e) owner r tok
                (nft_approvals K t tok) msg) (nft_transfer_emit (NftTransfer owner r [tok] None memo) h)"
proof -
  from assms(1) obtain owner A gas h1 where
    guards: "attached_deposit e = 1" "GAS_FOR_NFT_TRANSFER_CALL < prepaid_gas e" and
    tr: "nft_internal_transfer K t h (predecessor_account_id e) r tok aid memo = Inr (t', h1, owner, A)"
    and gas: "sub_op (overflow_checks e) (prepaid_gas e) GAS_FOR_NFT_TRANSFER_CALL =
      (Inr gas :: NftError panic + u64)"
    and h': "h' = schedule (nft_call_promise e gas (predecessor_account_id e) owner r tok A msg) h1"
    by (auto simp: nft_transfer_call_def result_simps Let_def)
  have "unat GAS_FOR_NFT_TRANSFER_CALL \<le> unat (prepaid_gas e)"
    using guards(2) by (simp add: word_less_nat_alt)
  then have "gas = prepaid_gas e - GAS_FOR_NFT_TRANSFER_CALL"
    using gas by (simp add: sub_op_exact)
  then show ?thesis
    using that guards internal_transfer_returns [OF tr] internal_transfer_result [OF assms(2) tr] h'
    by blast
qed

text \<open>A token just built is empty.\<close>

lemma new_empty:
  assumes "nft_new K usage e pre owner mp ep app = Inr t"
  shows "nft_owners K t = Map.empty" and "nft_approvals K t = Map.empty"
    and "nft_metadata_of K t = Map.empty" and "nft_index_ok K t"
    and "approvals_by_id t = None \<longleftrightarrow> next_approval_id_by_id t = None"
proof -
  show "nft_owners K t = Map.empty" and "nft_approvals K t = Map.empty"
    and "nft_metadata_of K t = Map.empty"
    and "approvals_by_id t = None \<longleftrightarrow> next_approval_id_by_id t = None"
    using assms
    by (auto simp: nft_new_def nft_measure_min_token_storage_cost_def nft_set_dummy_def
        nft_roll_back_def result_simps Let_def case_prod_beta nft_owners_def nft_approvals_def
        nft_metadata_of_def ow.map_laws ap.map_laws md.map_laws fun_eq_iff split: option.splits)
  have "tokens_per_owner t = map_option (\<lambda>p. fst (lm_remove (per_owner_ops K)
      (fst (lm_insert (per_owner_ops K) (lm_new (per_owner_ops K) p) a64
        (fst (us_insert (token_set_ops K) (new_token_set K a64) a64)))) a64)) ep"
    using assms
    by (cases ep) (auto simp: nft_new_def nft_measure_min_token_storage_cost_def nft_set_dummy_def
        nft_roll_back_def result_simps Let_def case_prod_beta)
  then show "nft_index_ok K t"
    using \<open>nft_owners K t = Map.empty\<close>
    by (cases ep) (auto simp: nft_index_ok_def held_sets_insert held_sets_remove held_sets_new
        index_of_def fun_eq_iff)
qed

text \<open>Every operation keeps the token's invariants.\<close>

lemma moved_goes:
  assumes "nft_ok K checks t" and "nft_moved K t tok to A t'" and "nft_index_ok K t'"
    and "nft_owners K t tok \<noteq> None"
    and "\<And>B. checks \<Longrightarrow> A = Some B \<Longrightarrow> approval_ids_ok (nft_next_id K t tok) B"
  shows "nft_goes K checks t t'"
proof -
  have "nft_next_id K t' = nft_next_id K t" using assms(2) by (simp add: nft_moved_def)
  moreover have "checks \<Longrightarrow> nft_ids_ok K t'"
    using assms nft_moved_ids_ok [OF assms(2)] by (simp add: nft_ok_def)
  ultimately show ?thesis
    using assms nft_moved_extensions_ok [OF assms(2)] by (simp add: nft_goes_def nft_ok_def)
qed

lemma reapproved_goes:
  assumes "nft_ok K checks t" and "nft_reapproved K t tok A t'" and "nft_owners K t tok \<noteq> None"
    and "\<And>B. checks \<Longrightarrow> A = Some B \<Longrightarrow> approval_ids_ok (nft_next_id K t tok) B"
  shows "nft_goes K checks t t'"
proof -
  have "nft_next_id K t' = nft_next_id K t" "nft_index_ok K t' = nft_index_ok K t"
    using assms(2) by (simp_all add: nft_reapproved_def)
  moreover have "checks \<Longrightarrow> nft_ids_ok K t'"
    using assms nft_reapproved_ids_ok [OF assms(2)] by (simp add: nft_ok_def)
  ultimately show ?thesis
    using assms nft_reapproved_extensions_ok [OF assms(2)] by (simp add: nft_goes_def nft_ok_def)
qed

lemma transfer_goes:
  assumes "nft_ok K checks t" and "nft_transfer K e t h r tok aid memo = Inr (t', h')"
  shows "nft_goes K checks t t'"
proof -
  have "nft_index_ok K t" using assms(1) by (simp add: nft_ok_def)
  note ret = transfer_returns [OF assms(2) this]
  show ?thesis by (rule moved_goes [OF assms(1) ret(5,6,4)]) simp
qed

lemma transfer_call_goes:
  assumes "nft_ok K checks t" and "nft_transfer_call K e t no_effects r tok aid memo msg = Inr (t', h')"
  shows "nft_goes K checks t t'"
    and "checks \<Longrightarrow> p \<in># nft_pending_of self h' \<Longrightarrow> settlement_ids_ok K t p"
proof -
  have "nft_index_ok K t" using assms(1) by (simp add: nft_ok_def)
  from transfer_call_returns [OF assms(2) this] obtain owner gas where
    ret: "nft_owners K t tok = Some owner" "nft_moved K t tok r None t'" "nft_index_ok K t'"
      "h' = schedule (nft_call_promise e gas (predecessor_account_id e) owner r tok
          (nft_approvals K t tok) msg) (nft_transfer_emit (NftTransfer owner r [tok] None memo) no_effects)"
    by metis
  show "nft_goes K checks t t'" using moved_goes [OF assms(1) ret(2,3)] ret(1) by simp
  show "settlement_ids_ok K t p" if checks "p \<in># nft_pending_of self h'"
    using that assms(1) ret(4)
    by (auto simp: nft_ok_def nft_ids_ok_def split: if_splits option.splits)
qed

lemma approve_goes:
  assumes "nft_ok (K :: ('o, 'md, 'te, 'us, 'ap, 'nx) nft_ops) (overflow_checks e) t"
    and res: "nft_approve K e t h tok a msg = Inr (t', h')"
  shows "nft_goes K (overflow_checks e) t t'"
proof -
  from res obtain next_id where r:
    "add_op (overflow_checks e) (nft_next_id K t tok) 1 = (Inr next_id :: NftError panic + u64)"
    "nft_next_id K t' = (nft_next_id K t)(tok := next_id)"
    by (rule approve_returns) blast
  have "overflow_checks e \<Longrightarrow> nft_next_id K t x \<le> nft_next_id K t' x" for x
    using r add_op_next by (auto intro: order.strict_implies_order)
  then show ?thesis
    using assms(1) approve_keeps [OF res] by (simp add: nft_goes_def nft_ok_def)
qed

lemma revoke_goes:
  assumes "nft_ok K checks t" and "nft_revoke K e t h tok a = Inr (t', h')"
  shows "nft_goes K checks t t'"
proof (rule reapproved_goes [OF assms(1) revoke_returns(4) [OF assms(2)]])
  show "nft_owners K t tok \<noteq> None" using revoke_returns(1) [OF assms(2)] by simp
  show "approval_ids_ok (nft_next_id K t tok) B" if checks
    and "(case nft_approvals K t tok of None \<Rightarrow> None
      | Some A \<Rightarrow> if DAList.lookup A a = None then Some A
          else if DAList.impl_of (DAList.delete a A) = [] then None
          else Some (DAList.delete a A)) = Some B" for B
    using that assms(1) by (auto simp: nft_ok_def nft_ids_ok_def approval_ids_ok_delete
        split: option.splits if_splits)
qed

lemma revoke_all_goes:
  assumes "nft_ok K checks t" and "nft_revoke_all K e t h tok = Inr (t', h')"
  shows "nft_goes K checks t t'"
  using reapproved_goes [OF assms(1) revoke_all_returns(4) [OF assms(2)]]
    revoke_all_returns(1) [OF assms(2)] by simp

lemma mint_goes:
  assumes "nft_ok K checks t"
    and "nft_internal_mint_with_refund K usage e t h tok a md rf = Inr (t', h', token)"
  shows "nft_goes K checks t t'"
proof -
  note ret = mint_with_refund_returns [OF assms(2)]
  have "nft_next_id K t' = nft_next_id K t" using ret(1) by (simp add: nft_minted_def)
  then show ?thesis
    using assms(1) ret(2) nft_minted_extensions_ok [OF ret(1)] nft_minted_ids_ok [OF ret(1)]
    by (simp add: nft_goes_def nft_ok_def)
qed

lemma resolve_goes:
  assumes "nft_ok K checks t"
    and "nft_resolve_transfer K from_slice e t h o1 r tok A = Inr (t', h', kept)"
    and "checks \<Longrightarrow> settlement_ids_ok K t (o1, r, tok, A)"
  shows "nft_goes K checks t t'"
proof -
  have "nft_index_ok K t" using assms(1) by (simp add: nft_ok_def)
  note ret = resolve_transfer_returns [OF assms(2) this]
  show ?thesis
  proof (cases kept)
    case True
    then show ?thesis using ret assms(1) by (simp add: nft_goes_def)
  next
    case False
    let ?A = "if approvals_by_id t = None then None
      else nft_resolved_approvals (nft_approvals K t tok) A"
    show ?thesis
    proof (rule moved_goes [OF assms(1), where A = ?A])
      show "nft_moved K t tok o1 ?A t'" "nft_index_ok K t'" "nft_owners K t tok \<noteq> None"
        using ret False by simp_all
      show "approval_ids_ok (nft_next_id K t tok) B" if checks "?A = Some B" for B
        using that assms(1,3) by (auto simp: nft_ok_def nft_ids_ok_def nft_resolved_approvals_def
            split: if_splits option.splits)
    qed
  qed
qed

lemma new_ok: "nft_new K usage e pre owner mp ep app = Inr t \<Longrightarrow> nft_ok K checks t"
  using new_empty [of usage e pre owner mp ep app t]
  by (simp add: nft_ok_def nft_extensions_ok_def nft_ids_ok_def)

end

subsection \<open>The chain around the contract\<close>

locale nft_chain = nft_store K
  for K :: "('o, 'md, 'te, 'us, 'ap, 'nx) nft_ops" +
  fixes usage :: "('o, 'md, 'te, 'ap, 'nx) NonFungibleToken \<Rightarrow> StorageUsage"
    and from_slice :: "bytes \<Rightarrow> bool option"
    and self :: AccountId
    and checks :: bool
begin

lemma step_keeps_inv:
  assumes "nft_step K usage from_slice self checks s l s'" and "nft_system_inv K checks s"
  shows "nft_system_inv K checks s'"
proof -
  have ok: "nft_ok K checks (nft_field (nft_contract_of s))"
    using assms(2) by (simp add: nft_system_inv_def)
  have index: "nft_index_ok K (nft_field (nft_contract_of s))" using ok by (simp add: nft_ok_def)
  note goes = nft_goes_system_inv [OF assms(2)]
  from assms(1) show ?thesis
  proof cases
    case (nft_step_transfer e r tok aid memo c h)
    then obtain t where t: "nft_transfer K e (nft_field (nft_contract_of s)) no_effects r tok aid memo = Inr (t, h)"
      "c = (nft_contract_of s)\<lparr>nft_field := t\<rparr>"
      by (auto simp: contract_nft_transfer_def result_simps)
    show ?thesis
      by (rule goes [OF transfer_goes [OF ok t(1)], where new = "{#}"])
        (use nft_step_transfer t transfer_returns(7) [OF t(1) index] in simp_all)
  next
    case (nft_step_transfer_call e r tok aid memo msg c h)
    then obtain t where t: "nft_transfer_call K e (nft_field (nft_contract_of s)) no_effects r tok aid memo msg = Inr (t, h)"
      "c = (nft_contract_of s)\<lparr>nft_field := t\<rparr>"
      by (auto simp: contract_nft_transfer_call_def result_simps)
    show ?thesis
      by (rule goes [OF transfer_call_goes(1) [OF ok t(1)], where new = "nft_pending_of self h"])
        (use nft_step_transfer_call t transfer_call_goes(2) [OF ok t(1)] in simp_all)
  next
    case (nft_step_approve e tok a omsg c h)
    then obtain t where t: "nft_approve K e (nft_field (nft_contract_of s)) no_effects tok a omsg = Inr (t, h)"
      "c = (nft_contract_of s)\<lparr>nft_field := t\<rparr>"
      by (auto simp: contract_nft_approve_def result_simps)
    have "nft_goes K checks (nft_field (nft_contract_of s)) t"
      using approve_goes [OF _ t(1)] ok nft_step_approve by simp
    then show ?thesis
      by (rule goes [where new = "{#}"]) (use nft_step_approve t no_new_settlements(1) [OF t(1)] in simp_all)
  next
    case (nft_step_revoke e tok a c h)
    then obtain t where t: "nft_revoke K e (nft_field (nft_contract_of s)) no_effects tok a = Inr (t, h)"
      "c = (nft_contract_of s)\<lparr>nft_field := t\<rparr>"
      by (auto simp: contract_nft_revoke_def result_simps)
    show ?thesis
      by (rule goes [OF revoke_goes [OF ok t(1)], where new = "{#}"])
        (use nft_step_revoke t no_new_settlements(2) [OF t(1)] in simp_all)
  next
    case (nft_step_revoke_all e tok c h)
    then obtain t where t: "nft_revoke_all K e (nft_field (nft_contract_of s)) no_effects tok = Inr (t, h)"
      "c = (nft_contract_of s)\<lparr>nft_field := t\<rparr>"
      by (auto simp: contract_nft_revoke_all_def result_simps)
    show ?thesis
      by (rule goes [OF revoke_all_goes [OF ok t(1)], where new = "{#}"])
        (use nft_step_revoke_all t no_new_settlements(3) [OF t(1)] in simp_all)
  next
    case (nft_step_mint e tok a md rf t h token)
    show ?thesis
      by (rule goes [OF mint_goes [OF ok nft_step_mint(3)], where new = "{#}"])
        (use nft_step_mint no_new_settlements(4) [OF nft_step_mint(3)] in simp_all)
  next
    case (nft_step_settle o1 r tok A e c h kept)
    then obtain t where t: "nft_resolve_transfer K from_slice e (nft_field (nft_contract_of s)) no_effects o1 r tok A = Inr (t, h, kept)"
      "c = (nft_contract_of s)\<lparr>nft_field := t\<rparr>"
      by (auto simp: contract_nft_resolve_transfer_def result_simps)
    have "settlement_ids_ok K (nft_field (nft_contract_of s)) (o1, r, tok, A)" if checks
      using assms(2) nft_step_settle(3) that
      unfolding nft_system_inv_def nft_pending_ids_ok_def by blast
    then show ?thesis
      by (intro goes [OF resolve_goes [OF ok t(1)], where new = "{#}"])
        (use nft_step_settle t no_new_settlements(5) [OF t(1)] in \<open>auto dest: in_diffD\<close>)
  next
    case (nft_step_settle_panics o1 r tok A e p)
    then show ?thesis
      by (intro goes [where new = "{#}" and t' = "nft_field (nft_contract_of s)"])
        (use ok in \<open>auto simp: nft_goes_def dest: in_diffD\<close>)
  qed
qed

text \<open>Who can make a token change hands: an authorized caller, or a pending settlement.\<close>

lemma step_owner:
  assumes step: "nft_step K usage from_slice self checks s l s'" and inv: "nft_system_inv K checks s"
    and owner: "nft_owners K (nft_field (nft_contract_of s)) tok = Some owner"
  shows "nft_owners K (nft_field (nft_contract_of s')) tok = Some owner \<or>
     (\<exists>e aid. l = CallBy e \<and> attached_deposit e = 1 \<and>
        nft_authorized K (nft_field (nft_contract_of s)) (predecessor_account_id e) tok aid) \<or>
     (\<exists>previous A. l = SettleOf (previous, owner, tok, A) \<and>
        (previous, owner, tok, A) \<in># nft_pending s \<and>
        nft_owners K (nft_field (nft_contract_of s')) tok = Some previous)"
proof -
  have index: "nft_index_ok K (nft_field (nft_contract_of s))"
    using inv by (simp add: nft_system_inv_def nft_ok_def)
  from step show ?thesis
  proof cases
    case (nft_step_transfer e r tok' aid memo c h)
    then obtain t where t: "nft_transfer K e (nft_field (nft_contract_of s)) no_effects r tok' aid memo = Inr (t, h)"
      "c = (nft_contract_of s)\<lparr>nft_field := t\<rparr>"
      by (auto simp: contract_nft_transfer_def result_simps)
    with transfer_returns [OF t(1) index] nft_step_transfer owner show ?thesis
      by (cases "tok' = tok") (auto simp: nft_moved_def)
  next
    case (nft_step_transfer_call e r tok' aid memo msg c h)
    then obtain t where t: "nft_transfer_call K e (nft_field (nft_contract_of s)) no_effects r tok' aid memo msg = Inr (t, h)"
      "c = (nft_contract_of s)\<lparr>nft_field := t\<rparr>"
      by (auto simp: contract_nft_transfer_call_def result_simps)
    have "attached_deposit e = 1 \<and> nft_moved K (nft_field (nft_contract_of s)) tok' r None t \<and>
        nft_authorized K (nft_field (nft_contract_of s)) (predecessor_account_id e) tok' aid"
      by (rule transfer_call_returns [OF t(1) index]) blast
    with nft_step_transfer_call t(2) owner show ?thesis
      by (cases "tok' = tok") (auto simp: nft_moved_def)
  next
    case (nft_step_approve e tok' a omsg c h)
    then obtain t where t: "nft_approve K e (nft_field (nft_contract_of s)) no_effects tok' a omsg = Inr (t, h)"
      "c = (nft_contract_of s)\<lparr>nft_field := t\<rparr>"
      by (auto simp: contract_nft_approve_def result_simps)
    have "nft_owners K t = nft_owners K (nft_field (nft_contract_of s))"
      by (rule approve_returns [OF t(1)]) blast
    with nft_step_approve t(2) owner show ?thesis by simp
  next
    case (nft_step_revoke e tok' a c h)
    then show ?thesis using owner revoke_returns(4)
      by (fastforce simp: contract_nft_revoke_def result_simps nft_reapproved_def)
  next
    case (nft_step_revoke_all e tok' c h)
    then show ?thesis using owner revoke_all_returns(4)
      by (fastforce simp: contract_nft_revoke_all_def result_simps nft_reapproved_def)
  next
    case (nft_step_mint e tok' a md rf t h token)
    then show ?thesis using owner mint_with_refund_returns(1) [OF nft_step_mint(3)]
      by (auto simp: nft_minted_def)
  next
    case (nft_step_settle o1 r tok' A e c h kept)
    then obtain t where t: "nft_resolve_transfer K from_slice e (nft_field (nft_contract_of s)) no_effects o1 r tok' A = Inr (t, h, kept)"
      "c = (nft_contract_of s)\<lparr>nft_field := t\<rparr>"
      by (auto simp: contract_nft_resolve_transfer_def result_simps)
    from resolve_transfer_returns [OF t(1) index] nft_step_settle t(2) owner show ?thesis
      by (cases "tok' = tok") (auto simp: nft_moved_def split: if_splits)
  next
    case (nft_step_settle_panics o1 r tok' A e p)
    then show ?thesis using owner by simp
  qed
qed

lemma initial_inv: "nft_initial K usage s \<Longrightarrow> nft_system_inv K checks s"
  by (auto simp: nft_initial_def nft_system_inv_def nft_pending_ids_ok_def new_ok)

sublocale nft_inv: invariant_system
  "nft_initial K usage :: (('o, 'md, 'te, 'ap, 'nx) NonFungibleToken, 'r) nft_system \<Rightarrow> bool"
  "\<lambda>s s'. \<exists>l. nft_step K usage from_slice self checks s l s'" "nft_system_inv K checks"
  by unfold_locales (auto intro: initial_inv step_keeps_inv)

lemma chain_ok:
  "reachable (nft_initial K usage) (\<lambda>s s'. \<exists>l. nft_step K usage from_slice self checks s l s') s \<Longrightarrow>
     nft_system_inv K checks s"
  by (rule nft_inv.reachable_inv)

end

interpretation list_chain: nft_chain list_nft_ops usage from_slice self checks
  for usage :: "list_nft \<Rightarrow> StorageUsage" and from_slice self checks
  by (unfold_locales)

end
