(* ===== verification/NftProperties.thy ===== *)
theory NftProperties
  imports NftContract
begin

section \<open>Properties of the non-fungible token\<close>

text \<open>
  What NEP-171, NEP-178 and NEP-181 promise and the code keeps, and the two places where it does
  not, each over any collections that keep their laws, with a witness on a concrete run.
\<close>

subsection \<open>The concrete run of the witnesses\<close>

text \<open>
  A token with all extensions on, over association lists.  One token \<open>t1\<close> is minted for Alice and
  Bob is approved for it.  The host charges 100 bytes per token.
\<close>

definition nft_demo_env :: "AccountId \<Rightarrow> Balance \<Rightarrow> PromiseResult list \<Rightarrow> env" where
  "nft_demo_env who deposit results =
     \<lparr>current_account_id = ''nft'', predecessor_account_id = who, attached_deposit = deposit,
      prepaid_gas = 100000000000000, used_gas = 0, block_timestamp = 0, storage_byte_cost = 10,
      promise_results = results, overflow_checks = True\<rparr>"

lemma nft_demo_env_simps [simp]:
  "current_account_id (nft_demo_env who deposit results) = ''nft''"
  "predecessor_account_id (nft_demo_env who deposit results) = who"
  "attached_deposit (nft_demo_env who deposit results) = deposit"
  "prepaid_gas (nft_demo_env who deposit results) = 100000000000000"
  "storage_byte_cost (nft_demo_env who deposit results) = 10"
  "promise_results (nft_demo_env who deposit results) = results"
  "overflow_checks (nft_demo_env who deposit results) = True"
  by (simp_all add: nft_demo_env_def)

definition nft_demo_usage :: "list_nft \<Rightarrow> StorageUsage" where
  "nft_demo_usage t = 100 * tm_len list_map (owner_by_id t)"

definition nft_demo_empty :: list_nft where
  "nft_demo_empty =
     \<lparr>nft_owner_id = ''nft'', extra_storage_in_bytes_per_token = 100, owner_by_id = DAList.empty,
      token_metadata_by_id = Some DAList.empty, tokens_per_owner = Some DAList.empty,
      approvals_by_id = Some DAList.empty, next_approval_id_by_id = Some DAList.empty\<rparr>"

definition nft_demo :: list_nft where
  "nft_demo =
     \<lparr>nft_owner_id = ''nft'', extra_storage_in_bytes_per_token = 100,
      owner_by_id = DAList.update ''t1'' ''alice'' DAList.empty,
      token_metadata_by_id = Some (DAList.update ''t1'' tmp_metadata DAList.empty),
      tokens_per_owner = Some (DAList.update ''alice'' (Dlist.insert ''t1'' Dlist.empty) DAList.empty),
      approvals_by_id = Some (DAList.update ''t1'' (DAList.update ''bob'' 1 DAList.empty) DAList.empty),
      next_approval_id_by_id = Some (DAList.update ''t1'' 2 DAList.empty)\<rparr>"

fun demo_bool_from_slice :: "bytes \<Rightarrow> bool option" where
  "demo_bool_from_slice [b] = Some (b \<noteq> 0)"
| "demo_bool_from_slice _ = None"

lemmas alist_reps [simp] = DAList.update.rep_eq DAList.delete.rep_eq DAList.empty.rep_eq

lemma delete_update_empty [simp]: "DAList.delete k (DAList.update k v DAList.empty) = DAList.empty"
  by (simp add: alist.impl_of_inject [symmetric])

lemma update_update_empty [simp]:
  "DAList.update k v (DAList.update k w DAList.empty) = DAList.update k v DAList.empty"
  by (simp add: alist.impl_of_inject [symmetric])

lemma nft_demo_store: "nft_store list_nft_ops"
  by (rule ln.nft_store_axioms)

lemma list_map_ops_simps [simp]:
  "lm_get list_map = DAList.lookup" "lm_new list_map = (\<lambda>p. DAList.empty)"
  "lm_insert list_map = (\<lambda>m k v. (DAList.update k v m, DAList.lookup m k))"
  "lm_remove list_map = (\<lambda>m k. (DAList.delete k m, DAList.lookup m k))"
  "tm_iter list_map = DAList.impl_of"
  "tm_len list_map = (\<lambda>m. of_nat (length (DAList.impl_of m)))"
  by (simp_all add: list_map_def)

lemma list_set_ops_simps [simp]:
  "us_new list_set = (\<lambda>p. Dlist.empty)"
  "us_insert list_set = (\<lambda>s x. (Dlist.insert x s, \<not> Dlist.member s x))"
  "us_remove list_set = (\<lambda>s x. (Dlist.remove x s, Dlist.member s x))"
  "us_is_empty list_set = Dlist.null" "us_iter list_set = list_of_dlist"
  "us_len list_set = (\<lambda>s. of_nat (Dlist.length s))"
  by (simp_all add: list_set_def)

lemma nft_demo_views [simp]:
  "nft_owners list_nft_ops nft_demo = [''t1'' \<mapsto> ''alice'']"
  "nft_approvals list_nft_ops nft_demo = [''t1'' \<mapsto> DAList.update ''bob'' 1 DAList.empty]"
  "nft_next_id list_nft_ops nft_demo = (\<lambda>x. if x = ''t1'' then 2 else 1)"
  "approvals_by_id nft_demo = Some (DAList.update ''t1'' (DAList.update ''bob'' 1 DAList.empty) DAList.empty)"
  by (auto simp: nft_owners_def nft_approvals_def nft_next_id_def nft_demo_def fun_eq_iff
      DAList.lookup_update)

lemma nft_demo_index_ok: "nft_index_ok list_nft_ops nft_demo"
  by (auto simp: nft_index_ok_def held_sets_def index_of_def nft_demo_def nft_owners_def
      DAList.lookup_update fun_eq_iff)

lemma nft_demo_new:
  "nft_new list_nft_ops nft_demo_usage (nft_demo_env ''nft'' 0 []) [] ''nft'' (Some [1]) (Some [2])
     (Some [3]) = Inr nft_demo_empty"
  by (simp add: nft_new_def nft_measure_min_token_storage_cost_def nft_set_dummy_def
      nft_roll_back_def nft_demo_usage_def nft_demo_empty_def sub_op_exact Let_def DAList.lookup_update)

lemma nft_demo_mint:
  "\<exists>t h token. nft_internal_mint_with_refund list_nft_ops nft_demo_usage (nft_demo_env ''nft'' 2000 [])
     nft_demo_empty no_effects ''t1'' ''alice'' (Some tmp_metadata) None = Inr (t, h, token) \<and>
     nft_approve list_nft_ops (nft_demo_env ''alice'' 200 []) t no_effects ''t1'' ''bob'' None =
       Inr (nft_demo, schedule (Transfer ''alice'' 50) no_effects)"
proof -
  have b: "bytes_for_approved_account_id (nft_demo_env ''alice'' 200 []) ''bob'' = Inr 15"
    by (subst bytes_for_approved_account_id_eq) simp_all
  have r: "refund_deposit_to_account (nft_demo_env ''alice'' 200 []) 15 ''alice'' no_effects =
      Inr (schedule (Transfer ''alice'' 50) no_effects)"
    by (subst refund_deposit_to_account_eq(1)) (simp_all add: bytes_price_def Let_def)
  show ?thesis
    by (simp add: nft_mint_eq nft_with_token_def nft_demo_empty_def nft_owners_def new_token_set_def
        nft_approve_def assert_at_least_one_yocto_def expect_token_found_def expect_approval_def
        b r refund_deposit_def nft_demo_def add_op_exact Let_def DAList.lookup_update)
qed

text \<open>The same token after Alice has sent it to a contract.\<close>

definition nft_demo_sent :: list_nft where
  "nft_demo_sent = nft_demo
     \<lparr>owner_by_id := DAList.update ''t1'' ''dex'' DAList.empty,
      tokens_per_owner := Some (DAList.update ''dex'' (Dlist.insert ''t1'' Dlist.empty) DAList.empty),
      approvals_by_id := Some DAList.empty\<rparr>"

lemma nft_demo_sent_views [simp]:
  "nft_owners list_nft_ops nft_demo_sent = [''t1'' \<mapsto> ''dex'']"
  "nft_approvals list_nft_ops nft_demo_sent = Map.empty"
  "approvals_by_id nft_demo_sent = Some DAList.empty"
  by (auto simp: nft_owners_def nft_approvals_def nft_demo_sent_def fun_eq_iff DAList.lookup_update)

lemma nft_demo_sent_index_ok: "nft_index_ok list_nft_ops nft_demo_sent"
  by (auto simp: nft_index_ok_def held_sets_def index_of_def nft_demo_sent_def nft_owners_def
      DAList.lookup_update fun_eq_iff)

lemma nft_demo_transfer:
  "nft_transfer list_nft_ops (nft_demo_env ''alice'' 1 []) nft_demo no_effects ''dex'' ''t1'' None None =
     Inr (nft_demo_sent,
       nft_transfer_emit (NftTransfer ''alice'' ''dex'' [''t1''] None None) no_effects)"
proof -
  have "nft_internal_transfer_unguarded list_nft_ops (nft_clear_approvals list_nft_ops nft_demo ''t1'')
      ''t1'' ''alice'' ''dex'' = Inr nft_demo_sent"
    by (simp add: nft_internal_transfer_unguarded_def nft_clear_approvals_def nft_demo_def
        nft_demo_sent_def new_token_set_def Dlist.null_def DAList.lookup_update Let_def)
  then show ?thesis
    by (simp add: nft_transfer_def assert_one_yocto_def ln.internal_transfer_eq nft_authorize_def)
qed

subsection \<open>Moving a token\<close>

text \<open>C22: who can move a token, and what a move does.  \<open>nft_transfer\<close> returns exactly when one
  yoctoNEAR is attached, the token exists, the caller is its owner or holds an approval whose id
  matches the one given (if one is given), and the receiver is not the owner already.  Then the
  receiver owns the token, all its approvals are gone, no other token, approval, approval counter
  or metadata has changed, the index by owner is right again, and one transfer event is logged
  and no promise is made.\<close>

theorem nft_transfer_iff:
  assumes "nft_store K" and "nft_index_ok K t"
  shows "if attached_deposit e = 1 \<and> nft_authorized K t (predecessor_account_id e) tok approval_id \<and>
       nft_owners K t tok \<noteq> None \<and> nft_owners K t tok \<noteq> Some receiver
    then \<exists>t'. nft_transfer K e t h receiver tok approval_id memo =
           Inr (t', nft_transfer_emit
             (NftTransfer (the (nft_owners K t tok)) receiver [tok] None memo) h) \<and>
         nft_moved K t tok receiver None t' \<and> nft_index_ok K t'
    else \<exists>p. nft_transfer K e t h receiver tok approval_id memo = Inl p"
proof (cases "attached_deposit e = 1 \<and> nft_authorized K t (predecessor_account_id e) tok approval_id \<and>
       nft_owners K t tok \<noteq> None \<and> nft_owners K t tok \<noteq> Some receiver")
  case True
  then obtain owner where owner: "nft_owners K t tok = Some owner" "owner \<noteq> receiver" by auto
  obtain t' where "nft_internal_transfer K t h (predecessor_account_id e) receiver tok approval_id memo =
      Inr (t', nft_transfer_emit (NftTransfer owner receiver [tok] None memo) h, owner,
        nft_approvals K t tok)"
    "nft_moved K t tok receiver None t'" "nft_index_ok K t'"
    using nft_store.internal_transfer_moves [OF assms owner(1) _ owner(2)] True by metis
  with True owner show ?thesis by (auto simp: nft_transfer_def assert_one_yocto_def)
next
  case False
  have "nft_transfer K e t h receiver tok approval_id memo \<noteq> Inr (t', h')" for t' h'
  proof
    assume "nft_transfer K e t h receiver tok approval_id memo = Inr (t', h')"
    from nft_store.transfer_returns(1-4) [OF assms(1) this assms(2)] False show False by blast
  qed
  then show ?thesis
    unfolding if_not_P [OF False] by (metis sum.exhaust surj_pair)
qed

theorem nft_transfer_iff_witness:
  "(\<exists>t'. nft_transfer list_nft_ops (nft_demo_env ''bob'' 1 []) nft_demo no_effects ''carol'' ''t1''
      (Some 1) None =
        Inr (t', nft_transfer_emit (NftTransfer ''alice'' ''carol'' [''t1''] None None) no_effects) \<and>
      nft_moved list_nft_ops nft_demo ''t1'' ''carol'' None t') \<and>
   (\<exists>p. nft_transfer list_nft_ops (nft_demo_env ''bob'' 1 []) nft_demo no_effects ''carol'' ''t1''
      (Some 7) None = Inl p)"
proof -
  have bob: "nft_approval list_nft_ops nft_demo ''t1'' ''bob'' = Some 1"
    by (simp add: nft_approval_def DAList.lookup_update)
  show ?thesis
    using nft_transfer_iff [OF nft_demo_store nft_demo_index_ok, of "nft_demo_env ''bob'' 1 []" "''t1''"
        "Some 1" "''carol''" no_effects None]
      nft_transfer_iff [OF nft_demo_store nft_demo_index_ok, of "nft_demo_env ''bob'' 1 []" "''t1''"
        "Some 7" "''carol''" no_effects None]
    by (auto simp: nft_authorized_def bob)
qed

text \<open>A transfer call is the same move, under the same conditions and with more than the
  reserved gas attached; behind it the receiver's \<open>nft_on_transfer\<close> is scheduled with all the gas
  that is not reserved, and then this contract's \<open>nft_resolve_transfer\<close>, which is told the
  previous owner and the approvals the move has cleared.\<close>

theorem nft_transfer_call_schedules_settlement:
  assumes "nft_store K" and "nft_index_ok K t"
  shows "nft_transfer_call K e t h receiver tok approval_id memo msg = Inr (t', h') \<longleftrightarrow>
     GAS_FOR_NFT_TRANSFER_CALL < prepaid_gas e \<and>
     (\<exists>owner h1. nft_owners K t tok = Some owner \<and>
        nft_transfer K e t h receiver tok approval_id memo = Inr (t', h1) \<and>
        h' = schedule
          (Then (FunctionCall receiver
                   (NftOnTransfer (predecessor_account_id e) owner tok msg) 0
                   (prepaid_gas e - 30000000000000))
                (FunctionCall (current_account_id e)
                   (NftResolveTransfer owner receiver tok (nft_approvals K t tok)) 0 5000000000000)) h1)"
  (is "?call \<longleftrightarrow> ?rhs")
proof
  assume ?call
  then obtain owner A gas h1 where
    guards: "attached_deposit e = 1" "GAS_FOR_NFT_TRANSFER_CALL < prepaid_gas e" and
    tr: "nft_internal_transfer K t h (predecessor_account_id e) receiver tok approval_id memo =
      Inr (t', h1, owner, A)"
    and gas: "sub_op (overflow_checks e) (prepaid_gas e) GAS_FOR_NFT_TRANSFER_CALL =
      (Inr gas :: NftError panic + u64)"
    and h': "h' = schedule (nft_call_promise e gas (predecessor_account_id e) owner receiver tok A msg) h1"
    by (auto simp: nft_transfer_call_def result_simps Let_def)
  have "gas = prepaid_gas e - GAS_FOR_NFT_TRANSFER_CALL"
    using gas guards(2) by (simp add: sub_op_exact word_less_nat_alt)
  then show ?rhs
    using guards tr h' nft_store.internal_transfer_returns [OF assms(1) tr]
    by (auto simp: nft_transfer_def assert_one_yocto_def nft_call_promise_def
        GAS_FOR_NFT_TRANSFER_CALL_def NFT_GAS_FOR_RESOLVE_TRANSFER_def)
next
  assume ?rhs
  then obtain owner h1 A where
    less: "GAS_FOR_NFT_TRANSFER_CALL < prepaid_gas e" and pay: "attached_deposit e = 1" and
    owner: "nft_owners K t tok = Some owner" and
    tr: "nft_internal_transfer K t h (predecessor_account_id e) receiver tok approval_id memo =
      Inr (t', h1, owner, A)"
    and h': "h' = schedule
          (Then (FunctionCall receiver
                   (NftOnTransfer (predecessor_account_id e) owner tok msg) 0
                   (prepaid_gas e - 30000000000000))
                (FunctionCall (current_account_id e)
                   (NftResolveTransfer owner receiver tok (nft_approvals K t tok)) 0 5000000000000)) h1"
    using nft_store.internal_transfer_returns(1) [OF assms(1)]
    by (fastforce simp: nft_transfer_def result_simps Let_def)
  have "sub_op (overflow_checks e) (prepaid_gas e) GAS_FOR_NFT_TRANSFER_CALL =
      (Inr (prepaid_gas e - GAS_FOR_NFT_TRANSFER_CALL) :: NftError panic + u64)"
    using less by (intro sub_op_exact) (simp add: word_less_nat_alt)
  then show ?call
    using less pay owner tr h' nft_store.internal_transfer_returns(4) [OF assms(1) tr]
    by (simp add: nft_transfer_call_def assert_one_yocto_def Let_def nft_call_promise_def)
      (simp add: GAS_FOR_NFT_TRANSFER_CALL_def NFT_GAS_FOR_RESOLVE_TRANSFER_def)
qed

theorem nft_transfer_call_schedules_settlement_witness:
  "nft_transfer_call list_nft_ops (nft_demo_env ''alice'' 1 []) nft_demo no_effects ''dex'' ''t1'' None
     None ''sell'' =
   Inr (nft_demo_sent, schedule
     (Then (FunctionCall ''dex'' (NftOnTransfer ''alice'' ''alice'' ''t1'' ''sell'') 0 70000000000000)
           (FunctionCall ''nft'' (NftResolveTransfer ''alice'' ''dex'' ''t1''
              (Some (DAList.update ''bob'' 1 DAList.empty))) 0 5000000000000))
     (nft_transfer_emit (NftTransfer ''alice'' ''dex'' [''t1''] None None) no_effects))"
  by (subst nft_transfer_call_schedules_settlement [OF nft_demo_store nft_demo_index_ok])
    (simp add: nft_demo_transfer GAS_FOR_NFT_TRANSFER_CALL_def NFT_GAS_FOR_RESOLVE_TRANSFER_def)

text \<open>C23: how a transfer call is settled.  When the receiver answers \<open>false\<close> nothing changes and
  the result is \<open>true\<close>.  When it answers \<open>true\<close>, anything unreadable, or fails, the token goes
  back to the previous owner exactly if the receiver still owns it; if somebody else owns it by
  then, nothing changes and the result is \<open>true\<close>.  Returning a token restores the approvals that
  the previous owner had given, if there were any.  No other token is touched, and the index by
  owner is right again.\<close>

theorem nft_resolve_transfer_settles:
  assumes "nft_store K" and "nft_index_ok K t"
    and "nft_resolve_transfer K from_slice e t h previous receiver tok A = Inr (t', h', kept)"
    and "promise_results e = [r]"
    and "must_revert \<longleftrightarrow>
      (case r of Successful v \<Rightarrow> from_slice v \<noteq> Some False | _ \<Rightarrow> True)"
  shows "r \<noteq> NotReady \<and> nft_index_ok K t' \<and>
     (kept \<longleftrightarrow> \<not> must_revert \<or> nft_owners K t tok \<noteq> Some receiver) \<and>
     (if kept then t' = t
      else nft_owners K t' = (nft_owners K t)(tok \<mapsto> previous) \<and>
        nft_approvals K t' = (if A = None \<or> approvals_by_id t = None then nft_approvals K t
          else (nft_approvals K t)(tok := A)) \<and>
        nft_next_id K t' = nft_next_id K t \<and> nft_metadata_of K t' = nft_metadata_of K t)"
proof -
  have r: "env_promise_result e 0 = (Inr r :: NftError panic + PromiseResult)"
    using assms(4) by (simp add: env_promise_result_def)
  from assms(3) r obtain m where m: "nft_must_revert from_slice r = Inr m"
    by (auto simp: nft_resolve_transfer_def result_simps)
  then have m': "m = must_revert" "r \<noteq> NotReady"
    using assms(5) by (auto simp: nft_must_revert_def split: PromiseResult.splits option.splits)
  note ret = nft_store.resolve_transfer_returns [OF assms(1,3,2)]
  have kept: "kept \<longleftrightarrow> \<not> must_revert \<or> nft_owners K t tok \<noteq> Some receiver"
    using assms(3) unfolding nft_store.resolve_transfer_eq [OF assms(1) r m] m'(1)
    by (auto simp: result_simps split: option.splits if_splits)
  have "(nft_approvals K t)(tok := if approvals_by_id t = None then None
      else nft_resolved_approvals (nft_approvals K t tok) A) =
    (if A = None \<or> approvals_by_id t = None then nft_approvals K t
     else (nft_approvals K t)(tok := A))"
    by (auto simp: nft_resolved_approvals_def nft_approvals_def fun_eq_iff)
  then show ?thesis
    using ret kept m'(2) by (auto simp: nft_moved_def)
qed

lemma nft_demo_resolve:
  "\<exists>t' h'. nft_resolve_transfer list_nft_ops demo_bool_from_slice (nft_demo_env ''nft'' 0 [Failed])
     nft_demo_sent no_effects ''alice'' ''dex'' ''t1'' (Some (DAList.update ''bob'' 1 DAList.empty)) =
     Inr (t', h', False)"
  by (simp add: nft_resolve_transfer_def env_promise_result_def nft_must_revert_def nft_demo_sent_def
      nft_demo_def nft_internal_transfer_unguarded_def nft_restore_approvals_def DAList.lookup_update
      Let_def)

theorem nft_resolve_transfer_settles_witness:
  "\<exists>t'. nft_owners list_nft_ops t' = [''t1'' \<mapsto> ''alice''] \<and>
     nft_approvals list_nft_ops t' = [''t1'' \<mapsto> DAList.update ''bob'' 1 DAList.empty]"
proof -
  obtain t' h' where "nft_resolve_transfer list_nft_ops demo_bool_from_slice
     (nft_demo_env ''nft'' 0 [Failed]) nft_demo_sent no_effects ''alice'' ''dex'' ''t1''
     (Some (DAList.update ''bob'' 1 DAList.empty)) = Inr (t', h', False)"
    using nft_demo_resolve by blast
  from nft_resolve_transfer_settles [OF nft_demo_store nft_demo_sent_index_ok this, of Failed True]
  show ?thesis by auto
qed

text \<open>C18: a transfer call that fails at once leaves no trace.  If the receiver's call fails (or
  answers \<open>true\<close>, or nothing readable) and nothing else has happened to the token, the settlement
  always returns, answers \<open>false\<close>, and every owner, approval, approval counter and metadata is
  what it was before the call.\<close>

theorem nft_failed_transfer_call_rolls_back:
  assumes "nft_store K" and "nft_index_ok K t"
    and "nft_transfer_call K e t h receiver tok approval_id memo msg = Inr (t1, h1)"
    and "nft_owners K t tok = Some owner"
    and "promise_results e' = [r]" and "r \<noteq> NotReady"
    and "\<And>v. r = Successful v \<Longrightarrow> from_slice v \<noteq> Some False"
  shows "\<exists>t2 h2. nft_resolve_transfer K from_slice e' t1 h' owner receiver tok (nft_approvals K t tok) =
       Inr (t2, h2, False) \<and>
     nft_owners K t2 = nft_owners K t \<and> nft_approvals K t2 = nft_approvals K t \<and>
     nft_next_id K t2 = nft_next_id K t \<and> nft_metadata_of K t2 = nft_metadata_of K t \<and>
     nft_index_ok K t2"
proof -
  have t1: "nft_moved K t tok receiver None t1" "nft_index_ok K t1"
    by (rule nft_store.transfer_call_returns [OF assms(1,3,2)], blast)+
  have gone: "nft_approvals K t1 tok = None" and here: "nft_owners K t1 tok = Some receiver"
    and shape: "approvals_by_id t1 = None \<longleftrightarrow> approvals_by_id t = None"
    using t1(1) by (simp_all add: nft_moved_def nft_same_shape_def)
  have r: "env_promise_result e' 0 = (Inr r :: NftError panic + PromiseResult)"
    using assms(5) by (simp add: env_promise_result_def)
  have m: "nft_must_revert from_slice r = Inr True"
    using assms(6,7) by (auto simp: nft_must_revert_def split: PromiseResult.split option.split)
  obtain t' where t': "nft_internal_transfer_unguarded K t1 tok receiver owner = Inr t'"
    "approvals_by_id t' = approvals_by_id t1"
    by (rule nft_store.unguarded_spec [OF assms(1) t1(2) here, of owner]) blast
  then have "nft_approvals K t' tok = None" using gone by (simp add: nft_approvals_def)
  then obtain t2 where "nft_restore_approvals K e' t' h' receiver tok (nft_approvals K t tok) = Inr (t2, h')"
    by (cases "approvals_by_id t'"; cases "nft_approvals K t tok")
      (auto simp: nft_restore_approvals_def nft_approvals_def [of _ t'])
  then have res: "nft_resolve_transfer K from_slice e' t1 h' owner receiver tok (nft_approvals K t tok) =
      Inr (t2, nft_emit_transfer receiver owner tok None None h', False)"
    using here t'(1) by (simp add: nft_store.resolve_transfer_eq [OF assms(1) r m])
  have "nft_index_ok K t2" and moved: "nft_moved K t1 tok owner
      (if approvals_by_id t1 = None then None
       else nft_resolved_approvals (nft_approvals K t1 tok) (nft_approvals K t tok)) t2"
    using nft_store.resolve_transfer_returns [OF assms(1) res t1(2)] by simp_all
  moreover have "(if approvals_by_id t1 = None then None
       else nft_resolved_approvals (nft_approvals K t1 tok) (nft_approvals K t tok)) = nft_approvals K t tok"
    using gone shape by (auto simp: nft_resolved_approvals_def nft_approvals_def split: option.split)
  ultimately show ?thesis
    using res t1(1) assms(4) by (auto simp: nft_moved_def fun_eq_iff)
qed

lemma nft_demo_call:
  "\<exists>h1. nft_transfer_call list_nft_ops (nft_demo_env ''alice'' 1 []) nft_demo no_effects ''dex'' ''t1'' None
     None ''sell'' = Inr (nft_demo_sent, h1)"
  using nft_demo_transfer
  by (auto simp: nft_transfer_call_def nft_transfer_def result_simps Let_def assert_one_yocto_def
      GAS_FOR_NFT_TRANSFER_CALL_def NFT_GAS_FOR_RESOLVE_TRANSFER_def sub_op_exact)

theorem nft_failed_transfer_call_rolls_back_witness:
  "\<exists>t2 h2. nft_resolve_transfer list_nft_ops demo_bool_from_slice (nft_demo_env ''nft'' 0 [Failed])
       nft_demo_sent no_effects ''alice'' ''dex'' ''t1'' (Some (DAList.update ''bob'' 1 DAList.empty)) =
       Inr (t2, h2, False) \<and>
     nft_owners list_nft_ops t2 = [''t1'' \<mapsto> ''alice'']"
proof -
  obtain h1 where "nft_transfer_call list_nft_ops (nft_demo_env ''alice'' 1 []) nft_demo no_effects
      ''dex'' ''t1'' None None ''sell'' = Inr (nft_demo_sent, h1)" using nft_demo_call by blast
  from nft_failed_transfer_call_rolls_back [OF nft_demo_store nft_demo_index_ok this, of "''alice''"
      "nft_demo_env ''nft'' 0 [Failed]" Failed demo_bool_from_slice no_effects]
  show ?thesis by auto
qed

text \<open>C26: a returned token keeps the receiver's approvals.  When the previous owner had given no
  approvals, the settlement refunds the receiver for the approvals it has set in the meantime but
  leaves them in place: the token is the previous owner's again, and every account the receiver
  had approved can move it away with one call.\<close>

theorem nft_returned_token_keeps_receiver_approvals:
  assumes "nft_store K" and "nft_index_ok K t"
    and "nft_resolve_transfer K from_slice e t h previous receiver tok None = Inr (t', h', False)"
    and "nft_approval K t tok thief = Some i"
    and "predecessor_account_id e' = thief" and "attached_deposit e' = 1" and "loot \<noteq> previous"
  shows "nft_owners K t' tok = Some previous \<and> nft_approvals K t' tok = nft_approvals K t tok \<and>
     (\<exists>x. promises h' = promises h @ [Transfer receiver x]) \<and>
     (\<exists>t'' h''. nft_transfer K e' t' no_effects loot tok None memo = Inr (t'', h'') \<and>
        nft_owners K t'' tok = Some loot)"
proof -
  from assms(4) obtain A where A: "nft_approvals K t tok = Some A" "DAList.lookup A thief = Some i"
    by (auto simp: nft_approval_def split: option.splits)
  then have on: "approvals_by_id t \<noteq> None" by (auto simp: nft_approvals_def split: option.splits)
  have moved: "nft_moved K t tok previous (Some A) t'" and index: "nft_index_ok K t'"
    and here: "nft_owners K t tok = Some receiver"
    using nft_store.resolve_transfer_returns [OF assms(1,3,2)] A(1) on
    by (simp_all add: nft_resolved_approvals_def)
  then have owner: "nft_owners K t' tok = Some previous" and A': "nft_approvals K t' tok = Some A"
    by (simp_all add: nft_moved_def)
  then have "nft_authorized K t' (predecessor_account_id e') tok None"
    using A(2) assms(5) by (auto simp: nft_authorized_def nft_approval_def)
  from nft_store.internal_transfer_moves [OF assms(1) index owner this assms(7) [symmetric]]
  obtain t'' where "nft_internal_transfer K t' no_effects (predecessor_account_id e') loot tok None memo =
      Inr (t'', nft_transfer_emit (NftTransfer previous loot [tok] None memo) no_effects, previous,
        nft_approvals K t' tok)" "nft_moved K t' tok loot None t''" by metis
  then have steal: "\<exists>t'' h''. nft_transfer K e' t' no_effects loot tok None memo = Inr (t'', h'') \<and>
        nft_owners K t'' tok = Some loot"
    using assms(6) by (auto simp: nft_transfer_def assert_one_yocto_def nft_moved_def)
  obtain r m where r: "env_promise_result e 0 = (Inr r :: NftError panic + PromiseResult)"
    "nft_must_revert from_slice r = Inr m"
    using assms(3) by (auto simp: nft_resolve_transfer_def result_simps)
  obtain t1 where t1: "nft_internal_transfer_unguarded K t tok receiver previous = Inr t1"
    "approvals_by_id t1 = approvals_by_id t"
    by (rule nft_store.unguarded_spec [OF assms(1,2) here, of previous]) blast
  from assms(3) here t1(1) obtain h1 where
    "nft_restore_approvals K e t1 h receiver tok None = Inr (t', h1)"
    "h' = nft_emit_transfer receiver previous tok None None h1"
    unfolding nft_store.resolve_transfer_eq [OF assms(1) r]
    by (auto simp: result_simps split: if_splits)
  then have "\<exists>x. promises h' = promises h @ [Transfer receiver x]"
    using A(1) on t1(2)
    by (auto simp: nft_restore_approvals_def nft_approvals_def result_simps
        refund_approved_account_ids_def nft_emit_transfer_def
        dest!: refund_approved_account_ids_iter_returns)
  with steal owner A A' show ?thesis by simp
qed

definition nft_demo_reapproved :: list_nft where
  "nft_demo_reapproved = nft_demo_sent
     \<lparr>approvals_by_id := Some (DAList.update ''t1'' (DAList.update ''mallory'' 2 DAList.empty) DAList.empty)\<rparr>"

theorem nft_returned_token_keeps_receiver_approvals_witness:
  "\<exists>t' h' t'' h''.
     nft_resolve_transfer list_nft_ops demo_bool_from_slice (nft_demo_env ''nft'' 0 [Successful [1]])
       nft_demo_reapproved no_effects ''alice'' ''dex'' ''t1'' None = Inr (t', h', False) \<and>
     nft_owners list_nft_ops t' ''t1'' = Some ''alice'' \<and>
     nft_transfer list_nft_ops (nft_demo_env ''mallory'' 1 []) t' no_effects ''mallory'' ''t1'' None None =
       Inr (t'', h'') \<and>
     nft_owners list_nft_ops t'' ''t1'' = Some ''mallory''"
proof -
  have index: "nft_index_ok list_nft_ops nft_demo_reapproved"
    using nft_demo_sent_index_ok by (simp add: nft_index_ok_def nft_demo_reapproved_def split: option.splits)
  have refund: "\<exists>x. refund_approved_account_ids (nft_demo_env ''nft'' 0 [Successful [1]]) ''dex''
      (DAList.update ''mallory'' 2 DAList.empty) no_effects = Inr (schedule (Transfer ''dex'' x) no_effects)"
    using refund_approved_account_ids_iter_eq [of "[''mallory'']" "nft_demo_env ''nft'' 0 [Successful [1]]"]
    by (auto simp: refund_approved_account_ids_def bytes_price_def)
  have "\<exists>t' h'. nft_resolve_transfer list_nft_ops demo_bool_from_slice
       (nft_demo_env ''nft'' 0 [Successful [1]]) nft_demo_reapproved no_effects ''alice'' ''dex'' ''t1'' None =
       Inr (t', h', False)"
    using refund by (auto simp: nft_resolve_transfer_def env_promise_result_def nft_must_revert_def
        nft_demo_reapproved_def nft_demo_sent_def nft_demo_def nft_internal_transfer_unguarded_def
        nft_restore_approvals_def DAList.lookup_update Let_def)
  then obtain t' h' where res: "nft_resolve_transfer list_nft_ops demo_bool_from_slice
       (nft_demo_env ''nft'' 0 [Successful [1]]) nft_demo_reapproved no_effects ''alice'' ''dex'' ''t1'' None =
       Inr (t', h', False)" by blast
  have "nft_approval list_nft_ops nft_demo_reapproved ''t1'' ''mallory'' = Some 2"
    by (simp add: nft_approval_def nft_approvals_def nft_demo_reapproved_def DAList.lookup_update)
  from nft_returned_token_keeps_receiver_approvals [OF nft_demo_store index res this,
      of "nft_demo_env ''mallory'' 1 []" "''mallory''" None] res
  show ?thesis by auto
qed

subsection \<open>The life of the contract\<close>

text \<open>C17: the collections never drift apart.  In every state the contract can reach, however
  transfers, transfer calls, late settlements, approvals, revocations and mints interleave, and
  under either \<open>overflow-checks\<close> setting: the enumeration index has an entry for exactly the
  accounts that own a token, holding exactly the tokens they own; approvals exist for existing
  tokens only; and with the metadata extension exactly the existing tokens have metadata.\<close>

theorem nft_reachable_collections_agree:
  assumes "nft_store K"
    and "reachable (nft_initial K usage) (\<lambda>s s'. \<exists>l. nft_step K usage from_slice self checks s l s') s"
    and "t = nft_field (nft_contract_of s)"
  shows "(\<forall>m a. tokens_per_owner t = Some m \<longrightarrow>
       (case lm_get (per_owner_ops K) m a of
          None \<Rightarrow> \<forall>tok. nft_owners K t tok \<noteq> Some a
        | Some S \<Rightarrow> us_iter (token_set_ops K) S \<noteq> [] \<and>
            set (us_iter (token_set_ops K) S) = {tok. nft_owners K t tok = Some a})) \<and>
     dom (nft_approvals K t) \<subseteq> dom (nft_owners K t) \<and>
     (token_metadata_by_id t \<noteq> None \<longrightarrow> dom (nft_metadata_of K t) = dom (nft_owners K t))"
proof -
  have "nft_chain K" using assms(1) by (simp add: nft_chain_def)
  from nft_chain.chain_ok [OF this assms(2)] have inv: "nft_index_ok K t" "nft_extensions_ok K t"
    by (simp_all add: nft_system_inv_def nft_ok_def assms(3))
  have "case lm_get (per_owner_ops K) m a of
          None \<Rightarrow> \<forall>tok. nft_owners K t tok \<noteq> Some a
        | Some S \<Rightarrow> us_iter (token_set_ops K) S \<noteq> [] \<and>
            set (us_iter (token_set_ops K) S) = {tok. nft_owners K t tok = Some a}"
    if "tokens_per_owner t = Some m" for m a
  proof -
    have "held_sets K m a = index_of (nft_owners K t) a"
      using inv(1) that by (simp add: nft_index_ok_def)
    then show ?thesis
      by (cases "lm_get (per_owner_ops K) m a")
        (auto simp: held_sets_def index_of_def split: if_splits)
  qed
  then show ?thesis using inv(2) by (simp add: nft_extensions_ok_def)
qed

lemma nft_demo_reachable:
  "reachable (nft_initial list_nft_ops nft_demo_usage)
     (\<lambda>s s'. \<exists>l. nft_step list_nft_ops nft_demo_usage demo_bool_from_slice ''nft'' True s l s')
     \<lparr>nft_contract_of = \<lparr>nft_field = nft_demo, nft_rest = ()\<rparr>, nft_pending = {#}\<rparr>"
proof -
  let ?s0 = "\<lparr>nft_contract_of = \<lparr>nft_field = nft_demo_empty, nft_rest = ()\<rparr>, nft_pending = {#}\<rparr>"
  let ?step = "nft_step list_nft_ops nft_demo_usage demo_bool_from_slice ''nft'' True"
  have "nft_initial list_nft_ops nft_demo_usage ?s0"
    unfolding nft_initial_def by (simp, intro exI, rule nft_demo_new)
  then have 0: "reachable (nft_initial list_nft_ops nft_demo_usage) (\<lambda>s s'. \<exists>l. ?step s l s') ?s0"
    by (rule reachable_init)
  obtain t h token where t: "nft_internal_mint_with_refund list_nft_ops nft_demo_usage
      (nft_demo_env ''nft'' 2000 []) nft_demo_empty no_effects ''t1'' ''alice'' (Some tmp_metadata) None =
      Inr (t, h, token)"
    and ap: "nft_approve list_nft_ops (nft_demo_env ''alice'' 200 []) t no_effects ''t1'' ''bob'' None =
      Inr (nft_demo, schedule (Transfer ''alice'' 50) no_effects)"
    using nft_demo_mint by blast
  let ?s1 = "\<lparr>nft_contract_of = \<lparr>nft_field = t, nft_rest = ()\<rparr>, nft_pending = {#}\<rparr>"
  have "?step ?s0 OwnMint ?s1"
    using nft_step_mint [of list_nft_ops nft_demo_usage "nft_demo_env ''nft'' 2000 []" ?s0 "''t1''" "''alice''"
        "Some tmp_metadata" None t h token "''nft''" True demo_bool_from_slice]
      t no_new_settlements(4) [OF t] by simp
  then have 1: "reachable (nft_initial list_nft_ops nft_demo_usage) (\<lambda>s s'. \<exists>l. ?step s l s') ?s1"
    using reachable_step [OF 0] by blast
  have "?step ?s1 (CallBy (nft_demo_env ''alice'' 200 []))
      \<lparr>nft_contract_of = \<lparr>nft_field = nft_demo, nft_rest = ()\<rparr>, nft_pending = {#}\<rparr>"
    using nft_step_approve [of list_nft_ops "nft_demo_env ''alice'' 200 []" ?s1 "''t1''" "''bob''" None
        "\<lparr>nft_field = nft_demo, nft_rest = ()\<rparr>" _ "''nft''" True nft_demo_usage demo_bool_from_slice] ap
    by (simp add: contract_nft_approve_def)
  then show ?thesis using reachable_step [OF 1] by blast
qed

theorem nft_reachable_collections_agree_witness:
  "dom (nft_metadata_of list_nft_ops nft_demo) = {''t1''}"
  using nft_reachable_collections_agree [OF nft_demo_store nft_demo_reachable refl]
  by (simp add: nft_demo_def [THEN arg_cong, of token_metadata_by_id])

text \<open>C25: approval ids are never reused.  With \<open>overflow-checks\<close> on, in every reachable state an
  approval id that an account holds for a token is smaller than the token's next id, so the next
  approval gets an id nobody has had, and no two accounts hold the same id for a token.  This
  stays true through transfer calls whose settlement brings old approvals back.\<close>

theorem nft_reachable_approval_ids_unique:
  assumes "nft_store K"
    and "reachable (nft_initial K usage) (\<lambda>s s'. \<exists>l. nft_step K usage from_slice self True s l s') s"
    and "t = nft_field (nft_contract_of s)"
    and "nft_approval K t tok a = Some i"
  shows "i < nft_next_id K t tok \<and> (\<forall>b. nft_approval K t tok b = Some i \<longrightarrow> b = a)"
proof -
  have "nft_chain K" using assms(1) by (simp add: nft_chain_def)
  from nft_chain.chain_ok [OF this assms(2)] have "nft_ids_ok K t"
    by (simp add: nft_system_inv_def nft_ok_def assms(3))
  with assms(4) show ?thesis
    by (auto simp: nft_ids_ok_def approval_ids_ok_def nft_approval_def split: option.splits)
qed

theorem nft_reachable_approval_ids_unique_witness:
  "(1 :: u64) < nft_next_id list_nft_ops nft_demo ''t1''"
  using nft_reachable_approval_ids_unique [OF nft_demo_store nft_demo_reachable refl,
      of "''t1''" "''bob''" 1]
  by (simp add: nft_approval_def DAList.lookup_update)

text \<open>C19: no token moves without authority.  In every step of the life of the contract, a token
  that has an owner keeps it, unless the step is a call with one yoctoNEAR attached by the owner
  or by an account approved for that token, or the callback of a pending transfer call of that
  token, which gives it back to the account that owned it before that call.\<close>

theorem nft_owner_change_needs_authority:
  assumes "nft_store K"
    and "reachable (nft_initial K usage) (\<lambda>s s'. \<exists>l. nft_step K usage from_slice self checks s l s') s"
    and "nft_step K usage from_slice self checks s l s'"
    and "nft_owners K (nft_field (nft_contract_of s)) tok = Some owner"
    and "nft_owners K (nft_field (nft_contract_of s')) tok \<noteq> Some owner"
  shows "(\<exists>e. l = CallBy e \<and> attached_deposit e = 1 \<and>
       (predecessor_account_id e = owner \<or>
        (\<exists>i. nft_approval K (nft_field (nft_contract_of s)) tok (predecessor_account_id e) = Some i))) \<or>
     (\<exists>previous A. l = SettleOf (previous, owner, tok, A) \<and>
        (previous, owner, tok, A) \<in># nft_pending s \<and>
        nft_owners K (nft_field (nft_contract_of s')) tok = Some previous)"
proof -
  have chain: "nft_chain K" using assms(1) by (simp add: nft_chain_def)
  from nft_chain.step_owner [OF chain assms(3) nft_chain.chain_ok [OF chain assms(2)] assms(4)]
    assms(4,5) show ?thesis
    unfolding nft_authorized_def by auto
qed

theorem nft_owner_change_needs_authority_witness:
  "\<exists>e. CallBy (nft_demo_env ''alice'' 1 []) = CallBy e \<and> attached_deposit e = 1 \<and>
     (predecessor_account_id e = ''alice'' \<or>
      (\<exists>i. nft_approval list_nft_ops nft_demo ''t1'' (predecessor_account_id e) = Some i))"
proof -
  let ?s = "\<lparr>nft_contract_of = \<lparr>nft_field = nft_demo, nft_rest = ()\<rparr>, nft_pending = {#}\<rparr>"
  let ?s' = "\<lparr>nft_contract_of = \<lparr>nft_field = nft_demo_sent, nft_rest = ()\<rparr>, nft_pending = {#}\<rparr>"
  have "nft_step list_nft_ops nft_demo_usage demo_bool_from_slice ''nft'' True ?s
      (CallBy (nft_demo_env ''alice'' 1 [])) ?s'"
    using nft_step_transfer [of list_nft_ops "nft_demo_env ''alice'' 1 []" ?s "''dex''" "''t1''" None None
        "\<lparr>nft_field = nft_demo_sent, nft_rest = ()\<rparr>" _ "''nft''" True nft_demo_usage demo_bool_from_slice]
    by (simp add: contract_nft_transfer_def nft_demo_transfer)
  from nft_owner_change_needs_authority [OF nft_demo_store nft_demo_reachable this, of "''t1''" "''alice''"]
  show ?thesis by auto
qed

subsection \<open>Minting and approvals\<close>

text \<open>Minting.  \<open>mint\<close> returns exactly when the caller is the contract's owner, metadata is
  given if the contract keeps metadata, the token id is new, and the deposit covers the storage
  the token takes.  Then the token exists with that owner and metadata and nothing else has
  changed, the index by owner is right again, the returned token describes it, one mint event is
  logged, and the deposit that was not needed is paid back to the caller, except a last single
  yoctoNEAR.  (Metadata given to a contract that keeps none is in the returned token only.)\<close>

theorem nft_mint_creates_token:
  assumes "nft_store K" and "nft_index_ok K t" and "t1 = nft_with_token K t tok owner metadata"
    and ext: "nft_extensions_ok K t"
    and "usage t \<le> usage t1"
    and "cost = bytes_price e (unat (usage t1) - unat (usage t))" and "cost < 2 ^ 128"
  shows "if predecessor_account_id e = nft_owner_id t \<and>
       (token_metadata_by_id t = None \<or> metadata \<noteq> None) \<and> nft_owners K t tok = None \<and>
       cost \<le> unat (attached_deposit e)
    then \<exists>h' token. nft_mint K usage e t h tok owner metadata = Inr (t1, h', token) \<and>
       nft_minted K t tok owner metadata t1 \<and> nft_index_ok K t1 \<and>
       nft_token K t1 tok =
         Some (if token_metadata_by_id t = None then token\<lparr>tok_metadata := None\<rparr> else token) \<and>
       logs h' = logs h @ [EventLog (new_171_v1 (NftMintEvent [NftMint owner [tok] None]))] \<and>
       total_paid_to (predecessor_account_id e) h' =
         total_paid_to (predecessor_account_id e) h +
         (if unat (attached_deposit e) - cost = 1 then 0 else unat (attached_deposit e) - cost)
    else \<exists>p. nft_mint K usage e t h tok owner metadata = Inl p"
proof -
  have sub: "sub_op (overflow_checks e) (usage t1) (usage t) =
      (Inr (usage t1 - usage t) :: NftError panic + u64)"
    and used: "unat (usage t1 - usage t) = unat (usage t1) - unat (usage t)"
    using assms(5) by (simp_all add: sub_op_exact unat_sub_exact word_le_nat_alt)
  note refund = refund_deposit_to_account_eq [of e "usage t1 - usage t", unfolded used,
      folded assms(6), OF assms(7)]
  show ?thesis
  proof (cases "predecessor_account_id e = nft_owner_id t \<and>
       (token_metadata_by_id t = None \<or> metadata \<noteq> None) \<and> nft_owners K t tok = None \<and>
       cost \<le> unat (attached_deposit e)")
    case True
    define token where "token = \<lparr>tok_token_id = tok, tok_owner_id = owner, tok_metadata = metadata,
       tok_approved_account_ids = (if approvals_by_id t \<noteq> None then Some DAList.empty else None)\<rparr>"
    define h1 where "h1 = (if 1 < unat (attached_deposit e) - cost
      then schedule (Transfer (predecessor_account_id e)
        (attached_deposit e - storage_byte_cost e * ucast (usage t1 - usage t))) h else h)"
    have res: "nft_mint K usage e t h tok owner metadata =
        Inr (t1, nft_mint_emit (NftMint owner [tok] None) h1, token)"
      using True sub refund(1) by (simp add: nft_mint_def nft_internal_mint_def nft_mint_eq
          assms(3) [symmetric] Let_def token_def h1_def)
    have minted: "nft_minted K t tok owner metadata t1" "nft_index_ok K t1"
      using True nft_store.with_token_minted [OF assms(1)] nft_store.with_token_index_ok [OF assms(1,2)]
      by (simp_all add: assms(3))
    have "unat (attached_deposit e - storage_byte_cost e * ucast (usage t1 - usage t)) =
        unat (attached_deposit e) - cost"
      using True refund(2) by (simp add: unat_sub_exact)
    then have "total_paid_to (predecessor_account_id e) h1 = total_paid_to (predecessor_account_id e) h +
         (if unat (attached_deposit e) - cost = 1 then 0 else unat (attached_deposit e) - cost)"
      using True by (auto simp: h1_def)
    moreover have "nft_approvals K t1 tok = None"
      using True minted(1) ext by (auto simp: nft_minted_def nft_extensions_ok_def)
    then have "nft_token K t1 tok =
        Some (if token_metadata_by_id t = None then token\<lparr>tok_metadata := None\<rparr> else token)"
      using minted(1) by (auto simp: nft_token_eq token_def nft_minted_def nft_same_shape_def
          nft_metadata_of_def)
    ultimately show ?thesis
      using True res minted by (auto simp: total_paid_to_def h1_def)
  next
    case False
    then have "nft_mint K usage e t h tok owner metadata \<noteq> Inr v" for v
      using sub refund(1) by (cases v) (auto simp: nft_mint_def nft_internal_mint_def nft_mint_eq
          assms(3) [symmetric] result_simps Let_def split: if_splits)
    then show ?thesis unfolding if_not_P [OF False] by (metis sum.exhaust)
  qed
qed

lemma nft_demo_ext_ok: "nft_extensions_ok list_nft_ops nft_demo"
  by (auto simp: nft_extensions_ok_def nft_metadata_of_def nft_demo_def nft_owners_def
      nft_approvals_def DAList.lookup_update split: if_splits)

theorem nft_mint_creates_token_witness:
  "\<exists>t1 h' token. nft_mint list_nft_ops nft_demo_usage (nft_demo_env ''nft'' 1500 []) nft_demo no_effects
       ''t2'' ''bob'' (Some tmp_metadata) = Inr (t1, h', token) \<and>
     nft_owners list_nft_ops t1 = [''t1'' \<mapsto> ''alice'', ''t2'' \<mapsto> ''bob''] \<and>
     total_paid_to ''nft'' h' = 500"
proof -
  let ?e = "nft_demo_env ''nft'' 1500 []"
  let ?t1 = "nft_with_token list_nft_ops nft_demo ''t2'' ''bob'' (Some tmp_metadata)"
  have u: "nft_demo_usage nft_demo = 100" "nft_demo_usage ?t1 = 200"
    by (simp_all add: nft_demo_usage_def nft_demo_def nft_with_token_def Let_def)
  have cost: "bytes_price ?e (unat (nft_demo_usage ?t1) - unat (nft_demo_usage nft_demo)) = 1000"
    by (simp add: u bytes_price_def)
  have owner: "nft_owner_id nft_demo = ''nft''" by (simp add: nft_demo_def)
  show ?thesis
    using nft_mint_creates_token [OF nft_demo_store nft_demo_index_ok refl nft_demo_ext_ok _
        cost [symmetric], of no_effects] owner u
    by (auto simp: nft_minted_def)
qed

text \<open>Approving.  When \<open>nft_approve\<close> returns, the caller owned the token; the account is now
  approved with the id that was next for that token, and with no other id; what any other account
  may do with any token is as before; the next id of the token is one higher, no token has changed
  hands; and if the account had an approval already, that one no longer counts (its id differs).\<close>

theorem nft_approve_grants:
  assumes "nft_store K" and "overflow_checks e" and "nft_ids_ok K t"
    and "nft_approve K e t h tok account msg = Inr (t', h')"
    and "i = nft_next_id K t tok"
  shows "nft_owners K t tok = Some (predecessor_account_id e) \<and> nft_owners K t' = nft_owners K t \<and>
     (\<forall>x. nft_is_approved K t' tok account x = Inr (x = None \<or> x = Some i)) \<and>
     (\<forall>tok' other x. (tok', other) \<noteq> (tok, account) \<longrightarrow>
        nft_is_approved K t' tok' other x = nft_is_approved K t tok' other x) \<and>
     unat (nft_next_id K t' tok) = unat i + 1 \<and>
     nft_is_approved K t tok account (Some i) = Inr False"
proof -
  from nft_store.approve_returns [OF assms(1,4)] obtain next_id where r:
    "nft_owners K t tok = Some (predecessor_account_id e)"
    "add_op (overflow_checks e) (nft_next_id K t tok) 1 = (Inr next_id :: NftError panic + u64)"
    "nft_owners K t' = nft_owners K t"
    "nft_approvals K t' = (nft_approvals K t)(tok \<mapsto>
       DAList.update account (nft_next_id K t tok) (unwrap_or DAList.empty (nft_approvals K t tok)))"
    "nft_next_id K t' = (nft_next_id K t)(tok := next_id)"
    by metis
  have look: "nft_approval K t' x b = (if x = tok \<and> b = account then Some i
      else nft_approval K t x b)" for x b
    using r(4) assms(5) by (auto simp: nft_approval_def DAList.lookup_update split: option.splits)
  have "nft_approval K t tok account \<noteq> Some i"
    using assms(3,5) by (auto simp: nft_ids_ok_def approval_ids_ok_def nft_approval_def
        split: option.splits)
  moreover have "unat next_id = unat i + 1" using r(2) assms(2,5) by (simp add: unat_arith_simps)
  ultimately show ?thesis
    using r by (auto simp: nft_is_approved_eq look split: option.split)
qed

lemma nft_demo_ids_ok: "nft_ids_ok list_nft_ops nft_demo"
  by (auto simp: nft_ids_ok_def approval_ids_ok_def DAList.lookup_update split: if_splits)

lemma nft_demo_approve:
  "\<exists>t' h'. nft_approve list_nft_ops (nft_demo_env ''alice'' 200 []) nft_demo no_effects ''t1'' ''carol''
     None = Inr (t', h')"
proof -
  have b: "bytes_for_approved_account_id (nft_demo_env ''alice'' 200 []) ''carol'' = Inr 17"
    by (subst bytes_for_approved_account_id_eq) simp_all
  have r: "refund_deposit_to_account (nft_demo_env ''alice'' 200 []) 17 ''alice'' no_effects =
      Inr (schedule (Transfer ''alice'' 30) no_effects)"
    by (subst refund_deposit_to_account_eq(1)) (simp_all add: bytes_price_def Let_def)
  show ?thesis
    by (simp add: nft_approve_def assert_at_least_one_yocto_def expect_token_found_def
        expect_approval_def b r refund_deposit_def nft_demo_def add_op_exact Let_def
        DAList.lookup_update)
qed

theorem nft_approve_grants_witness:
  "\<exists>t' h'. nft_approve list_nft_ops (nft_demo_env ''alice'' 200 []) nft_demo no_effects ''t1'' ''carol''
       None = Inr (t', h') \<and>
     nft_is_approved list_nft_ops t' ''t1'' ''carol'' (Some 2) = Inr True"
proof -
  obtain t' h' where "nft_approve list_nft_ops (nft_demo_env ''alice'' 200 []) nft_demo no_effects
      ''t1'' ''carol'' None = Inr (t', h')" using nft_demo_approve by blast
  with nft_approve_grants [OF nft_demo_store _ nft_demo_ids_ok this refl] show ?thesis by auto
qed

text \<open>An approval costs its storage and nothing else.  \<open>nft_approve\<close> keeps of the attached
  deposit the price of the account's entry if the account was not approved yet, and nothing if it
  was; the rest goes back to the caller, except a last single yoctoNEAR.  With less than the price
  attached it panics.\<close>

theorem nft_approve_charges_storage:
  assumes "nft_store K" and "length account \<le> 64"
    and "cost = (if nft_approval K t tok account = None
      then bytes_price e (length account + 12) else 0)" and "cost < 2 ^ 128"
  shows "(unat (attached_deposit e) < cost \<longrightarrow> (\<exists>p. nft_approve K e t h tok account msg = Inl p)) \<and>
     (\<forall>t' h'. nft_approve K e t h tok account msg = Inr (t', h') \<longrightarrow>
        total_paid_to (predecessor_account_id e) h' + cost +
          (if unat (attached_deposit e) = cost + 1 then 1 else 0) =
        total_paid_to (predecessor_account_id e) h + unat (attached_deposit e))"
proof -
  let ?n = "if nft_approval K t tok account = None then of_nat (length account + 12) else 0 :: u64"
  have "unat (of_nat (length account + 12) :: u64) = length account + 12"
    using assms(2) by (intro unat_of_nat_u64) simp
  then have price: "bytes_price e (unat ?n) = cost"
    by (simp add: assms(3) bytes_price_def del: of_nat_add)
  note refund = refund_deposit_to_account_eq [of e ?n, unfolded price, OF assms(4)]
  have paid: "unat (attached_deposit e) \<ge> cost \<and>
      total_paid_to (predecessor_account_id e) h' + cost +
          (if unat (attached_deposit e) = cost + 1 then 1 else 0) =
        total_paid_to (predecessor_account_id e) h + unat (attached_deposit e)"
    if res: "nft_approve K e t h tok account msg = Inr (t', h')" for t' h'
  proof -
    from approve_paid [OF res] obtain n h1 where
      n: "(if nft_approval K t tok account = None then bytes_for_approved_account_id e account
           else Inr 0) = Inr n"
      and h1: "refund_deposit_to_account e n (predecessor_account_id e) h = Inr h1"
      and h': "\<And>a. total_paid_to a h' = total_paid_to a h1" by blast
    have "n = ?n"
      using n assms(2) bytes_for_approved_account_id_eq [of account e] by (auto split: if_splits)
    with h1 refund have "cost \<le> unat (attached_deposit e)"
      and "h1 = (if 1 < unat (attached_deposit e) - cost then schedule (Transfer (predecessor_account_id e)
          (attached_deposit e - storage_byte_cost e * ucast ?n)) h else h)"
      by (auto simp: Let_def split: if_splits)
    then show ?thesis using refund(2) by (auto simp: h' unat_sub_exact)
  qed
  then show ?thesis
    by (cases "nft_approve K e t h tok account msg") fastforce+
qed

theorem nft_approve_charges_storage_witness:
  "\<exists>t' h'. nft_approve list_nft_ops (nft_demo_env ''alice'' 200 []) nft_demo no_effects ''t1'' ''carol''
       None = Inr (t', h') \<and> total_paid_to ''alice'' h' = 30"
proof -
  obtain t' h' where res: "nft_approve list_nft_ops (nft_demo_env ''alice'' 200 []) nft_demo no_effects
      ''t1'' ''carol'' None = Inr (t', h')" using nft_demo_approve by blast
  have "total_paid_to ''alice'' h' = 30"
    using nft_approve_charges_storage [OF nft_demo_store, of "''carol''" 170 nft_demo "''t1''"
        "nft_demo_env ''alice'' 200 []" no_effects None] res
    by (simp add: nft_approval_def DAList.lookup_update bytes_price_def)
  with res show ?thesis by blast
qed

text \<open>Revoking.  When \<open>nft_revoke\<close> returns, the caller owned the token and attached one
  yoctoNEAR; the account is not approved for the token any more, every other approval is as it
  was; and the owner is paid the price of the account's entry exactly if there was one.\<close>

theorem nft_revoke_withdraws_approval:
  assumes "nft_store K" and "length account \<le> 64"
    and "bytes_price e (length account + 12) < 2 ^ 128"
    and "nft_revoke K e t h tok account = Inr (t', h')"
  shows "nft_owners K t tok = Some (predecessor_account_id e) \<and> attached_deposit e = 1 \<and>
     nft_owners K t' = nft_owners K t \<and> nft_next_id K t' = nft_next_id K t \<and>
     (\<forall>x. nft_is_approved K t' tok account x = Inr False) \<and>
     (\<forall>tok' other x. (tok', other) \<noteq> (tok, account) \<longrightarrow>
        nft_is_approved K t' tok' other x = nft_is_approved K t tok' other x) \<and>
     total_paid_to (predecessor_account_id e) h' = total_paid_to (predecessor_account_id e) h +
       (if nft_approval K t tok account = None then 0 else bytes_price e (length account + 12))"
proof -
  note ret = nft_store.revoke_returns [OF assms(1,4)]
  have empty: "DAList.lookup A b = None" if "DAList.impl_of (DAList.delete account A) = []" "b \<noteq> account"
    for A :: approvals and b
  proof -
    have "DAList.lookup (DAList.delete account A) b = None"
      using that(1) by (simp add: DAList.lookup.rep_eq)
    then show ?thesis using that(2) by simp
  qed
  have look: "nft_approval K t' x b = (if x = tok \<and> b = account then None else nft_approval K t x b)"
    for x b
    unfolding nft_reapproved_approval [OF ret(4)]
    by (auto simp: nft_approval_def empty split: option.split)
  have owners: "nft_owners K t' = nft_owners K t" "nft_next_id K t' = nft_next_id K t"
    using ret(4) by (simp_all add: nft_reapproved_def)
  obtain m where m: "approvals_by_id t = Some m" using ret(3) by auto
  have refund: "\<exists>x. refund_approved_account_ids_iter e (predecessor_account_id e) [account] h =
      Inr (schedule (Transfer (predecessor_account_id e) x) h) \<and>
      unat x = bytes_price e (length account + 12)"
    using refund_approved_account_ids_iter_eq [of "[account]" e] assms(2,3) by simp
  have "total_paid_to (predecessor_account_id e) h' = total_paid_to (predecessor_account_id e) h +
       (if nft_approval K t tok account = None then 0 else bytes_price e (length account + 12))"
    using assms(4) m refund
    by (cases "lm_get (approvals_ops K) m tok")
      (auto simp: nft_revoke_def result_simps Let_def nft_approval_def nft_approvals_def
        split: if_splits)
  then show ?thesis
    using ret(1,2) owners by (simp add: nft_is_approved_eq look split: option.split)
qed

theorem nft_revoke_withdraws_approval_witness:
  "\<exists>t' h'. nft_revoke list_nft_ops (nft_demo_env ''alice'' 1 []) nft_demo no_effects ''t1'' ''bob'' =
       Inr (t', h') \<and>
     nft_is_approved list_nft_ops t' ''t1'' ''bob'' None = Inr False \<and> total_paid_to ''alice'' h' = 150"
proof -
  have "\<exists>x. refund_approved_account_ids_iter (nft_demo_env ''alice'' 1 []) ''alice'' [''bob''] no_effects =
      Inr (schedule (Transfer ''alice'' x) no_effects)"
    using refund_approved_account_ids_iter_eq [of "[''bob'']" "nft_demo_env ''alice'' 1 []"]
    by (auto simp: bytes_price_def)
  then have "\<exists>t' h'. nft_revoke list_nft_ops (nft_demo_env ''alice'' 1 []) nft_demo no_effects ''t1''
      ''bob'' = Inr (t', h')"
    by (auto simp: nft_revoke_def assert_one_yocto_def expect_token_found_def nft_demo_def
        DAList.lookup_update Let_def)
  then obtain t' h' where res: "nft_revoke list_nft_ops (nft_demo_env ''alice'' 1 []) nft_demo no_effects
      ''t1'' ''bob'' = Inr (t', h')" by blast
  from nft_revoke_withdraws_approval [OF nft_demo_store _ _ this] res show ?thesis
    by (auto simp: nft_approval_def DAList.lookup_update bytes_price_def)
qed

text \<open>Revoking everything.  When \<open>nft_revoke_all\<close> returns, the caller owned the token, nobody
  is approved for it any more, the approvals of every other token are as they were, and the owner
  is paid the price of all the entries that are gone.\<close>

theorem nft_revoke_all_withdraws_approvals:
  assumes "nft_store K"
    and "accounts = (case nft_approvals K t tok of
      None \<Rightarrow> [] | Some A \<Rightarrow> map fst (DAList.impl_of A))"
    and "approval_bytes accounts < 2 ^ 64" and "bytes_price e (approval_bytes accounts) < 2 ^ 128"
    and "nft_revoke_all K e t h tok = Inr (t', h')"
  shows "nft_owners K t tok = Some (predecessor_account_id e) \<and> attached_deposit e = 1 \<and>
     nft_owners K t' = nft_owners K t \<and> nft_next_id K t' = nft_next_id K t \<and>
     (\<forall>a x. nft_is_approved K t' tok a x = Inr False) \<and>
     (\<forall>tok' a x. tok' \<noteq> tok \<longrightarrow> nft_is_approved K t' tok' a x = nft_is_approved K t tok' a x) \<and>
     total_paid_to (predecessor_account_id e) h' =
       total_paid_to (predecessor_account_id e) h + bytes_price e (approval_bytes accounts)"
proof -
  note ret = nft_store.revoke_all_returns [OF assms(1,5)]
  have views: "nft_owners K t' = nft_owners K t" "nft_next_id K t' = nft_next_id K t"
    using ret(4) by (simp_all add: nft_reapproved_def)
  obtain m where m: "approvals_by_id t = Some m" using ret(3) by auto
  have "total_paid_to (predecessor_account_id e) h' =
       total_paid_to (predecessor_account_id e) h + bytes_price e (approval_bytes accounts)"
  proof (cases "lm_get (approvals_ops K) m tok")
    case None
    then show ?thesis using assms(2,5) m
      by (auto simp: nft_revoke_all_def result_simps nft_approvals_def bytes_price_def)
  next
    case (Some A)
    then have accounts: "accounts = map fst (DAList.impl_of A)"
      using m assms(2) by (simp add: nft_approvals_def)
    obtain x where "refund_approved_account_ids e (predecessor_account_id e) A h =
        Inr (schedule (Transfer (predecessor_account_id e) x) h)"
      "unat x = bytes_price e (approval_bytes accounts)"
      using refund_approved_account_ids_iter_eq [OF assms(3,4)]
      unfolding refund_approved_account_ids_def accounts by blast
    with Some m assms(5) show ?thesis by (auto simp: nft_revoke_all_def result_simps)
  qed
  then show ?thesis
    using ret(1,2) views
    by (simp add: nft_is_approved_eq nft_reapproved_approval [OF ret(4)] split: option.split)
qed

theorem nft_revoke_all_withdraws_approvals_witness:
  "\<exists>t' h'. nft_revoke_all list_nft_ops (nft_demo_env ''alice'' 1 []) nft_demo no_effects ''t1'' =
       Inr (t', h') \<and> total_paid_to ''alice'' h' = 150"
proof -
  have "\<exists>x. refund_approved_account_ids_iter (nft_demo_env ''alice'' 1 []) ''alice'' [''bob''] no_effects =
      Inr (schedule (Transfer ''alice'' x) no_effects)"
    using refund_approved_account_ids_iter_eq [of "[''bob'']" "nft_demo_env ''alice'' 1 []"]
    by (auto simp: bytes_price_def)
  then have "\<exists>t' h'. nft_revoke_all list_nft_ops (nft_demo_env ''alice'' 1 []) nft_demo no_effects ''t1'' =
      Inr (t', h')"
    by (auto simp: nft_revoke_all_def assert_one_yocto_def expect_token_found_def nft_demo_def
        refund_approved_account_ids_def DAList.lookup_update)
  then obtain t' h' where res: "nft_revoke_all list_nft_ops (nft_demo_env ''alice'' 1 []) nft_demo
      no_effects ''t1'' = Inr (t', h')" by blast
  from nft_revoke_all_withdraws_approvals [OF nft_demo_store refl _ _ this] res show ?thesis
    by (auto simp: bytes_price_def)
qed

subsection \<open>Enumeration\<close>

text \<open>Paging through all tokens.  Asking for the tokens page by page, with any page size below
  2^32, returns every token of the contract exactly once, each as \<open>nft_token\<close> reports it: the
  pages one after the other are the whole map of owners, in its order.\<close>

theorem nft_tokens_pages_complete:
  assumes "nft_store K" and "xs = tm_iter (owners_ops K) (owner_by_id t)" and "length xs < 2 ^ 32"
    and "0 < n" and "n < 2 ^ 32" and "k = length xs div n + 1"
  shows "\<exists>pages. (\<forall>i < k. nft_tokens K t (Some (of_nat (i * n))) (Some (of_nat n)) = Inr (pages i)) \<and>
     map Some (concat (map pages [0..<k])) = map (\<lambda>(tok, owner). nft_token K t tok) xs \<and>
     distinct (map tok_token_id (concat (map pages [0..<k]))) \<and>
     set (map tok_token_id (concat (map pages [0..<k]))) = dom (nft_owners K t)"
proof -
  have ow: "tree_map (owners_ops K)" using assms(1) by (simp add: nft_store_def)
  let ?f = "\<lambda>(tok, owner). enum_get_token K t owner tok"
  have total: "tm_len (owners_ops K) (owner_by_id t) = of_nat (length xs)"
    using tree_map.len_iter [OF ow] by (simp add: assms(2))
  have "unat (of_nat (length xs) :: u64) = length xs"
    using assms(3) by (intro unat_of_nat_u64) simp
  then have len: "unat (ucast (tm_len (owners_ops K) (owner_by_id t)) :: u128) = length xs"
    by (simp add: total)
  have page: "nft_tokens K t (Some (of_nat (i * n))) (Some (of_nat n)) =
      Inr (map ?f (take n (drop (i * n) xs)))" if "i < k" for i
  proof -
    have "i * n \<le> (length xs div n) * n" using that assms(6) by simp
    also have "\<dots> \<le> length xs" by simp
    finally have le: "i * n \<le> length xs" .
    have start: "unat (of_nat (i * n) :: u128) = i * n"
      using le assms(3) by (simp add: unsigned_of_nat take_bit_nat_eq_self del: of_nat_mult)
    then have "(of_nat (i * n) :: u128) \<le> ucast (tm_len (owners_ops K) (owner_by_id t))"
      using le len by (simp add: word_le_nat_alt del: of_nat_mult)
    then show ?thesis
      using le assms(3) start page_eq [of "of_nat (i * n)" "of_nat n" xs]
      by (simp add: nft_tokens_def page_limit_small [OF assms(4,5)] Let_def assms(2) [symmetric]
          del: of_nat_mult)
  qed
  have all: "concat (map (\<lambda>i. map ?f (take n (drop (i * n) xs))) [0..<k]) = map ?f xs"
  proof -
    have "length xs \<le> k * n"
      using assms(4,6) dividend_less_div_times [of n "length xs"] by simp
    then have "concat (map (\<lambda>i. take n (drop (i * n) xs)) [0..<k]) = xs"
      by (simp add: concat_pages)
    moreover have "concat (map (\<lambda>i. map ?f (take n (drop (i * n) xs))) [0..<k]) =
        map ?f (concat (map (\<lambda>i. take n (drop (i * n) xs)) [0..<k]))"
      by (simp add: map_concat comp_def)
    ultimately show ?thesis by (simp only:)
  qed
  have owner: "nft_owners K t tok = Some owner" if "(tok, owner) \<in> set xs" for tok owner
    using that tree_map.iter_mem [OF ow] by (simp add: assms(2) nft_owners_def)
  have "map Some (map ?f xs) = map (\<lambda>(tok, owner). nft_token K t tok) xs"
    using owner by (auto simp: enum_get_token_eq)
  moreover have ids: "map tok_token_id (map ?f xs) = map fst xs"
    by (auto simp: enum_get_token_def)
  moreover have "distinct (map fst xs)" "set (map fst xs) = dom (nft_owners K t)"
    using tree_map.iter_distinct [OF ow] tree_map.iter_keys [OF ow]
    by (simp_all add: assms(2) nft_owners_def)
  ultimately show ?thesis
    using page all by (intro exI [of _ "\<lambda>i. map ?f (take n (drop (i * n) xs))"]) metis
qed

theorem nft_tokens_pages_complete_witness:
  "\<exists>pages. (\<forall>i < 1. nft_tokens list_nft_ops nft_demo (Some (of_nat (i * 2))) (Some (of_nat 2)) =
       Inr (pages i)) \<and>
     set (map tok_token_id (concat (map pages [0..<1]))) = {''t1''}"
proof -
  have "tm_iter list_map (owner_by_id nft_demo) = [(''t1'', ''alice'')]" by (simp add: nft_demo_def)
  then show ?thesis
    using nft_tokens_pages_complete [OF nft_demo_store refl, of nft_demo 2 1] by auto
qed

text \<open>When \<open>nft_tokens\<close> panics.  It returns exactly when the start is at most the number of
  tokens and the limit, if one is given, is not zero in its low 32 bits; so a limit of 2^32 is
  refused as zero, and a limit of 2^32 + 1 returns one token at most.\<close>

theorem nft_tokens_limit_is_truncated:
  "(returns (nft_tokens K t start limit) \<longleftrightarrow>
      unwrap_or 0 start \<le> ucast (tm_len (owners_ops K) (owner_by_id t)) \<and>
      (case limit of None \<Rightarrow> True | Some v \<Rightarrow> unat v mod 2 ^ 32 \<noteq> 0)) \<and>
   nft_tokens K t None (Some 4294967296) = Inl (Msg LimitOfZero) \<and>
   nft_tokens K t None (Some 4294967297) = nft_tokens K t None (Some 1)"
proof -
  have "ucast v = (0 :: usize) \<longleftrightarrow> unat v mod 2 ^ 32 = 0" for v :: u64
    by (simp add: word_unat_eq_iff unsigned_ucast_eq take_bit_eq_mod)
  then have "returns (page_limit limit) \<longleftrightarrow>
      (case limit of None \<Rightarrow> True | Some v \<Rightarrow> unat v mod 2 ^ 32 \<noteq> 0)"
    by (cases limit) (simp_all add: page_limit_def Let_def returns_rbind require_eq_Inr)
  moreover have "returns (nft_tokens K t start limit) \<longleftrightarrow>
      unwrap_or 0 start \<le> ucast (tm_len (owners_ops K) (owner_by_id t)) \<and> returns (page_limit limit)"
    unfolding returns_def nft_tokens_def Let_def rbind_eq_Inr require_eq_Inr by auto
  moreover have "page_limit (Some 4294967296) = Inl (Msg LimitOfZero)"
    "page_limit (Some 4294967297) = page_limit (Some 1)"
    by (simp_all add: page_limit_def)
  ultimately show ?thesis by (simp add: nft_tokens_def)
qed

text \<open>The tokens of an account.  With the enumeration extension, \<open>nft_tokens_for_owner\<close> without
  bounds returns exactly the tokens the account owns, each once and as \<open>nft_token\<close> reports it, and
  \<open>nft_supply_for_owner\<close> is their number; an account without tokens gets an empty list and zero.\<close>

theorem nft_tokens_for_owner_exact:
  assumes "nft_store K" and "nft_index_ok K t" and "tokens_per_owner t = Some m"
    and "finite {tok. nft_owners K t tok = Some a}" and "card {tok. nft_owners K t tok = Some a} < 2 ^ 32"
  shows "\<exists>toks. nft_tokens_for_owner K t a None None = Inr toks \<and>
     distinct (map tok_token_id toks) \<and>
     set (map tok_token_id toks) = {tok. nft_owners K t tok = Some a} \<and>
     (\<forall>x \<in> set toks. nft_token K t (tok_token_id x) = Some x) \<and>
     nft_supply_for_owner K t a = Inr (of_nat (length toks))"
proof -
  have ts: "unordered_set (token_set_ops K)" using assms(1) by (simp add: nft_store_def)
  have held: "held_sets K m a = index_of (nft_owners K t) a"
    using assms(2,3) by (simp add: nft_index_ok_def)
  show ?thesis
  proof (cases "lm_get (per_owner_ops K) m a")
    case None
    then have "index_of (nft_owners K t) a = None" using held by (simp add: held_sets_def)
    then show ?thesis
      using None assms(3)
      by (auto simp: index_of_eq_None nft_tokens_for_owner_def nft_supply_for_owner_def)
  next
    case (Some S)
    let ?xs = "us_iter (token_set_ops K) S"
    let ?toks = "map (\<lambda>tok. enum_get_token K t a tok) ?xs"
    have xs: "set ?xs = {tok. nft_owners K t tok = Some a}" "?xs \<noteq> []"
      using Some held by (auto simp: held_sets_def index_of_def split: if_splits)
    have dist: "distinct ?xs" using unordered_set.us_iter_distinct [OF ts] .
    then have len: "length ?xs < 2 ^ 32" using assms(5) xs(1) distinct_card [OF dist] by simp
    have size: "us_len (token_set_ops K) S = of_nat (length ?xs)"
      using unordered_set.us_len_iter [OF ts] .
    have u64: "unat (of_nat (length ?xs) :: u64) = length ?xs"
      using len by (intro unat_of_nat_u64) simp
    then have u128: "ucast (of_nat (length ?xs) :: u64) = (of_nat (length ?xs) :: u128)"
      using len by (simp add: word_unat_eq_iff unsigned_of_nat take_bit_nat_eq_self)
    have "\<not> us_is_empty (token_set_ops K) S"
      using xs(2) unordered_set.us_is_empty_iff [OF ts] by simp
    moreover have "(0 :: u128) < ucast (us_len (token_set_ops K) S)"
      using u64 xs(2) by (simp add: size word_less_nat_alt)
    moreover have "page_limit None = Inr (- 1)" by (simp add: page_limit_def)
    moreover have "page 0 (- 1) ?xs = ?xs"
      using len by (simp add: page_def unsigned_minus_1_eq_mask mask_eq_exp_minus_1)
    ultimately have "nft_tokens_for_owner K t a None None = Inr ?toks"
      using Some assms(3) by (simp add: nft_tokens_for_owner_def Let_def)
    moreover have "map tok_token_id ?toks = ?xs" by (simp add: enum_get_token_def comp_def)
    moreover have "\<forall>x \<in> set ?toks. nft_token K t (tok_token_id x) = Some x"
      using xs(1) by (auto simp: enum_get_token_eq enum_get_token_def [of K t a, THEN arg_cong [of _ _ tok_token_id]])
    moreover have "nft_supply_for_owner K t a = Inr (of_nat (length ?toks))"
      using Some assms(3) by (simp add: nft_supply_for_owner_def size u128)
    ultimately show ?thesis using dist xs(1) by metis
  qed
qed

theorem nft_tokens_for_owner_exact_witness:
  "\<exists>toks. nft_tokens_for_owner list_nft_ops nft_demo ''alice'' None None = Inr toks \<and>
     set (map tok_token_id toks) = {''t1''}"
proof -
  obtain m where m: "tokens_per_owner nft_demo = Some m" by (simp add: nft_demo_def)
  have alice: "{tok. nft_owners list_nft_ops nft_demo tok = Some ''alice''} = {''t1''}" by auto
  from nft_tokens_for_owner_exact [OF nft_demo_store nft_demo_index_ok m, of "''alice''"]
  show ?thesis unfolding alice by auto
qed

end
