(* ===== verification/NftRefunding.thy ===== *)
theory NftRefunding
  imports NftProperties NativeTokens
begin

section \<open>The storage deposits of approvals, paid back twice\<close>

text \<open>
  A token that comes back from a failed transfer call keeps the approvals its receiver had set,
  although their storage deposits have just been refunded (\<open>nft_resolve_transfer\<close> in
  \<open>non_fungible_token/core/core_impl.rs\<close>).  The owner can then revoke them and is refunded for them
  again.  Here the four calls are put together, with the native tokens they bring in and pay out,
  and repeated.
\<close>

subsection \<open>One round\<close>

text \<open>
  The owner of \<open>tok\<close> sends it to \<open>partner\<close> with a transfer call; \<open>partner\<close>, which is called before
  the settlement, approves \<open>friend\<close> with the deposit \<open>x\<close> and answers \<open>yes\<close>, so the settlement that
  the transfer call ordered returns the token; and the owner revokes all approvals.  The result is
  the state, what the calls have brought in and what they have paid out.
\<close>

definition refund_round ::
    "('o, 'md, 'te, 'us, 'ap, 'nx) nft_ops \<Rightarrow> (bytes \<Rightarrow> bool option) \<Rightarrow> bytes \<Rightarrow> env \<Rightarrow> AccountId \<Rightarrow>
     AccountId \<Rightarrow> AccountId \<Rightarrow> TokenId \<Rightarrow> Balance \<Rightarrow> ('o, 'md, 'te, 'ap, 'nx) NonFungibleToken \<Rightarrow>
     (('o, 'md, 'te, 'ap, 'nx) NonFungibleToken \<times> nat \<times> nat) option" where
  "refund_round K from_slice yes e owner partner friend tok x t =
     (case nft_transfer_call K (e\<lparr>predecessor_account_id := owner, attached_deposit := 1\<rparr>) t no_effects
             partner tok None None '''' of
        Inr (t1, h1) \<Rightarrow>
          (case promises h1 of
             [Then (FunctionCall a (NftOnTransfer b c tok1 msg) d g)
                   (FunctionCall self (NftResolveTransfer previous receiver tok2 A) d' g')] \<Rightarrow>
               (case nft_approve K (e\<lparr>predecessor_account_id := a, attached_deposit := x\<rparr>) t1 no_effects
                       tok1 friend None of
                  Inr (t2, h2) \<Rightarrow>
                    (case nft_resolve_transfer K from_slice
                            (e\<lparr>predecessor_account_id := self, attached_deposit := d',
                               promise_results := [Successful yes]\<rparr>)
                            t2 no_effects previous receiver tok2 A of
                       Inr (t3, h3, kept) \<Rightarrow>
                         (case nft_revoke_all K
                                 (e\<lparr>predecessor_account_id := owner, attached_deposit := 1\<rparr>)
                                 t3 no_effects tok of
                            Inr (t4, h4) \<Rightarrow>
                              Some (t4, 1 + unat x + unat d' + 1,
                                total_outflow h1 + total_outflow h2 + total_outflow h3 +
                                total_outflow h4)
                          | Inl p \<Rightarrow> None)
                     | Inl p \<Rightarrow> None)
                | Inl p \<Rightarrow> None)
           | _ \<Rightarrow> None)
      | Inl p \<Rightarrow> None)"

fun refund_rounds ::
    "nat \<Rightarrow> ('o, 'md, 'te, 'us, 'ap, 'nx) nft_ops \<Rightarrow> (bytes \<Rightarrow> bool option) \<Rightarrow> bytes \<Rightarrow> env \<Rightarrow> AccountId \<Rightarrow>
     AccountId \<Rightarrow> AccountId \<Rightarrow> TokenId \<Rightarrow> Balance \<Rightarrow> ('o, 'md, 'te, 'ap, 'nx) NonFungibleToken \<Rightarrow>
     (('o, 'md, 'te, 'ap, 'nx) NonFungibleToken \<times> nat \<times> nat) option" where
  "refund_rounds 0 K from_slice yes e owner partner friend tok x t = Some (t, 0, 0)"
| "refund_rounds (Suc n) K from_slice yes e owner partner friend tok x t =
     (case refund_round K from_slice yes e owner partner friend tok x t of
        Some (t1, i, p) \<Rightarrow>
          (case refund_rounds n K from_slice yes e owner partner friend tok x t1 of
             Some (t2, i', p') \<Rightarrow> Some (t2, i + i', p + p')
           | None \<Rightarrow> None)
      | None \<Rightarrow> None)"

subsection \<open>The four calls\<close>

text \<open>The token is \<open>owner\<close>'s, nobody is approved for it, and the approval extension is on.\<close>

definition unapproved ::
    "('o, 'md, 'te, 'us, 'ap, 'nx) nft_ops \<Rightarrow> ('o, 'md, 'te, 'ap, 'nx) NonFungibleToken \<Rightarrow>
     TokenId \<Rightarrow> AccountId \<Rightarrow> bool" where
  "unapproved K t tok owner \<longleftrightarrow>
     nft_index_ok K t \<and> nft_owners K t tok = Some owner \<and> nft_approvals K t tok = None \<and>
     approvals_by_id t \<noteq> None \<and> next_approval_id_by_id t \<noteq> None"

context nft_store
begin

lemma refund_one_approval:
  assumes "length friend + 12 < 2 ^ 64" and "unat x = bytes_price e (length friend + 12)"
  shows "refund_approved_account_ids e a (DAList.update friend i DAList.empty) h =
     Inr (schedule (Transfer a x) h)"
proof -
  have "bytes_price e (approval_bytes [friend]) < 2 ^ 128"
    using assms(2) u128_less_pow [of x] by simp
  with refund_approved_account_ids_iter_eq [of "[friend]" e a h] assms
  show ?thesis by (auto simp: refund_approved_account_ids_def DAList.update.rep_eq word_unat_eq_iff)
qed

lemma approve_first:
  assumes "unapproved K t tok (predecessor_account_id e)" and "attached_deposit e = x" and "1 \<le> x"
    and "length friend + 12 < 2 ^ 64" and "unat x = bytes_price e (length friend + 12)"
    and "unat (nft_next_id K t tok) + 1 < 2 ^ 64"
  shows "\<exists>t'. nft_approve K e t no_effects tok friend None = Inr (t', no_effects)"
proof -
  obtain m n where m: "approvals_by_id t = Some m" and n: "next_approval_id_by_id t = Some n"
    using assms(1) by (auto simp: unapproved_def)
  have none: "lm_get (approvals_ops K) m tok = None"
    using assms(1) m by (simp add: unapproved_def nft_approvals_def)
  have price: "bytes_price e (unat (of_nat (length friend + 12) :: u64)) = unat x"
    using assms(4,5) by (simp only: unat_of_nat_u64)
  then have "refund_deposit e (of_nat (length friend + 12)) no_effects = Inr no_effects"
    using assms(2) u128_less_pow [of x]
    by (simp add: refund_deposit_def refund_deposit_to_account_eq)
  moreover have "add_op (overflow_checks e) (unwrap_or 1 (lm_get (next_id_ops K) n tok)) 1 =
      (Inr (unwrap_or 1 (lm_get (next_id_ops K) n tok) + 1) :: NftError panic + u64)"
    using assms(6) n by (intro add_op_exact) (simp add: nft_next_id_def)
  ultimately show ?thesis
    using assms(1-3) m n none bytes_for_approved_account_id_eq [OF assms(4), of e]
    by (simp add: nft_approve_def assert_at_least_one_yocto_def expect_token_found_def
        expect_approval_def unapproved_def nft_owners_def Let_def del: of_nat_add)
qed

lemma resolve_refunds_one:
  fixes x :: Balance
  assumes "nft_index_ok K t" and "nft_owners K t tok = Some receiver"
    and "nft_approvals K t tok = Some (DAList.update friend i DAList.empty)"
    and "promise_results e = [Successful yes]" and "from_slice yes = Some True"
    and "length friend + 12 < 2 ^ 64" and "unat x = bytes_price e (length friend + 12)"
  shows "\<exists>t' h'. nft_resolve_transfer K from_slice e t no_effects previous receiver tok None =
       Inr (t', h', False) \<and> total_outflow h' = unat x"
proof -
  obtain m where m: "approvals_by_id t = Some m"
    and A: "lm_get (approvals_ops K) m tok = Some (DAList.update friend i DAList.empty)"
    using assms(3) by (auto simp: nft_approvals_def split: option.splits)
  obtain t1 where t1: "nft_internal_transfer_unguarded K t tok receiver previous = Inr t1"
    and on: "approvals_by_id t1 = Some m"
    using unguarded_spec [OF assms(1,2), of previous] m by metis
  have r: "env_promise_result e 0 = (Inr (Successful yes) :: NftError panic + PromiseResult)"
    and "nft_must_revert from_slice (Successful yes) = Inr True"
    using assms(4,5) by (simp_all add: env_promise_result_def nft_must_revert_def)
  from resolve_transfer_eq [OF this] show ?thesis
    using assms(2) t1 on A refund_one_approval [OF assms(6,7)]
    by (simp add: nft_restore_approvals_def nft_emit_transfer_def nft_transfer_emit_def
        nft_transfer_emit_many_def near_event_emit_def)
qed

lemma revoke_all_refunds_one:
  fixes x :: Balance
  assumes "nft_owners K t tok = Some (predecessor_account_id e)"
    and "nft_approvals K t tok = Some (DAList.update friend i DAList.empty)"
    and "attached_deposit e = 1"
    and "length friend + 12 < 2 ^ 64" and "unat x = bytes_price e (length friend + 12)"
  shows "\<exists>t' h'. nft_revoke_all K e t no_effects tok = Inr (t', h') \<and> total_outflow h' = unat x"
proof -
  obtain m where "approvals_by_id t = Some m"
    and "lm_get (approvals_ops K) m tok = Some (DAList.update friend i DAList.empty)"
    using assms(2) by (auto simp: nft_approvals_def split: option.splits)
  then show ?thesis
    using assms(1,3) refund_one_approval [OF assms(4,5)]
    by (simp add: nft_revoke_all_def assert_one_yocto_def expect_token_found_def nft_owners_def)
qed

text \<open>The transfer call, as far as the round looks at it.\<close>

lemma send_unapproved:
  assumes "unapproved K t tok (predecessor_account_id e)" and "attached_deposit e = 1"
    and "predecessor_account_id e \<noteq> partner" and "GAS_FOR_NFT_TRANSFER_CALL < prepaid_gas e"
  shows "\<exists>t1 h1 g. nft_transfer_call K e t no_effects partner tok None None '''' = Inr (t1, h1) \<and>
     unapproved K t1 tok partner \<and> nft_owners K t1 = (nft_owners K t)(tok \<mapsto> partner) \<and>
     nft_approvals K t1 = nft_approvals K t \<and> nft_next_id K t1 = nft_next_id K t \<and>
     promises h1 =
       [Then (FunctionCall partner
                (NftOnTransfer (predecessor_account_id e) (predecessor_account_id e) tok '''') 0 g)
             (FunctionCall (current_account_id e)
                (NftResolveTransfer (predecessor_account_id e) partner tok None) 0 5000000000000)]"
proof -
  let ?a = "predecessor_account_id e"
  have auth: "nft_index_ok K t" "nft_owners K t tok = Some ?a" "nft_authorized K t ?a tok None"
    using assms(1) by (simp_all add: unapproved_def nft_authorized_def)
  from internal_transfer_moves [OF auth assms(3)] obtain t1 where
    tr: "nft_internal_transfer K t no_effects ?a partner tok None None =
      Inr (t1, nft_transfer_emit (NftTransfer ?a partner [tok] None None) no_effects, ?a,
        nft_approvals K t tok)"
    and moved: "nft_moved K t tok partner None t1" "nft_index_ok K t1" by metis
  then have "nft_transfer K e t no_effects partner tok None None =
      Inr (t1, nft_transfer_emit (NftTransfer ?a partner [tok] None None) no_effects)"
    using assms(2) by (simp add: nft_transfer_def assert_one_yocto_def)
  with auth(2) assms(1,4) nft_transfer_call_schedules_settlement [OF nft_store_axioms auth(1),
      of e no_effects partner tok None None "''''"] moved
  show ?thesis
    by (auto simp: unapproved_def nft_moved_def nft_same_shape_def nft_transfer_emit_def
        nft_transfer_emit_many_def near_event_emit_def fun_eq_iff)
qed

text \<open>What the three calls after the first leave behind.\<close>

lemma approve_first_views:
  assumes "nft_approve K e t h tok friend None = Inr (t', h')"
    and "unapproved K t tok (predecessor_account_id e)" and "unat (nft_next_id K t tok) + 1 < 2 ^ 64"
  shows "nft_index_ok K t'" and "nft_owners K t' = nft_owners K t" and "nft_same_shape t t'"
    and "nft_approvals K t' = (nft_approvals K t)
      (tok \<mapsto> DAList.update friend (nft_next_id K t tok) DAList.empty)"
    and "unat (nft_next_id K t' tok) = unat (nft_next_id K t tok) + 1"
proof -
  obtain n where "add_op (overflow_checks e) (nft_next_id K t tok) 1 = (Inr n :: NftError panic + u64)"
    "nft_next_id K t' = (nft_next_id K t)(tok := n)" "nft_owners K t' = nft_owners K t"
    "nft_approvals K t' = (nft_approvals K t)(tok \<mapsto>
       DAList.update friend (nft_next_id K t tok) (unwrap_or DAList.empty (nft_approvals K t tok)))"
    "nft_index_ok K t' = nft_index_ok K t" "nft_same_shape t t'"
    using approve_returns [OF assms(1)] by metis
  moreover have "(add_op (overflow_checks e) (nft_next_id K t tok) 1 :: NftError panic + u64) =
      Inr (nft_next_id K t tok + 1)" and "unat (nft_next_id K t tok + 1) = unat (nft_next_id K t tok) + 1"
    using assms(3) by (simp_all add: add_op_exact unat_add_u64)
  ultimately show "nft_index_ok K t'" "nft_owners K t' = nft_owners K t" "nft_same_shape t t'"
    "nft_approvals K t' = (nft_approvals K t)
      (tok \<mapsto> DAList.update friend (nft_next_id K t tok) DAList.empty)"
    "unat (nft_next_id K t' tok) = unat (nft_next_id K t tok) + 1"
    using assms(2) by (simp_all add: unapproved_def)
qed

lemma refund_round_pays:
  assumes start: "unapproved K t tok owner" and "owner \<noteq> partner"
    and gas: "GAS_FOR_NFT_TRANSFER_CALL < prepaid_gas e" and yes: "from_slice yes = Some True"
    and len: "length friend + 12 < 2 ^ 64" and x: "unat x = bytes_price e (length friend + 12)" "1 \<le> x"
    and room: "unat (nft_next_id K t tok) + 1 < 2 ^ 64"
  shows "\<exists>t'. refund_round K from_slice yes e owner partner friend tok x t =
       Some (t', unat x + 2, 2 * unat x) \<and>
     unapproved K t' tok owner \<and> nft_owners K t' = nft_owners K t \<and>
     nft_approvals K t' = nft_approvals K t \<and>
     unat (nft_next_id K t' tok) = unat (nft_next_id K t tok) + 1"
proof -
  let ?e1 = "e\<lparr>predecessor_account_id := owner, attached_deposit := 1\<rparr>"
  let ?e2 = "e\<lparr>predecessor_account_id := partner, attached_deposit := x\<rparr>"
  let ?e3 = "e\<lparr>predecessor_account_id := current_account_id e, attached_deposit := 0,
      promise_results := [Successful yes]\<rparr>"
  have price: "unat x = bytes_price e' (length friend + 12)" if "e' \<in> {?e1, ?e2, ?e3}" for e'
    using that x(1) by (auto simp: bytes_price_def)
  obtain t1 h1 g where sent: "nft_transfer_call K ?e1 t no_effects partner tok None None '''' = Inr (t1, h1)"
      "unapproved K t1 tok partner" "nft_owners K t1 = (nft_owners K t)(tok \<mapsto> partner)"
      "nft_approvals K t1 = nft_approvals K t" "nft_next_id K t1 = nft_next_id K t"
    and h1: "promises h1 = [Then (FunctionCall partner (NftOnTransfer owner owner tok '''') 0 g)
      (FunctionCall (current_account_id e) (NftResolveTransfer owner partner tok None) 0 5000000000000)]"
    using send_unapproved [of t tok ?e1 partner] assms(1-3) by auto
  let ?A = "DAList.update friend (nft_next_id K t1 tok) DAList.empty"
  have room1: "unat (nft_next_id K t1 tok) + 1 < 2 ^ 64" using room sent(5) by simp
  obtain t2 where t2: "nft_approve K ?e2 t1 no_effects tok friend None = Inr (t2, no_effects)"
    using approve_first [of t1 tok ?e2 x friend] sent(2) x(2) len price room1 by auto
  have "unapproved K t1 tok (predecessor_account_id ?e2)" using sent(2) by simp
  note views2 = approve_first_views [OF t2 this room1]
  have own2: "nft_owners K t2 tok = Some partner" and appr2: "nft_approvals K t2 tok = Some ?A"
    using views2 sent(3) by simp_all
  obtain t3 h3 where t3: "nft_resolve_transfer K from_slice ?e3 t2 no_effects owner partner tok None =
      Inr (t3, h3, False)" and h3: "total_outflow h3 = unat x"
    using resolve_refunds_one [OF views2(1) own2 appr2, of ?e3 yes from_slice x owner] yes len price
    by auto
  have index3: "nft_index_ok K t3" and moved3: "nft_moved K t2 tok owner (Some ?A) t3"
    using resolve_transfer_returns [OF t3 views2(1)] appr2
    by (auto simp: nft_resolved_approvals_def nft_approvals_def split: if_splits option.splits)
  obtain t4 h4 where t4: "nft_revoke_all K ?e1 t3 no_effects tok = Inr (t4, h4)"
    and h4: "total_outflow h4 = unat x"
    using revoke_all_refunds_one [of t3 tok ?e1 friend "nft_next_id K t1 tok" x] moved3 len price
    by (auto simp: nft_moved_def)
  have re4: "nft_reapproved K t3 tok None t4" by (rule revoke_all_returns(4) [OF t4])
  have "total_outflow h1 = 0" by (simp add: total_outflow_def h1)
  then have "refund_round K from_slice yes e owner partner friend tok x t =
      Some (t4, unat x + 2, 2 * unat x)"
    using sent(1) h1 t2 t3 t4 h3 h4 by (simp add: refund_round_def)
  moreover have "nft_owners K t4 = nft_owners K t" "nft_approvals K t4 = nft_approvals K t"
    "unat (nft_next_id K t4 tok) = unat (nft_next_id K t tok) + 1"
    using re4 moved3 views2 sent(3-5) start
    by (simp_all add: nft_reapproved_def nft_moved_def unapproved_def fun_eq_iff)
  moreover have "unapproved K t4 tok owner"
    using re4 moved3 views2(2-4) sent(2-4) index3 start
    by (simp add: nft_reapproved_def nft_moved_def nft_same_shape_def unapproved_def)
  ultimately show ?thesis by blast
qed

lemma refund_rounds_pay:
  assumes "unapproved K t tok owner" and "owner \<noteq> partner"
    and "GAS_FOR_NFT_TRANSFER_CALL < prepaid_gas e" and "from_slice yes = Some True"
    and "length friend + 12 < 2 ^ 64" and "unat x = bytes_price e (length friend + 12)" and "1 \<le> x"
    and "unat (nft_next_id K t tok) + n < 2 ^ 64"
  shows "\<exists>t'. refund_rounds n K from_slice yes e owner partner friend tok x t =
       Some (t', n * (unat x + 2), n * (2 * unat x)) \<and>
     unapproved K t' tok owner \<and> nft_owners K t' = nft_owners K t \<and>
     nft_approvals K t' = nft_approvals K t"
  using assms(1,8)
proof (induction n arbitrary: t)
  case (Suc n)
  then obtain t1 where t1: "refund_round K from_slice yes e owner partner friend tok x t =
      Some (t1, unat x + 2, 2 * unat x)" "unapproved K t1 tok owner"
    "nft_owners K t1 = nft_owners K t" "nft_approvals K t1 = nft_approvals K t"
    "unat (nft_next_id K t1 tok) = unat (nft_next_id K t tok) + 1"
    using refund_round_pays [where from_slice = from_slice and yes = yes,
        OF Suc.prems(1) assms(2-7)] by auto
  with Suc.IH [OF t1(2)] Suc.prems(2) show ?case by auto
qed simp

end

subsection \<open>Property\<close>

text \<open>C10: the storage deposits of a non-fungible token can be drained.  Let an account own a token
  that nobody is approved for, in a contract with the approval extension, and let a partner contract
  cooperate.  They can repeat the round above any number of times, as long as the counter of
  approval ids lasts: each round brings in two yoctoNEAR and the storage price \<open>x\<close> of one approval,
  pays out twice that price, and leaves owners and approvals as they were.  So \<open>n\<close> rounds take
  \<open>n * (x - 2)\<close> yoctoNEAR out of what others have deposited.\<close>

theorem approval_deposits_can_be_drained:
  assumes "nft_store K" and "nft_index_ok K t" and "nft_owners K t tok = Some owner"
    and "nft_approvals K t tok = None"
    and "approvals_by_id t \<noteq> None" and "next_approval_id_by_id t \<noteq> None"
    and "owner \<noteq> partner" and "GAS_FOR_NFT_TRANSFER_CALL < prepaid_gas e"
    and "from_slice yes = Some True"
    and "length friend + 12 < 2 ^ 64" and "unat x = bytes_price e (length friend + 12)" and "2 \<le> x"
    and "unat (nft_next_id K t tok) + n < 2 ^ 64"
  shows "\<exists>t' received paid.
     refund_rounds n K from_slice yes e owner partner friend tok x t = Some (t', received, paid) \<and>
     paid = received + n * (unat x - 2) \<and>
     nft_owners K t' = nft_owners K t \<and> nft_approvals K t' = nft_approvals K t \<and> nft_index_ok K t'"
proof -
  have "unapproved K t tok owner" using assms(2-6) by (simp add: unapproved_def)
  moreover have "1 \<le> x" and two: "2 \<le> unat x" using assms(12) by (simp_all add: word_le_nat_alt)
  ultimately obtain t' where run: "refund_rounds n K from_slice yes e owner partner friend tok x t =
       Some (t', n * (unat x + 2), n * (2 * unat x))" "unapproved K t' tok owner"
     "nft_owners K t' = nft_owners K t" "nft_approvals K t' = nft_approvals K t"
    using nft_store.refund_rounds_pay [where from_slice = from_slice and yes = yes,
        OF assms(1) _ assms(7-11) _ assms(13)] by blast
  have "2 * unat x = unat x + 2 + (unat x - 2)" using two by simp
  then have "n * (2 * unat x) = n * (unat x + 2) + n * (unat x - 2)" by (metis distrib_left)
  with run show ?thesis by (auto simp: unapproved_def)
qed

text \<open>With three rounds Alice and a partner take 444 yoctoNEAR, at 150 for an approval of Bob.\<close>

definition nft_demo_quiet :: list_nft where
  "nft_demo_quiet = nft_demo\<lparr>approvals_by_id := Some DAList.empty\<rparr>"

theorem approval_deposits_can_be_drained_witness:
  "\<exists>t' received paid.
     refund_rounds 3 list_nft_ops demo_bool_from_slice [1] (nft_demo_env ''nft'' 0 []) ''alice'' ''dex''
       ''bob'' ''t1'' 150 nft_demo_quiet = Some (t', received, paid) \<and> paid = received + 444"
proof -
  have "nft_index_ok list_nft_ops nft_demo_quiet"
    using nft_demo_index_ok by (simp add: nft_index_ok_def nft_demo_quiet_def split: option.splits)
  from approval_deposits_can_be_drained [OF nft_demo_store this, of "''t1''" "''alice''" "''dex''"
      "nft_demo_env ''nft'' 0 []" demo_bool_from_slice "[1]" "''bob''" 150 3]
  show ?thesis
    by (simp add: nft_demo_quiet_def nft_demo_def nft_owners_def nft_approvals_def nft_next_id_def
        DAList.lookup_update bytes_price_def GAS_FOR_NFT_TRANSFER_CALL_def
        NFT_GAS_FOR_RESOLVE_TRANSFER_def) blast
qed

end
