(* ===== verification/EventsRoundTrip.thy ===== *)
theory EventsRoundTrip
  imports Events
begin

section \<open>Reading an event back from the log\<close>

text \<open>
  A reader of the six token events, as an indexer would do it: the standard, version and event
  name select the variant, the fields are looked up by name, and amounts are read as decimal
  numbers.  Reading what the contract logs gives the event back, so the JSON layout loses nothing.
\<close>

subsection \<open>The reader\<close>

fun undecimal_digits :: "nat \<Rightarrow> string \<Rightarrow> nat" where
  "undecimal_digits acc [] = acc"
| "undecimal_digits acc (c # cs) = undecimal_digits (acc * 10 + (of_char c - 48)) cs"

definition undecimal :: "string \<Rightarrow> nat" where
  "undecimal s = undecimal_digits 0 s"

fun read_string :: "json \<Rightarrow> string option" where
  "read_string (JString s) = Some s"
| "read_string _ = None"

fun read_list :: "(json \<Rightarrow> 'a option) \<Rightarrow> json \<Rightarrow> 'a list option" where
  "read_list f (JArray xs) = those (map f xs)"
| "read_list f _ = None"

definition read_u128 :: "json \<Rightarrow> u128 option" where
  "read_u128 j = map_option (\<lambda>s. of_nat (undecimal s)) (read_string j)"

definition field :: "(json \<Rightarrow> 'a option) \<Rightarrow> (string \<times> json) list \<Rightarrow> string \<Rightarrow> 'a option" where
  "field f xs name = Option.bind (map_of xs name) f"

definition optional :: "(string \<times> json) list \<Rightarrow> string \<Rightarrow> string option option" where
  "optional xs name =
     (case map_of xs name of None \<Rightarrow> Some None | Some j \<Rightarrow> map_option Some (read_string j))"

definition read_ids :: "json \<Rightarrow> TokenId list option" where
  "read_ids = read_list read_string"

fun read_ft_owned ::
    "(AccountId \<Rightarrow> u128 \<Rightarrow> string option \<Rightarrow> 'a) \<Rightarrow> json \<Rightarrow> 'a option" where
  "read_ft_owned k (JObject xs) =
     Option.bind (field read_string xs ''owner_id'') (\<lambda>o1.
     Option.bind (field read_u128 xs ''amount'') (\<lambda>a.
     Option.bind (optional xs ''memo'') (\<lambda>m. Some (k o1 a m))))"
| "read_ft_owned k _ = None"

fun read_ft_transfer :: "json \<Rightarrow> FtTransfer option" where
  "read_ft_transfer (JObject xs) =
     Option.bind (field read_string xs ''old_owner_id'') (\<lambda>o1.
     Option.bind (field read_string xs ''new_owner_id'') (\<lambda>o2.
     Option.bind (field read_u128 xs ''amount'') (\<lambda>a.
     Option.bind (optional xs ''memo'') (\<lambda>m. Some (FtTransfer o1 o2 a m)))))"
| "read_ft_transfer _ = None"

fun read_nft_mint :: "json \<Rightarrow> NftMint option" where
  "read_nft_mint (JObject xs) =
     Option.bind (field read_string xs ''owner_id'') (\<lambda>o1.
     Option.bind (field read_ids xs ''token_ids'') (\<lambda>ids.
     Option.bind (optional xs ''memo'') (\<lambda>m. Some (NftMint o1 ids m))))"
| "read_nft_mint _ = None"

fun read_nft_transfer :: "json \<Rightarrow> NftTransfer option" where
  "read_nft_transfer (JObject xs) =
     Option.bind (field read_string xs ''old_owner_id'') (\<lambda>o1.
     Option.bind (field read_string xs ''new_owner_id'') (\<lambda>o2.
     Option.bind (field read_ids xs ''token_ids'') (\<lambda>ids.
     Option.bind (optional xs ''authorized_id'') (\<lambda>auth.
     Option.bind (optional xs ''memo'') (\<lambda>m. Some (NftTransfer o1 o2 ids auth m))))))"
| "read_nft_transfer _ = None"

fun read_nft_burn :: "json \<Rightarrow> NftBurn option" where
  "read_nft_burn (JObject xs) =
     Option.bind (field read_string xs ''owner_id'') (\<lambda>o1.
     Option.bind (field read_ids xs ''token_ids'') (\<lambda>ids.
     Option.bind (optional xs ''authorized_id'') (\<lambda>auth.
     Option.bind (optional xs ''memo'') (\<lambda>m. Some (NftBurn o1 ids auth m)))))"
| "read_nft_burn _ = None"

definition read_141 :: "(string \<times> json) list \<Rightarrow> string \<Rightarrow> Nep141EventKind option" where
  "read_141 xs event =
     (if event = ''ft_mint'' then
        map_option FtMintEvent (field (read_list (read_ft_owned FtMint)) xs ''data'')
      else if event = ''ft_transfer'' then
        map_option FtTransferEvent (field (read_list read_ft_transfer) xs ''data'')
      else if event = ''ft_burn'' then
        map_option FtBurnEvent (field (read_list (read_ft_owned FtBurn)) xs ''data'')
      else None)"

definition read_171 :: "(string \<times> json) list \<Rightarrow> string \<Rightarrow> Nep171EventKind option" where
  "read_171 xs event =
     (if event = ''nft_mint'' then
        map_option NftMintEvent (field (read_list read_nft_mint) xs ''data'')
      else if event = ''nft_transfer'' then
        map_option NftTransferEvent (field (read_list read_nft_transfer) xs ''data'')
      else if event = ''nft_burn'' then
        map_option NftBurnEvent (field (read_list read_nft_burn) xs ''data'')
      else None)"

fun read_event :: "json \<Rightarrow> NearEvent option" where
  "read_event (JObject xs) =
     Option.bind (field read_string xs ''standard'') (\<lambda>standard.
     Option.bind (field read_string xs ''version'') (\<lambda>version.
     Option.bind (field read_string xs ''event'') (\<lambda>event.
     if standard = ''nep141'' then
       map_option (\<lambda>k. Nep141 (Nep141Event version k)) (read_141 xs event)
     else if standard = ''nep171'' then
       map_option (\<lambda>k. Nep171 (Nep171Event version k)) (read_171 xs event)
     else None)))"
| "read_event _ = None"

subsection \<open>Lemmas\<close>

lemma undecimal_digits_append:
  "undecimal_digits acc (xs @ [c]) = undecimal_digits acc xs * 10 + (of_char c - 48)"
  by (induction xs arbitrary: acc) simp_all

lemma of_char_digit: "d < 10 \<Longrightarrow> of_char (char_of (48 + d) :: char) = (48 + d :: nat)"
  by (simp add: of_char_of)

lemma undecimal_decimal: "undecimal (decimal n) = n"
proof (induction n rule: decimal.induct)
  case (1 n)
  show ?case
  proof (cases "n < 10")
    case True
    then show ?thesis by (subst decimal.simps) (simp add: undecimal_def of_char_digit)
  next
    case False
    have "undecimal (decimal n) = undecimal (decimal (n div 10)) * 10 + n mod 10"
      using False of_char_digit [of "n mod 10"]
      by (subst decimal.simps) (simp add: undecimal_def undecimal_digits_append)
    also have "\<dots> = n" using 1 False by simp
    finally show ?thesis .
  qed
qed

lemma read_u128_json [simp]: "read_u128 (u128_json w) = Some w"
  by (simp add: read_u128_def u128_json_def undecimal_decimal)

lemma those_map_Some: "(\<And>x. f (g x) = Some x) \<Longrightarrow> those (map f (map g xs)) = Some xs"
  by (induction xs) simp_all

lemma read_list_map [simp]: "(\<And>x. f (g x) = Some x) \<Longrightarrow> read_list f (JArray (map g xs)) = Some xs"
  using those_map_Some [of f g xs] by simp

lemma read_ids_json [simp]: "read_ids (ids_json ids) = Some ids"
  by (simp add: read_ids_def ids_json_def del: read_list.simps)

lemma read_records [simp]:
  "read_ft_owned FtMint (ft_mint_json a) = Some a"
  "read_ft_transfer (ft_transfer_json b) = Some b"
  "read_ft_owned FtBurn (ft_burn_json c) = Some c"
  "read_nft_mint (nft_mint_json d) = Some d"
  by (cases a; cases b; cases c; cases d;
      simp add: field_def optional_def opt_field_def split: option.split)+

lemma read_records_authorized [simp]:
  "read_nft_transfer (nft_transfer_json b) = Some b"
  "read_nft_burn (nft_burn_json c) = Some c"
  by (cases b; cases c; simp add: field_def optional_def opt_field_def split: option.split)+

lemma read_event_json: "read_event (near_event_json ev) = Some ev"
proof (cases ev)
  case (Nep171 x)
  obtain version kind where "x = Nep171Event version kind" by (cases x)
  with Nep171 show ?thesis
    by (cases kind) (simp_all add: field_def read_171_def del: read_list.simps)
next
  case (Nep141 x)
  obtain version kind where "x = Nep141Event version kind" by (cases x)
  with Nep141 show ?thesis
    by (cases kind) (simp_all add: field_def read_141_def del: read_list.simps)
qed

subsection \<open>Property\<close>

text \<open>C32: the log loses nothing.  For any JSON printer and a parser that reads its output back, a
  line that the contract logs for an event starts with \<open>EVENT_JSON:\<close> and the rest parses to a JSON
  value from which the event can be read back completely: the variant, every account, every token
  id, every amount up to 2^128 - 1, and which optional fields were given.\<close>

theorem event_log_round_trip:
  assumes "\<And>j s. to_string j = Some s \<Longrightarrow> parse s = Some j"
    and "to_json_event_string to_string ev = Inr line"
  shows "take 11 line = ''EVENT_JSON:'' \<and> Option.bind (parse (drop 11 line)) read_event = Some ev"
  using assms(2) assms(1) [of "near_event_json ev"]
  by (auto simp: to_json_event_string_def to_json_string_def result_simps read_event_json)

definition round_trip_demo :: NearEvent where
  "round_trip_demo = new_141_v1 (FtTransferEvent [FtTransfer ''alice'' ''bob'' 340 (Some ''rent'')])"

theorem event_log_round_trip_witness:
  "read_event (near_event_json round_trip_demo) = Some round_trip_demo \<and>
   near_event_json round_trip_demo =
     JObject [(''standard'', JString ''nep141''), (''version'', JString ''1.0.0''),
       (''event'', JString ''ft_transfer''),
       (''data'', JArray [JObject [(''old_owner_id'', JString ''alice''),
          (''new_owner_id'', JString ''bob''), (''amount'', JString ''340''),
          (''memo'', JString ''rent'')]])]"
proof -
  let ?print = "\<lambda>j. if j = near_event_json round_trip_demo then Some ''x'' else None"
  let ?parse = "\<lambda>s :: string. if s = ''x'' then Some (near_event_json round_trip_demo) else None"
  have "to_json_event_string ?print round_trip_demo = (Inr ''EVENT_JSON:x'' :: 'a panic + string)"
    by (simp add: to_json_event_string_def to_json_string_def)
  moreover have "?parse s = Some j" if "?print j = Some s" for j s
    using that by (simp split: if_splits)
  ultimately have "Option.bind (?parse (drop 11 ''EVENT_JSON:x'')) read_event = Some round_trip_demo"
    using event_log_round_trip [of ?print ?parse round_trip_demo "''EVENT_JSON:x''"] by blast
  then have "read_event (near_event_json round_trip_demo) = Some round_trip_demo" by simp
  moreover have "near_event_json round_trip_demo =
      JObject [(''standard'', JString ''nep141''), (''version'', JString ''1.0.0''),
        (''event'', JString ''ft_transfer''),
        (''data'', JArray [JObject [(''old_owner_id'', JString ''alice''),
           (''new_owner_id'', JString ''bob''), (''amount'', JString ''340''),
           (''memo'', JString ''rent'')]])]"
    by (simp add: round_trip_demo_def new_141_v1_def new_141_def u128_json_def opt_field_def
        decimal.simps char_of_def bit_0)
  ultimately show ?thesis by (rule conjI)
qed

end
