(* ===== verification/EventTests.thy ===== *)
theory EventTests
  imports EventsRoundTrip
begin

section \<open>The shape of the logged events, and their unit tests\<close>

text \<open>
  What a reader of the log may rely on: an executable check of a JSON value against the standards
  (NEP-297, NEP-141, NEP-171), and for each kind of event the fields of its entries in terms of the
  data they report; and the unit tests of the two \<open>events.rs\<close>, which compare
  logged lines with literal texts.  The tests are run with \<open>json_text\<close>, the compact layout that
  \<open>serde_json::to_string\<close> documents.
\<close>

subsection \<open>The compact layout of JSON\<close>

definition escape_char :: "char \<Rightarrow> string" where
  "escape_char c =
     (let n = (of_char c :: nat) in
      if n = 34 then [char_of (92 :: nat), c]
      else if n = 92 then [c, c]
      else if n = 8 then [char_of (92 :: nat), CHR ''b'']
      else if n = 9 then [char_of (92 :: nat), CHR ''t'']
      else if n = 10 then [char_of (92 :: nat), CHR ''n'']
      else if n = 12 then [char_of (92 :: nat), CHR ''f'']
      else if n = 13 then [char_of (92 :: nat), CHR ''r'']
      else if n < 32 then
        char_of (92 :: nat) # ''u00'' @
          [if n < 16 then CHR ''0'' else CHR ''1'',
           (if n mod 16 < 10 then char_of (48 + n mod 16) else char_of (87 + n mod 16))]
      else [c])"

definition quoted :: "string \<Rightarrow> string" where
  "quoted s = [char_of (34 :: nat)] @ concat (map escape_char s) @ [char_of (34 :: nat)]"

fun separated :: "string list \<Rightarrow> string" where
  "separated [] = []"
| "separated [x] = x"
| "separated (x # y # xs) = x @ '','' @ separated (y # xs)"

fun json_text :: "json \<Rightarrow> string" where
  "json_text (JString s) = quoted s"
| "json_text (JArray xs) = ''['' @ separated (map json_text xs) @ '']''"
| "json_text (JObject fs) =
     ''{'' @ separated (map (\<lambda>(k, v). quoted k @ '':'' @ json_text v) fs) @ ''}''"

subsection \<open>The shape of an event\<close>

fun is_string :: "json \<Rightarrow> bool" where
  "is_string (JString s) = True"
| "is_string _ = False"

fun is_list :: "(json \<Rightarrow> bool) \<Rightarrow> json \<Rightarrow> bool" where
  "is_list p (JArray xs) = list_all p xs"
| "is_list p _ = False"

text \<open>An amount is the decimal text of a 128-bit number: digits only, and no leading zero.\<close>

definition is_digit :: "char \<Rightarrow> bool" where
  "is_digit c \<longleftrightarrow> 48 \<le> (of_char c :: nat) \<and> of_char c < (58 :: nat)"

fun is_amount :: "json \<Rightarrow> bool" where
  "is_amount (JString s) \<longleftrightarrow>
     s \<noteq> [] \<and> list_all is_digit s \<and> (1 < length s \<longrightarrow> hd s \<noteq> CHR ''0'') \<and> undecimal s < 2 ^ 128"
| "is_amount _ = False"

text \<open>An object has all required fields, and no others but optional ones, each of its type.\<close>

fun has_shape :: "(string \<times> (json \<Rightarrow> bool)) list \<Rightarrow> (string \<times> (json \<Rightarrow> bool)) list \<Rightarrow> json \<Rightarrow> bool"
where
  "has_shape required extra (JObject fs) \<longleftrightarrow>
     distinct (map fst fs) \<and>
     list_all (\<lambda>(k, p). case map_of fs k of Some v \<Rightarrow> p v | None \<Rightarrow> False) required \<and>
     list_all (\<lambda>(k, v). case map_of (required @ extra) k of Some p \<Rightarrow> p v | None \<Rightarrow> False) fs"
| "has_shape required extra _ = False"

text \<open>The entries of \<open>data\<close>, by standard and event.\<close>

definition event_schema :: "((string \<times> string) \<times> (json \<Rightarrow> bool)) list" where
  "event_schema =
     [((''nep141'', ''ft_mint''),
         has_shape [(''owner_id'', is_string), (''amount'', is_amount)] [(''memo'', is_string)]),
      ((''nep141'', ''ft_transfer''),
         has_shape [(''old_owner_id'', is_string), (''new_owner_id'', is_string),
                    (''amount'', is_amount)] [(''memo'', is_string)]),
      ((''nep141'', ''ft_burn''),
         has_shape [(''owner_id'', is_string), (''amount'', is_amount)] [(''memo'', is_string)]),
      ((''nep171'', ''nft_mint''),
         has_shape [(''owner_id'', is_string), (''token_ids'', is_list is_string)]
           [(''memo'', is_string)]),
      ((''nep171'', ''nft_transfer''),
         has_shape [(''old_owner_id'', is_string), (''new_owner_id'', is_string),
                    (''token_ids'', is_list is_string)]
           [(''authorized_id'', is_string), (''memo'', is_string)]),
      ((''nep171'', ''nft_burn''),
         has_shape [(''owner_id'', is_string), (''token_ids'', is_list is_string)]
           [(''authorized_id'', is_string), (''memo'', is_string)])]"

fun event_conforms :: "json \<Rightarrow> bool" where
  "event_conforms (JObject fs) \<longleftrightarrow>
     has_shape [(''standard'', is_string), (''version'', \<lambda>v. v = JString ''1.0.0''),
                (''event'', is_string), (''data'', is_list (\<lambda>_. True))] [] (JObject fs) \<and>
     (case (map_of fs ''standard'', map_of fs ''event'', map_of fs ''data'') of
        (Some (JString standard), Some (JString event), Some d) \<Rightarrow>
          (case map_of event_schema (standard, event) of
             Some shape \<Rightarrow> is_list shape d
           | None \<Rightarrow> False)
      | _ \<Rightarrow> False)"
| "event_conforms _ = False"

lemma decimal_digits: "list_all is_digit (decimal n)"
proof (induction n rule: decimal.induct)
  case (1 n)
  have digit: "is_digit (char_of (48 + d))" if "d < 10" for d :: nat
    using of_char_digit [OF that] that by (simp add: is_digit_def)
  show ?case using 1 digit [of n] digit [of "n mod 10"] by (subst decimal.simps) simp
qed

lemma digit_not_zero:
  fixes d :: nat
  assumes "0 < d" and "d < 10"
  shows "char_of (48 + d) \<noteq> CHR ''0''"
proof
  assume eq: "char_of (48 + d) = CHR ''0''"
  have "48 + d = of_char (CHR ''0'')"
    using of_char_digit [OF assms(2)] unfolding eq by (rule sym)
  then show False using assms(1) by simp
qed

lemma decimal_positive: "0 < n \<Longrightarrow> decimal n \<noteq> [] \<and> hd (decimal n) \<noteq> CHR ''0''"
proof (induction n rule: decimal.induct)
  case (1 n)
  show ?case
  proof (cases "n < 10")
    case True
    then show ?thesis using digit_not_zero 1(2) by (subst (1 2) decimal.simps) simp
  next
    case False
    with 1(1) show ?thesis by (subst (1 2) decimal.simps) simp
  qed
qed

lemma decimal_leading: "decimal n \<noteq> [] \<and> (1 < length (decimal n) \<longrightarrow> hd (decimal n) \<noteq> CHR ''0'')"
  using decimal_positive [of n] by (cases "n = 0") (simp_all add: decimal.simps [of 0])

lemma is_amount_u128 [simp]: "is_amount (u128_json w)"
  using decimal_digits decimal_leading [of "unat w"] u128_less_pow [of w]
  by (simp add: u128_json_def undecimal_decimal)

lemma is_ids_json [simp]: "is_list is_string (ids_json ids)"
  by (simp add: ids_json_def list_all_iff)

lemma entries_conform:
  "has_shape [(''owner_id'', is_string), (''amount'', is_amount)] [(''memo'', is_string)]
     (ft_mint_json x1)"
  "has_shape [(''old_owner_id'', is_string), (''new_owner_id'', is_string), (''amount'', is_amount)]
     [(''memo'', is_string)] (ft_transfer_json x2)"
  "has_shape [(''owner_id'', is_string), (''amount'', is_amount)] [(''memo'', is_string)]
     (ft_burn_json x3)"
  "has_shape [(''owner_id'', is_string), (''token_ids'', is_list is_string)]
     [(''memo'', is_string)] (nft_mint_json x4)"
  "has_shape [(''old_owner_id'', is_string), (''new_owner_id'', is_string),
     (''token_ids'', is_list is_string)] [(''authorized_id'', is_string), (''memo'', is_string)]
     (nft_transfer_json x5)"
  "has_shape [(''owner_id'', is_string), (''token_ids'', is_list is_string)]
     [(''authorized_id'', is_string), (''memo'', is_string)] (nft_burn_json x6)"
  by (cases x1; cases x2; cases x3; cases x4; cases x5; cases x6;
      simp add: opt_field_def split: option.split)+

lemma event_conforms_eq:
  "event_conforms (JObject [(''standard'', JString st), (''version'', JString ''1.0.0''),
       (''event'', JString ev), (''data'', JArray xs)]) \<longleftrightarrow>
     (case map_of event_schema (st, ev) of Some shape \<Rightarrow> list_all shape xs | None \<Rightarrow> False)"
  by (simp add: list_all_iff split: option.split)

lemma event_kinds_conform:
  "event_conforms (near_event_json (Nep141 (Nep141Event ''1.0.0'' k)))"
  "event_conforms (near_event_json (Nep171 (Nep171Event ''1.0.0'' l)))"
  by (cases k; simp add: event_conforms_eq event_schema_def list_all_iff entries_conform
        del: has_shape.simps event_conforms.simps)
    (cases l; simp add: event_conforms_eq event_schema_def list_all_iff entries_conform
        del: has_shape.simps event_conforms.simps)

subsection \<open>What an event reports\<close>

text \<open>
  The fields that the standards give an entry of each event, from the data it reports: an amount is
  its decimal text, and memo and authorized id are fields exactly when they are given.
\<close>

type_synonym fields = "string \<rightharpoonup> json"

definition ft_mint_fields :: "FtMint \<Rightarrow> fields" where
  "ft_mint_fields x =
     [''owner_id'' \<mapsto> JString (ftmint_owner_id x), ''amount'' \<mapsto> JString (decimal (unat (ftmint_amount x)))]
     (''memo'' := map_option JString (ftmint_memo x))"

definition ft_transfer_fields :: "FtTransfer \<Rightarrow> fields" where
  "ft_transfer_fields x =
     [''old_owner_id'' \<mapsto> JString (fttransfer_old_owner_id x),
      ''new_owner_id'' \<mapsto> JString (fttransfer_new_owner_id x),
      ''amount'' \<mapsto> JString (decimal (unat (fttransfer_amount x)))]
     (''memo'' := map_option JString (fttransfer_memo x))"

definition ft_burn_fields :: "FtBurn \<Rightarrow> fields" where
  "ft_burn_fields x =
     [''owner_id'' \<mapsto> JString (ftburn_owner_id x), ''amount'' \<mapsto> JString (decimal (unat (ftburn_amount x)))]
     (''memo'' := map_option JString (ftburn_memo x))"

definition nft_mint_fields :: "NftMint \<Rightarrow> fields" where
  "nft_mint_fields x =
     [''owner_id'' \<mapsto> JString (nftmint_owner_id x),
      ''token_ids'' \<mapsto> JArray (map JString (nftmint_token_ids x))]
     (''memo'' := map_option JString (nftmint_memo x))"

definition nft_transfer_fields :: "NftTransfer \<Rightarrow> fields" where
  "nft_transfer_fields x =
     [''old_owner_id'' \<mapsto> JString (nfttransfer_old_owner_id x),
      ''new_owner_id'' \<mapsto> JString (nfttransfer_new_owner_id x),
      ''token_ids'' \<mapsto> JArray (map JString (nfttransfer_token_ids x))]
     (''authorized_id'' := map_option JString (nfttransfer_authorized_id x),
      ''memo'' := map_option JString (nfttransfer_memo x))"

definition nft_burn_fields :: "NftBurn \<Rightarrow> fields" where
  "nft_burn_fields x =
     [''owner_id'' \<mapsto> JString (nftburn_owner_id x),
      ''token_ids'' \<mapsto> JArray (map JString (nftburn_token_ids x))]
     (''authorized_id'' := map_option JString (nftburn_authorized_id x),
      ''memo'' := map_option JString (nftburn_memo x))"

text \<open>An object with these fields, in any order, each once; an event with these entries.\<close>

fun has_fields :: "fields \<Rightarrow> json \<Rightarrow> bool" where
  "has_fields m (JObject fs) \<longleftrightarrow> distinct (map fst fs) \<and> map_of fs = m"
| "has_fields m _ = False"

definition reports :: "string \<Rightarrow> string \<Rightarrow> fields list \<Rightarrow> json \<Rightarrow> bool" where
  "reports standard event entries j \<longleftrightarrow>
     (\<exists>xs. has_fields [''standard'' \<mapsto> JString standard, ''version'' \<mapsto> JString ''1.0.0'',
         ''event'' \<mapsto> JString event, ''data'' \<mapsto> JArray xs] j \<and>
       list_all2 has_fields entries xs)"

text \<open>A call adds one line to the log and nothing else: an event that conforms and reports this.\<close>

definition logs_report ::
    "('c token_effects \<Rightarrow> 'c token_effects) \<Rightarrow> 'c token_effects \<Rightarrow> string \<Rightarrow> string \<Rightarrow> fields list \<Rightarrow> bool" where
  "logs_report emit h standard event entries \<longleftrightarrow>
     (\<exists>ev. emit h = h\<lparr>logs := logs h @ [EventLog ev]\<rparr> \<and> event_conforms (near_event_json ev) \<and>
        reports standard event entries (near_event_json ev))"

lemma entries_have_fields:
  "has_fields (ft_mint_fields x1) (ft_mint_json x1)"
  "has_fields (ft_transfer_fields x2) (ft_transfer_json x2)"
  "has_fields (ft_burn_fields x3) (ft_burn_json x3)"
  "has_fields (nft_mint_fields x4) (nft_mint_json x4)"
  "has_fields (nft_transfer_fields x5) (nft_transfer_json x5)"
  "has_fields (nft_burn_fields x6) (nft_burn_json x6)"
  by (cases x1; cases x2; cases x3; cases x4; cases x5; cases x6;
      auto simp: opt_field_def u128_json_def ids_json_def ft_mint_fields_def ft_transfer_fields_def
        ft_burn_fields_def nft_mint_fields_def nft_transfer_fields_def nft_burn_fields_def fun_eq_iff
        split: option.split)+

lemma reportsI:
  "(\<And>x. has_fields (f x) (g x)) \<Longrightarrow>
     reports st ev (map f xs) (JObject [(''standard'', JString st), (''version'', JString ''1.0.0''),
       (''event'', JString ev), (''data'', JArray (map g xs))])"
  unfolding reports_def
  by (rule exI [of _ "map g xs"])
    (auto simp: fun_eq_iff list.rel_map intro!: list_all2_refl list_all2_all_nthI)

lemma kinds_report:
  "reports ''nep141'' ''ft_mint'' (map ft_mint_fields x1) (near_event_json (Nep141 (Nep141Event ''1.0.0'' (FtMintEvent x1))))"
  "reports ''nep141'' ''ft_transfer'' (map ft_transfer_fields x2) (near_event_json (Nep141 (Nep141Event ''1.0.0'' (FtTransferEvent x2))))"
  "reports ''nep141'' ''ft_burn'' (map ft_burn_fields x3) (near_event_json (Nep141 (Nep141Event ''1.0.0'' (FtBurnEvent x3))))"
  "reports ''nep171'' ''nft_mint'' (map nft_mint_fields x4) (near_event_json (Nep171 (Nep171Event ''1.0.0'' (NftMintEvent x4))))"
  "reports ''nep171'' ''nft_transfer'' (map nft_transfer_fields x5) (near_event_json (Nep171 (Nep171Event ''1.0.0'' (NftTransferEvent x5))))"
  "reports ''nep171'' ''nft_burn'' (map nft_burn_fields x6) (near_event_json (Nep171 (Nep171Event ''1.0.0'' (NftBurnEvent x6))))"
  using reportsI [OF entries_have_fields(1)] reportsI [OF entries_have_fields(2)]
    reportsI [OF entries_have_fields(3)] reportsI [OF entries_have_fields(4)]
    reportsI [OF entries_have_fields(5)] reportsI [OF entries_have_fields(6)]
  by simp_all

lemma logs_reportI:
  "emit h = log (EventLog ev) h \<Longrightarrow> event_conforms (near_event_json ev) \<Longrightarrow>
     reports standard event entries (near_event_json ev) \<Longrightarrow> logs_report emit h standard event entries"
  unfolding logs_report_def log_def by blast

subsection \<open>The unit tests\<close>

text \<open>
  A test emits and compares the first log line with a literal text; a comparison that fails is a
  panic, as in \<open>assert_eq!\<close>.
\<close>

datatype TestError = AssertEqFailed string string

type_synonym test_result = "TestError panic + unit"

definition bob :: AccountId where "bob = ''bob''"
definition alice :: AccountId where "alice = ''alice''"

definition assert_first_log ::
    "(json \<Rightarrow> string option) \<Rightarrow> (unit token_effects \<Rightarrow> unit token_effects) \<Rightarrow> string \<Rightarrow> test_result"
where
  "assert_first_log to_string emit expected =
     (case logs (emit no_effects) of
        EventLog ev # _ \<Rightarrow>
          rbind (to_json_event_string to_string ev) (\<lambda>line.
          require (line = expected) (Msg (AssertEqFailed line expected)))
      | TextLog line # _ \<Rightarrow> require (line = expected) (Msg (AssertEqFailed line expected))
      | [] \<Rightarrow> Inl IndexOutOfBounds)"

definition test_ft_mint :: "(json \<Rightarrow> string option) \<Rightarrow> test_result" where
  "test_ft_mint to_string =
     assert_first_log to_string (ft_mint_emit (FtMint bob 100 None))
      (''EVENT_JSON:{\"standard\":\"nep141\",\"version\":\"1.0.0\",\"event\":\"ft_mint\",'' @
       ''\"data\":[{\"owner_id\":\"bob\",\"amount\":\"100\"}]}'')"

definition test_ft_mints :: "(json \<Rightarrow> string option) \<Rightarrow> test_result" where
  "test_ft_mints to_string =
     assert_first_log to_string (ft_mint_emit_many [FtMint bob 100 None, FtMint alice 200 (Some ''has memo'')])
      (''EVENT_JSON:{\"standard\":\"nep141\",\"version\":\"1.0.0\",\"event\":\"ft_mint\",'' @
       ''\"data\":[{\"owner_id\":\"bob\",\"amount\":\"100\"},{\"owner_id\":\"alice\",'' @
       ''\"amount\":\"200\",\"memo\":\"has memo\"}]}'')"

definition test_ft_burn :: "(json \<Rightarrow> string option) \<Rightarrow> test_result" where
  "test_ft_burn to_string =
     assert_first_log to_string (ft_burn_emit (FtBurn bob 100 None))
      (''EVENT_JSON:{\"standard\":\"nep141\",\"version\":\"1.0.0\",\"event\":\"ft_burn\",'' @
       ''\"data\":[{\"owner_id\":\"bob\",\"amount\":\"100\"}]}'')"

definition test_ft_burns :: "(json \<Rightarrow> string option) \<Rightarrow> test_result" where
  "test_ft_burns to_string =
     assert_first_log to_string (ft_burn_emit_many [FtBurn alice 200 (Some ''has memo''), FtBurn bob 100 None])
      (''EVENT_JSON:{\"standard\":\"nep141\",\"version\":\"1.0.0\",\"event\":\"ft_burn\",'' @
       ''\"data\":[{\"owner_id\":\"alice\",\"amount\":\"200\",\"memo\":\"has memo\"},'' @
       ''{\"owner_id\":\"bob\",\"amount\":\"100\"}]}'')"

definition test_ft_transfer :: "(json \<Rightarrow> string option) \<Rightarrow> test_result" where
  "test_ft_transfer to_string =
     assert_first_log to_string (ft_transfer_emit (FtTransfer bob alice 100 None))
      (''EVENT_JSON:{\"standard\":\"nep141\",\"version\":\"1.0.0\",'' @
       ''\"event\":\"ft_transfer\",\"data\":[{\"old_owner_id\":\"bob\",'' @
       ''\"new_owner_id\":\"alice\",\"amount\":\"100\"}]}'')"

definition test_ft_transfers :: "(json \<Rightarrow> string option) \<Rightarrow> test_result" where
  "test_ft_transfers to_string =
     assert_first_log to_string (ft_transfer_emit_many
        [FtTransfer alice bob 200 (Some ''has memo''), FtTransfer bob alice 100 None])
      (''EVENT_JSON:{\"standard\":\"nep141\",\"version\":\"1.0.0\",'' @
       ''\"event\":\"ft_transfer\",\"data\":[{\"old_owner_id\":\"alice\",'' @
       ''\"new_owner_id\":\"bob\",\"amount\":\"200\",\"memo\":\"has memo\"},'' @
       ''{\"old_owner_id\":\"bob\",\"new_owner_id\":\"alice\",\"amount\":\"100\"}]}'')"

definition test_nft_mint :: "(json \<Rightarrow> string option) \<Rightarrow> test_result" where
  "test_nft_mint to_string =
     assert_first_log to_string (nft_mint_emit (NftMint bob [''0'', ''1''] None))
      (''EVENT_JSON:{\"standard\":\"nep171\",\"version\":\"1.0.0\",'' @
       ''\"event\":\"nft_mint\",\"data\":[{\"owner_id\":\"bob\",\"token_ids\":[\"0\",'' @
       ''\"1\"]}]}'')"

definition test_nft_mints :: "(json \<Rightarrow> string option) \<Rightarrow> test_result" where
  "test_nft_mints to_string =
     assert_first_log to_string (nft_mint_emit_many
        [NftMint bob [''0'', ''1''] None, NftMint alice [''2'', ''3''] (Some ''has memo'')])
      (''EVENT_JSON:{\"standard\":\"nep171\",\"version\":\"1.0.0\",'' @
       ''\"event\":\"nft_mint\",\"data\":[{\"owner_id\":\"bob\",\"token_ids\":[\"0\",'' @
       ''\"1\"]},{\"owner_id\":\"alice\",\"token_ids\":[\"2\",\"3\"],'' @
       ''\"memo\":\"has memo\"}]}'')"

definition test_nft_burn :: "(json \<Rightarrow> string option) \<Rightarrow> test_result" where
  "test_nft_burn to_string =
     assert_first_log to_string (nft_burn_emit (NftBurn bob [''0'', ''1''] None None))
      (''EVENT_JSON:{\"standard\":\"nep171\",\"version\":\"1.0.0\",'' @
       ''\"event\":\"nft_burn\",\"data\":[{\"owner_id\":\"bob\",\"token_ids\":[\"0\",'' @
       ''\"1\"]}]}'')"

definition test_nft_burns :: "(json \<Rightarrow> string option) \<Rightarrow> test_result" where
  "test_nft_burns to_string =
     assert_first_log to_string (nft_burn_emit_many
        [NftBurn alice [''2'', ''3''] (Some bob) (Some ''has memo''),
         NftBurn bob [''0'', ''1''] None None])
      (''EVENT_JSON:{\"standard\":\"nep171\",\"version\":\"1.0.0\",'' @
       ''\"event\":\"nft_burn\",\"data\":[{\"owner_id\":\"alice\",\"token_ids\":[\"2\",'' @
       ''\"3\"],\"authorized_id\":\"bob\",\"memo\":\"has memo\"},{\"owner_id\":\"bob\",'' @
       ''\"token_ids\":[\"0\",\"1\"]}]}'')"

definition test_nft_transfer :: "(json \<Rightarrow> string option) \<Rightarrow> test_result" where
  "test_nft_transfer to_string =
     assert_first_log to_string (nft_transfer_emit (NftTransfer bob alice [''0'', ''1''] None None))
      (''EVENT_JSON:{\"standard\":\"nep171\",\"version\":\"1.0.0\",'' @
       ''\"event\":\"nft_transfer\",\"data\":[{\"old_owner_id\":\"bob\",'' @
       ''\"new_owner_id\":\"alice\",\"token_ids\":[\"0\",\"1\"]}]}'')"

definition test_nft_transfers :: "(json \<Rightarrow> string option) \<Rightarrow> test_result" where
  "test_nft_transfers to_string =
     assert_first_log to_string (nft_transfer_emit_many
        [NftTransfer alice bob [''2'', ''3''] (Some bob) (Some ''has memo''),
         NftTransfer bob alice [''0'', ''1''] None None])
      (''EVENT_JSON:{\"standard\":\"nep171\",\"version\":\"1.0.0\",'' @
       ''\"event\":\"nft_transfer\",\"data\":[{\"old_owner_id\":\"alice\",'' @
       ''\"new_owner_id\":\"bob\",\"token_ids\":[\"2\",\"3\"],\"authorized_id\":\"bob\",'' @
       ''\"memo\":\"has memo\"},{\"old_owner_id\":\"bob\",\"new_owner_id\":\"alice\",'' @
       ''\"token_ids\":[\"0\",\"1\"]}]}'')"


subsection \<open>Properties\<close>

text \<open>C33: what the log says.  Each of the six \<open>emit_many\<close> functions adds one line to the log and
  nothing else: an event whose JSON value conforms to the standards, with version 1.0.0, with the
  standard and the name of this event, and with one entry for each of the data, in their order.  The
  entry has the accounts, the token ids and the amount, as a decimal text without a leading zero, of
  that datum, its memo and authorized id exactly if they are given, and no other field.\<close>

theorem emitted_events_conform:
  "logs_report (ft_mint_emit_many xs1) h ''nep141'' ''ft_mint'' (map ft_mint_fields xs1) \<and>
   logs_report (ft_transfer_emit_many xs2) h ''nep141'' ''ft_transfer'' (map ft_transfer_fields xs2) \<and>
   logs_report (ft_burn_emit_many xs3) h ''nep141'' ''ft_burn'' (map ft_burn_fields xs3) \<and>
   logs_report (nft_mint_emit_many xs4) h ''nep171'' ''nft_mint'' (map nft_mint_fields xs4) \<and>
   logs_report (nft_transfer_emit_many xs5) h ''nep171'' ''nft_transfer'' (map nft_transfer_fields xs5) \<and>
   logs_report (nft_burn_emit_many xs6) h ''nep171'' ''nft_burn'' (map nft_burn_fields xs6)"
  unfolding emit_defs
  by (intro conjI logs_reportI [OF refl] event_kinds_conform kinds_report)

text \<open>The unit tests of both \<open>events.rs\<close> pass.\<close>

theorem event_unit_tests_pass:
  "list_all (\<lambda>test. test (Some \<circ> json_text) = Inr ())
     [test_ft_mint, test_ft_mints, test_ft_burn, test_ft_burns, test_ft_transfer, test_ft_transfers,
      test_nft_mint, test_nft_mints, test_nft_burn, test_nft_burns, test_nft_transfer,
      test_nft_transfers]"
  by code_simp

end
