(* ===== verification/Upgrade.thy ===== *)
theory Upgrade
  imports Near
begin

section \<open>Staged upgrades\<close>

text \<open>
  \<open>examples/nep-interface/src/upgrade/mod.rs\<close>: a contract whose owner stages new code in the
  contract's storage, to be deployed later.  The staged code is one entry of the host's key-value
  storage.  The properties say exactly when code can be staged and deployed; the window for
  deploying is not the one that the error message speaks of.
\<close>

subsection \<open>State and operations\<close>

record Upgrade =
  upgrade_owner :: AccountId
  staging_duration :: Duration
  staging_timestamp :: Timestamp

record upgrade_contract =
  upgrade_state :: Upgrade
  upgrade_storage :: "string \<rightharpoonup> bytes"

datatype UpgradeError =
    OwnerMustBePredecessor
  | StagingTooSoon
  | DeployTooEarly Timestamp
  | NoUpgradeCode

type_synonym 'a upgrade_result = "UpgradeError panic + 'a"
type_synonym upgrade_effects = "(string, unit) effects"

definition upgrade_new :: "AccountId \<Rightarrow> Duration \<Rightarrow> Upgrade" where
  "upgrade_new owner duration =
     \<lparr>upgrade_owner = owner, staging_duration = duration, staging_timestamp = 0\<rparr>"

definition get_owner :: "Upgrade \<Rightarrow> AccountId" where
  "get_owner u = upgrade_owner u"

definition assert_owner :: "env \<Rightarrow> Upgrade \<Rightarrow> unit upgrade_result" where
  "assert_owner e u = require (predecessor_account_id e = get_owner u) (Msg OwnerMustBePredecessor)"

definition set_owner :: "env \<Rightarrow> Upgrade \<Rightarrow> AccountId \<Rightarrow> Upgrade upgrade_result" where
  "set_owner e u owner = rbind (assert_owner e u) (\<lambda>_. Inr (u\<lparr>upgrade_owner := owner\<rparr>))"

definition get_staging_duration :: "Upgrade \<Rightarrow> u64" where
  "get_staging_duration u = staging_duration u"

definition stage_code ::
    "env \<Rightarrow> upgrade_contract \<Rightarrow> bytes \<Rightarrow> Timestamp \<Rightarrow> upgrade_contract upgrade_result" where
  "stage_code e c code timestamp =
     rbind (assert_owner e (upgrade_state c)) (\<lambda>_.
     rbind (add_op (overflow_checks e) (block_timestamp e) (staging_duration (upgrade_state c)))
       (\<lambda>earliest.
     rbind (require (earliest < timestamp) (Msg StagingTooSoon)) (\<lambda>_.
     Inr (c\<lparr>upgrade_storage := (upgrade_storage c)(''upgrade'' \<mapsto> code),
            upgrade_state := (upgrade_state c)\<lparr>staging_timestamp := timestamp\<rparr>\<rparr>))))"

text \<open>The timestamp in the message of the panic is computed with a plain addition.\<close>

definition deploy_code ::
    "env \<Rightarrow> upgrade_contract \<Rightarrow> upgrade_effects \<Rightarrow> (upgrade_contract \<times> upgrade_effects) upgrade_result" where
  "deploy_code e c h =
     rbind (if staging_timestamp (upgrade_state c) < block_timestamp e
            then rbind (add_op (overflow_checks e) (staging_timestamp (upgrade_state c))
                          (staging_duration (upgrade_state c))) (\<lambda>ends.
                 Inl (Msg (DeployTooEarly ends)))
            else Inr ()) (\<lambda>_.
     rbind (unwrap_or_panic (Msg NoUpgradeCode) (upgrade_storage c ''upgrade'')) (\<lambda>code.
     Inr (c\<lparr>upgrade_storage := (upgrade_storage c)(''upgrade'' := None)\<rparr>,
          schedule (DeployContract (current_account_id e) code) h)))"

definition migrate :: "unit upgrade_result" where
  "migrate = Inl NotImplemented"

subsection \<open>Lemmas\<close>

lemma deploy_code_iff:
  "deploy_code e c h = Inr (c', h') \<longleftrightarrow>
     block_timestamp e \<le> staging_timestamp (upgrade_state c) \<and>
     (\<exists>code. upgrade_storage c ''upgrade'' = Some code \<and>
        c' = c\<lparr>upgrade_storage := (upgrade_storage c)(''upgrade'' := None)\<rparr> \<and>
        h' = schedule (DeployContract (current_account_id e) code) h)"
  by (auto simp: deploy_code_def result_simps split: if_splits)

lemma stage_code_iff:
  "stage_code e c code timestamp = Inr c' \<longleftrightarrow>
     predecessor_account_id e = upgrade_owner (upgrade_state c) \<and>
     (\<exists>earliest. add_op (overflow_checks e) (block_timestamp e) (staging_duration (upgrade_state c)) =
          (Inr earliest :: UpgradeError panic + u64) \<and> earliest < timestamp) \<and>
     c' = c\<lparr>upgrade_storage := (upgrade_storage c)(''upgrade'' \<mapsto> code),
            upgrade_state := (upgrade_state c)\<lparr>staging_timestamp := timestamp\<rparr>\<rparr>"
  by (auto simp: stage_code_def assert_owner_def get_owner_def result_simps)

subsection \<open>Properties\<close>

text \<open>The contract of the witnesses: Olga stages code for time 5000, an hour being 1000.\<close>

definition upgrade_demo_env :: "AccountId \<Rightarrow> Timestamp \<Rightarrow> env" where
  "upgrade_demo_env who now =
     \<lparr>current_account_id = ''app'', predecessor_account_id = who, attached_deposit = 0,
      prepaid_gas = 0, used_gas = 0, block_timestamp = now, storage_byte_cost = 0,
      promise_results = [], overflow_checks = True\<rparr>"

definition upgrade_demo :: upgrade_contract where
  "upgrade_demo = \<lparr>upgrade_state = upgrade_new ''olga'' 1000, upgrade_storage = Map.empty\<rparr>"

lemma upgrade_demo_stages:
  "stage_code (upgrade_demo_env ''olga'' 1000) upgrade_demo [1, 2] 5000 =
     Inr \<lparr>upgrade_state = \<lparr>upgrade_owner = ''olga'', staging_duration = 1000, staging_timestamp = 5000\<rparr>,
          upgrade_storage = [''upgrade'' \<mapsto> [1, 2]]\<rparr>"
  by (simp add: stage_code_def assert_owner_def get_owner_def upgrade_demo_env_def upgrade_demo_def
      upgrade_new_def add_op_exact)

text \<open>C37: the staging period is not enforced.  After code was staged for a time \<open>timestamp\<close>, which
  must lie more than the staging duration ahead, \<open>deploy_code\<close> works for every caller and at every
  time up to and including \<open>timestamp\<close>, so at once; after that time it panics for ever, with a
  message that says it is too early.  What is deployed is the staged code, once.\<close>

theorem deploy_only_before_staging_time:
  assumes "stage_code e c code timestamp = Inr c'"
  shows "(block_timestamp e' \<le> timestamp \<longrightarrow>
       (\<exists>c''. deploy_code e' c' h = Inr (c'', schedule (DeployContract (current_account_id e') code) h) \<and>
          upgrade_storage c'' ''upgrade'' = None \<and> upgrade_state c'' = upgrade_state c')) \<and>
     (timestamp < block_timestamp e' \<longrightarrow>
       (\<exists>p. deploy_code e' c' h = Inl p \<and> (p = ArithmeticOverflow \<or> (\<exists>ends. p = Msg (DeployTooEarly ends))))) \<and>
     (overflow_checks e \<longrightarrow> block_timestamp e < timestamp)"
proof (intro conjI impI)
  from assms obtain earliest where c':
    "c' = c\<lparr>upgrade_storage := (upgrade_storage c)(''upgrade'' \<mapsto> code),
            upgrade_state := (upgrade_state c)\<lparr>staging_timestamp := timestamp\<rparr>\<rparr>"
    and earliest: "add_op (overflow_checks e) (block_timestamp e) (staging_duration (upgrade_state c)) =
      (Inr earliest :: UpgradeError panic + u64)" "earliest < timestamp"
    by (auto simp: stage_code_iff)
  show "\<exists>c''. deploy_code e' c' h = Inr (c'', schedule (DeployContract (current_account_id e') code) h) \<and>
          upgrade_storage c'' ''upgrade'' = None \<and> upgrade_state c'' = upgrade_state c'"
    if "block_timestamp e' \<le> timestamp"
    using that by (simp add: deploy_code_iff c')
  show "\<exists>p. deploy_code e' c' h = Inl p \<and> (p = ArithmeticOverflow \<or> (\<exists>ends. p = Msg (DeployTooEarly ends)))"
    if "timestamp < block_timestamp e'"
    using that by (cases "checked_add timestamp (staging_duration (upgrade_state c))")
      (simp_all add: deploy_code_def c' add_op_def plain_op_def)
  show "block_timestamp e < timestamp" if "overflow_checks e"
    using that earliest by (simp add: unat_arith_simps word_less_nat_alt)
qed

theorem deploy_only_before_staging_time_witness:
  "\<exists>c''. deploy_code (upgrade_demo_env ''mallory'' 1000)
       \<lparr>upgrade_state = \<lparr>upgrade_owner = ''olga'', staging_duration = 1000, staging_timestamp = 5000\<rparr>,
        upgrade_storage = [''upgrade'' \<mapsto> [1, 2]]\<rparr> no_effects =
     Inr (c'', schedule (DeployContract ''app'' [1, 2]) no_effects)"
  using deploy_only_before_staging_time [OF upgrade_demo_stages, of "upgrade_demo_env ''mallory'' 1000"
      no_effects]
  by (auto simp: upgrade_demo_env_def)

text \<open>Only the owner stages code or hands the contract over.  With \<open>overflow-checks\<close> on,
  \<open>stage_code\<close> returns exactly when the caller is the owner and the time lies more than the staging
  duration ahead of the block; with them off, the sum of block time and duration wraps around.
  \<open>set_owner\<close> returns exactly for the owner.  Neither changes the staging duration.\<close>

lemma only_owner_stages_code:
  "(returns (stage_code e c code timestamp) \<longleftrightarrow>
      predecessor_account_id e = upgrade_owner (upgrade_state c) \<and>
      (if overflow_checks e
       then unat (block_timestamp e) + unat (staging_duration (upgrade_state c)) < unat timestamp
       else (unat (block_timestamp e) + unat (staging_duration (upgrade_state c))) mod 2 ^ 64 <
         unat timestamp)) \<and>
   (returns (set_owner e (upgrade_state c) owner) \<longleftrightarrow>
      predecessor_account_id e = upgrade_owner (upgrade_state c)) \<and>
   (\<forall>u. set_owner e (upgrade_state c) owner = Inr u \<longrightarrow>
      u = (upgrade_state c)\<lparr>upgrade_owner := owner\<rparr>)"
proof (intro conjI)
  let ?b = "block_timestamp e" and ?d = "staging_duration (upgrade_state c)"
  have "(\<exists>earliest. add_op (overflow_checks e) ?b ?d = (Inr earliest :: UpgradeError panic + u64) \<and>
          earliest < timestamp) \<longleftrightarrow>
      (if overflow_checks e then unat ?b + unat ?d < unat timestamp
       else (unat ?b + unat ?d) mod 2 ^ 64 < unat timestamp)"
  proof (cases "overflow_checks e")
    case True
    have "unat timestamp < 2 ^ 64" using unsigned_less [of timestamp] by simp
    then have "\<exists>w :: u64. unat w = unat ?b + unat ?d" if "unat ?b + unat ?d < unat timestamp"
      using that by (intro exI [of _ "?b + ?d"] unat_add_exact) simp
    with True show ?thesis by (simp add: unat_arith_simps word_less_nat_alt) metis
  next
    case False
    then show ?thesis by (simp add: word_less_nat_alt unat_word_ariths)
  qed
  then show "returns (stage_code e c code timestamp) \<longleftrightarrow>
      predecessor_account_id e = upgrade_owner (upgrade_state c) \<and>
      (if overflow_checks e then unat ?b + unat ?d < unat timestamp
       else (unat ?b + unat ?d) mod 2 ^ 64 < unat timestamp)"
    by (auto simp: returns_def stage_code_iff)
qed (auto simp: set_owner_def assert_owner_def get_owner_def returns_rbind require_eq_Inr result_simps)

subsection \<open>The history of a contract\<close>

text \<open>
  What happened to a contract, newest first: code staged by an account for a time, ownership handed
  over by an account, and code deployed at a time.
\<close>

datatype upgrade_event =
    Staged AccountId bytes Timestamp
  | OwnerSet AccountId AccountId
  | Deployed bytes Timestamp

record upgrade_run =
  run_contract :: upgrade_contract
  history :: "upgrade_event list"

inductive upgrade_step :: "upgrade_run \<Rightarrow> upgrade_run \<Rightarrow> bool" where
  step_stage:
    "stage_code e c code timestamp = Inr c' \<Longrightarrow>
     upgrade_step \<lparr>run_contract = c, history = hs\<rparr>
       \<lparr>run_contract = c', history = Staged (predecessor_account_id e) code timestamp # hs\<rparr>"
| step_set_owner:
    "set_owner e (upgrade_state c) owner = Inr u \<Longrightarrow>
     upgrade_step \<lparr>run_contract = c, history = hs\<rparr>
       \<lparr>run_contract = c\<lparr>upgrade_state := u\<rparr>,
        history = OwnerSet (predecessor_account_id e) owner # hs\<rparr>"
| step_deploy:
    "deploy_code e c no_effects = Inr (c', h) \<Longrightarrow>
     promises h = [DeployContract (current_account_id e) code] \<Longrightarrow>
     upgrade_step \<lparr>run_contract = c, history = hs\<rparr>
       \<lparr>run_contract = c', history = Deployed code (block_timestamp e) # hs\<rparr>"

inductive_cases upgrade_stepE: "upgrade_step r r'"

definition upgrade_init :: "AccountId \<Rightarrow> Duration \<Rightarrow> upgrade_run \<Rightarrow> bool" where
  "upgrade_init owner duration r \<longleftrightarrow>
     r = \<lparr>run_contract = \<lparr>upgrade_state = upgrade_new owner duration, upgrade_storage = Map.empty\<rparr>,
          history = []\<rparr>"

text \<open>The owner after a history, and the code that waits to be deployed, with its time.\<close>

fun owner_after :: "AccountId \<Rightarrow> upgrade_event list \<Rightarrow> AccountId" where
  "owner_after owner [] = owner"
| "owner_after owner (OwnerSet who new # hs) = new"
| "owner_after owner (_ # hs) = owner_after owner hs"

fun waiting_code :: "upgrade_event list \<Rightarrow> (bytes \<times> Timestamp) option" where
  "waiting_code [] = None"
| "waiting_code (Staged who code timestamp # hs) = Some (code, timestamp)"
| "waiting_code (Deployed code now # hs) = None"
| "waiting_code (OwnerSet who new # hs) = waiting_code hs"

text \<open>
  A history is legitimate if every staging and every handing over was by the owner of that moment,
  and every deployment was of the code that waited, no later than its time.
\<close>

fun legitimate :: "AccountId \<Rightarrow> upgrade_event list \<Rightarrow> bool" where
  "legitimate owner [] = True"
| "legitimate owner (Staged who code timestamp # hs) \<longleftrightarrow>
     who = owner_after owner hs \<and> legitimate owner hs"
| "legitimate owner (OwnerSet who new # hs) \<longleftrightarrow> who = owner_after owner hs \<and> legitimate owner hs"
| "legitimate owner (Deployed code now # hs) \<longleftrightarrow>
     (\<exists>timestamp. waiting_code hs = Some (code, timestamp) \<and> now \<le> timestamp) \<and> legitimate owner hs"

text \<open>The state that a history leaves behind.\<close>

definition upgrade_agrees :: "AccountId \<Rightarrow> Duration \<Rightarrow> upgrade_run \<Rightarrow> bool" where
  "upgrade_agrees owner duration r \<longleftrightarrow>
     (let c = run_contract r; hs = history r in
      legitimate owner hs \<and> upgrade_owner (upgrade_state c) = owner_after owner hs \<and>
      staging_duration (upgrade_state c) = duration \<and>
      upgrade_storage c ''upgrade'' = map_option fst (waiting_code hs) \<and>
      (\<forall>code t. waiting_code hs = Some (code, t) \<longrightarrow> staging_timestamp (upgrade_state c) = t))"

interpretation upgrades: invariant_system "upgrade_init owner duration" upgrade_step
  "upgrade_agrees owner duration" for owner duration
proof
  show "upgrade_init owner duration r \<Longrightarrow> upgrade_agrees owner duration r" for r
    by (simp add: upgrade_init_def upgrade_agrees_def upgrade_new_def Let_def)
  show "upgrade_agrees owner duration r \<Longrightarrow> upgrade_step r r' \<Longrightarrow> upgrade_agrees owner duration r'"
    for r r'
    by (erule upgrade_stepE)
      (auto simp: upgrade_agrees_def Let_def stage_code_iff deploy_code_iff set_owner_def
        assert_owner_def get_owner_def result_simps)
qed

fun is_staged :: "upgrade_event \<Rightarrow> bool" where
  "is_staged (Staged who code timestamp) = True"
| "is_staged _ = False"

fun is_deployed :: "upgrade_event \<Rightarrow> bool" where
  "is_deployed (Deployed code now) = True"
| "is_deployed _ = False"

lemma deployments_at_most_stagings:
  "legitimate owner hs \<Longrightarrow>
     length (filter is_deployed hs) + (if waiting_code hs = None then 0 else 1) \<le>
     length (filter is_staged hs)"
proof (induction hs)
  case (Cons ev hs)
  then show ?case by (cases ev) (auto split: if_splits)
qed simp

text \<open>C20: whose code runs.  In every history of a contract, from its creation by an owner on, with
  calls by anybody at any times: all code that was staged, and every new owner, came from the account that was the owner at that moment; every deployment was of the code staged last,
  not deployed before, and no later than the time it was staged for; so nobody but an owner chooses
  what runs, and there are at most as many deployments as stagings.  The state is what the history
  says: the owner last set, the staging duration of the creation, and in the storage the code that
  waits, if any.\<close>

theorem deployed_code_was_staged_by_owner:
  assumes "reachable (upgrade_init owner duration) upgrade_step r"
  shows "legitimate owner (history r) \<and>
     length (filter is_deployed (history r)) \<le> length (filter is_staged (history r)) \<and>
     upgrade_owner (upgrade_state (run_contract r)) = owner_after owner (history r) \<and>
     staging_duration (upgrade_state (run_contract r)) = duration \<and>
     upgrade_storage (run_contract r) ''upgrade'' = map_option fst (waiting_code (history r))"
  using upgrades.reachable_inv [OF assms] deployments_at_most_stagings [of owner "history r"]
  by (auto simp: upgrade_agrees_def Let_def split: if_splits)

text \<open>Olga stages code for time 5000, and Mallory deploys it at time 1000.\<close>

definition upgrade_demo_run :: upgrade_run where
  "upgrade_demo_run =
     \<lparr>run_contract =
        \<lparr>upgrade_state =
           \<lparr>upgrade_owner = ''olga'', staging_duration = 1000, staging_timestamp = 5000\<rparr>,
         upgrade_storage = Map.empty\<rparr>,
      history = [Deployed [1, 2] 1000, Staged ''olga'' [1, 2] 5000]\<rparr>"

lemma upgrade_demo_reachable: "reachable (upgrade_init ''olga'' 1000) upgrade_step upgrade_demo_run"
proof (rule reachable_step, rule reachable_step, rule reachable_init)
  show "upgrade_init ''olga'' 1000 \<lparr>run_contract = upgrade_demo, history = []\<rparr>"
    by (simp add: upgrade_init_def upgrade_demo_def)
  show "upgrade_step \<lparr>run_contract = upgrade_demo, history = []\<rparr>
      \<lparr>run_contract = \<lparr>upgrade_state = \<lparr>upgrade_owner = ''olga'', staging_duration = 1000,
         staging_timestamp = 5000\<rparr>, upgrade_storage = [''upgrade'' \<mapsto> [1, 2]]\<rparr>,
       history = [Staged ''olga'' [1, 2] 5000]\<rparr>"
    using step_stage [OF upgrade_demo_stages, of "[]"] by (simp add: upgrade_demo_env_def)
  show "upgrade_step
      \<lparr>run_contract = \<lparr>upgrade_state = \<lparr>upgrade_owner = ''olga'', staging_duration = 1000,
         staging_timestamp = 5000\<rparr>, upgrade_storage = [''upgrade'' \<mapsto> [1, 2]]\<rparr>,
       history = [Staged ''olga'' [1, 2] 5000]\<rparr> upgrade_demo_run"
    using step_deploy [of "upgrade_demo_env ''mallory'' 1000"
        "\<lparr>upgrade_state = \<lparr>upgrade_owner = ''olga'', staging_duration = 1000,
           staging_timestamp = 5000\<rparr>, upgrade_storage = [''upgrade'' \<mapsto> [1, 2]]\<rparr>"]
    by (simp add: deploy_code_iff upgrade_demo_run_def upgrade_demo_env_def)
qed

theorem deployed_code_was_staged_by_owner_witness:
  "legitimate ''olga'' (history upgrade_demo_run) \<and>
   owner_after ''olga'' (history upgrade_demo_run) = ''olga'' \<and>
   waiting_code (history upgrade_demo_run) = None"
  using deployed_code_was_staged_by_owner [OF upgrade_demo_reachable]
  by (simp add: upgrade_demo_run_def)

end
