(* ===== verification/Withdrawals.thy ===== *)
theory Withdrawals
  imports Near "HOL-Library.Multiset"
begin

section \<open>Withdrawals with a callback\<close>

text \<open>
  The example contracts that pay a depositor and learn in a callback whether the payment went
  through: \<open>transfer\<close>, \<open>inconsistency\<close>, \<open>promise-result\<close> and \<open>public-interface\<close> debit first and
  credit back on failure, \<open>reentrancy\<close> debits in the callback, \<open>unhandled-promise\<close> has no callback.
  The locale \<open>vault_contract\<close> is the contract between a withdrawal method and its callback; it is
  interpreted on the four crates that keep it, and gives, over every interleaving of withdrawals
  and callbacks, conservation of what is held, in flight, paid, and stranded by transfer calls that
  hand something back.
\<close>

subsection \<open>State\<close>

text \<open>
  The balance and its owner; four of the crates pay in tokens of another contract as well.  Each
  crate declares the struct again; where it has a name of its own here, that is a synonym.
\<close>

record Vault =
  depositor :: AccountId
  balance :: u128

record TokenVault = Vault +
  token_id :: AccountId

datatype VaultError = InsufficientBalance | Unreachable

text \<open>The cross-contract calls: the token contract's methods, and the contract's own callback.\<close>

datatype VaultCall =
    FtTransferTo AccountId u128 "string option"
  | FtTransferCallTo AccountId u128 "string option" string
  | CallbackWithdraw u128

type_synonym 'a vault_result = "VaultError panic + 'a"
type_synonym vault_effects = "(unit, VaultCall) effects"

definition TGAS :: Gas where "TGAS = 1000000000000"

text \<open>
  What the methods share: the assertion and the subtraction, and the two promises of a payment, the
  second of which is the callback on the contract itself.
\<close>

definition debit :: "env \<Rightarrow> u128 \<Rightarrow> 'a Vault_scheme \<Rightarrow> 'a Vault_scheme vault_result" where
  "debit e amount s =
     rbind (require (amount \<le> balance s) (Msg InsufficientBalance)) (\<lambda>_.
     rbind (sub_op (overflow_checks e) (balance s) amount) (\<lambda>b.
     Inr (s\<lparr>balance := b\<rparr>)))"

definition pay_then_callback ::
    "env \<Rightarrow> VaultCall Promise \<Rightarrow> Gas \<Rightarrow> u128 \<Rightarrow> vault_effects" where
  "pay_then_callback e payment gas amount =
     schedule (Then payment (FunctionCall (current_account_id e) (CallbackWithdraw amount) 0 gas))
       no_effects"

text \<open>The \<open>match\<close> on the promise result in every callback that gives a failed payment back.\<close>

definition credit_if_failed :: "env \<Rightarrow> u128 \<Rightarrow> 'a Vault_scheme \<Rightarrow> 'a Vault_scheme vault_result" where
  "credit_if_failed e amount s =
     rbind (env_promise_result e 0) (\<lambda>r.
     case r of
       NotReady \<Rightarrow> Inl (Msg Unreachable)
     | Successful v \<Rightarrow> Inr s
     | Failed \<Rightarrow> rbind (add_op (overflow_checks e) (balance s) amount) (\<lambda>b. Inr (s\<lparr>balance := b\<rparr>)))"

subsection \<open>Crate \<open>transfer\<close>\<close>

definition transfer_gas_ft_transfer :: Gas where "transfer_gas_ft_transfer = 10 * TGAS"
definition transfer_gas_withdraw_callback :: Gas where "transfer_gas_withdraw_callback = 20 * TGAS"

definition transfer_default :: TokenVault where
  "transfer_default =
     \<lparr>depositor = ''depositor.near'', balance = 100, token_id = ''ft_token.near''\<rparr>"

definition transfer_withdraw_nep141 ::
    "env \<Rightarrow> u128 \<Rightarrow> TokenVault \<Rightarrow> (TokenVault \<times> vault_effects) vault_result" where
  "transfer_withdraw_nep141 e amount s =
     rbind (assert_not_payable e) (\<lambda>_.
     rbind (debit e amount s) (\<lambda>s1.
     Inr (s1, pay_then_callback e
        (FunctionCall (token_id s1) (FtTransferTo (depositor s1) amount None) 1
           transfer_gas_ft_transfer)
        transfer_gas_withdraw_callback amount)))"

definition transfer_withdraw_native ::
    "env \<Rightarrow> u128 \<Rightarrow> TokenVault \<Rightarrow> (TokenVault \<times> vault_effects) vault_result" where
  "transfer_withdraw_native e amount s =
     rbind (assert_not_payable e) (\<lambda>_.
     rbind (debit e amount s) (\<lambda>s1.
     Inr (s1, pay_then_callback e (Transfer (depositor s1) amount)
        transfer_gas_withdraw_callback amount)))"

definition transfer_callback_withdraw ::
    "env \<Rightarrow> u128 \<Rightarrow> TokenVault \<Rightarrow> TokenVault vault_result" where
  "transfer_callback_withdraw e amount s =
     rbind (assert_private e) (\<lambda>_.
     rbind (assert_not_payable e) (\<lambda>_.
     credit_if_failed e amount s))"

text \<open>The crate's methods that withdraw.\<close>

datatype transfer_method = WithdrawNep141 | WithdrawNative

fun transfer_withdraw ::
    "transfer_method \<Rightarrow> env \<Rightarrow> u128 \<Rightarrow> TokenVault \<Rightarrow> (TokenVault \<times> vault_effects) vault_result" where
  "transfer_withdraw WithdrawNep141 e amount s = transfer_withdraw_nep141 e amount s"
| "transfer_withdraw WithdrawNative e amount s = transfer_withdraw_native e amount s"

subsection \<open>Crate \<open>inconsistency\<close>\<close>

type_synonym inconsistency_Contract = TokenVault

definition inconsistency_gas_ft_transfer :: Gas where "inconsistency_gas_ft_transfer = 10 * TGAS"
definition inconsistency_gas_ft_transfer_call :: Gas where
  "inconsistency_gas_ft_transfer_call = 30 * TGAS"
definition inconsistency_gas_withdraw_callback :: Gas where
  "inconsistency_gas_withdraw_callback = 20 * TGAS"

definition inconsistency_default :: inconsistency_Contract where
  "inconsistency_default =
     \<lparr>depositor = ''depositor.near'', balance = 100, token_id = ''ft_token.near''\<rparr>"

text \<open>Each method is given the gas that the other one is meant for; the code is as written here.\<close>

definition inconsistency_withdraw ::
    "env \<Rightarrow> u128 \<Rightarrow> inconsistency_Contract \<Rightarrow> (inconsistency_Contract \<times> vault_effects) vault_result" where
  "inconsistency_withdraw e amount s =
     rbind (assert_not_payable e) (\<lambda>_.
     rbind (debit e amount s) (\<lambda>s1.
     Inr (s1, pay_then_callback e
        (FunctionCall (token_id s1) (FtTransferTo (depositor s1) amount None) 1
           inconsistency_gas_ft_transfer_call)
        inconsistency_gas_withdraw_callback amount)))"

definition inconsistency_withdraw_call ::
    "env \<Rightarrow> u128 \<Rightarrow> inconsistency_Contract \<Rightarrow> (inconsistency_Contract \<times> vault_effects) vault_result" where
  "inconsistency_withdraw_call e amount s =
     rbind (assert_not_payable e) (\<lambda>_.
     rbind (debit e amount s) (\<lambda>s1.
     Inr (s1, pay_then_callback e
        (FunctionCall (token_id s1) (FtTransferCallTo (depositor s1) amount None '''') 1
           inconsistency_gas_ft_transfer)
        inconsistency_gas_withdraw_callback amount)))"

definition inconsistency_callback_withdraw ::
    "env \<Rightarrow> u128 \<Rightarrow> inconsistency_Contract \<Rightarrow> inconsistency_Contract vault_result" where
  "inconsistency_callback_withdraw e amount s =
     rbind (assert_private e) (\<lambda>_.
     rbind (assert_not_payable e) (\<lambda>_.
     credit_if_failed e amount s))"

datatype inconsistency_method = Withdraw | WithdrawCall

fun inconsistency_withdraws ::
    "inconsistency_method \<Rightarrow> env \<Rightarrow> u128 \<Rightarrow> TokenVault \<Rightarrow>
     (TokenVault \<times> vault_effects) vault_result" where
  "inconsistency_withdraws Withdraw e amount s = inconsistency_withdraw e amount s"
| "inconsistency_withdraws WithdrawCall e amount s = inconsistency_withdraw_call e amount s"

subsection \<open>Crates \<open>promise-result\<close> and \<open>public-interface\<close>\<close>

definition promise_result_gas_withdraw_callback :: Gas where
  "promise_result_gas_withdraw_callback = 20 * TGAS"

definition promise_result_default :: Vault where
  "promise_result_default = \<lparr>depositor = ''depositor.near'', balance = 100\<rparr>"

definition promise_result_withdraw ::
    "env \<Rightarrow> u128 \<Rightarrow> Vault \<Rightarrow> (Vault \<times> vault_effects) vault_result" where
  "promise_result_withdraw e amount s =
     rbind (assert_not_payable e) (\<lambda>_.
     rbind (debit e amount s) (\<lambda>s1.
     Inr (s1, pay_then_callback e (Transfer (depositor s1) amount)
        promise_result_gas_withdraw_callback amount)))"

definition promise_result_callback_withdraw :: "env \<Rightarrow> u128 \<Rightarrow> Vault \<Rightarrow> Vault vault_result" where
  "promise_result_callback_withdraw e amount s =
     rbind (assert_private e) (\<lambda>_.
     rbind (assert_not_payable e) (\<lambda>_.
     credit_if_failed e amount s))"

type_synonym public_interface_Contract = Vault

definition public_interface_gas_withdraw_callback :: Gas where
  "public_interface_gas_withdraw_callback = 20 * TGAS"

definition public_interface_default :: public_interface_Contract where
  "public_interface_default = \<lparr>depositor = ''depositor.near'', balance = 100\<rparr>"

definition sub_balance :: "env \<Rightarrow> u128 \<Rightarrow> public_interface_Contract \<Rightarrow> public_interface_Contract vault_result" where
  "sub_balance e amount s =
     rbind (require (amount \<le> balance s) (Msg InsufficientBalance)) (\<lambda>_.
     rbind (sub_op (overflow_checks e) (balance s) amount) (\<lambda>b.
     Inr (s\<lparr>balance := b\<rparr>)))"

definition public_interface_withdraw ::
    "env \<Rightarrow> u128 \<Rightarrow> public_interface_Contract \<Rightarrow> (public_interface_Contract \<times> vault_effects) vault_result" where
  "public_interface_withdraw e amount s =
     rbind (assert_not_payable e) (\<lambda>_.
     rbind (sub_balance e amount s) (\<lambda>s1.
     Inr (s1, pay_then_callback e (Transfer (depositor s1) amount)
        public_interface_gas_withdraw_callback amount)))"

definition check_balance :: "public_interface_Contract \<Rightarrow> u128" where
  "check_balance s = balance s"

definition public_interface_callback_withdraw :: "env \<Rightarrow> u128 \<Rightarrow> public_interface_Contract \<Rightarrow> public_interface_Contract vault_result" where
  "public_interface_callback_withdraw e amount s =
     rbind (assert_private e) (\<lambda>_.
     rbind (assert_not_payable e) (\<lambda>_.
     credit_if_failed e amount s))"

subsection \<open>Crate \<open>reentrancy\<close>\<close>

text \<open>The two log lines carry the block height, an input of the calls.\<close>

datatype VictimLog = LogWithdraw u64 | LogCallbackWithdraw u64

type_synonym victim_effects = "(VictimLog, VaultCall) effects"

type_synonym VictimContract = TokenVault

definition victim_gas_ft_transfer_call :: Gas where "victim_gas_ft_transfer_call = 30 * TGAS"
definition victim_gas_ft_resolve_transfer :: Gas where "victim_gas_ft_resolve_transfer = 10 * TGAS"

definition victim_default :: VictimContract where
  "victim_default =
     \<lparr>depositor = ''attacker.test.near'', balance = 100, token_id = ''ft_token.test.near''\<rparr>"

definition victim_withdraw ::
    "env \<Rightarrow> u64 \<Rightarrow> u128 \<Rightarrow> VictimContract \<Rightarrow> (VictimContract \<times> victim_effects) vault_result" where
  "victim_withdraw e height amount s =
     rbind (assert_not_payable e) (\<lambda>_.
     rbind (require (amount \<le> balance s) (Msg InsufficientBalance)) (\<lambda>_.
     Inr (s, schedule
        (Then (FunctionCall (token_id s) (FtTransferCallTo (depositor s) amount None '''') 1
                 victim_gas_ft_transfer_call)
              (FunctionCall (current_account_id e) (CallbackWithdraw amount) 0
                 victim_gas_ft_resolve_transfer))
        (log (LogWithdraw height) no_effects))))"

definition victim_get_balance :: "VictimContract \<Rightarrow> u128" where
  "victim_get_balance s = balance s"

text \<open>
  The callback is declared in \<open>ext_self\<close> as returning a \<open>bool\<close>, but returns nothing.
\<close>

definition victim_callback_withdraw ::
    "env \<Rightarrow> u64 \<Rightarrow> u128 \<Rightarrow> VictimContract \<Rightarrow> (VictimContract \<times> victim_effects) vault_result" where
  "victim_callback_withdraw e height amount s =
     rbind (assert_private e) (\<lambda>_.
     rbind (assert_not_payable e) (\<lambda>_.
     rbind (env_promise_result e 0) (\<lambda>r.
     rbind (case r of
         NotReady \<Rightarrow> Inl (Msg Unreachable)
       | Successful v \<Rightarrow>
           rbind (sub_op (overflow_checks e) (balance s) amount) (\<lambda>b. Inr (s\<lparr>balance := b\<rparr>))
       | Failed \<Rightarrow> Inr s) (\<lambda>s1.
     Inr (s1, log (LogCallbackWithdraw height) no_effects)))))"

subsection \<open>Crate \<open>unhandled-promise\<close>\<close>

type_synonym unhandled_Contract = TokenVault

definition unhandled_gas_ft_transfer :: Gas where "unhandled_gas_ft_transfer = 10 * TGAS"

definition unhandled_default :: unhandled_Contract where
  "unhandled_default =
     \<lparr>depositor = ''depositor.near'', balance = 100, token_id = ''ft_token.near''\<rparr>"

definition transfer_without_promise :: "u128 \<Rightarrow> unhandled_Contract \<Rightarrow> vault_effects \<Rightarrow> vault_effects" where
  "transfer_without_promise amount s h =
     schedule (FunctionCall (token_id s) (FtTransferTo (depositor s) amount None) 1
       unhandled_gas_ft_transfer) h"

definition transfer_with_promise :: "u128 \<Rightarrow> unhandled_Contract \<Rightarrow> vault_effects \<Rightarrow> vault_effects" where
  "transfer_with_promise amount s h =
     schedule (FunctionCall (token_id s) (FtTransferTo (depositor s) amount None) 1
       unhandled_gas_ft_transfer) h"

definition withdraw_without_promise ::
    "env \<Rightarrow> u128 \<Rightarrow> unhandled_Contract \<Rightarrow> (unhandled_Contract \<times> vault_effects) vault_result" where
  "withdraw_without_promise e amount s =
     rbind (assert_not_payable e) (\<lambda>_.
     rbind (debit e amount s) (\<lambda>s1.
     Inr (s1, transfer_without_promise amount s1 no_effects)))"

definition withdraw_with_promise ::
    "env \<Rightarrow> u128 \<Rightarrow> unhandled_Contract \<Rightarrow> (unhandled_Contract \<times> vault_effects) vault_result" where
  "withdraw_with_promise e amount s =
     rbind (assert_not_payable e) (\<lambda>_.
     rbind (debit e amount s) (\<lambda>s1.
     Inr (s1, transfer_with_promise amount s1 no_effects)))"

subsection \<open>Withdrawals in flight\<close>

text \<open>
  The contract on the chain: its state, and the payments whose callbacks are still to come, each with
  whether it is a transfer call and with its amount.  Two amounts are kept beside it: what has been
  paid, and what a successful transfer call has handed back, of which the callback learns nothing.
  A withdrawal is a call of any account with any environment; a callback runs later, in any order,
  with the result of its payment.
\<close>

record 's vault_run =
  vault :: 's
  pending :: "(bool \<times> u128) multiset"
  paid :: nat
  stranded :: nat

fun by_transfer_call :: "VaultCall Promise \<Rightarrow> bool" where
  "by_transfer_call (FunctionCall a (FtTransferCallTo r x memo msg) d g) = True"
| "by_transfer_call p = False"

fun callback_payments :: "VaultCall Promise \<Rightarrow> (bool \<times> u128) multiset" where
  "callback_payments (Then p (FunctionCall a (CallbackWithdraw x) d g)) = {#(by_transfer_call p, x)#}"
| "callback_payments p = {#}"

definition payments_of :: "('l, VaultCall) effects \<Rightarrow> (bool \<times> u128) multiset" where
  "payments_of h = sum_list (map callback_payments (promises h))"

definition pending_of :: "('l, VaultCall) effects \<Rightarrow> u128 multiset" where
  "pending_of h = image_mset snd (payments_of h)"

text \<open>
  What a payment has paid: all of it when it is a transfer that succeeds; when it is a transfer call,
  the amount that it reports as withdrawn from the sender, at most the whole.
\<close>

definition paid_by :: "(bytes \<Rightarrow> u128 option) \<Rightarrow> bool \<Rightarrow> u128 \<Rightarrow> PromiseResult \<Rightarrow> nat" where
  "paid_by from_slice call x r =
     (case r of
        Successful v \<Rightarrow> if call then unat (min x (unwrap_or 0 (from_slice v))) else unat x
      | _ \<Rightarrow> 0)"

definition vault_init :: "'s \<Rightarrow> 's vault_run \<Rightarrow> bool" where
  "vault_init s0 w \<longleftrightarrow> w = \<lparr>vault = s0, pending = {#}, paid = 0, stranded = 0\<rparr>"

inductive vault_step ::
    "(bytes \<Rightarrow> u128 option) \<Rightarrow>
     ('m \<Rightarrow> env \<Rightarrow> u128 \<Rightarrow> 's \<Rightarrow> ('s \<times> vault_effects) vault_result) \<Rightarrow>
     (env \<Rightarrow> u128 \<Rightarrow> 's \<Rightarrow> 's vault_result) \<Rightarrow> 's vault_run \<Rightarrow> 's vault_run \<Rightarrow> bool"
  for from_slice :: "bytes \<Rightarrow> u128 option"
    and withdraw :: "'m \<Rightarrow> env \<Rightarrow> u128 \<Rightarrow> 's \<Rightarrow> ('s \<times> vault_effects) vault_result"
    and callback :: "env \<Rightarrow> u128 \<Rightarrow> 's \<Rightarrow> 's vault_result" where
  vault_request:
    "withdraw m e x s = Inr (s', h) \<Longrightarrow>
     vault_step from_slice withdraw callback \<lparr>vault = s, pending = P, paid = n, stranded = k\<rparr>
       \<lparr>vault = s', pending = P + payments_of h, paid = n, stranded = k\<rparr>"
| vault_settle:
    "(call, x) \<in># P \<Longrightarrow> promise_results e = [r] \<Longrightarrow> callback e x s = Inr s' \<Longrightarrow>
     vault_step from_slice withdraw callback \<lparr>vault = s, pending = P, paid = n, stranded = k\<rparr>
       \<lparr>vault = s', pending = P - {#(call, x)#}, paid = n + paid_by from_slice call x r,
        stranded = k + (if r = Failed then 0 else unat x - paid_by from_slice call x r)\<rparr>"

inductive_simps vault_step_iff: "vault_step from_slice withdraw callback w w'"

text \<open>The balance, what is in flight, what was paid, and what came back uncredited.\<close>

definition vault_total :: "('s \<Rightarrow> u128) \<Rightarrow> 's vault_run \<Rightarrow> nat" where
  "vault_total bal w =
     unat (bal (vault w)) + (\<Sum>(call, x) \<in># pending w. unat x) + paid w + stranded w"

lemma paid_by_le: "paid_by from_slice call x r \<le> unat x"
  by (auto simp: paid_by_def unat_min split: PromiseResult.split)

lemma paid_by_transfer: "r \<noteq> NotReady \<Longrightarrow> r \<noteq> Failed \<Longrightarrow> paid_by from_slice False x r = unat x"
  by (simp add: paid_by_def split: PromiseResult.split)

lemma paid_by_failed [simp]: "paid_by from_slice call x Failed = 0"
  by (simp add: paid_by_def)

subsection \<open>The interface between a withdrawal and its callback\<close>

locale vault_contract =
  fixes from_slice :: "bytes \<Rightarrow> u128 option"
    and withdraw :: "'m \<Rightarrow> env \<Rightarrow> u128 \<Rightarrow> 's \<Rightarrow> ('s \<times> vault_effects) vault_result"
    and calls :: "'m \<Rightarrow> bool"
    and callback :: "env \<Rightarrow> u128 \<Rightarrow> 's \<Rightarrow> 's vault_result"
    and bal :: "'s \<Rightarrow> u128"
    and s0 :: 's
  assumes withdraw_moves: "withdraw m e x s = Inr (s', h) \<Longrightarrow>
      unat (bal s) = unat (bal s') + unat x \<and> payments_of h = {#(calls m, x)#}"
    and callback_returns: "promise_results e = [r] \<Longrightarrow> r \<noteq> NotReady \<Longrightarrow>
      predecessor_account_id e = current_account_id e \<Longrightarrow> attached_deposit e = 0 \<Longrightarrow>
      unat (bal s) + unat x < 2 ^ 128 \<Longrightarrow> returns (callback e x s)"
    and callback_moves: "promise_results e = [r] \<Longrightarrow> unat (bal s) + unat x < 2 ^ 128 \<Longrightarrow>
      callback e x s = Inr s' \<Longrightarrow>
      r \<noteq> NotReady \<and> unat (bal s') = unat (bal s) + (if r = Failed then unat x else 0)"
begin

text \<open>The books are right, and what is in flight was ordered by a method of its kind.\<close>

definition conserves :: "'s vault_run \<Rightarrow> bool" where
  "conserves w \<longleftrightarrow> vault_total bal w = unat (bal s0) \<and>
     (\<forall>(call, x) \<in># pending w. call \<longrightarrow> (\<exists>m. calls m)) \<and>
     (0 < stranded w \<longrightarrow> (\<exists>m. calls m))"

lemma pending_fits:
  assumes "conserves w" and "(call, x) \<in># pending w"
  shows "unat (bal (vault w)) + unat x < 2 ^ 128"
proof -
  obtain P where "pending w = add_mset (call, x) P" using assms(2) by (blast dest: multi_member_split)
  with assms(1) have "unat (bal (vault w)) + unat x \<le> unat (bal s0)"
    by (simp add: conserves_def vault_total_def)
  then show ?thesis using u128_less_pow by (rule le_less_trans)
qed

lemma conserves_init: "vault_init s0 w \<Longrightarrow> conserves w"
  by (simp add: vault_init_def conserves_def vault_total_def)

lemma conserves_step:
  assumes "conserves w" and "vault_step from_slice withdraw callback w w'"
  shows "conserves w'"
  using assms(2)
proof (cases rule: vault_step.cases)
  case (vault_request m e x s s' h P n k)
  then show ?thesis
    using assms(1) withdraw_moves [OF vault_request(3)]
    by (auto simp: conserves_def vault_total_def)
next
  case (vault_settle call x P e r s s' n k)
  then obtain Q where P: "P = add_mset (call, x) Q" by (blast dest: multi_member_split)
  have moved: "r \<noteq> NotReady" "unat (bal s') = unat (bal s) + (if r = Failed then unat x else 0)"
    using vault_settle pending_fits [OF assms(1), of call x] callback_moves by auto
  have "vault_total bal w' = unat (bal s0)"
    using vault_settle P assms(1) moved(2) paid_by_le [of from_slice call x r]
    by (simp add: conserves_def vault_total_def split: if_splits)
  moreover have "\<exists>m. calls m" if "0 < stranded w'"
  proof (cases "0 < k \<or> call")
    case True
    then show ?thesis using vault_settle(1) P assms(1) by (auto simp: conserves_def)
  next
    case False
    then have "stranded w' = 0"
      using vault_settle(2) moved(1) paid_by_transfer [of r from_slice x] by simp
    with that show ?thesis by simp
  qed
  ultimately show ?thesis
    using vault_settle(1,2) P assms(1) by (auto simp: conserves_def)
qed

sublocale run: invariant_system "vault_init s0" "vault_step from_slice withdraw callback" conserves
  by unfold_locales (auto intro: conserves_init conserves_step)

lemma reachable_conserves:
  assumes "reachable (vault_init s0) (vault_step from_slice withdraw callback) w"
  shows "vault_total bal w = unat (bal s0)" and "\<forall>m. \<not> calls m \<Longrightarrow> stranded w = 0"
  using run.reachable_inv [OF assms] by (auto simp: conserves_def)

lemma pending_settles:
  assumes "reachable (vault_init s0) (vault_step from_slice withdraw callback) w"
    and "(call, x) \<in># pending w"
    and "promise_results e = [r]" and "r \<noteq> NotReady"
    and "predecessor_account_id e = current_account_id e" and "attached_deposit e = 0"
  shows "returns (callback e x (vault w))"
  using assms(3-6) pending_fits [OF run.reachable_inv [OF assms(1)] assms(2)]
  by (rule callback_returns)

end

subsection \<open>The crates keep the interface\<close>

lemma debit_iff [result_simps]:
  "debit e x s = Inr s' \<longleftrightarrow> x \<le> balance s \<and> s' = s\<lparr>balance := balance s - x\<rparr>"
  by (auto simp: debit_def result_simps sub_op_exact word_le_nat_alt)

lemma sub_balance_eq_debit: "sub_balance e x s = debit e x s"
  by (simp add: sub_balance_def debit_def)

lemma unat_balance_split: "x \<le> b \<Longrightarrow> unat b = unat (b - x) + unat (x :: u128)"
  by (simp add: unat_sub_exact word_le_nat_alt)

lemma pay_then_callback_simps [simp]:
  "payments_of (pay_then_callback e p g x) = {#(by_transfer_call p, x)#}"
  "promises (pay_then_callback e p g x) =
     [Then p (FunctionCall (current_account_id e) (CallbackWithdraw x) 0 g)]"
  by (simp_all add: payments_of_def pay_then_callback_def)

lemma credit_if_failed_returns:
  assumes "promise_results e = [r]" and "r \<noteq> NotReady" and "unat (balance s) + unat x < 2 ^ 128"
  shows "returns (credit_if_failed e x s)"
  using assms
  by (cases r) (simp_all add: credit_if_failed_def env_promise_result_def add_op_exact)

lemma credit_if_failed_moves:
  assumes "promise_results e = [r]" and "unat (balance s) + unat x < 2 ^ 128"
    and "credit_if_failed e x s = Inr s'"
  shows "r \<noteq> NotReady \<and> unat (balance s') = unat (balance s) + (if r = Failed then unat x else 0)"
  using assms
  by (cases r) (auto simp: credit_if_failed_def env_promise_result_def add_op_exact
      unat_add_u128)

text \<open>A private callback that is \<open>credit_if_failed\<close> keeps its half of the interface.\<close>

definition private_credit :: "env \<Rightarrow> u128 \<Rightarrow> 'a Vault_scheme \<Rightarrow> 'a Vault_scheme vault_result" where
  "private_credit e x s =
     rbind (assert_private e) (\<lambda>_. rbind (assert_not_payable e) (\<lambda>_. credit_if_failed e x s))"

lemma callbacks_are_private_credit:
  "transfer_callback_withdraw = private_credit"
  "inconsistency_callback_withdraw = private_credit"
  "promise_result_callback_withdraw = private_credit"
  "public_interface_callback_withdraw = private_credit"
  by (simp_all add: fun_eq_iff private_credit_def transfer_callback_withdraw_def
      inconsistency_callback_withdraw_def promise_result_callback_withdraw_def
      public_interface_callback_withdraw_def)

lemma private_credit_returns:
  assumes "promise_results e = [r]" and "r \<noteq> NotReady"
    and "predecessor_account_id e = current_account_id e" and "attached_deposit e = 0"
    and "unat (balance s) + unat x < 2 ^ 128"
  shows "returns (private_credit e x s)"
  using assms credit_if_failed_returns [OF assms(1,2,5)]
  by (simp add: private_credit_def assert_private_def assert_not_payable_def)

lemma private_credit_moves:
  assumes "promise_results e = [r]" and "unat (balance s) + unat x < 2 ^ 128"
    and "private_credit e x s = Inr s'"
  shows "r \<noteq> NotReady \<and> unat (balance s') = unat (balance s) + (if r = Failed then unat x else 0)"
proof -
  from assms(3) have "credit_if_failed e x s = Inr s'"
    by (auto simp: private_credit_def result_simps)
  with assms(1,2) show ?thesis by (rule credit_if_failed_moves)
qed

lemmas withdraw_defs = transfer_withdraw_nep141_def transfer_withdraw_native_def
  inconsistency_withdraw_def inconsistency_withdraw_call_def promise_result_withdraw_def
  public_interface_withdraw_def sub_balance_eq_debit

text \<open>
  \<open>promise-result\<close> and \<open>public-interface\<close> have one withdrawal method each; \<open>inconsistency\<close> has one that
  pays by a transfer call.
\<close>

definition single :: "'f \<Rightarrow> unit \<Rightarrow> 'f" where
  "single f m = f"

fun inconsistency_calls :: "inconsistency_method \<Rightarrow> bool" where
  "inconsistency_calls Withdraw = False"
| "inconsistency_calls WithdrawCall = True"

interpretation transfer_run:
  vault_contract from_slice transfer_withdraw "\<lambda>m. False" transfer_callback_withdraw balance
    transfer_default
  for from_slice
proof
  fix m e x s s' h
  assume "transfer_withdraw m e x s = Inr (s', h)"
  then show "unat (balance s) = unat (balance s') + unat x \<and> payments_of h = {#(False, x)#}"
    by (cases m) (auto simp: withdraw_defs result_simps intro: unat_balance_split)
qed (unfold callbacks_are_private_credit,
    (erule private_credit_returns private_credit_moves; assumption)+)

interpretation inconsistency_run:
  vault_contract from_slice inconsistency_withdraws inconsistency_calls
    inconsistency_callback_withdraw balance inconsistency_default
  for from_slice
proof
  fix m e x s s' h
  assume "inconsistency_withdraws m e x s = Inr (s', h)"
  then show "unat (balance s) = unat (balance s') + unat x \<and> payments_of h = {#(inconsistency_calls m, x)#}"
    by (cases m) (auto simp: withdraw_defs result_simps intro: unat_balance_split)
qed (unfold callbacks_are_private_credit,
    (erule private_credit_returns private_credit_moves; assumption)+)

text \<open>The same crate when only its method \<open>withdraw\<close> is called.\<close>

interpretation plain_inconsistency_run:
  vault_contract from_slice "single inconsistency_withdraw" "\<lambda>m. False"
    inconsistency_callback_withdraw balance inconsistency_default
  for from_slice
proof
  fix m e x s s' h
  assume "single inconsistency_withdraw m e x s = Inr (s', h)"
  then show "unat (balance s) = unat (balance s') + unat x \<and> payments_of h = {#(False, x)#}"
    by (auto simp: single_def withdraw_defs result_simps intro: unat_balance_split)
qed (unfold callbacks_are_private_credit,
    (erule private_credit_returns private_credit_moves; assumption)+)

interpretation promise_result_run:
  vault_contract from_slice "single promise_result_withdraw" "\<lambda>m. False"
    promise_result_callback_withdraw balance promise_result_default
  for from_slice
proof
  fix m e x s s' h
  assume "single promise_result_withdraw m e x s = Inr (s', h)"
  then show "unat (balance s) = unat (balance s') + unat x \<and> payments_of h = {#(False, x)#}"
    by (auto simp: single_def withdraw_defs result_simps intro: unat_balance_split)
qed (unfold callbacks_are_private_credit,
    (erule private_credit_returns private_credit_moves; assumption)+)

interpretation public_interface_run:
  vault_contract from_slice "single public_interface_withdraw" "\<lambda>m. False"
    public_interface_callback_withdraw balance public_interface_default
  for from_slice
proof
  fix m e x s s' h
  assume "single public_interface_withdraw m e x s = Inr (s', h)"
  then show "unat (balance s) = unat (balance s') + unat x \<and> payments_of h = {#(False, x)#}"
    by (auto simp: single_def withdraw_defs result_simps intro: unat_balance_split)
qed (unfold callbacks_are_private_credit,
    (erule private_credit_returns private_credit_moves; assumption)+)

subsection \<open>Properties\<close>

text \<open>The receipts of the witnesses: a call of the depositor, and a callback with its result.\<close>

definition vault_demo_env :: "AccountId \<Rightarrow> PromiseResult list \<Rightarrow> env" where
  "vault_demo_env who rs =
     \<lparr>current_account_id = ''app'', predecessor_account_id = who, attached_deposit = 0,
      prepaid_gas = 0, used_gas = 0, block_timestamp = 0, storage_byte_cost = 0,
      promise_results = rs, overflow_checks = True\<rparr>"

lemma vault_demo_env_simps [simp]:
  "current_account_id (vault_demo_env who rs) = ''app''"
  "predecessor_account_id (vault_demo_env who rs) = who"
  "attached_deposit (vault_demo_env who rs) = 0"
  "promise_results (vault_demo_env who rs) = rs"
  "overflow_checks (vault_demo_env who rs) = True"
  by (simp_all add: vault_demo_env_def)

text \<open>C31: a withdrawal is paid or credited back, but for what a transfer call hands back.  In the four
  crates that debit before they pay, after any interleaving of withdrawals (of any amounts, by any
  method, by anyone) and callbacks (with any result), the balance, the amounts in flight, the amounts
  paid and the amounts stranded add up to the initial balance of 100.  Paid is the whole amount of a
  transfer that succeeds, and of a transfer call what its result says was withdrawn; the rest of a
  transfer call is stranded.  \<open>transfer\<close>, \<open>promise-result\<close> and \<open>public-interface\<close> strand nothing, nor does
  \<open>inconsistency\<close> as long as only its method \<open>withdraw\<close> is called.  And the callback of a payment in
  flight cannot panic, so a failed payment can always be credited back.\<close>

theorem withdrawals_conserve_balance:
  assumes "reachable (vault_init transfer_default)
      (vault_step from_slice transfer_withdraw transfer_callback_withdraw) w1"
    and "reachable (vault_init inconsistency_default)
      (vault_step from_slice inconsistency_withdraws inconsistency_callback_withdraw) w2"
    and "reachable (vault_init promise_result_default)
      (vault_step from_slice (single promise_result_withdraw) promise_result_callback_withdraw) w3"
    and "reachable (vault_init public_interface_default)
      (vault_step from_slice (single public_interface_withdraw) public_interface_callback_withdraw) w4"
    and "reachable (vault_init inconsistency_default)
      (vault_step from_slice (single inconsistency_withdraw) inconsistency_callback_withdraw) w5"
    and "predecessor_account_id e = current_account_id e" and "attached_deposit e = 0"
    and "promise_results e = [r]" and "r \<noteq> NotReady"
  shows "vault_total balance w1 = 100 \<and> vault_total balance w2 = 100 \<and>
     vault_total balance w3 = 100 \<and> vault_total balance w4 = 100 \<and> vault_total balance w5 = 100 \<and>
     stranded w1 = 0 \<and> stranded w3 = 0 \<and> stranded w4 = 0 \<and> stranded w5 = 0 \<and>
     (\<forall>(call, x) \<in># pending w1. returns (transfer_callback_withdraw e x (vault w1))) \<and>
     (\<forall>(call, x) \<in># pending w2. returns (inconsistency_callback_withdraw e x (vault w2))) \<and>
     (\<forall>(call, x) \<in># pending w3. returns (promise_result_callback_withdraw e x (vault w3))) \<and>
     (\<forall>(call, x) \<in># pending w4. returns (public_interface_callback_withdraw e x (vault w4)))"
  using transfer_run.reachable_conserves [OF assms(1)]
    transfer_run.pending_settles [OF assms(1) _ assms(8,9,6,7)]
    inconsistency_run.reachable_conserves(1) [OF assms(2)]
    inconsistency_run.pending_settles [OF assms(2) _ assms(8,9,6,7)]
    promise_result_run.reachable_conserves [OF assms(3)]
    promise_result_run.pending_settles [OF assms(3) _ assms(8,9,6,7)]
    public_interface_run.reachable_conserves [OF assms(4)]
    public_interface_run.pending_settles [OF assms(4) _ assms(8,9,6,7)]
    plain_inconsistency_run.reachable_conserves [OF assms(5)]
  by (auto simp: transfer_default_def inconsistency_default_def promise_result_default_def
      public_interface_default_def)

text \<open>
  Olga withdraws 60 natively and her payment fails.  From \<open>inconsistency\<close>, 60 are paid by a transfer
  call of which the receiver uses 45: 15 are stranded.
\<close>

definition vault_demo_run :: "TokenVault vault_run" where
  "vault_demo_run =
     \<lparr>vault = transfer_default\<lparr>balance := 40\<rparr>, pending = {#(False, 60)#}, paid = 0, stranded = 0\<rparr>"

definition vault_stranded_run :: "TokenVault vault_run" where
  "vault_stranded_run =
     \<lparr>vault = inconsistency_default\<lparr>balance := 40\<rparr>, pending = {#}, paid = 45, stranded = 15\<rparr>"

fun vault_demo_answer :: "bytes \<Rightarrow> u128 option" where
  "vault_demo_answer [b] = Some (ucast b)"
| "vault_demo_answer _ = None"

lemma vault_starts: "reachable (vault_init s) R \<lparr>vault = s, pending = {#}, paid = 0, stranded = 0\<rparr>"
  by (rule reachable_init) (simp add: vault_init_def)

lemma vault_demo_reachable:
  "reachable (vault_init transfer_default)
     (vault_step from_slice transfer_withdraw transfer_callback_withdraw) vault_demo_run"
proof (rule reachable_step [OF vault_starts])
  show "vault_step from_slice transfer_withdraw transfer_callback_withdraw
      \<lparr>vault = transfer_default, pending = {#}, paid = 0, stranded = 0\<rparr> vault_demo_run"
    using vault_request [where withdraw = transfer_withdraw and m = WithdrawNative
        and e = "vault_demo_env ''olga'' []" and x = 60 and s = transfer_default and P = "{#}"
        and n = 0 and k = 0 and callback = transfer_callback_withdraw and from_slice = from_slice]
    by (simp add: vault_demo_run_def transfer_withdraw_native_def transfer_default_def
        assert_not_payable_def debit_def sub_op_exact)
qed

lemma vault_stranded_reachable:
  "reachable (vault_init inconsistency_default)
     (vault_step vault_demo_answer inconsistency_withdraws inconsistency_callback_withdraw)
     vault_stranded_run"
proof -
  let ?R = "vault_step vault_demo_answer inconsistency_withdraws inconsistency_callback_withdraw"
  let ?w = "\<lparr>vault = inconsistency_default\<lparr>balance := 40\<rparr>, pending = {#(True, 60)#}, paid = 0, stranded = 0\<rparr>"
  have "?R \<lparr>vault = inconsistency_default, pending = {#}, paid = 0, stranded = 0\<rparr> ?w"
    using vault_request [where withdraw = inconsistency_withdraws and m = WithdrawCall
        and e = "vault_demo_env ''olga'' []" and x = 60 and s = inconsistency_default and P = "{#}"
        and n = 0 and k = 0 and callback = inconsistency_callback_withdraw
        and from_slice = vault_demo_answer]
    by (simp add: inconsistency_withdraw_call_def inconsistency_default_def assert_not_payable_def
        debit_def sub_op_exact)
  with vault_starts have "reachable (vault_init inconsistency_default) ?R ?w" by (rule reachable_step)
  moreover have "?R ?w vault_stranded_run"
    using vault_settle [where withdraw = inconsistency_withdraws and call = True and x = 60
        and P = "{#(True, 60)#}" and e = "vault_demo_env ''app'' [Successful [45]]" and r = "Successful [45]"
        and s = "inconsistency_default\<lparr>balance := 40\<rparr>" and s' = "inconsistency_default\<lparr>balance := 40\<rparr>"
        and n = 0 and k = 0 and callback = inconsistency_callback_withdraw
        and from_slice = vault_demo_answer]
    by (simp add: vault_stranded_run_def inconsistency_callback_withdraw_def assert_private_def
        assert_not_payable_def credit_if_failed_def env_promise_result_def paid_by_def min_def)
  ultimately show ?thesis by (rule reachable_step)
qed

theorem withdrawals_conserve_balance_witness:
  "vault_total balance vault_demo_run = 100 \<and> vault_total balance vault_stranded_run = 100 \<and>
   stranded vault_demo_run = 0 \<and> stranded vault_stranded_run = 15 \<and>
   returns (transfer_callback_withdraw (vault_demo_env ''app'' [Failed]) 60 (vault vault_demo_run))"
  using withdrawals_conserve_balance [OF vault_demo_reachable vault_stranded_reachable vault_starts
      vault_starts vault_starts, of "vault_demo_env ''app'' [Failed]" Failed]
  by (simp add: vault_demo_run_def vault_stranded_run_def)

subsection \<open>The crates that do not keep it\<close>

text \<open>A sequence of withdrawals before any callback, and the callbacks of successful payments.\<close>

fun victim_withdraws ::
    "env \<Rightarrow> u64 \<Rightarrow> u128 list \<Rightarrow> TokenVault \<Rightarrow> (TokenVault \<times> victim_effects list) vault_result" where
  "victim_withdraws e k [] s = Inr (s, [])"
| "victim_withdraws e k (x # xs) s =
     rbind (victim_withdraw e k x s) (\<lambda>(s1, h).
     rbind (victim_withdraws e k xs s1) (\<lambda>(s2, hs). Inr (s2, h # hs)))"

fun victim_settles :: "env \<Rightarrow> u64 \<Rightarrow> u128 list \<Rightarrow> TokenVault \<Rightarrow> TokenVault vault_result" where
  "victim_settles e k [] s = Inr s"
| "victim_settles e k (x # xs) s =
     rbind (victim_callback_withdraw e k x s) (\<lambda>(s1, h). victim_settles e k xs s1)"

lemma victim_withdraws_granted:
  assumes "attached_deposit e = 0" and "\<forall>x \<in> set xs. x \<le> balance s"
  shows "\<exists>hs. victim_withdraws e k xs s = Inr (s, hs) \<and> sum_list (map pending_of hs) = mset xs"
  using assms
  by (induction xs) (auto simp: victim_withdraw_def assert_not_payable_def pending_of_def payments_of_def)

lemma victim_callback_success:
  assumes "predecessor_account_id e = current_account_id e" and "attached_deposit e = 0"
    and "promise_results e = [Successful v]" and "overflow_checks e"
  shows "victim_callback_withdraw e k x s =
     (if x \<le> balance s
      then Inr (s\<lparr>balance := balance s - x\<rparr>, log (LogCallbackWithdraw k) no_effects)
      else Inl ArithmeticOverflow)"
  using assms
  by (simp add: victim_callback_withdraw_def assert_private_def assert_not_payable_def
      env_promise_result_def sub_op_def plain_op_def checked_sub_def)

lemma victim_settles_returns:
  assumes "predecessor_account_id e = current_account_id e" and "attached_deposit e = 0"
    and "promise_results e = [Successful v]" and "overflow_checks e"
  shows "returns (victim_settles e k xs s) \<longleftrightarrow> sum_list (map unat xs) \<le> unat (balance s)"
proof (induction xs arbitrary: s)
  case (Cons x xs)
  show ?case
  proof (cases "x \<le> balance s")
    case True
    then show ?thesis
      using Cons unat_balance_split [OF True] by (simp add: victim_callback_success [OF assms])
  next
    case False
    then have "unat (balance s) < unat x" by (simp add: word_le_nat_alt)
    with False show ?thesis by (simp add: victim_callback_success [OF assms])
  qed
qed simp

text \<open>The reentrancy of \<open>reentrancy\<close>.  Before the first callback arrives, every sequence of
  withdrawals is granted as long as each single amount is at most the balance: the state never
  changes, and each of them orders its own payment and callback.  So payments of any total can be
  outstanding; when they all succeed, the callbacks can all record them only if the total is at most
  the balance, otherwise one of them panics after the tokens have gone.\<close>

theorem victim_can_be_drained:
  assumes "attached_deposit e = 0" and "\<forall>x \<in> set xs. x \<le> balance s"
    and "predecessor_account_id cb = current_account_id cb" and "attached_deposit cb = 0"
    and "promise_results cb = [Successful v]" and "overflow_checks cb"
  shows "(\<exists>hs. victim_withdraws e k xs s = Inr (s, hs) \<and>
            sum_list (map pending_of hs) = mset xs) \<and>
         (returns (victim_settles cb k xs s) \<longleftrightarrow> sum_list (map unat xs) \<le> unat (balance s))"
  using victim_withdraws_granted [OF assms(1,2)] victim_settles_returns [OF assms(3-6)]
  by (intro conjI)

theorem victim_can_be_drained_witness:
  "(\<exists>hs. victim_withdraws (vault_demo_env ''attacker.test.near'' []) 7 [80, 90] victim_default =
      Inr (victim_default, hs)) \<and>
   \<not> returns (victim_settles (vault_demo_env ''app'' [Successful []]) 7 [80, 90] victim_default)"
  using victim_can_be_drained [of "vault_demo_env ''attacker.test.near'' []" "[80, 90]"
      victim_default "vault_demo_env ''app'' [Successful []]" "[]" 7]
  by (auto simp: victim_default_def)

text \<open>One step of the crate \<open>unhandled-promise\<close>: a call of either method.\<close>

definition unhandled_step :: "TokenVault \<Rightarrow> TokenVault \<Rightarrow> bool" where
  "unhandled_step s s' \<longleftrightarrow> (\<exists>e x h.
     withdraw_without_promise e x s = Inr (s', h) \<or> withdraw_with_promise e x s = Inr (s', h))"

lemma unhandled_withdraw_iff [result_simps]:
  "withdraw_without_promise e x s = Inr (s', h) \<longleftrightarrow>
     attached_deposit e = 0 \<and> x \<le> balance s \<and> s' = s\<lparr>balance := balance s - x\<rparr> \<and>
     h = schedule (FunctionCall (token_id s) (FtTransferTo (depositor s) x None) 1
           unhandled_gas_ft_transfer) no_effects"
  "withdraw_with_promise e x s = Inr (s', h) \<longleftrightarrow>
     attached_deposit e = 0 \<and> x \<le> balance s \<and> s' = s\<lparr>balance := balance s - x\<rparr> \<and>
     h = schedule (FunctionCall (token_id s) (FtTransferTo (depositor s) x None) 1
           unhandled_gas_ft_transfer) no_effects"
  by (auto simp: withdraw_without_promise_def withdraw_with_promise_def
      transfer_without_promise_def transfer_with_promise_def result_simps)

lemma unhandled_reachable_le:
  "reachable ((=) s) unhandled_step t \<Longrightarrow> balance t \<le> balance s"
proof (induction rule: reachable.induct)
  case (reachable_step t u)
  from \<open>unhandled_step t u\<close> have "balance u \<le> balance t"
    by (auto simp: unhandled_step_def result_simps word_sub_le)
  with reachable_step.IH show ?case by simp
qed simp

text \<open>In \<open>unhandled-promise\<close> a withdrawal debits the balance and orders one token transfer
  without a callback, whichever of the two methods is called, and returning the promise to the
  caller or dropping it makes no difference.  Whatever becomes of that transfer, and whatever the
  contract is called with later, the balance stays at or below what the withdrawal left: the amount
  of a failed transfer is never credited back.\<close>

theorem unhandled_withdrawal_is_final:
  assumes "withdraw_without_promise e x s = Inr (s', h) \<or> withdraw_with_promise e x s = Inr (s', h)"
    and "reachable ((=) s') unhandled_step t"
  shows "unat (balance s') + unat x = unat (balance s) \<and>
     promises h = [FunctionCall (token_id s) (FtTransferTo (depositor s) x None) 1
       unhandled_gas_ft_transfer] \<and>
     pending_of h = {#} \<and> unat (balance t) + unat x \<le> unat (balance s)"
proof -
  have le: "x \<le> balance s" and s': "balance s' = balance s - x"
    and h: "promises h = [FunctionCall (token_id s) (FtTransferTo (depositor s) x None) 1
       unhandled_gas_ft_transfer]"
    using assms(1) by (auto simp: result_simps)
  have "unat (balance s') + unat x = unat (balance s)"
    using unat_balance_split [OF le] s' by simp
  moreover have "unat (balance t) \<le> unat (balance s')"
    using unhandled_reachable_le [OF assms(2)] by (simp add: word_le_nat_alt)
  ultimately show ?thesis using h by (simp add: pending_of_def payments_of_def)
qed

theorem unhandled_withdrawal_is_final_witness:
  "\<exists>s' h. withdraw_with_promise (vault_demo_env ''depositor.near'' []) 70 unhandled_default =
     Inr (s', h) \<and> unat (balance s') = 30 \<and> pending_of h = {#}"
proof -
  have "\<exists>s' h. withdraw_with_promise (vault_demo_env ''depositor.near'' []) 70 unhandled_default =
      Inr (s', h)"
    by (simp add: result_simps unhandled_default_def)
  then obtain s' h where run:
    "withdraw_with_promise (vault_demo_env ''depositor.near'' []) 70 unhandled_default = Inr (s', h)"
    by blast
  have "reachable ((=) s') unhandled_step s'" by (rule reachable_init) simp
  from unhandled_withdrawal_is_final [OF disjI2 [OF run] this]
  have "unat (balance s') = 30 \<and> pending_of h = {#}" by (simp add: unhandled_default_def)
  with run show ?thesis by blast
qed

end
