(* ===== verification/TokenVaults.thy ===== *)
theory TokenVaults
  imports Withdrawals FtStorage
begin

section \<open>Two contracts together: a vault and the token it pays in\<close>

text \<open>
  The crates \<open>transfer\<close> and \<open>inconsistency\<close> pay a depositor by calling \<open>ft_transfer\<close> on a token
  contract.  Here the token contract is the fungible token of \<open>nep-interface\<close>, and the two run
  together: a withdrawal sends a receipt to the token, the token executes it at some later time,
  its outcome comes back as a callback at some later time, and in between anybody uses the token.
  The locale \<open>token_vault\<close> says what a withdrawal and a callback owe each other; the theorems say
  that the vault never owes more than it holds, and that the receipts in flight always drain.
\<close>

subsection \<open>The two contracts and the receipts between them\<close>

text \<open>
  A payment on its way to the token (receiver, amount, memo, deposit, and the amount its callback
  will carry), and a callback on its way to the vault with the outcome of the payment.
\<close>

datatype receipt =
    PayReceipt AccountId u128 "string option" Balance u128
  | CallbackReceipt u128 PromiseResult

record 'm market =
  market_vault :: TokenVault
  market_ledger :: "'m FungibleToken"
  in_flight :: "receipt multiset"
  paid_out :: nat

fun receipts_of_promise :: "AccountId \<Rightarrow> AccountId \<Rightarrow> VaultCall Promise \<Rightarrow> receipt multiset" where
  "receipts_of_promise tok self
     (Then (FunctionCall a (FtTransferTo r x memo) d g) (FunctionCall b (CallbackWithdraw y) d' g')) =
     (if a = tok \<and> b = self then {#PayReceipt r x memo d y#} else {#})"
| "receipts_of_promise tok self p = {#}"

definition receipts_of :: "AccountId \<Rightarrow> AccountId \<Rightarrow> vault_effects \<Rightarrow> receipt multiset" where
  "receipts_of tok self h = sum_list (map (receipts_of_promise tok self) (promises h))"

text \<open>
  The steps that work off what is in flight: the token executes a payment, or the payment fails
  (because the token panics, or for lack of gas), or the vault runs a callback.
\<close>

inductive market_settle ::
    "'m balances_ops \<Rightarrow> AccountId \<Rightarrow> (env \<Rightarrow> u128 \<Rightarrow> TokenVault \<Rightarrow> TokenVault vault_result) \<Rightarrow>
     'm market \<Rightarrow> 'm market \<Rightarrow> bool"
  for L :: "'m balances_ops" and self :: AccountId
    and callback :: "env \<Rightarrow> u128 \<Rightarrow> TokenVault \<Rightarrow> TokenVault vault_result" where
  market_pay:
    "PayReceipt r x memo d y \<in># F \<Longrightarrow> predecessor_account_id e = self \<Longrightarrow> attached_deposit e = d \<Longrightarrow>
     ft_transfer L e t no_effects r x memo = Inr (t', h) \<Longrightarrow>
     market_settle L self callback
       \<lparr>market_vault = v, market_ledger = t, in_flight = F, paid_out = n\<rparr>
       \<lparr>market_vault = v, market_ledger = t',
        in_flight = add_mset (CallbackReceipt y (Successful [])) (F - {#PayReceipt r x memo d y#}),
        paid_out = n\<rparr>"
| market_pay_fails:
    "PayReceipt r x memo d y \<in># F \<Longrightarrow>
     market_settle L self callback
       \<lparr>market_vault = v, market_ledger = t, in_flight = F, paid_out = n\<rparr>
       \<lparr>market_vault = v, market_ledger = t,
        in_flight = add_mset (CallbackReceipt y Failed) (F - {#PayReceipt r x memo d y#}),
        paid_out = n\<rparr>"
| market_callback:
    "CallbackReceipt y r \<in># F \<Longrightarrow> current_account_id e = self \<Longrightarrow> promise_results e = [r] \<Longrightarrow>
     callback e y v = Inr v' \<Longrightarrow>
     market_settle L self callback
       \<lparr>market_vault = v, market_ledger = t, in_flight = F, paid_out = n\<rparr>
       \<lparr>market_vault = v', market_ledger = t, in_flight = F - {#CallbackReceipt y r#},
        paid_out = n + (if r = Failed then 0 else unat y)\<rparr>"

text \<open>
  The steps of everybody else: a withdrawal, called by any account, and transfers, registrations
  and unregistrations on the token by any account but the vault.
\<close>

inductive market_act ::
    "'m balances_ops \<Rightarrow> AccountId \<Rightarrow> AccountId \<Rightarrow>
     (env \<Rightarrow> u128 \<Rightarrow> TokenVault \<Rightarrow> (TokenVault \<times> vault_effects) vault_result) \<Rightarrow>
     'm market \<Rightarrow> 'm market \<Rightarrow> bool"
  for L :: "'m balances_ops" and tok self :: AccountId
    and withdraw :: "env \<Rightarrow> u128 \<Rightarrow> TokenVault \<Rightarrow> (TokenVault \<times> vault_effects) vault_result" where
  market_withdraw:
    "current_account_id e = self \<Longrightarrow> withdraw e x v = Inr (v', h) \<Longrightarrow>
     market_act L tok self withdraw
       \<lparr>market_vault = v, market_ledger = t, in_flight = F, paid_out = n\<rparr>
       \<lparr>market_vault = v', market_ledger = t, in_flight = F + receipts_of tok self h, paid_out = n\<rparr>"
| market_transfer:
    "predecessor_account_id e \<noteq> self \<Longrightarrow>
     ft_transfer L e t no_effects r x memo = Inr (t', h) \<Longrightarrow>
     market_act L tok self withdraw
       \<lparr>market_vault = v, market_ledger = t, in_flight = F, paid_out = n\<rparr>
       \<lparr>market_vault = v, market_ledger = t', in_flight = F, paid_out = n\<rparr>"
| market_register:
    "ft_storage_deposit L e t no_effects a only = Inr (t', h, sb) \<Longrightarrow>
     market_act L tok self withdraw
       \<lparr>market_vault = v, market_ledger = t, in_flight = F, paid_out = n\<rparr>
       \<lparr>market_vault = v, market_ledger = t', in_flight = F, paid_out = n\<rparr>"
| market_unregister:
    "predecessor_account_id e \<noteq> self \<Longrightarrow>
     ft_storage_unregister L e t no_effects force = Inr (t', h, b) \<Longrightarrow>
     market_act L tok self withdraw
       \<lparr>market_vault = v, market_ledger = t, in_flight = F, paid_out = n\<rparr>
       \<lparr>market_vault = v, market_ledger = t', in_flight = F, paid_out = n\<rparr>"

definition market_step ::
    "'m balances_ops \<Rightarrow> AccountId \<Rightarrow> AccountId \<Rightarrow>
     (env \<Rightarrow> u128 \<Rightarrow> TokenVault \<Rightarrow> (TokenVault \<times> vault_effects) vault_result) \<Rightarrow>
     (env \<Rightarrow> u128 \<Rightarrow> TokenVault \<Rightarrow> TokenVault vault_result) \<Rightarrow> 'm market \<Rightarrow> 'm market \<Rightarrow> bool" where
  "market_step L tok self withdraw callback w w' \<longleftrightarrow>
     market_settle L self callback w w' \<or> market_act L tok self withdraw w w'"

text \<open>
  At the start nothing is in flight, and the token's books credit the vault with at least what the
  vault owes its depositor.
\<close>

definition market_init ::
    "'m balances_ops \<Rightarrow> AccountId \<Rightarrow> TokenVault \<Rightarrow> 'm market \<Rightarrow> bool" where
  "market_init L self v0 w \<longleftrightarrow>
     market_vault w = v0 \<and> in_flight w = {#} \<and> paid_out w = 0 \<and>
     ft_supply_ok L (market_ledger w) \<and>
     unat (balance v0) \<le> unat (ft_balance_of L (market_ledger w) self)"

subsection \<open>What is owed\<close>

fun receipt_amount :: "receipt \<Rightarrow> nat" where
  "receipt_amount (PayReceipt r x memo d y) = unat y"
| "receipt_amount (CallbackReceipt y r) = unat y"

fun receipt_owed :: "receipt \<Rightarrow> nat" where
  "receipt_owed (PayReceipt r x memo d y) = unat y"
| "receipt_owed (CallbackReceipt y r) = (if r = Failed then unat y else 0)"

text \<open>How much work a receipt is: a payment still has its callback before it.\<close>

fun receipt_work :: "receipt \<Rightarrow> nat" where
  "receipt_work (PayReceipt r x memo d y) = 2"
| "receipt_work (CallbackReceipt y r) = 1"

text \<open>The receipts that a withdrawal to \<open>dep\<close> causes.\<close>

fun receipt_ok :: "AccountId \<Rightarrow> receipt \<Rightarrow> bool" where
  "receipt_ok dep (PayReceipt r x memo d y) \<longleftrightarrow> r = dep \<and> d = 1 \<and> x = y"
| "receipt_ok dep (CallbackReceipt y r) \<longleftrightarrow> r \<noteq> NotReady"

definition sum_over :: "(receipt \<Rightarrow> nat) \<Rightarrow> receipt multiset \<Rightarrow> nat" where
  "sum_over f F = sum_mset (image_mset f F)"

lemma sum_over_simps [simp]:
  "sum_over f {#} = 0" "sum_over f (add_mset r F) = f r + sum_over f F"
  "sum_over f (F + G) = sum_over f F + sum_over f G"
  by (simp_all add: sum_over_def)

lemma sum_over_remove: "r \<in># F \<Longrightarrow> sum_over f F = f r + sum_over f (F - {#r#})"
  by (metis insert_DiffM sum_over_simps(2))

text \<open>A relation that cannot be followed for ever can be followed to an end.\<close>

lemma wf_run_ends:
  assumes "wfP (\<lambda>y x. R x y)"
  shows "\<exists>y. R\<^sup>*\<^sup>* x y \<and> (\<nexists>z. R y z)"
  using assms
proof (induction x rule: wfp_induct_rule)
  case (less x)
  then show ?case by (meson converse_rtranclp_into_rtranclp rtranclp.rtrancl_refl)
qed

lemma owed_le_amount: "sum_over receipt_owed F \<le> sum_over receipt_amount F"
proof (induction F)
  case (add r F)
  then show ?case by (cases r) auto
qed simp

subsection \<open>The vault's account on the token\<close>

context balance_store
begin

lemma internal_transfer_balance_of:
  assumes "ft_internal_transfer L t h s r x memo = Inr (t', h')"
  shows "s \<noteq> r" and "0 < x"
    and "unat (ft_balance_of L t' s) + unat x = unat (ft_balance_of L t s)"
    and "unat (ft_balance_of L t' r) = unat (ft_balance_of L t r) + unat x"
    and "a \<noteq> s \<Longrightarrow> a \<noteq> r \<Longrightarrow> ft_balance_of L t' a = ft_balance_of L t a"
proof -
  from assms obtain b c where sr: "s \<noteq> r" "0 < x" "ft_balances L t s = Some b"
    "ft_balances L t r = Some c" "unat x \<le> unat b" "unat c + unat x < 2 ^ 128"
    "ft_balances L t' = (ft_balances L t)(s \<mapsto> b - x, r \<mapsto> c + x)"
    by (auto simp: internal_transfer_iff ft_balances_def map_laws)
  then have "ft_balance_of L t' s = b - x" "ft_balance_of L t s = b"
    "ft_balance_of L t' r = c + x" "ft_balance_of L t r = c"
    by (simp_all add: ft_balance_of_def ft_balances_def)
  then show "s \<noteq> r" "0 < x" "unat (ft_balance_of L t' s) + unat x = unat (ft_balance_of L t s)"
    "unat (ft_balance_of L t' r) = unat (ft_balance_of L t r) + unat x"
    using sr by (simp_all add: unat_sub_exact unat_add_u128)
  show "a \<noteq> s \<Longrightarrow> a \<noteq> r \<Longrightarrow> ft_balance_of L t' a = ft_balance_of L t a"
    using sr(7) by (simp add: ft_balance_of_def ft_balances_def)
qed

lemma transfer_balance_of:
  assumes "ft_transfer L e t h r x memo = Inr (t', h')"
  shows "predecessor_account_id e \<noteq> r" and "0 < x"
    and "unat (ft_balance_of L t' (predecessor_account_id e)) + unat x =
           unat (ft_balance_of L t (predecessor_account_id e))"
    and "unat (ft_balance_of L t' r) = unat (ft_balance_of L t r) + unat x"
    and "a \<noteq> predecessor_account_id e \<Longrightarrow> a \<noteq> r \<Longrightarrow> ft_balance_of L t' a = ft_balance_of L t a"
proof -
  from assms obtain h1 where
    "ft_internal_transfer L t h (predecessor_account_id e) r x memo = Inr (t', h1)"
    by (auto simp: ft_transfer_def result_simps Let_def)
  note moves = internal_transfer_balance_of [OF this]
  then show "predecessor_account_id e \<noteq> r" "0 < x"
    "unat (ft_balance_of L t' (predecessor_account_id e)) + unat x =
       unat (ft_balance_of L t (predecessor_account_id e))"
    "unat (ft_balance_of L t' r) = unat (ft_balance_of L t r) + unat x"
    "a \<noteq> predecessor_account_id e \<Longrightarrow> a \<noteq> r \<Longrightarrow> ft_balance_of L t' a = ft_balance_of L t a"
    by simp_all
qed

lemma transfer_call_pays:
  assumes "ft_transfer_call L e t h r x memo msg = Inr (t', h')"
  shows "predecessor_account_id e \<noteq> r" and "0 < x"
    and "unat x \<le> unat (ft_balance_of L t (predecessor_account_id e))"
    and "unat (ft_balance_of L t' (predecessor_account_id e)) + unat x =
           unat (ft_balance_of L t (predecessor_account_id e))"
    and "unat (ft_balance_of L t' r) = unat (ft_balance_of L t r) + unat x"
proof -
  obtain h1 where "ft_internal_transfer L t h (predecessor_account_id e) r x memo = Inr (t', h1)"
    using assms by (auto simp: transfer_call_iff)
  note moves = internal_transfer_balance_of [OF this]
  then show "predecessor_account_id e \<noteq> r" "0 < x"
    "unat (ft_balance_of L t' (predecessor_account_id e)) + unat x =
       unat (ft_balance_of L t (predecessor_account_id e))"
    "unat (ft_balance_of L t' r) = unat (ft_balance_of L t r) + unat x"
    by simp_all
  then show "unat x \<le> unat (ft_balance_of L t (predecessor_account_id e))" by linarith
qed

text \<open>Nobody but its owner takes anything out of an account.\<close>

lemma transfer_by_others:
  assumes "ft_transfer L e t h r x memo = Inr (t', h')" and "predecessor_account_id e \<noteq> a"
  shows "unat (ft_balance_of L t a) \<le> unat (ft_balance_of L t' a)"
  using transfer_balance_of [OF assms(1)] assms(2) by (cases "a = r") simp_all

lemma storage_deposit_balance_of:
  assumes "ft_storage_deposit L e t h acc only = Inr (t', h', sb)"
  shows "ft_balance_of L t' a = ft_balance_of L t a"
proof -
  have "t' = t \<or> (\<exists>b. ft_internal_register_account L t b = Inr t')"
    using assms by (auto simp: ft_storage_deposit_def result_simps Let_def split: if_splits)
  then show ?thesis
    by (auto simp: register_iff ft_balance_of_def ft_balances_def map_laws)
qed

lemma storage_unregister_balance_of:
  assumes "ft_storage_unregister L e t h force = Inr (t', h', b)" and "predecessor_account_id e \<noteq> a"
  shows "ft_balance_of L t' a = ft_balance_of L t a"
proof -
  have "lm_get L (accounts t') = lm_get L (accounts t) \<or>
      lm_get L (accounts t') = (lm_get L (accounts t))(predecessor_account_id e := None)"
    using assms(1)
    by (auto simp: ft_storage_unregister_def ft_internal_storage_unregister_def result_simps Let_def
        map_laws split: option.splits if_splits)
  then show ?thesis using assms(2) by (auto simp: ft_balance_of_def)
qed

lemma storage_unregister_supply_ok:
  "ft_supply_ok L t \<Longrightarrow> ft_storage_unregister L e t h force = Inr (t', h', b) \<Longrightarrow> ft_supply_ok L t'"
  by (auto simp: ft_storage_unregister_def result_simps dest: internal_unregister_supply_ok)

lemma ft_transfer_supply_ok:
  "ft_supply_ok L t \<Longrightarrow> ft_transfer L e t h r x memo = Inr (t', h') \<Longrightarrow> ft_supply_ok L t'"
  using internal_transfer_supply_ok by (auto simp: ft_transfer_def result_simps Let_def)

text \<open>A transfer that the sender can cover returns exactly if the token accepts the receiver.\<close>

lemma ft_transfer_covered:
  assumes "ft_supply_ok L t" and "unat x \<le> unat (ft_balance_of L t (predecessor_account_id e))"
    and "attached_deposit e = 1"
  shows "returns (ft_transfer L e t h r x memo) \<longleftrightarrow>
     0 < x \<and> predecessor_account_id e \<noteq> r \<and> ft_balances L t r \<noteq> None"
proof -
  have "\<exists>b. ft_balances L t (predecessor_account_id e) = Some b \<and> unat x \<le> unat b" if "0 < x"
    using that assms(2)
    by (cases "lm_get L (accounts t) (predecessor_account_id e)")
      (auto simp: ft_balance_of_def ft_balances_def word_less_nat_alt)
  then show ?thesis
    using assms
    by (auto simp: ft_transfer_def assert_one_yocto_def returns_def result_simps
        internal_transfer_ok_iff)
qed

end

subsection \<open>The interface between the vault and the token\<close>

locale token_vault = balance_store L
  for L :: "'m balances_ops" +
  fixes tok self :: AccountId
    and withdraw :: "env \<Rightarrow> u128 \<Rightarrow> TokenVault \<Rightarrow> (TokenVault \<times> vault_effects) vault_result"
    and callback :: "env \<Rightarrow> u128 \<Rightarrow> TokenVault \<Rightarrow> TokenVault vault_result"
    and v0 :: TokenVault
  assumes vault_token: "token_id v0 = tok"
    and withdraw_orders: "current_account_id e = self \<Longrightarrow> withdraw e x v = Inr (v', h) \<Longrightarrow>
      token_id v = tok \<Longrightarrow>
      unat (balance v) = unat (balance v') + unat x \<and> token_id v' = token_id v \<and>
      depositor v' = depositor v \<and> receipts_of tok self h = {#PayReceipt (depositor v) x None 1 x#}"
    and callback_settles: "promise_results e = [r] \<Longrightarrow> unat (balance v) + unat x < 2 ^ 128 \<Longrightarrow>
      callback e x v = Inr v' \<Longrightarrow>
      unat (balance v') = unat (balance v) + (if r = Failed then unat x else 0) \<and>
      token_id v' = token_id v \<and> depositor v' = depositor v"
    and callback_runs: "promise_results e = [r] \<Longrightarrow> r \<noteq> NotReady \<Longrightarrow>
      predecessor_account_id e = current_account_id e \<Longrightarrow> attached_deposit e = 0 \<Longrightarrow>
      unat (balance v) + unat x < 2 ^ 128 \<Longrightarrow> \<exists>v'. callback e x v = Inr v'"
begin

definition market_ok :: "'m market \<Rightarrow> bool" where
  "market_ok w \<longleftrightarrow>
     ft_supply_ok L (market_ledger w) \<and>
     token_id (market_vault w) = tok \<and> depositor (market_vault w) = depositor v0 \<and>
     (\<forall>r \<in># in_flight w. receipt_ok (depositor v0) r) \<and>
     unat (balance (market_vault w)) + sum_over receipt_amount (in_flight w) + paid_out w =
       unat (balance v0) \<and>
     unat (balance (market_vault w)) + sum_over receipt_owed (in_flight w) \<le>
       unat (ft_balance_of L (market_ledger w) self)"

lemma market_init_ok: "market_init L self v0 w \<Longrightarrow> market_ok w"
  by (simp add: market_init_def market_ok_def vault_token)

lemma receipt_fits:
  assumes "market_ok w" and "r \<in># in_flight w"
  shows "unat (balance (market_vault w)) + receipt_amount r < 2 ^ 128"
proof -
  have "unat (balance (market_vault w)) + receipt_amount r \<le> unat (balance v0)"
    using assms sum_over_remove [OF assms(2), of receipt_amount] by (simp add: market_ok_def)
  then show ?thesis using u128_less_pow by (rule le_less_trans)
qed

lemma market_settle_ok:
  assumes "market_ok w" and "market_settle L self callback w w'"
  shows "market_ok w'"
  using assms(2)
proof cases
  case (market_pay r x memo d y F e t t' h v n)
  have F: "sum_over f F = f (PayReceipt r x memo d y) + sum_over f (F - {#PayReceipt r x memo d y#})" for f
    using market_pay(3) by (rule sum_over_remove)
  have ok: "r = depositor v0" "d = 1" "x = y" "ft_supply_ok L t"
    using assms(1) market_pay(1,3) by (auto simp: market_ok_def)
  have self: "unat (ft_balance_of L t' self) + unat x = unat (ft_balance_of L t self)"
    using transfer_balance_of(3) [OF market_pay(6)] market_pay(4) by simp
  have "ft_supply_ok L t'" by (rule ft_transfer_supply_ok [OF ok(4) market_pay(6)])
  then show ?thesis
    using assms(1) market_pay(1,2) ok self F [of receipt_amount] F [of receipt_owed]
    by (auto simp: market_ok_def dest: in_diffD)
next
  case (market_pay_fails r x memo d y F v t n)
  have "sum_over f F = f (PayReceipt r x memo d y) + sum_over f (F - {#PayReceipt r x memo d y#})" for f
    using market_pay_fails(3) by (rule sum_over_remove)
  from this [of receipt_amount] this [of receipt_owed] show ?thesis
    using assms(1) market_pay_fails by (auto simp: market_ok_def dest: in_diffD)
next
  case (market_callback y r F e v v' t n)
  have F: "sum_over f F = f (CallbackReceipt y r) + sum_over f (F - {#CallbackReceipt y r#})" for f
    using market_callback(3) by (rule sum_over_remove)
  have "unat (balance v) + unat y < 2 ^ 128"
    using receipt_fits [OF assms(1), of "CallbackReceipt y r"] market_callback by simp
  from callback_settles [OF market_callback(5) this market_callback(6)]
  show ?thesis
    using assms(1) market_callback(1,2) F [of receipt_amount] F [of receipt_owed]
    by (auto simp: market_ok_def dest: in_diffD)
qed

lemma market_act_ok:
  assumes "market_ok w" and "market_act L tok self withdraw w w'"
  shows "market_ok w'"
  using assms(2)
proof cases
  case (market_withdraw e x v v' h t F n)
  then show ?thesis
    using assms(1) withdraw_orders [OF market_withdraw(3,4)] by (auto simp: market_ok_def)
next
  case (market_transfer e t r x memo t' h v F n)
  then show ?thesis
    using assms(1) ft_transfer_supply_ok [OF _ market_transfer(4)]
      transfer_by_others [OF market_transfer(4,3)] by (auto simp: market_ok_def)
next
  case (market_register e t a only t' h sb v F n)
  then show ?thesis
    using assms(1) deposit_storage_supply_ok [OF _ market_register(3)]
      storage_deposit_balance_of [OF market_register(3)] by (auto simp: market_ok_def)
next
  case (market_unregister e t force t' h b v F n)
  then show ?thesis
    using assms(1) storage_unregister_supply_ok [OF _ market_unregister(4)]
      storage_unregister_balance_of [OF market_unregister(4,3)] by (auto simp: market_ok_def)
qed

sublocale chain: invariant_system "market_init L self v0"
  "market_step L tok self withdraw callback" market_ok
  by unfold_locales
    (auto simp: market_step_def intro: market_init_ok market_settle_ok market_act_ok)

lemma reachable_market_ok:
  "reachable (market_init L self v0) (market_step L tok self withdraw callback) w \<Longrightarrow> market_ok w"
  by (rule chain.reachable_inv)

lemma market_settles_ok:
  "market_ok w \<Longrightarrow> (market_settle L self callback)\<^sup>*\<^sup>* w w' \<Longrightarrow> market_ok w'"
  by (erule rtranclp_induct) (auto intro: market_settle_ok)

lemma market_ok_solvent:
  "market_ok w \<Longrightarrow>
     unat (balance (market_vault w)) + sum_over receipt_amount (in_flight w) + paid_out w =
       unat (balance v0) \<and>
     unat (balance (market_vault w)) + sum_over receipt_owed (in_flight w) \<le>
       unat (ft_balance_of L (market_ledger w) self)"
  by (simp add: market_ok_def)

lemma payment_answered:
  assumes "market_ok w" and "PayReceipt r x memo d y \<in># in_flight w"
    and "predecessor_account_id e = self" and "attached_deposit e = d"
  shows "returns (ft_transfer L e (market_ledger w) h r x memo) \<longleftrightarrow>
     0 < x \<and> self \<noteq> r \<and> ft_balances L (market_ledger w) r \<noteq> None"
proof -
  have "attached_deposit e = 1"
    and "unat x \<le> unat (ft_balance_of L (market_ledger w) (predecessor_account_id e))"
    using assms sum_over_remove [OF assms(2), of receipt_owed] by (auto simp: market_ok_def)
  moreover have "ft_supply_ok L (market_ledger w)" using assms(1) by (simp add: market_ok_def)
  ultimately show ?thesis using ft_transfer_covered assms(3) by blast
qed

text \<open>Settling always ends, and while something is in flight it can go on.\<close>

lemma market_settle_work:
  "market_settle L self callback w w' \<Longrightarrow>
   sum_over receipt_work (in_flight w') < sum_over receipt_work (in_flight w)"
  by (induction rule: market_settle.induct) (simp_all add: sum_over_remove)

lemma market_settle_wf: "wfP (\<lambda>w' w. market_settle L self callback w w')"
  by (rule wfp_if_convertible_to_nat [where f = "\<lambda>w. sum_over receipt_work (in_flight w)"])
    (rule market_settle_work)

lemma market_settle_progress:
  assumes "market_ok w" and "in_flight w \<noteq> {#}"
  shows "\<exists>w'. market_settle L self callback w w'"
proof -
  obtain v t F n where w: "w = \<lparr>market_vault = v, market_ledger = t, in_flight = F, paid_out = n\<rparr>"
    by (cases w)
  from assms(2) obtain r where r: "r \<in># F" by (auto simp: w)
  show ?thesis
  proof (cases r)
    case (PayReceipt a x memo d y)
    then show ?thesis using r market_pay_fails unfolding w by blast
  next
    case (CallbackReceipt y res)
    let ?e = "\<lparr>current_account_id = self, predecessor_account_id = self, attached_deposit = 0,
      prepaid_gas = 0, used_gas = 0, block_timestamp = 0, storage_byte_cost = 0,
      promise_results = [res], overflow_checks = True\<rparr>"
    have "res \<noteq> NotReady" "unat (balance v) + unat y < 2 ^ 128"
      using assms(1) r CallbackReceipt receipt_fits [OF assms(1), of r]
      by (auto simp: market_ok_def w)
    then obtain v' where "callback ?e y v = Inr v'"
      using callback_runs [of ?e res] by auto
    moreover have "CallbackReceipt y res \<in># F" using r CallbackReceipt by simp
    moreover have "current_account_id ?e = self" and "promise_results ?e = [res]" by simp_all
    ultimately show ?thesis using market_callback unfolding w by blast
  qed
qed

lemma market_settles_end:
  assumes "market_ok w" and "(market_settle L self callback)\<^sup>*\<^sup>* w w'"
    and "\<nexists>w''. market_settle L self callback w' w''"
  shows "in_flight w' = {#} \<and> unat (balance (market_vault w')) + paid_out w' = unat (balance v0)"
proof -
  have ok: "market_ok w'" by (rule market_settles_ok [OF assms(1,2)])
  with market_settle_progress assms(3) have "in_flight w' = {#}" by blast
  with market_ok_solvent [OF ok] show ?thesis by simp
qed

end

subsection \<open>The two crates that pay with \<open>ft_transfer\<close>\<close>

text \<open>A token of the given name is any address; the crates' default vaults name theirs.\<close>

lemma receipts_of_pay_then_callback:
  "receipts_of tok self (pay_then_callback e
       (FunctionCall a (FtTransferTo r x memo) d g) gas y) =
     (if a = tok \<and> current_account_id e = self then {#PayReceipt r x memo d y#} else {#})"
  by (simp add: receipts_of_def)

lemma private_credit_keeps:
  fixes v :: TokenVault
  assumes "private_credit e x v = Inr v'"
  shows "token_id v' = token_id v \<and> depositor v' = depositor v"
proof -
  from assms obtain r where "(case r of NotReady \<Rightarrow> Inl (Msg Unreachable) | Successful u \<Rightarrow> Inr v
      | Failed \<Rightarrow> rbind (add_op (overflow_checks e) (balance v) x) (\<lambda>b. Inr (v\<lparr>balance := b\<rparr>))) =
      (Inr v' :: TokenVault vault_result)"
    by (auto simp: private_credit_def credit_if_failed_def result_simps)
  then show ?thesis by (cases r) (auto simp: result_simps)
qed

lemma private_credit_runs:
  assumes "promise_results e = [r]" and "r \<noteq> NotReady"
    and "predecessor_account_id e = current_account_id e" and "attached_deposit e = 0"
    and "unat (balance v) + unat x < 2 ^ 128"
  shows "\<exists>v'. private_credit e x v = Inr v'"
  using private_credit_returns [OF assms] by (simp add: returns_def)

text \<open>The vaults over any token.  What they need of it is only that its accounts are a map.\<close>

lemma transfer_token_vault:
  assumes "balance_store L"
  shows "token_vault L ''ft_token.near'' self transfer_withdraw_nep141 transfer_callback_withdraw
    transfer_default"
proof -
  have "unat (balance v) = unat (balance v') + unat x \<and> token_id v' = token_id v \<and>
      depositor v' = depositor v \<and>
      receipts_of ''ft_token.near'' self h = {#PayReceipt (depositor v) x None 1 x#}"
    if "current_account_id e = self" and "transfer_withdraw_nep141 e x v = Inr (v', h)"
      and "token_id v = ''ft_token.near''" for e x v v' h
    using that
    by (auto simp: withdraw_defs result_simps receipts_of_pay_then_callback
        intro: unat_balance_split)
  then show ?thesis
    using assms
    by (auto simp: token_vault_def token_vault_axioms_def callbacks_are_private_credit
        transfer_default_def dest: private_credit_moves private_credit_keeps
        intro: private_credit_runs)
qed

lemma inconsistency_token_vault:
  assumes "balance_store L"
  shows "token_vault L ''ft_token.near'' self inconsistency_withdraw
    inconsistency_callback_withdraw inconsistency_default"
proof -
  have "unat (balance v) = unat (balance v') + unat x \<and> token_id v' = token_id v \<and>
      depositor v' = depositor v \<and>
      receipts_of ''ft_token.near'' self h = {#PayReceipt (depositor v) x None 1 x#}"
    if "current_account_id e = self" and "inconsistency_withdraw e x v = Inr (v', h)"
      and "token_id v = ''ft_token.near''" for e x v v' h
    using that
    by (auto simp: withdraw_defs result_simps receipts_of_pay_then_callback
        intro: unat_balance_split)
  then show ?thesis
    using assms
    by (auto simp: token_vault_def token_vault_axioms_def callbacks_are_private_credit
        inconsistency_default_def dest: private_credit_moves private_credit_keeps
        intro: private_credit_runs)
qed

interpretation fun_store: balance_store "fun_map :: (AccountId \<rightharpoonup> Balance, AccountId, Balance) map_ops"
  by unfold_locales

interpretation transfer_market: token_vault "fun_map :: (AccountId \<rightharpoonup> Balance, AccountId, Balance) map_ops"
  "''ft_token.near''" self transfer_withdraw_nep141 transfer_callback_withdraw transfer_default
  for self
  by (rule transfer_token_vault) unfold_locales

end
