(* ===== verification/VaultProperties.thy ===== *)
theory VaultProperties
  imports TokenVaults FtProperties
begin

section \<open>Vault and token: what they owe, lose and drain\<close>

text \<open>
  The theorems about a vault and the fungible token of \<open>nep-interface\<close> it pays in: the crates
  \<open>transfer\<close> and \<open>inconsistency\<close> stay solvent and drain (over \<open>TokenVaults\<close>); the second method of
  \<open>inconsistency\<close> strands what its payee hands back; \<open>reentrancy\<close> pays the same balance again and
  again, out of the tokens of everybody whose money the contract holds.
\<close>

subsection \<open>Solvency and draining\<close>

lemma nep141_token_vault:
  assumes "balance_store L"
    and "(withdraw, callback, v0) \<in>
      {(transfer_withdraw_nep141, transfer_callback_withdraw, transfer_default),
       (inconsistency_withdraw, inconsistency_callback_withdraw, inconsistency_default)}"
  shows "token_vault L ''ft_token.near'' self withdraw callback v0"
    and "unat (balance v0) = 100"
  using assms(2) transfer_token_vault [OF assms(1)] inconsistency_token_vault [OF assms(1)]
  by (auto simp: transfer_default_def inconsistency_default_def)

text \<open>C3: solvency.  Let \<open>transfer\<close>, or \<open>inconsistency\<close> with its method \<open>withdraw\<close>, pay in the
  fungible token, where it owns at least the 100 it owes.  However the withdrawals of anybody, the
  executions and failures of the payments, the callbacks and everybody else's use of the token
  interleave: what is still owed, in flight and paid out adds up to 100, the vault's account on the
  token always covers what is owed and what is in flight, and a payment in flight, executed now,
  can only be refused if it is empty or its receiver is the vault or not registered.\<close>

theorem vault_market_stays_solvent:
  assumes "balance_store L"
    and "(withdraw, callback, v0) \<in>
      {(transfer_withdraw_nep141, transfer_callback_withdraw, transfer_default),
       (inconsistency_withdraw, inconsistency_callback_withdraw, inconsistency_default)}"
    and "reachable (market_init L self v0)
      (market_step L ''ft_token.near'' self withdraw callback) w"
  shows "unat (balance (market_vault w)) + sum_over receipt_amount (in_flight w) + paid_out w = 100 \<and>
     unat (balance (market_vault w)) + sum_over receipt_owed (in_flight w) \<le>
       unat (ft_balance_of L (market_ledger w) self) \<and>
     (\<forall>r x memo d y e.
        PayReceipt r x memo d y \<in># in_flight w \<and> predecessor_account_id e = self \<and>
        attached_deposit e = d \<longrightarrow>
        (returns (ft_transfer L e (market_ledger w) no_effects r x memo) \<longleftrightarrow>
           0 < x \<and> self \<noteq> r \<and> ft_balances L (market_ledger w) r \<noteq> None))"
proof -
  note vault = nep141_token_vault [OF assms(1,2)]
  from token_vault.reachable_market_ok [OF vault(1) assms(3)]
  have "token_vault.market_ok L ''ft_token.near'' self v0 w" .
  note token_vault.market_ok_solvent [OF vault(1) this] token_vault.payment_answered [OF vault(1) this]
  then show ?thesis by (auto simp: vault(2))
qed

text \<open>Olga withdraws 60 of the 100 that the vault \<open>app\<close> holds in tokens, and the payment is sent.\<close>

definition market_demo_token :: "fun_accounts FungibleToken" where
  "market_demo_token =
     \<lparr>accounts = [''app'' \<mapsto> 150, ''depositor.near'' \<mapsto> 0], total_supply = 150,
      account_storage_usage = 125\<rparr>"

definition market_demo :: "fun_accounts market" where
  "market_demo =
     \<lparr>market_vault = transfer_default\<lparr>balance := 40\<rparr>, market_ledger = market_demo_token,
      in_flight = {#PayReceipt ''depositor.near'' 60 None 1 60#}, paid_out = 0\<rparr>"

lemma market_demo_init:
  "market_init fun_map ''app'' transfer_default
     \<lparr>market_vault = transfer_default, market_ledger = market_demo_token, in_flight = {#},
      paid_out = 0\<rparr>"
  by (simp add: market_init_def ft_supply_ok_def market_demo_token_def ft_balances_def fun_map_def
      word_sum_def ft_balance_of_def transfer_default_def)

lemma market_demo_reachable:
  "reachable (market_init fun_map ''app'' transfer_default)
     (market_step fun_map ''ft_token.near'' ''app'' transfer_withdraw_nep141
       transfer_callback_withdraw) market_demo"
proof (rule reachable_step, rule reachable_init, rule market_demo_init)
  let ?h = "pay_then_callback (vault_demo_env ''olga'' [])
    (FunctionCall ''ft_token.near'' (FtTransferTo ''depositor.near'' 60 None) 1
      transfer_gas_ft_transfer) transfer_gas_withdraw_callback 60"
  have "transfer_withdraw_nep141 (vault_demo_env ''olga'' []) 60 transfer_default =
      Inr (transfer_default\<lparr>balance := 40\<rparr>, ?h)"
    by (simp add: transfer_withdraw_nep141_def transfer_default_def assert_not_payable_def
        debit_def sub_op_exact)
  from market_withdraw [where withdraw = transfer_withdraw_nep141 and self = "''app''"
      and tok = "''ft_token.near''" and L = fun_map and t = market_demo_token and F = "{#}" and n = 0,
      OF _ this]
  show "market_step fun_map ''ft_token.near'' ''app'' transfer_withdraw_nep141
      transfer_callback_withdraw
      \<lparr>market_vault = transfer_default, market_ledger = market_demo_token, in_flight = {#},
       paid_out = 0\<rparr> market_demo"
    by (simp add: market_step_def market_demo_def receipts_of_pay_then_callback)
qed

theorem vault_market_stays_solvent_witness:
  "unat (balance (market_vault market_demo)) + sum_over receipt_owed (in_flight market_demo) \<le>
     unat (ft_balance_of fun_map market_demo_token ''app'') \<and>
   returns (ft_transfer fun_map (demo_env ''app'' 1 []) market_demo_token no_effects
     ''depositor.near'' 60 None)"
proof -
  have "(transfer_withdraw_nep141, transfer_callback_withdraw, transfer_default) \<in>
      {(transfer_withdraw_nep141, transfer_callback_withdraw, transfer_default),
       (inconsistency_withdraw, inconsistency_callback_withdraw, inconsistency_default)}"
    by simp
  note this [THEN vault_market_stays_solvent [OF demo_store _ market_demo_reachable]]
  then show ?thesis
    by (simp add: market_demo_def market_demo_token_def ft_balances_def fun_map_def)
qed

text \<open>C6: everything drains.  From a reachable state, the settling steps (a payment executed or
  failed, a callback run) cannot go on for ever; and wherever they stop, nothing is in flight and
  the balance and what was paid out are 100.  So no schedule of the chain leaves an amount behind.\<close>

theorem vault_market_drains:
  assumes "balance_store L"
    and "(withdraw, callback, v0) \<in>
      {(transfer_withdraw_nep141, transfer_callback_withdraw, transfer_default),
       (inconsistency_withdraw, inconsistency_callback_withdraw, inconsistency_default)}"
    and "reachable (market_init L self v0)
      (market_step L ''ft_token.near'' self withdraw callback) w"
  shows "wfP (\<lambda>w2 w1. market_settle L self callback w1 w2) \<and>
     (\<forall>w'. (market_settle L self callback)\<^sup>*\<^sup>* w w' \<and> (\<nexists>w''. market_settle L self callback w' w'') \<longrightarrow>
        in_flight w' = {#} \<and> unat (balance (market_vault w')) + paid_out w' = 100)"
proof (intro conjI allI impI)
  note vault = nep141_token_vault [OF assms(1,2)]
  show "wfP (\<lambda>w2 w1. market_settle L self callback w1 w2)"
    by (rule token_vault.market_settle_wf [OF vault(1)])
  fix w'
  assume run: "(market_settle L self callback)\<^sup>*\<^sup>* w w' \<and> (\<nexists>w''. market_settle L self callback w' w'')"
  show "in_flight w' = {#}" "unat (balance (market_vault w')) + paid_out w' = 100"
    using token_vault.market_settles_end [OF vault(1) token_vault.reachable_market_ok
        [OF vault(1) assms(3)]] run by (auto simp: vault(2))
qed

theorem vault_market_drains_witness:
  "\<exists>w'. (market_settle fun_map ''app'' transfer_callback_withdraw)\<^sup>*\<^sup>* market_demo w' \<and>
     in_flight w' = {#} \<and> unat (balance (market_vault w')) + paid_out w' = 100"
proof -
  have "(transfer_withdraw_nep141, transfer_callback_withdraw, transfer_default) \<in>
      {(transfer_withdraw_nep141, transfer_callback_withdraw, transfer_default),
       (inconsistency_withdraw, inconsistency_callback_withdraw, inconsistency_default)}"
    by simp
  from vault_market_drains [OF demo_store this market_demo_reachable]
  have wf: "wfP (\<lambda>w2 w1. market_settle fun_map ''app'' transfer_callback_withdraw w1 w2)"
    and end_ok: "(market_settle fun_map ''app'' transfer_callback_withdraw)\<^sup>*\<^sup>* market_demo w' \<Longrightarrow>
      \<nexists>w''. market_settle fun_map ''app'' transfer_callback_withdraw w' w'' \<Longrightarrow>
      in_flight w' = {#} \<and> unat (balance (market_vault w')) + paid_out w' = 100" for w'
    by blast+
  from wf_run_ends [OF wf, of market_demo] end_ok show ?thesis by blast
qed

subsection \<open>What a receiver hands back\<close>

lemma private_credit_success:
  assumes "predecessor_account_id e = current_account_id e" and "attached_deposit e = 0"
    and "promise_results e = [Successful bs]"
  shows "private_credit e x v = Inr v"
  using assms
  by (simp add: private_credit_def assert_private_def assert_not_payable_def credit_if_failed_def
      env_promise_result_def)

text \<open>C30: \<open>withdraw_call\<close> of \<open>inconsistency\<close> loses what its payee does not keep.  It debits the amount
  and orders \<open>ft_transfer_call\<close>.  When the token executes that, and settles it (before the payee
  spends anything) with the answer that \<open>u\<close> was not used, the tokens left on the vault's account are
  \<open>u\<close> more than the full payment would leave; the promise nevertheless succeeds, with the used
  amount as its result, so the callback leaves the balance debited by the whole amount.  The gap
  between what the vault holds and what it owes has grown by \<open>u\<close>: those tokens are nobody's, and no
  method of the crate can pay them out.\<close>

theorem withdraw_call_strands_refund:
  assumes "balance_store L" and "ft_supply_ok L t"
    and withdraw: "inconsistency_withdraw_call e x v = Inr (v', h)"
    and token: "ft_transfer_call L e1 t no_effects (depositor v) x None '''' = Inr (t1, h1)"
    and "predecessor_account_id e1 = current_account_id e"
    and "promise_results e2 = [r]" and "r \<noteq> NotReady" and "u = unused_of from_slice x r"
    and "predecessor_account_id e3 = current_account_id e3" and "attached_deposit e3 = 0"
    and "promise_results e3 = [Successful bs]"
  shows "promises h =
       [Then (FunctionCall (token_id v) (FtTransferCallTo (depositor v) x None '''') 1
                inconsistency_gas_ft_transfer)
             (FunctionCall (current_account_id e) (CallbackWithdraw x) 0
                inconsistency_gas_withdraw_callback)] \<and>
     (\<exists>t2 h2. ft_internal_resolve_transfer L from_slice e2 t1 no_effects (current_account_id e)
          (depositor v) x = Inr (t2, h2, x - u, 0) \<and>
        inconsistency_callback_withdraw e3 x v' = Inr v' \<and>
        int (unat (ft_balance_of L t2 (current_account_id e))) - int (unat (balance v')) =
          int (unat (ft_balance_of L t (current_account_id e))) - int (unat (balance v)) +
          int (unat u))"
proof -
  let ?self = "current_account_id e"
  have h: "promises h =
       [Then (FunctionCall (token_id v) (FtTransferCallTo (depositor v) x None '''') 1
                inconsistency_gas_ft_transfer)
             (FunctionCall ?self (CallbackWithdraw x) 0 inconsistency_gas_withdraw_callback)]"
    and v': "unat (balance v) = unat (balance v') + unat x"
    using withdraw by (auto simp: withdraw_defs result_simps intro: unat_balance_split)
  have le: "unat u \<le> unat x"
    using unused_of_le [of from_slice x r] assms(8) by (simp add: word_le_nat_alt)
  have covered: "unat x \<le> unat (ft_balance_of L t ?self)" and "?self \<noteq> depositor v"
    using balance_store.transfer_call_pays [OF assms(1) token] assms(5) by simp_all
  obtain t2 h2 where resolve: "ft_internal_resolve_transfer L from_slice e2 t1 no_effects ?self
        (depositor v) x = Inr (t2, h2, x - u, 0)"
    and ledger: "ft_ledger L t2 = (ft_ledger L t)
       (?self \<mapsto> unat (ft_balance_of L t ?self) - (unat x - unat u),
        depositor v \<mapsto> unat (ft_balance_of L t (depositor v)) + (unat x - unat u))"
    using balance_store.call_then_settle [OF assms(1,2) token assms(5) [symmetric] assms(6-8)]
    by blast
  have "unat (ft_balance_of L t2 ?self) = unat (ft_balance_of L t ?self) - (unat x - unat u)"
    using fun_cong [OF ledger, of ?self] \<open>?self \<noteq> depositor v\<close>
    by (auto simp: ft_ledger_def ft_balances_def ft_balance_of_def)
  then have "int (unat (ft_balance_of L t2 ?self)) - int (unat (balance v')) =
      int (unat (ft_balance_of L t ?self)) - int (unat (balance v)) + int (unat u)"
    using le covered v' by linarith
  with h resolve private_credit_success [OF assms(9-11)] show ?thesis
    by (auto simp: callbacks_are_private_credit)
qed

text \<open>The depositor hands 30 of 60 back: the token's books say 120, the vault owes 40.\<close>

definition market_demo_answer :: "bytes \<Rightarrow> u128 option" where
  "market_demo_answer bs = (if bs = [30] then Some 30 else None)"

theorem withdraw_call_strands_refund_witness:
  "\<exists>v' h t1 h1 t2 h2.
     inconsistency_withdraw_call (vault_demo_env ''olga'' []) 60 inconsistency_default = Inr (v', h) \<and>
     ft_transfer_call fun_map (demo_env ''app'' 1 []) market_demo_token no_effects
       ''depositor.near'' 60 None '''' = Inr (t1, h1) \<and>
     ft_internal_resolve_transfer fun_map market_demo_answer (demo_env ''ft'' 0 [Successful [30]]) t1
       no_effects ''app'' ''depositor.near'' 60 = Inr (t2, h2, 30, 0) \<and>
     int (unat (ft_balance_of fun_map t2 ''app'')) - int (unat (balance v')) = 80"
proof -
  have ok: "ft_supply_ok fun_map market_demo_token"
    using market_demo_init by (simp add: market_init_def)
  obtain v' h where w: "inconsistency_withdraw_call (vault_demo_env ''olga'' []) 60
      inconsistency_default = Inr (v', h)"
    by (auto simp: inconsistency_withdraw_call_def inconsistency_default_def assert_not_payable_def
        debit_def sub_op_exact)
  have "\<exists>t1 h1. ft_internal_transfer fun_map market_demo_token no_effects ''app''
      ''depositor.near'' 60 None = Inr (t1, h1)"
    unfolding balance_store.internal_transfer_ok_iff [OF demo_store ok]
    by (simp add: market_demo_token_def ft_balances_def fun_map_def)
  then obtain t1 h1 where c: "ft_transfer_call fun_map (demo_env ''app'' 1 []) market_demo_token
      no_effects (depositor inconsistency_default) 60 None '''' = Inr (t1, h1)"
    by (auto simp: returns_def balance_store.transfer_call_iff [OF demo_store]
        GAS_FOR_FT_TRANSFER_CALL_def GAS_FOR_RESOLVE_TRANSFER_def inconsistency_default_def)
  have u: "30 = unused_of market_demo_answer 60 (Successful [30])"
    by (simp add: unused_of_def market_demo_answer_def min_def)
  from withdraw_call_strands_refund [OF demo_store ok w c _ _ _ u, of
      "demo_env ''ft'' 0 [Successful [30]]" "vault_demo_env ''app'' [Successful []]" "[]"] w c
  show ?thesis
    by (fastforce simp: inconsistency_default_def ft_balance_of_def market_demo_token_def fun_map_def)
qed

subsection \<open>Reentrancy\<close>

text \<open>
  The receiver of a \<open>ft_transfer_call\<close> is called before the transfer is settled, and may call the
  paying contract again.  \<open>reenter\<close> runs the rounds of such an attack on \<open>reentrancy\<close>: each round is a
  withdrawal, and the execution of the payment it orders by the token.  The callbacks come later.
\<close>

fun reenter ::
    "'m balances_ops \<Rightarrow> env \<Rightarrow> env \<Rightarrow> u64 \<Rightarrow> u128 list \<Rightarrow> TokenVault \<Rightarrow> 'm FungibleToken \<Rightarrow>
     (TokenVault \<times> 'm FungibleToken) option" where
  "reenter L e te k [] v t = Some (v, t)"
| "reenter L e te k (x # xs) v t =
     (case victim_withdraw e k x v of
        Inr (v1, h) \<Rightarrow>
          (case promises h of
             [Then (FunctionCall tok (FtTransferCallTo r y memo msg) d g) cb] \<Rightarrow>
               (case ft_transfer_call L (te\<lparr>attached_deposit := d\<rparr>) t no_effects r y memo msg of
                  Inr (t1, h1) \<Rightarrow> reenter L e te k xs v1 t1
                | Inl p \<Rightarrow> None)
           | _ \<Rightarrow> None)
      | Inl p \<Rightarrow> None)"

context balance_store
begin

lemma transfer_call_covered:
  assumes "ft_supply_ok L t" and "unat x \<le> unat (ft_balance_of L t (predecessor_account_id e))"
    and "0 < x" and "predecessor_account_id e \<noteq> r" and "ft_balances L t r \<noteq> None"
    and "attached_deposit e = 1" and "GAS_FOR_FT_TRANSFER_CALL < prepaid_gas e"
  shows "\<exists>t' h'. ft_transfer_call L e t h r x memo msg = Inr (t', h') \<and> ft_supply_ok L t' \<and>
     ft_balances L t' r \<noteq> None"
proof -
  have "\<exists>b. ft_balances L t (predecessor_account_id e) = Some b \<and> unat x \<le> unat b"
    using assms(2,3)
    by (cases "lm_get L (accounts t) (predecessor_account_id e)")
      (auto simp: ft_balance_of_def ft_balances_def word_less_nat_alt)
  then obtain t' h' where tr:
    "ft_internal_transfer L t h (predecessor_account_id e) r x memo = Inr (t', h')"
    using assms by (auto simp: internal_transfer_ok_iff)
  moreover have "ft_balances L t' r \<noteq> None"
    using tr by (auto simp: internal_transfer_iff ft_balances_def map_laws)
  ultimately show ?thesis
    using assms(6,7) internal_transfer_supply_ok [OF assms(1) tr] by (auto simp: transfer_call_iff)
qed

lemma reenter_drains:
  assumes "ft_supply_ok L t" and "attached_deposit e = 0"
    and "predecessor_account_id te = self" and "GAS_FOR_FT_TRANSFER_CALL < prepaid_gas te"
    and "self \<noteq> depositor v" and "ft_balances L t (depositor v) \<noteq> None"
    and "\<forall>x \<in> set xs. 0 < x \<and> x \<le> balance v"
    and "sum_list (map unat xs) \<le> unat (ft_balance_of L t self)"
  shows "\<exists>t'. reenter L e te k xs v t = Some (v, t') \<and>
     unat (ft_balance_of L t' self) + sum_list (map unat xs) = unat (ft_balance_of L t self) \<and>
     unat (ft_balance_of L t' (depositor v)) =
       unat (ft_balance_of L t (depositor v)) + sum_list (map unat xs)"
  using assms(1,6-8)
proof (induction xs arbitrary: t)
  case (Cons x xs)
  let ?e = "te\<lparr>attached_deposit := 1\<rparr>"
  obtain t1 h1 where
    call: "ft_transfer_call L ?e t no_effects (depositor v) x None '''' = Inr (t1, h1)"
    and ok: "ft_supply_ok L t1" "ft_balances L t1 (depositor v) \<noteq> None"
    using transfer_call_covered [of t x ?e "depositor v" no_effects None "''''"] Cons.prems assms(3-5)
    by auto
  have paid: "unat (ft_balance_of L t1 self) + unat x = unat (ft_balance_of L t self)"
    "unat (ft_balance_of L t1 (depositor v)) = unat (ft_balance_of L t (depositor v)) + unat x"
    using transfer_call_pays(4,5) [OF call] assms(3) by simp_all
  have "reenter L e te k (x # xs) v t = reenter L e te k xs v t1"
    using Cons.prems(3) assms(2) call by (simp add: victim_withdraw_def assert_not_payable_def)
  with Cons.IH [OF ok] Cons.prems(3,4) paid show ?case by auto
qed simp

end

text \<open>C29: \<open>reentrancy\<close> pays the same balance again and again.  Let the contract hold tokens on the
  token's books, and let the depositor, a registered account other than the contract, call
  \<open>withdraw\<close> from within the transfer it is being paid, any number of times, each time for any
  positive amount up to the recorded balance.  Every round is granted and paid at once: the
  recorded balance stays what it was, and the whole total moves from the contract's token account to
  the depositor, as long as the contract holds anything at all.  Only afterwards do the callbacks
  come, and they can all record their payments only if the total is at most the balance; otherwise
  one of them panics, and the tokens have gone.\<close>

theorem reentrancy_drains_the_vault:
  assumes "balance_store L" and "ft_supply_ok L t" and "attached_deposit e = 0"
    and "predecessor_account_id te = self" and "GAS_FOR_FT_TRANSFER_CALL < prepaid_gas te"
    and "self \<noteq> depositor v" and "ft_balances L t (depositor v) \<noteq> None"
    and "\<forall>x \<in> set xs. 0 < x \<and> x \<le> balance v"
    and "sum_list (map unat xs) \<le> unat (ft_balance_of L t self)"
    and "predecessor_account_id cb = current_account_id cb" and "attached_deposit cb = 0"
    and "promise_results cb = [Successful bs]" and "overflow_checks cb"
  shows "(\<exists>t'. reenter L e te k xs v t = Some (v, t') \<and>
        unat (ft_balance_of L t' self) + sum_list (map unat xs) = unat (ft_balance_of L t self) \<and>
        unat (ft_balance_of L t' (depositor v)) =
          unat (ft_balance_of L t (depositor v)) + sum_list (map unat xs)) \<and>
     (returns (victim_settles cb k xs v) \<longleftrightarrow> sum_list (map unat xs) \<le> unat (balance v))"
  using balance_store.reenter_drains [OF assms(1-9)] victim_settles_returns [OF assms(10-13)]
  by blast

text \<open>With a recorded balance of 100, an attacker in two rounds takes 150, all that the vault holds.\<close>

theorem reentrancy_drains_the_vault_witness:
  "\<exists>t'. reenter fun_map (vault_demo_env ''olga'' []) (demo_env ''app'' 0 []) 7 [60, 90]
       (victim_default\<lparr>depositor := ''depositor.near''\<rparr>) market_demo_token =
       Some (victim_default\<lparr>depositor := ''depositor.near''\<rparr>, t') \<and>
     unat (ft_balance_of fun_map t' ''app'') = 0 \<and>
     unat (ft_balance_of fun_map t' ''depositor.near'') = 150"
proof -
  have ok: "ft_supply_ok fun_map market_demo_token"
    using market_demo_init by (simp add: market_init_def)
  have gas: "GAS_FOR_FT_TRANSFER_CALL < prepaid_gas (demo_env ''app'' 0 [])"
    by (simp add: GAS_FOR_FT_TRANSFER_CALL_def GAS_FOR_RESOLVE_TRANSFER_def)
  have token: "ft_balances fun_map market_demo_token = [''app'' \<mapsto> 150, ''depositor.near'' \<mapsto> 0]"
    by (simp add: market_demo_token_def ft_balances_def fun_map_def)
  from reentrancy_drains_the_vault [OF demo_store ok _ _ gas, of "vault_demo_env ''olga'' []" "''app''"
      "victim_default\<lparr>depositor := ''depositor.near''\<rparr>" "[60, 90]"
      "vault_demo_env ''app'' [Successful []]" "[]" 7]
  show ?thesis by (simp add: token victim_default_def ft_balance_of_def)
    (simp add: market_demo_token_def fun_map_def)
qed

end
