(* ===== verification/Callbacks.thy ===== *)
theory Callbacks
  imports Near Collections
begin

section \<open>Callbacks that restore state\<close>

text \<open>
  Two example contracts whose callback is meant to undo a change when the payment fails:
  \<open>lock-callback\<close> (orders that are redeemed) and \<open>non-private-callback\<close> (scores that are spent).
  The properties compare the state after the failed payment with the state before the call.
  The operations of \<open>UnorderedMap\<close> are the parameter \<open>L\<close>.
\<close>

subsection \<open>Crate \<open>lock-callback\<close>\<close>

record Order =
  order_token_id :: AccountId
  order_user :: AccountId
  order_amount :: u128

record 'm OrderBook =
  orders :: 'm

datatype OrderError = BalanceIsInsufficient | OrderIsPresent | OrderUnreachable

datatype OrderCall =
    OrderFtTransfer AccountId u128 "string option"
  | CallbackRedeem u16 AccountId AccountId u128

type_synonym 'm orders_ops = "('m, u16, Order) map_ops"
type_synonym 'a order_result = "OrderError panic + 'a"
type_synonym order_effects = "(unit, OrderCall) effects"

definition order_gas_for_ft_transfer :: Gas where "order_gas_for_ft_transfer = 10 * 1000000000000"
definition order_gas_for_callback :: Gas where "order_gas_for_callback = 10 * 1000000000000"

definition order_book_default :: "'m orders_ops \<Rightarrow> bytes \<Rightarrow> 'm OrderBook" where
  "order_book_default L key = \<lparr>orders = lm_new L key\<rparr>"

definition process_redeem ::
    "'m orders_ops \<Rightarrow> env \<Rightarrow> u16 \<Rightarrow> u128 \<Rightarrow> 'm OrderBook \<Rightarrow>
     ('m OrderBook \<times> order_effects) order_result" where
  "process_redeem L e order_id amount c =
     rbind (assert_not_payable e) (\<lambda>_.
     rbind (unwrap_or_panic UnwrapNone (lm_get L (orders c) order_id)) (\<lambda>order.
     rbind (require (amount \<le> order_amount order) (Msg BalanceIsInsufficient)) (\<lambda>_.
     let m1 = fst (lm_remove L (orders c) order_id)
     in rbind (sub_op (overflow_checks e) (order_amount order) amount) (\<lambda>left.
        let order1 = order\<lparr>order_amount := left\<rparr>;
            m2 = (if 0 < order_amount order1 then fst (lm_insert L m1 order_id order1) else m1)
        in rbind (add_op (overflow_checks e) (order_amount order1) amount) (\<lambda>original.
           Inr (c\<lparr>orders := m2\<rparr>,
                schedule
                  (Then (FunctionCall (order_token_id order1)
                           (OrderFtTransfer (order_user order1) amount None) 1
                           order_gas_for_ft_transfer)
                        (FunctionCall (current_account_id e)
                           (CallbackRedeem order_id (order_token_id order1) (order_user order1)
                              original) 0 order_gas_for_callback))
                  no_effects))))))"

definition callback_redeem ::
    "'m orders_ops \<Rightarrow> env \<Rightarrow> u16 \<Rightarrow> AccountId \<Rightarrow> AccountId \<Rightarrow> u128 \<Rightarrow> 'm OrderBook \<Rightarrow>
     'm OrderBook order_result" where
  "callback_redeem L e order_id token_id user amount c =
     rbind (assert_private e) (\<lambda>_.
     rbind (assert_not_payable e) (\<lambda>_.
     rbind (env_promise_result e 0) (\<lambda>r.
     case r of
       NotReady \<Rightarrow> Inl (Msg OrderUnreachable)
     | Successful v \<Rightarrow> Inr c
     | Failed \<Rightarrow>
         rbind (require (lm_get L (orders c) order_id = None) (Msg OrderIsPresent)) (\<lambda>_.
         Inr (c\<lparr>orders := fst (lm_insert L (orders c) order_id
           \<lparr>order_token_id = token_id, order_user = user, order_amount = amount\<rparr>)\<rparr>)))))"

subsection \<open>Crate \<open>non-private-callback\<close>\<close>

record 'm ScoreContract =
  user_score :: 'm

datatype ScoreError = RequireFailed | ScoreUnreachable

datatype ScoreCall = UseScore u16 u32 | UseScoreCallback u16 u32

type_synonym 'm scores_ops = "('m, u16, u32) map_ops"
type_synonym 'a score_result = "ScoreError panic + 'a"
type_synonym score_effects = "(unit, ScoreCall) effects"

definition score_gas_for_ext_call :: Gas where "score_gas_for_ext_call = 10 * 1000000000000"
definition score_gas_for_callback :: Gas where "score_gas_for_callback = 10 * 1000000000000"

definition score_default :: "'m scores_ops \<Rightarrow> bytes \<Rightarrow> 'm ScoreContract" where
  "score_default L key = \<lparr>user_score = lm_new L key\<rparr>"

definition query_score ::
    "'m scores_ops \<Rightarrow> env \<Rightarrow> u16 \<Rightarrow> 'm ScoreContract \<Rightarrow> u32 score_result" where
  "query_score L e uid c =
     rbind (assert_not_payable e) (\<lambda>_. unwrap_or_panic UnwrapNone (lm_get L (user_score c) uid))"

definition subtract_score ::
    "'m scores_ops \<Rightarrow> env \<Rightarrow> u16 \<Rightarrow> u32 \<Rightarrow> 'm ScoreContract \<Rightarrow>
     ('m ScoreContract \<times> score_effects) score_result" where
  "subtract_score L e uid amount c =
     rbind (assert_not_payable e) (\<lambda>_.
     rbind (require (lm_get L (user_score c) uid \<noteq> None) (Msg RequireFailed)) (\<lambda>_.
     rbind (unwrap_or_panic UnwrapNone (lm_get L (user_score c) uid)) (\<lambda>score.
     rbind (require (amount < score) (Msg RequireFailed)) (\<lambda>_.
     rbind (sub_op (overflow_checks e) score amount) (\<lambda>left.
     Inr (c\<lparr>user_score := fst (lm_insert L (user_score c) uid left)\<rparr>,
          schedule
            (Then (FunctionCall ''score.near'' (UseScore uid amount) 1 score_gas_for_ext_call)
                  (FunctionCall (current_account_id e) (UseScoreCallback uid amount) 0
                     score_gas_for_callback))
            no_effects))))))"

text \<open>The callback has no \<open>#[private]\<close> attribute.\<close>

definition use_score_callback ::
    "'m scores_ops \<Rightarrow> env \<Rightarrow> u16 \<Rightarrow> u32 \<Rightarrow> 'm ScoreContract \<Rightarrow> 'm ScoreContract score_result" where
  "use_score_callback L e uid amount c =
     rbind (assert_not_payable e) (\<lambda>_.
     rbind (env_promise_result e 0) (\<lambda>r.
     case r of
       NotReady \<Rightarrow> Inl (Msg ScoreUnreachable)
     | Successful v \<Rightarrow> Inr c
     | Failed \<Rightarrow> Inr (c\<lparr>user_score := fst (lm_insert L (user_score c) uid amount)\<rparr>)))"

subsection \<open>Lemmas\<close>

text \<open>What a redemption does to the orders.\<close>

definition redeemed :: "u128 \<Rightarrow> Order \<Rightarrow> Order option" where
  "redeemed amount ord =
     (if amount < order_amount ord then Some (ord\<lparr>order_amount := order_amount ord - amount\<rparr>)
      else None)"

locale order_store = lookup_map L
  for L :: "('m, u16, Order) map_ops"
begin

lemma process_redeem_returns:
  assumes "lm_get L (orders c) order_id = Some ord" and "amount \<le> order_amount ord"
    and "attached_deposit e = 0"
  shows "\<exists>c' h. process_redeem L e order_id amount c = Inr (c', h) \<and>
     lm_get L (orders c') = (lm_get L (orders c))(order_id := redeemed amount ord) \<and>
     promises h = [Then
       (FunctionCall (order_token_id ord) (OrderFtTransfer (order_user ord) amount None) 1
          order_gas_for_ft_transfer)
       (FunctionCall (current_account_id e)
          (CallbackRedeem order_id (order_token_id ord) (order_user ord) (order_amount ord)) 0
          order_gas_for_callback)]"
proof -
  have sub: "sub_op (overflow_checks e) (order_amount ord) amount =
      (Inr (order_amount ord - amount) :: u128 order_result)"
    using assms(2) by (simp add: sub_op_exact word_le_nat_alt)
  have split: "unat (order_amount ord - amount) + unat amount = unat (order_amount ord)"
    using assms(2) by (simp add: unat_sub_exact word_le_nat_alt)
  have add: "add_op (overflow_checks e) (order_amount ord - amount) amount =
      (Inr (order_amount ord) :: u128 order_result)"
    using split by (simp add: add_op_exact)
  have pos: "0 < order_amount ord - amount \<longleftrightarrow> amount < order_amount ord"
    using split unfolding word_less_nat_alt unsigned_0 by linarith
  show ?thesis
    using assms sub add pos
    by (simp add: process_redeem_def assert_not_payable_def Let_def redeemed_def map_laws)
qed

lemma callback_redeem_failed:
  assumes "predecessor_account_id cb = current_account_id cb" and "attached_deposit cb = 0"
    and "promise_results cb = [Failed]"
  shows "callback_redeem L cb order_id tok user amount c =
     (if lm_get L (orders c) order_id = None
      then Inr (c\<lparr>orders := fst (lm_insert L (orders c) order_id
        \<lparr>order_token_id = tok, order_user = user, order_amount = amount\<rparr>)\<rparr>)
      else Inl (Msg OrderIsPresent))"
  using assms
  by (simp add: callback_redeem_def assert_private_def assert_not_payable_def
      env_promise_result_def require_def)

end

interpretation fo: order_store fun_map
  by unfold_locales

locale score_store = lookup_map L
  for L :: "('m, u16, u32) map_ops"
begin

lemma subtract_score_iff:
  "subtract_score L e uid amount c = Inr (c', h) \<longleftrightarrow>
     attached_deposit e = 0 \<and>
     (\<exists>score. lm_get L (user_score c) uid = Some score \<and> amount < score \<and>
        c' = c\<lparr>user_score := fst (lm_insert L (user_score c) uid (score - amount))\<rparr>) \<and>
     h = schedule
       (Then (FunctionCall ''score.near'' (UseScore uid amount) 1 score_gas_for_ext_call)
             (FunctionCall (current_account_id e) (UseScoreCallback uid amount) 0
                score_gas_for_callback)) no_effects"
proof -
  have "sub_op (overflow_checks e) score amount = (Inr (score - amount) :: u32 score_result)"
    if "amount < score" for score
    using that by (intro sub_op_exact) (simp add: word_less_nat_alt)
  then show ?thesis by (auto simp: subtract_score_def result_simps)
qed

lemma use_score_callback_failed:
  assumes "attached_deposit cb = 0" and "promise_results cb = [Failed]"
  shows "\<exists>c'. use_score_callback L cb uid amount c = Inr c' \<and>
     lm_get L (user_score c') = (lm_get L (user_score c))(uid \<mapsto> amount)"
  using assms
  by (simp add: use_score_callback_def assert_not_payable_def env_promise_result_def map_laws)

end

interpretation fs: score_store fun_map
  by unfold_locales

subsection \<open>Properties\<close>

definition callback_demo_env :: "AccountId \<Rightarrow> PromiseResult list \<Rightarrow> env" where
  "callback_demo_env who rs =
     \<lparr>current_account_id = ''app'', predecessor_account_id = who, attached_deposit = 0,
      prepaid_gas = 0, used_gas = 0, block_timestamp = 0, storage_byte_cost = 0,
      promise_results = rs, overflow_checks = True\<rparr>"

lemma callback_demo_env_simps [simp]:
  "current_account_id (callback_demo_env who rs) = ''app''"
  "predecessor_account_id (callback_demo_env who rs) = who"
  "attached_deposit (callback_demo_env who rs) = 0"
  "promise_results (callback_demo_env who rs) = rs"
  by (simp_all add: callback_demo_env_def)

text \<open>C40: redeeming an order and the failure of its payment.  \<open>process_redeem\<close> of any amount up to the
  order's always returns, takes the amount off the order (removing it when nothing is left) and
  orders the payment and a callback that carries the full original amount.  When the payment fails
  and nothing else has happened, that callback restores the orders exactly if the order was redeemed
  completely; if it was redeemed in part, the callback's assertion finds the remaining order and
  panics, so the order stays reduced although nothing was paid.\<close>

theorem partial_redeem_is_lost_on_failure:
  assumes "lookup_map (L :: ('m, u16, Order) map_ops)"
    and "lm_get L (orders c) order_id = Some ord" and "amount \<le> order_amount ord"
    and "attached_deposit e = 0"
    and "predecessor_account_id cb = current_account_id cb" and "attached_deposit cb = 0"
    and "promise_results cb = [Failed]"
  shows "\<exists>c' h. process_redeem L e order_id amount c = Inr (c', h) \<and>
     promises h = [Then
       (FunctionCall (order_token_id ord) (OrderFtTransfer (order_user ord) amount None) 1
          order_gas_for_ft_transfer)
       (FunctionCall (current_account_id e)
          (CallbackRedeem order_id (order_token_id ord) (order_user ord) (order_amount ord)) 0
          order_gas_for_callback)] \<and>
     (if amount = order_amount ord
      then \<exists>c''. callback_redeem L cb order_id (order_token_id ord) (order_user ord)
               (order_amount ord) c' = Inr c'' \<and>
             lm_get L (orders c'') = lm_get L (orders c)
      else callback_redeem L cb order_id (order_token_id ord) (order_user ord)
               (order_amount ord) c' = Inl (Msg OrderIsPresent) \<and>
             lm_get L (orders c') =
               (lm_get L (orders c))(order_id \<mapsto> ord\<lparr>order_amount := order_amount ord - amount\<rparr>))"
proof -
  have S: "order_store L" using assms(1) by (rule order_store.intro)
  obtain c' h where run: "process_redeem L e order_id amount c = Inr (c', h)"
    and get: "lm_get L (orders c') = (lm_get L (orders c))(order_id := redeemed amount ord)"
    and prom: "promises h = [Then
       (FunctionCall (order_token_id ord) (OrderFtTransfer (order_user ord) amount None) 1
          order_gas_for_ft_transfer)
       (FunctionCall (current_account_id e)
          (CallbackRedeem order_id (order_token_id ord) (order_user ord) (order_amount ord)) 0
          order_gas_for_callback)]"
    using order_store.process_redeem_returns [OF S assms(2-4)] by blast
  have "amount < order_amount ord \<longleftrightarrow> amount \<noteq> order_amount ord" using assms(3) by auto
  then show ?thesis
    using run prom get assms(2)
    by (auto simp: order_store.callback_redeem_failed [OF S assms(5-7)] redeemed_def
        lookup_map.get_insert [OF assms(1)])
qed

definition order_demo :: "(u16 \<rightharpoonup> Order) OrderBook" where
  "order_demo = \<lparr>orders =
     [7 \<mapsto> \<lparr>order_token_id = ''usdc.near'', order_user = ''alice'', order_amount = 100\<rparr>]\<rparr>"

theorem partial_redeem_is_lost_on_failure_witness:
  "\<exists>c' h. process_redeem fun_map (callback_demo_env ''alice'' []) 7 30 order_demo = Inr (c', h) \<and>
     callback_redeem fun_map (callback_demo_env ''app'' [Failed]) 7 ''usdc.near'' ''alice'' 100 c' =
       Inl (Msg OrderIsPresent) \<and>
     map_option order_amount (orders c' 7) = Some 70"
proof -
  let ?ord = "\<lparr>order_token_id = ''usdc.near'', order_user = ''alice'', order_amount = 100\<rparr>"
  have "lm_get fun_map (orders order_demo) 7 = Some ?ord"
    by (simp add: fun_map_def order_demo_def)
  from partial_redeem_is_lost_on_failure [OF fm.lookup_map_axioms this, of 30
      "callback_demo_env ''alice'' []" "callback_demo_env ''app'' [Failed]"]
  show ?thesis by (auto simp: fun_map_def)
qed

text \<open>Spending a score and the failure of the spending.  \<open>subtract_score\<close> returns exactly when the
  user has more than the amount, and orders a callback with that amount.  Since the callback is
  open to everyone, any account whose own call has failed can set any user's score to any number;
  and when the contract itself runs the callback after a failed call, it does not restore the score
  either: it sets it to the amount that was to be spent, which is always less than before.\<close>

theorem failed_score_callback_overwrites:
  assumes "lookup_map (L :: ('m, u16, u32) map_ops)"
    and "lm_get L (user_score c) uid = Some score" and "amount < score"
    and "attached_deposit e = 0"
    and "attached_deposit cb = 0" and "promise_results cb = [Failed]"
  shows "(\<exists>c' h c''. subtract_score L e uid amount c = Inr (c', h) \<and>
       promises h = [Then
         (FunctionCall ''score.near'' (UseScore uid amount) 1 score_gas_for_ext_call)
         (FunctionCall (current_account_id e) (UseScoreCallback uid amount) 0
            score_gas_for_callback)] \<and>
       lm_get L (user_score c') uid = Some (score - amount) \<and>
       use_score_callback L cb uid amount c' = Inr c'' \<and>
       lm_get L (user_score c'') uid = Some amount \<and> amount \<noteq> score) \<and>
     (\<exists>c''. use_score_callback L cb victim forged c = Inr c'' \<and>
       lm_get L (user_score c'') = (lm_get L (user_score c))(victim \<mapsto> forged))"
proof -
  have S: "score_store L" using assms(1) by (rule score_store.intro)
  define c' where "c' = c\<lparr>user_score := fst (lm_insert L (user_score c) uid (score - amount))\<rparr>"
  obtain h where "subtract_score L e uid amount c = Inr (c', h)"
    and "promises h = [Then
         (FunctionCall ''score.near'' (UseScore uid amount) 1 score_gas_for_ext_call)
         (FunctionCall (current_account_id e) (UseScoreCallback uid amount) 0
            score_gas_for_callback)]"
    using assms(2-4) by (simp add: score_store.subtract_score_iff [OF S] c'_def)
  moreover have "lm_get L (user_score c') uid = Some (score - amount)"
    by (simp add: c'_def lookup_map.get_insert [OF assms(1)])
  moreover obtain c'' where "use_score_callback L cb uid amount c' = Inr c''"
    and "lm_get L (user_score c'') = (lm_get L (user_score c'))(uid \<mapsto> amount)"
    using score_store.use_score_callback_failed [OF S assms(5,6)] by blast
  ultimately show ?thesis
    using score_store.use_score_callback_failed [OF S assms(5,6), of victim forged c] assms(3)
    by (metis fun_upd_same less_irrefl)
qed

definition score_demo :: "(u16 \<rightharpoonup> u32) ScoreContract" where
  "score_demo = \<lparr>user_score = [1 \<mapsto> 100]\<rparr>"

theorem failed_score_callback_overwrites_witness:
  "\<exists>c''. use_score_callback fun_map (callback_demo_env ''mallory'' [Failed]) 1 300 score_demo =
     Inr c'' \<and> user_score c'' 1 = Some 300"
proof -
  have "lm_get fun_map (user_score score_demo) 1 = Some 100"
    by (simp add: fun_map_def score_demo_def)
  from failed_score_callback_overwrites [OF fm.lookup_map_axioms this, of 40
      "callback_demo_env ''olga'' []" "callback_demo_env ''mallory'' [Failed]" 1 300]
  show ?thesis by (auto simp: fun_map_def)
qed

end
