(* ===== verification/Rounding.thy ===== *)
theory Rounding
  imports Prelude Complex_Main "HOL-Library.Log_Nat"
begin

section \<open>Fees computed in floating point\<close>

text \<open>
  The crate \<open>round\<close>: a bonus and a fee as a percentage of an amount, computed in \<open>f64\<close> and rounded
  with \<open>round\<close>.  A finite, non-negative \<open>f64\<close> is modelled by the rational number it denotes; an
  operation is the exact operation followed by rounding to 53 significant bits, ties to even.  The
  numbers that occur lie between \<open>1/100\<close> and \<open>2 ^ 137\<close>, where an \<open>f64\<close> is normal and finite, so
  exponents need no bounds.  The lemmas bound the error of one rounding; the theorem says where the
  result is exact, and how far off it can be anywhere.
\<close>

subsection \<open>Floating point\<close>

text \<open>The exponent of the leading bit: the \<open>e\<close> with \<open>2 ^ e \<le> x < 2 ^ (e + 1)\<close>, for positive \<open>x\<close>.\<close>

definition f64_exponent :: "rat \<Rightarrow> int" where
  "f64_exponent x =
     (let (p, q) = quotient_of x;
          k = int (floorlog 2 (nat p)) - int (floorlog 2 (nat q))
      in if 2 powi k \<le> x then k else k - 1)"

definition nearest_even :: "rat \<Rightarrow> int" where
  "nearest_even x =
     (let f = \<lfloor>x\<rfloor>; d = x - of_int f
      in if d < 1 / 2 then f else if 1 / 2 < d then f + 1 else if even f then f else f + 1)"

definition f64_round :: "rat \<Rightarrow> rat" where
  "f64_round x =
     (if x = 0 then 0
      else let ulp = 2 powi (f64_exponent x - 52) in of_int (nearest_even (x / ulp)) * ulp)"

text \<open>The conversions \<open>as f64\<close> and \<open>as u128\<close> (which cuts off and saturates), the operators, and
  \<open>round\<close>, which rounds to the nearest integer, half away from zero.\<close>

definition u128_as_f64 :: "u128 \<Rightarrow> rat" where
  "u128_as_f64 a = f64_round (of_nat (unat a))"

definition u8_as_f64 :: "8 word \<Rightarrow> rat" where
  "u8_as_f64 r = f64_round (of_nat (unat r))"

definition f64_mul :: "rat \<Rightarrow> rat \<Rightarrow> rat" where
  "f64_mul x y = f64_round (x * y)"

definition f64_div :: "rat \<Rightarrow> rat \<Rightarrow> rat" where
  "f64_div x y = f64_round (x / y)"

definition f64_to_integer :: "rat \<Rightarrow> rat" where
  "f64_to_integer x = of_int \<lfloor>x + 1 / 2\<rfloor>"

definition f64_as_u128 :: "rat \<Rightarrow> u128" where
  "f64_as_u128 x = (if 2 ^ 128 \<le> x then - 1 else word_of_int \<lfloor>x\<rfloor>)"

subsection \<open>The contract\<close>

record RoundContract =
  bonus_rate :: "8 word"
  fee_rate :: "8 word"

definition round_default :: RoundContract where
  "round_default = \<lparr>bonus_rate = 2, fee_rate = 1\<rparr>"

definition calc_bonus :: "RoundContract \<Rightarrow> u128 \<Rightarrow> u128" where
  "calc_bonus c amount =
     f64_as_u128 (f64_to_integer
       (f64_div (f64_mul (u128_as_f64 amount) (u8_as_f64 (bonus_rate c))) 100))"

definition calc_fee :: "RoundContract \<Rightarrow> u128 \<Rightarrow> u128" where
  "calc_fee c amount =
     f64_as_u128 (f64_to_integer
       (f64_div (f64_mul (u128_as_f64 amount) (u8_as_f64 (fee_rate c))) 100))"

subsection \<open>One rounding\<close>

lemma powi_le: "m \<le> n \<Longrightarrow> (2 :: rat) powi m \<le> 2 powi n"
  by (rule power_int_increasing) simp_all

lemma floorlog_powi:
  assumes "0 < n"
  shows "(2 :: rat) powi (int (floorlog 2 n) - 1) \<le> of_nat n"
    and "(of_nat n :: rat) < 2 powi int (floorlog 2 n)"
proof -
  obtain a where a: "floorlog 2 n = Suc a"
    using assms by (cases "floorlog 2 n") (simp_all add: floorlog_eq_zero_iff)
  then have "2 ^ a \<le> n" "n < 2 ^ Suc a"
    using floorlog_bounds [of n 2] assms by simp_all
  then have "(of_nat (2 ^ a) :: rat) \<le> of_nat n" "(of_nat n :: rat) < of_nat (2 ^ Suc a)"
    unfolding of_nat_le_iff of_nat_less_iff by simp_all
  then show "(2 :: rat) powi (int (floorlog 2 n) - 1) \<le> of_nat n"
    "(of_nat n :: rat) < 2 powi int (floorlog 2 n)"
    unfolding a by (simp_all add: power_int_add)
qed

lemma f64_exponent_bounds:
  assumes "0 < x"
  shows "2 powi (f64_exponent x) \<le> x" and "x < 2 powi (f64_exponent x + 1)"
proof -
  obtain p q where pq: "quotient_of x = (p, q)" by force
  then have q: "0 < q" and x: "x = of_int p / of_int q"
    by (simp_all add: quotient_of_denom_pos quotient_of_div)
  then have p: "0 < p" using assms by (simp add: zero_less_divide_iff)
  define a where "a = int (floorlog 2 (nat p))"
  define b where "b = int (floorlog 2 (nat q))"
  have a: "(2 :: rat) powi (a - 1) \<le> of_int p" "(of_int p :: rat) < 2 powi a"
    using floorlog_powi [of "nat p"] p by (simp_all add: a_def of_nat_nat)
  have b: "(2 :: rat) powi (b - 1) \<le> of_int q" "(of_int q :: rat) < 2 powi b"
    using floorlog_powi [of "nat q"] q by (simp_all add: b_def of_nat_nat)
  have "x < 2 powi a / 2 powi (b - 1)"
    unfolding x using a(2) b(1) p q by (intro frac_less) auto
  then have up: "x < 2 powi (a - b + 1)" by (simp add: power_int_diff [symmetric] algebra_simps)
  have "2 powi (a - 1) / 2 powi b \<le> x"
    unfolding x using a(1) b(2) p q by (intro frac_le) auto
  then have lo: "2 powi (a - b - 1) \<le> x" by (simp add: power_int_diff [symmetric] algebra_simps)
  show "2 powi (f64_exponent x) \<le> x" "x < 2 powi (f64_exponent x + 1)"
    using up lo by (auto simp: f64_exponent_def pq a_def b_def Let_def)
qed

lemma nearest_even_error: "\<bar>of_int (nearest_even x) - x\<bar> \<le> 1 / 2"
proof -
  define f where "f = \<lfloor>x\<rfloor>"
  have f: "of_int f \<le> x" "x < of_int f + 1" unfolding f_def by linarith+
  have "nearest_even x = f \<and> x - of_int f \<le> 1 / 2 \<or>
      nearest_even x = f + 1 \<and> 1 / 2 \<le> x - of_int f"
    by (simp add: nearest_even_def f_def [symmetric] Let_def)
  with f show ?thesis by (auto simp: abs_le_iff)
qed

lemma nearest_even_int [simp]: "nearest_even (of_int n) = n"
  by (simp add: nearest_even_def Let_def)

text \<open>The error is at most half a unit in the last place; what has 53 bits is kept.\<close>

lemma f64_round_error:
  assumes "0 < x" and "x < 2 powi e"
  shows "\<bar>f64_round x - x\<bar> \<le> 2 powi (e - 54)"
proof -
  define u where "u = (2 :: rat) powi (f64_exponent x - 52)"
  have u: "0 < u" by (simp add: u_def)
  have "f64_round x - x = (of_int (nearest_even (x / u)) - x / u) * u"
    using assms(1) u by (simp add: f64_round_def u_def [symmetric] Let_def algebra_simps)
  then have "\<bar>f64_round x - x\<bar> \<le> 1 / 2 * u"
    using mult_right_mono [OF nearest_even_error [of "x / u"], of u] u by (simp add: abs_mult)
  also have "1 / 2 * u = 2 powi (f64_exponent x - 53)"
    by (simp add: u_def power_int_diff)
  also have "\<dots> \<le> 2 powi (e - 54)"
  proof (rule powi_le)
    have "(2 :: rat) powi f64_exponent x < 2 powi e"
      using f64_exponent_bounds(1) [OF assms(1)] assms(2) by simp
    then have "f64_exponent x < e" using powi_le [of e "f64_exponent x"] by linarith
    then show "f64_exponent x - 53 \<le> e - 54" by simp
  qed
  finally show ?thesis .
qed

lemma f64_round_relative:
  assumes "0 \<le> x"
  shows "\<bar>f64_round x - x\<bar> \<le> x / 2 ^ 53"
proof (cases "x = 0")
  case False
  with assms have x: "0 < x" by simp
  have "\<bar>f64_round x - x\<bar> \<le> 2 powi (f64_exponent x + 1 - 54)"
    by (rule f64_round_error [OF x f64_exponent_bounds(2) [OF x]])
  also have "\<dots> = 2 powi f64_exponent x / 2 ^ 53" by (simp add: power_int_diff)
  also have "\<dots> \<le> x / 2 ^ 53"
    by (rule divide_right_mono [OF f64_exponent_bounds(1) [OF x]]) simp
  finally show ?thesis .
qed (simp add: f64_round_def)

lemma f64_round_exact:
  assumes "0 \<le> x" and "x < 2 ^ 53 / 2 ^ k" and "x * 2 ^ k = of_int n"
  shows "f64_round x = x"
proof (cases "x = 0")
  case False
  with assms have x: "0 < x" by simp
  define j where "j = 52 - f64_exponent x"
  have "(2 :: rat) powi f64_exponent x < 2 powi (53 - int k)"
    using f64_exponent_bounds(1) [OF x] assms(2) by (simp add: power_int_diff)
  then have "f64_exponent x < 53 - int k"
    using powi_le [of "53 - int k" "f64_exponent x"] by linarith
  then have "int k \<le> j" by (simp add: j_def)
  then have "x * 2 powi j = x * 2 ^ k * 2 ^ nat (j - int k)"
    by (simp add: power_int_def nat_diff_distrib' power_add [symmetric])
  also have "\<dots> = of_int (n * 2 ^ nat (j - int k))" using assms(3) by simp
  finally have int: "x * 2 powi j = of_int (n * 2 ^ nat (j - int k))" .
  define u where "u = (2 :: rat) powi (f64_exponent x - 52)"
  have "x / u = x * 2 powi j" by (simp add: u_def j_def power_int_diff)
  with int have "nearest_even (x / u) = n * 2 ^ nat (j - int k)" by (simp only: nearest_even_int)
  then have "f64_round x = x * 2 powi j * u"
    using x int by (simp add: f64_round_def u_def [symmetric] Let_def)
  then show ?thesis by (simp add: u_def j_def power_int_diff)
qed (simp add: f64_round_def)

lemma plus_minus_part: "x * (1 - 1 / y) = x - x / y" "x * (1 + 1 / y) = x + x / y" for x y :: rat
  by (simp_all add: right_diff_distrib distrib_left)

lemma f64_round_bounds:
  assumes "0 \<le> x"
  shows "x * (1 - 1 / 2 ^ 53) \<le> f64_round x" and "f64_round x \<le> x * (1 + 1 / 2 ^ 53)"
proof -
  have "f64_round x - x \<le> x / 2 ^ 53" "- (f64_round x - x) \<le> x / 2 ^ 53"
    using f64_round_relative [OF assms] unfolding abs_le_iff by blast+
  then show "x * (1 - 1 / 2 ^ 53) \<le> f64_round x" "f64_round x \<le> x * (1 + 1 / 2 ^ 53)"
    unfolding plus_minus_part by linarith+
qed

text \<open>Comparisons of integers, as comparisons of rationals.\<close>

lemma rat_le: "m \<le> n \<Longrightarrow> (of_int m :: rat) \<le> of_int n" for m n :: int
  by simp

lemma rat_less: "m < n \<Longrightarrow> (of_int m :: rat) < of_int n" for m n :: int
  by simp

lemma f64_round_integer:
  assumes "n < 2 ^ 53"
  shows "f64_round (of_nat n) = of_nat n"
  using f64_round_exact [of "of_nat n" 0 "int n"] rat_less [of "int n" "2 ^ 53"] assms by simp

lemma unat_f64_as_u128:
  assumes "0 \<le> m" and "m < 2 ^ 128"
  shows "int (unat (f64_as_u128 (of_int m))) = m"
proof -
  have "\<not> (2 :: rat) ^ 128 \<le> of_int m"
    using rat_less [OF assms(2)] by simp
  then show ?thesis
    using assms by (simp add: f64_as_u128_def unsigned_of_int take_bit_int_eq_self)
qed

subsection \<open>The percentage of an amount\<close>

definition percent :: "nat \<Rightarrow> nat \<Rightarrow> rat" where
  "percent amount rate = f64_round (f64_round (f64_round (of_nat amount) * of_nat rate) / 100)"

lemma calc_eq:
  "calc_bonus c a =
     f64_as_u128 (of_int \<lfloor>percent (unat a) (unat (bonus_rate c)) + 1 / 2\<rfloor>)"
  "calc_fee c a =
     f64_as_u128 (of_int \<lfloor>percent (unat a) (unat (fee_rate c)) + 1 / 2\<rfloor>)"
proof -
  have "unat r < 2 ^ 53" for r :: "8 word"
    using unsigned_less [of r, where 'a = nat] by simp
  then have "u8_as_f64 r = of_nat (unat r)" for r
    unfolding u8_as_f64_def by (rule f64_round_integer)
  then show "calc_bonus c a =
     f64_as_u128 (of_int \<lfloor>percent (unat a) (unat (bonus_rate c)) + 1 / 2\<rfloor>)"
    "calc_fee c a =
     f64_as_u128 (of_int \<lfloor>percent (unat a) (unat (fee_rate c)) + 1 / 2\<rfloor>)"
    unfolding calc_bonus_def calc_fee_def u128_as_f64_def f64_mul_def f64_div_def percent_def
      f64_to_integer_def by simp_all
qed

lemma hundredths_exact:
  fixes n :: nat
  assumes "n < 2 ^ 53"
  shows "\<lfloor>f64_round (of_nat n / 100) + 1 / 2\<rfloor> = int ((n + 50) div 100)"
proof -
  define k where "k = int ((n + 50) div 100)"
  have k: "100 * k \<le> int n + 50" "int n \<le> 100 * k + 49"
    by (simp_all add: k_def zdiv_int)
  have up: "(of_nat n :: rat) \<le> 100 * of_int k + 49" and lo: "100 * of_int k - 50 \<le> (of_nat n :: rat)"
    using rat_le [OF k(2)] rat_le [OF k(1)] by simp_all
  have small: "(of_nat n :: rat) < 2 ^ 53"
    using rat_less [of "int n" "2 ^ 53"] assms by simp
  have "\<bar>f64_round (of_nat n / 100) - of_nat n / 100\<bar> \<le> 1 / 128"
  proof (cases "n = 0")
    case False
    then show ?thesis
      using f64_round_error [of "of_nat n / 100" 47] small
      by (simp add: power_int_def power_one_over)
  qed (simp add: f64_round_def)
  then have close: "f64_round (of_nat n / 100) \<le> of_nat n / 100 + 1 / 128"
    "of_nat n / 100 - 1 / 128 \<le> f64_round (of_nat n / 100)"
    unfolding abs_le_iff by linarith+
  have "of_int k \<le> f64_round (of_nat n / 100) + 1 / 2"
  proof (cases "int n = 100 * k - 50")
    case True
    have half: "(of_nat n :: rat) = 100 * of_int k - 50"
      using arg_cong [OF True, of "of_int :: int \<Rightarrow> rat"] by simp
    have "f64_round (of_nat n / 100) = of_nat n / 100"
    proof (rule f64_round_exact [where k = 1 and n = "2 * k - 1"])
      show "of_nat n / 100 < 2 ^ 53 / (2 :: rat) ^ 1" using small by simp
      show "of_nat n / 100 * 2 ^ 1 = rat_of_int (2 * k - 1)" by (simp add: half)
    qed simp
    then show ?thesis by (simp add: half)
  next
    case False
    with k have "100 * k - 49 \<le> int n" by simp
    from rat_le [OF this] have "100 * of_int k - 49 \<le> (of_nat n :: rat)" by simp
    with close(2) show ?thesis by linarith
  qed
  moreover have "f64_round (of_nat n / 100) + 1 / 2 < of_int k + 1"
    using close(1) up by linarith
  ultimately show ?thesis unfolding k_def [symmetric] by (rule floor_unique)
qed

lemma percent_exact:
  assumes "amount * rate < 2 ^ 53"
  shows "\<lfloor>percent amount rate + 1 / 2\<rfloor> = int ((amount * rate + 50) div 100)"
proof -
  have "f64_round (of_nat amount) * of_nat rate = (of_nat (amount * rate) :: rat)"
  proof (cases "rate = 0")
    case False
    then have "amount < 2 ^ 53" using assms by (cases rate) auto
    then show ?thesis by (simp add: f64_round_integer)
  qed simp
  then show ?thesis
    using f64_round_integer [OF assms] hundredths_exact [OF assms]
    unfolding percent_def by (simp only:)
qed

lemma percent_bounds:
  fixes amount rate :: nat
  defines "p \<equiv> of_nat (amount * rate) / (100 :: rat)"
  shows "p - p / 2 ^ 51 \<le> percent amount rate" and "percent amount rate \<le> p + p / 2 ^ 51"
proof -
  define R where "R = (of_nat rate :: rat)"
  define a where "a = f64_round (of_nat amount)"
  define b where "b = f64_round (a * R)"
  define lo hi where "lo = (1 - 1 / 2 ^ 53 :: rat)" and "hi = (1 + 1 / 2 ^ 53 :: rat)"
  have R: "0 \<le> R" and p: "0 \<le> p" by (simp_all add: R_def p_def)
  have lohi: "0 \<le> lo" "0 \<le> hi" by (simp_all add: lo_def hi_def)
  have a: "of_nat amount * lo \<le> a" "a \<le> of_nat amount * hi"
    using f64_round_bounds [of "of_nat amount"] by (simp_all only: a_def lo_def hi_def of_nat_0_le_iff)
  have "0 \<le> of_nat amount * lo" using lohi(1) by simp
  with a(1) have "0 \<le> a" by linarith
  then have b: "a * R * lo \<le> b" "b \<le> a * R * hi"
    using f64_round_bounds [of "a * R"] R by (simp_all add: b_def lo_def hi_def)
  have "0 \<le> a * R * lo" using lohi(1) R \<open>0 \<le> a\<close> by simp
  with b(1) have "0 \<le> b" by linarith
  then have q: "b / 100 * lo \<le> percent amount rate" "percent amount rate \<le> b / 100 * hi"
    using f64_round_bounds [of "b / 100"]
    by (simp_all add: percent_def a_def b_def R_def lo_def hi_def)
  have "of_nat amount * lo * R * lo \<le> b" "b \<le> of_nat amount * hi * R * hi"
    using b mult_right_mono [OF mult_right_mono [OF a(1) R] lohi(1)]
      mult_right_mono [OF mult_right_mono [OF a(2) R] lohi(2)] by linarith+
  then have "of_nat amount * lo * R * lo / 100 * lo \<le> percent amount rate"
    "percent amount rate \<le> of_nat amount * hi * R * hi / 100 * hi"
    using q mult_right_mono [OF divide_right_mono, of _ _ 100 lo]
      mult_right_mono [OF divide_right_mono, of _ _ 100 hi] lohi
    by (meson order_trans zero_le_numeral)+
  then have pq: "p * (lo * lo * lo) \<le> percent amount rate" "percent amount rate \<le> p * (hi * hi * hi)"
    by (simp_all add: p_def R_def mult_ac)
  have "1 - 1 / 2 ^ 51 \<le> lo * lo * lo" "hi * hi * hi \<le> 1 + 1 / 2 ^ 51"
    by (simp_all add: lo_def hi_def)
  from mult_left_mono [OF this(1) p] mult_left_mono [OF this(2) p] pq
  show "p - p / 2 ^ 51 \<le> percent amount rate" "percent amount rate \<le> p + p / 2 ^ 51"
    unfolding plus_minus_part by linarith+
qed

lemma percent_result:
  assumes "amount < 2 ^ 128" and "rate < 100"
  shows "int (unat (f64_as_u128 (of_int \<lfloor>percent amount rate + 1 / 2\<rfloor>))) =
     \<lfloor>percent amount rate + 1 / 2\<rfloor>"
proof (rule unat_f64_as_u128)
  define p where "p = of_nat (amount * rate) / (100 :: rat)"
  note bounds = percent_bounds [of amount rate, folded p_def]
  have p: "0 \<le> p" by (simp add: p_def)
  then show "0 \<le> \<lfloor>percent amount rate + 1 / 2\<rfloor>" using bounds(1) by simp
  have "amount * rate \<le> 2 ^ 128 * 99" using assms by (intro mult_mono) simp_all
  then have "rat_of_nat (amount * rate) \<le> of_nat (2 ^ 128 * 99)" by (simp only: of_nat_le_iff)
  then have "p \<le> 2 ^ 128 * (99 / 100)" by (simp add: p_def)
  with bounds(2) have "percent amount rate + 1 / 2 < 2 ^ 128" by simp
  then show "\<lfloor>percent amount rate + 1 / 2\<rfloor> < 2 ^ 128" by (simp add: floor_less_iff)
qed

lemma hundredths_round:
  "(n + 50) div 100 = n div 100 + (if 50 \<le> n mod 100 then 1 else 0)" for n :: nat
proof (rule div_nat_eqI)
  have n: "100 * (n div 100) + n mod 100 = n" and "n mod 100 < 100" by simp_all
  then show "100 * (n div 100 + (if 50 \<le> n mod 100 then 1 else 0)) \<le> n + 50"
    and "n + 50 < 100 * Suc (n div 100 + (if 50 \<le> n mod 100 then 1 else 0))"
    by (cases "50 \<le> n mod 100"; simp; linarith)+
qed

lemma rounded_percent_exact:
  assumes "amount * rate < 2 ^ 53"
  shows "unat (f64_as_u128 (of_int \<lfloor>percent amount rate + 1 / 2\<rfloor>)) =
     amount * rate div 100 + (if 50 \<le> amount * rate mod 100 then 1 else 0)"
proof -
  have "(amount * rate + 50) div 100 < 2 ^ 128"
    by (rule le_less_trans [OF div_le_dividend]) (use assms in simp)
  then have "int ((amount * rate + 50) div 100) < 2 ^ 128"
    by (metis of_nat_less_iff of_nat_numeral of_nat_power)
  then have "int (unat (f64_as_u128 (of_int \<lfloor>percent amount rate + 1 / 2\<rfloor>))) =
      int ((amount * rate + 50) div 100)"
    unfolding percent_exact [OF assms] by (intro unat_f64_as_u128) simp_all
  then show ?thesis unfolding of_nat_eq_iff hundredths_round .
qed

lemma rounded_percent_close:
  assumes "amount < 2 ^ 128" and "rate < 100"
  shows "\<bar>rat_of_nat (unat (f64_as_u128 (of_int \<lfloor>percent amount rate + 1 / 2\<rfloor>))) -
       of_nat (amount * rate) / 100\<bar> \<le> of_nat (amount * rate) / 100 / 2 ^ 51 + 1 / 2"
proof -
  define z where "z = \<lfloor>percent amount rate + 1 / 2\<rfloor>"
  from arg_cong [OF percent_result [OF assms], of rat_of_int]
  have "rat_of_nat (unat (f64_as_u128 (of_int z))) = of_int z"
    unfolding z_def of_int_of_nat_eq .
  moreover have "of_int z \<le> percent amount rate + 1 / 2" "percent amount rate + 1 / 2 < of_int z + 1"
    unfolding z_def by linarith+
  ultimately show ?thesis
    using percent_bounds [of amount rate] unfolding z_def [symmetric] abs_le_iff by linarith
qed

subsection \<open>Property\<close>

text \<open>C38: what \<open>calc_bonus\<close> and \<open>calc_fee\<close> return.  While amount times rate is below \<open>2 ^ 53\<close>, the
  floating point computation is exact and rounds half up: the result is the whole hundredths, plus
  one from a remainder of 50 on.  So a bonus can be one more than what is earned, and a fee can be
  one less than what would cover it.  For any amount, with a rate below 100, the result is off the
  exact percentage by at most one part in \<open>2 ^ 51\<close> and one half.\<close>

theorem round_error_bounds:
  assumes "(f, rate) \<in> {(calc_bonus c, unat (bonus_rate c)), (calc_fee c, unat (fee_rate c))}"
  shows "(unat amount * rate < 2 ^ 53 \<longrightarrow>
       unat (f amount) = unat amount * rate div 100 +
         (if 50 \<le> unat amount * rate mod 100 then 1 else 0)) \<and>
     (rate < 100 \<longrightarrow>
       \<bar>rat_of_nat (unat (f amount)) - of_nat (unat amount * rate) / 100\<bar> \<le>
         of_nat (unat amount * rate) / 100 / 2 ^ 51 + 1 / 2)"
proof -
  have "f amount = f64_as_u128 (of_int \<lfloor>percent (unat amount) rate + 1 / 2\<rfloor>)"
    using assms by (auto simp: calc_eq)
  with rounded_percent_exact rounded_percent_close u128_less_pow show ?thesis by metis
qed

text \<open>A bonus of 2 percent on 75 is 1.5, and 2 are paid; the fee of 1 percent on 149 is 1.\<close>

theorem round_error_bounds_witness:
  "unat (calc_bonus round_default 75) = 2 \<and> unat (calc_fee round_default 149) = 1"
  using round_error_bounds [of "calc_bonus round_default" 2 round_default 75]
    round_error_bounds [of "calc_fee round_default" 1 round_default 149]
  by (simp add: round_default_def)

end
