(* ===== verification/SmallContracts.thy ===== *)
theory SmallContracts
  imports Near Collections
begin

section \<open>The small example contracts\<close>

text \<open>
  The example crates with one or two methods and no callback: arithmetic (\<open>unsafe-math\<close>,
  \<open>div-before-mul\<close>, \<open>complex-loop\<close>), a choice by timestamp (\<open>timestamp\<close>), guards (\<open>tautology\<close>,
  \<open>yocto-attach\<close>), collections (\<open>unused-ret\<close>, \<open>storage-gas\<close>, \<open>unsaved-changes\<close>), an upgrade by
  host calls (\<open>upgrade-func\<close>), and crates of one method.  A few lemmas per crate say what its methods return and change.
\<close>

datatype SmallError =
    AccountNotRecorded
  | InvalidIdentity
  | OnlyOwner
  | InsufficientStorageGas
  | SignedOverflow
  | AccountIsNotRegistered
  | ContractNotInitialized
  | NotEnoughGas

type_synonym 'a small_result = "SmallError panic + 'a"

subsection \<open>Crate \<open>unsafe-math\<close>\<close>

text \<open>
  Signed 32-bit arithmetic: the exact result \<open>v\<close> as an integer, and the wrapped one \<open>w\<close>.  This
  crate is built without \<open>overflow-checks\<close>.
\<close>

definition i32_op :: "env \<Rightarrow> int \<Rightarrow> i32 \<Rightarrow> i32 small_result" where
  "i32_op e v w =
     (if (- (2 ^ 31) \<le> v \<and> v < 2 ^ 31) \<or> \<not> overflow_checks e then Inr w
      else Inl ArithmeticOverflow)"

definition calculator_sum :: "env \<Rightarrow> i32 \<Rightarrow> i32 \<Rightarrow> i32 small_result" where
  "calculator_sum e a b = i32_op e (sint a + sint b) (a + b)"

definition calculator_sub :: "env \<Rightarrow> i32 \<Rightarrow> i32 \<Rightarrow> i32 small_result" where
  "calculator_sub e a b = i32_op e (sint a - sint b) (a - b)"

definition calculator_mul :: "env \<Rightarrow> i32 \<Rightarrow> i32 \<Rightarrow> i32 small_result" where
  "calculator_mul e a b = i32_op e (sint a * sint b) (a * b)"

lemma calculator_wraps:
  assumes "\<not> overflow_checks e"
  shows "calculator_sum e a b = Inr (a + b)" and "calculator_sub e a b = Inr (a - b)"
    and "calculator_mul e a b = Inr (a * b)"
  using assms by (simp_all add: calculator_sum_def calculator_sub_def calculator_mul_def i32_op_def)

subsection \<open>Crate \<open>div-before-mul\<close>\<close>

definition REWARD_RATE :: u64 where "REWARD_RATE = 1000000000"

record Stake =
  stake_owner :: AccountId
  stake_amount :: Balance
  start_date :: Timestamp
  end_date :: Timestamp

text \<open>\<open>key\<close> is the borsh encoding of the crate's \<open>StorageKey\<close>, here and below.\<close>

definition stakes_default :: "('m, u16, Stake) map_ops \<Rightarrow> bytes \<Rightarrow> 'm" where
  "stakes_default L key = lm_new L key"

text \<open>The division panics on zero under every setting of the build.\<close>

definition calculate_reward ::
    "('m, u16, Stake) map_ops \<Rightarrow> env \<Rightarrow> 'm \<Rightarrow> u16 \<Rightarrow> u128 small_result" where
  "calculate_reward L e stakes stake_id =
     rbind (unwrap_or_panic UnwrapNone (lm_get L stakes stake_id)) (\<lambda>stake.
     rbind (sub_op (overflow_checks e) (end_date stake) (start_date stake)) (\<lambda>period.
     rbind (require ((ucast period :: u128) \<noteq> 0) DivisionByZero) (\<lambda>_.
     let amount_per_time_unit = stake_amount stake div ucast period
     in mul_op (overflow_checks e) amount_per_time_unit (ucast REWARD_RATE))))"

lemma div_first_loses_less_than:
  fixes A R d :: nat
  assumes "0 < d"
  shows "A div d * R \<le> A * R div d" and "A * R div d - A div d * R < R \<or> R = 0"
proof -
  have "A * R = A div d * R * d + A mod d * R"
    by (metis add_mult_distrib div_mult_mod_eq mult.assoc mult.commute)
  then have split: "A * R div d = A div d * R + A mod d * R div d"
    using assms by simp
  then show "A div d * R \<le> A * R div d" by simp
  have "A mod d * R < d * R \<or> R = 0" using assms by auto
  then have "A mod d * R div d < R \<or> R = 0"
    using assms by (auto simp: less_mult_imp_div_less mult.commute)
  with split show "A * R div d - A div d * R < R \<or> R = 0" by simp
qed

lemma calculate_reward_value:
  assumes "lm_get L stakes stake_id = Some stake" and "overflow_checks e"
    and "calculate_reward L e stakes stake_id = Inr reward"
  shows "\<exists>d > 0. unat (end_date stake) = unat (start_date stake) + d \<and>
     unat reward = unat (stake_amount stake) div d * 1000000000"
proof -
  obtain p where sub: "sub_op True (end_date stake) (start_date stake) = (Inr p :: u64 small_result)"
    and nz: "(ucast p :: u128) \<noteq> 0"
    and mul: "mul_op True (stake_amount stake div ucast p) (ucast REWARD_RATE) =
      (Inr reward :: u128 small_result)"
    using assms by (auto simp: calculate_reward_def result_simps Let_def)
  have p: "unat (end_date stake) = unat p + unat (start_date stake)"
    using sub by (simp only: unat_arith_simps)
  have r: "unat reward = unat (stake_amount stake div ucast p) * unat (ucast REWARD_RATE :: u128)"
    using mul by (simp only: unat_arith_simps)
  have "0 < unat p" using nz unat_ucast_u64_u128 [of p] by (metis gr0I unat_eq_zero)
  moreover have "unat reward = unat (stake_amount stake) div unat p * 1000000000"
    using r by (simp add: unat_div REWARD_RATE_def)
  ultimately show ?thesis using p by (intro exI [of _ "unat p"]) simp
qed

lemma calculate_reward_returns:
  assumes "lm_get L stakes stake_id = Some stake" and "overflow_checks e"
  shows "returns (calculate_reward L e stakes stake_id) \<longleftrightarrow>
     start_date stake < end_date stake \<and>
     unat (stake_amount stake) div (unat (end_date stake) - unat (start_date stake)) * 10 ^ 9 < 2 ^ 128"
proof (cases "start_date stake < end_date stake")
  case False
  then have "end_date stake = start_date stake \<or>
      checked_sub (end_date stake) (start_date stake) = None"
    by (auto simp: checked_sub_def)
  then show ?thesis
    using assms False
    by (auto simp: calculate_reward_def sub_op_def plain_op_def checked_sub_def require_def)
next
  case True
  let ?p = "end_date stake - start_date stake"
  have p: "unat ?p = unat (end_date stake) - unat (start_date stake)"
    using True by (intro unat_sub_exact) (simp add: word_less_nat_alt)
  have "unat (ucast ?p :: u128) \<noteq> 0"
    using True p unfolding unat_ucast_u64_u128 by (simp add: word_less_nat_alt)
  then have "(ucast ?p :: u128) \<noteq> 0" by (metis unat_0)
  moreover have "(sub_op True (end_date stake) (start_date stake) :: u64 small_result) = Inr ?p"
    using True by (intro sub_op_exact) (simp add: word_less_nat_alt)
  moreover have "returns (mul_op True (stake_amount stake div ucast ?p) (ucast REWARD_RATE) ::
      u128 small_result) \<longleftrightarrow>
    unat (stake_amount stake) div (unat (end_date stake) - unat (start_date stake)) * 10 ^ 9 < 2 ^ 128"
    by (simp add: mul_op_def plain_op_def checked_mul_def REWARD_RATE_def unat_div p)
  ultimately show ?thesis
    using assms True by (simp add: calculate_reward_def require_def Let_def)
qed

text \<open>What dividing first costs.  For a recorded stake, in a build with \<open>overflow-checks\<close>, the
  call returns exactly when the period is positive and the result fits 128 bits; otherwise it
  panics.  It returns the amount per time unit, cut down to a whole number, times the rate of
  \<open>10 ^ 9\<close>: never more than multiplying first would give, and short of that by less than \<open>10 ^ 9\<close>.
  A stake smaller than its period earns nothing at all.\<close>

theorem reward_bounds:
  assumes "lm_get L stakes stake_id = Some stake" and "overflow_checks e"
    and "d = unat (end_date stake) - unat (start_date stake)" and "A = unat (stake_amount stake)"
  shows "(returns (calculate_reward L e stakes stake_id) \<longleftrightarrow> 0 < d \<and> A div d * 10 ^ 9 < 2 ^ 128) \<and>
     (\<forall>reward. calculate_reward L e stakes stake_id = Inr reward \<longrightarrow>
        unat reward = A div d * 10 ^ 9 \<and> unat reward \<le> A * 10 ^ 9 div d \<and>
        A * 10 ^ 9 div d < unat reward + 10 ^ 9 \<and> (A < d \<longrightarrow> reward = 0))"
proof (intro conjI allI impI)
  show "returns (calculate_reward L e stakes stake_id) \<longleftrightarrow> 0 < d \<and> A div d * 10 ^ 9 < 2 ^ 128"
    using calculate_reward_returns [OF assms(1,2)] assms(3,4) by (simp add: word_less_nat_alt)
  fix reward
  assume "calculate_reward L e stakes stake_id = Inr reward"
  from calculate_reward_value [OF assms(1,2) this] assms(3,4)
  have d: "0 < d" and r: "unat reward = A div d * 10 ^ 9" by auto
  show "unat reward = A div d * 10 ^ 9" by (rule r)
  show "unat reward \<le> A * 10 ^ 9 div d" "A * 10 ^ 9 div d < unat reward + 10 ^ 9"
    using div_first_loses_less_than [OF d, of A "10 ^ 9"] unfolding r by simp_all
  show "reward = 0" if "A < d"
    using r that by (simp add: unat_eq_0)
qed

text \<open>A stake of 99 over 100 time units would earn 990000000, and earns nothing.\<close>

definition reward_demo :: Stake where
  "reward_demo = \<lparr>stake_owner = ''olga'', stake_amount = 99, start_date = 1000, end_date = 1100\<rparr>"

theorem reward_bounds_witness:
  "calculate_reward fun_map
     \<lparr>current_account_id = ''app'', predecessor_account_id = ''olga'', attached_deposit = 0,
      prepaid_gas = 0, used_gas = 0, block_timestamp = 0, storage_byte_cost = 0,
      promise_results = [], overflow_checks = True\<rparr> [7 \<mapsto> reward_demo] 7 = Inr 0"
  (is "calculate_reward _ ?e _ _ = _")
proof -
  have "lm_get fun_map [7 \<mapsto> reward_demo] 7 = Some reward_demo" by (simp add: fun_map_def)
  note bounds = reward_bounds [OF this _ refl refl, of ?e]
  then have "returns (calculate_reward fun_map ?e [7 \<mapsto> reward_demo] 7)"
    by (simp add: reward_demo_def)
  with bounds show ?thesis by (auto simp: returns_def reward_demo_def)
qed

subsection \<open>Crate \<open>timestamp\<close>\<close>

definition lottery_default :: "AccountId list" where
  "lottery_default = []"

text \<open>
  The remainder panics when there are no users; the vector's length and the index are computed in
  128 bits, so nothing is cut off.
\<close>

definition generate_winner :: "AccountId list \<Rightarrow> u64 \<Rightarrow> AccountId small_result" where
  "generate_winner users time =
     rbind (require (users \<noteq> []) DivisionByZero) (\<lambda>_.
     let i = unat time mod length users
     in if i < length users then Inr (users ! i) else Inl IndexOutOfBounds)"

definition get_winner :: "env \<Rightarrow> AccountId list \<Rightarrow> AccountId small_result" where
  "get_winner e users = generate_winner users (block_timestamp e)"

lemma get_winner_eq:
  "get_winner e users =
     (if users = [] then Inl DivisionByZero
      else Inr (users ! (unat (block_timestamp e) mod length users)))"
  by (simp add: get_winner_def generate_winner_def require_def Let_def)

subsection \<open>Crate \<open>complex-loop\<close>\<close>

record User =
  user_id :: u16
  user_amount :: u32

fun repeat_op :: "nat \<Rightarrow> ('a \<Rightarrow> 'e + 'a) \<Rightarrow> 'a \<Rightarrow> 'e + 'a" where
  "repeat_op 0 f x = Inr x"
| "repeat_op (Suc n) f x = rbind (f x) (repeat_op n f)"

text \<open>Seven additions of one and seven subtractions of one.\<close>

definition complex_calc :: "env \<Rightarrow> User \<Rightarrow> User small_result" where
  "complex_calc e u =
     rbind (repeat_op 7 (\<lambda>a. add_op (overflow_checks e) a 1) (user_amount u)) (\<lambda>a.
     rbind (repeat_op 7 (\<lambda>a. sub_op (overflow_checks e) a 1) a) (\<lambda>b.
     Inr (u\<lparr>user_amount := b\<rparr>)))"

definition complex_loop_default :: "User list" where
  "complex_loop_default = []"

definition register_users :: "env \<Rightarrow> User \<Rightarrow> User list \<Rightarrow> User list small_result" where
  "register_users e user users = rbind (assert_not_payable e) (\<lambda>_. Inr (users @ [user]))"

fun update_users :: "env \<Rightarrow> User list \<Rightarrow> User list small_result" where
  "update_users e [] = Inr []"
| "update_users e (u # us) =
     rbind (complex_calc e u) (\<lambda>u1. rbind (update_users e us) (\<lambda>us1. Inr (u1 # us1)))"

definition update_all_users :: "env \<Rightarrow> User list \<Rightarrow> User list small_result" where
  "update_all_users e users = rbind (assert_not_payable e) (\<lambda>_. update_users e users)"

lemma repeat_add:
  "repeat_op n (\<lambda>a. add_op True a 1) x = Inr (y :: u32) \<Longrightarrow> unat y = unat x + n"
  by (induction n arbitrary: x) (auto simp: result_simps unat_arith_simps)

lemma repeat_sub:
  "repeat_op n (\<lambda>a. sub_op True a 1) x = Inr (y :: u32) \<Longrightarrow> unat x = unat y + n"
  by (induction n arbitrary: x) (auto simp: result_simps unat_arith_simps)

lemma complex_calc_changes_nothing:
  assumes "overflow_checks e" and "complex_calc e u = Inr u'"
  shows "u' = u"
proof -
  obtain a b where "repeat_op 7 (\<lambda>a. add_op True a 1) (user_amount u) = (Inr a :: u32 small_result)"
    and "repeat_op 7 (\<lambda>a. sub_op True a 1) a = (Inr b :: u32 small_result)"
    and u': "u' = u\<lparr>user_amount := b\<rparr>"
    using assms unfolding complex_calc_def rbind_eq_Inr by auto
  then have "unat b = unat (user_amount u)" using repeat_add repeat_sub by fastforce
  then have "b = user_amount u" by (simp add: word_unat_eq_iff)
  with u' show ?thesis by (cases u) simp
qed

lemma update_all_users_changes_nothing:
  assumes "overflow_checks e" and "update_all_users e users = Inr users'"
  shows "users' = users"
proof -
  have "update_users e us = Inr us' \<Longrightarrow> us' = us" for us us'
    by (induction us arbitrary: us')
      (auto simp: result_simps dest: complex_calc_changes_nothing [OF assms(1)])
  with assms(2) show ?thesis by (auto simp: update_all_users_def result_simps)
qed

subsection \<open>Crate \<open>tautology\<close>\<close>

datatype Identity = Normal | Admin

definition identities_default :: "('m, AccountId, Identity) map_ops \<Rightarrow> bytes \<Rightarrow> 'm" where
  "identities_default L key = lm_new L key"

definition check_identity ::
    "('m, AccountId, Identity) map_ops \<Rightarrow> env \<Rightarrow> 'm \<Rightarrow> Identity \<Rightarrow> bool small_result" where
  "check_identity L e users identity =
     rbind (unwrap_or_panic (Msg AccountNotRecorded) (lm_get L users (predecessor_account_id e)))
       (\<lambda>i. Inr (i = identity))"

text \<open>\<open>true ||\<close> does not evaluate its right side; \<open>unimplemented!()\<close> panics.\<close>

definition normal_request :: "('m, AccountId, Identity) map_ops \<Rightarrow> env \<Rightarrow> 'm \<Rightarrow> unit small_result" where
  "normal_request L e users =
     rbind (if True then Inr True else check_identity L e users Normal) (\<lambda>b.
     if b then Inl NotImplemented else Inl (Msg InvalidIdentity))"

definition admin_request :: "('m, AccountId, Identity) map_ops \<Rightarrow> env \<Rightarrow> 'm \<Rightarrow> unit small_result" where
  "admin_request L e users =
     rbind (rbind (check_identity L e users Admin) (\<lambda>b. if b then Inr False else Inr False)) (\<lambda>b.
     if b then Inl NotImplemented else Inl (Msg InvalidIdentity))"

lemma requests_ignore_identity:
  "normal_request L e users = Inl NotImplemented"
  "admin_request L e users =
     (if lm_get L users (predecessor_account_id e) = None then Inl (Msg AccountNotRecorded)
      else Inl (Msg InvalidIdentity))"
  by (auto simp: normal_request_def admin_request_def check_identity_def)

subsection \<open>Crate \<open>yocto-attach\<close>\<close>

record FeeContract =
  fee_owner_id :: AccountId
  fee_rate :: u32

definition fee_default :: FeeContract where
  "fee_default = \<lparr>fee_owner_id = ''owner.near'', fee_rate = 0\<rparr>"

definition fee_set_owner :: "env \<Rightarrow> AccountId \<Rightarrow> FeeContract \<Rightarrow> FeeContract small_result" where
  "fee_set_owner e owner_id c =
     rbind (assert_one_yocto e) (\<lambda>_.
     rbind (require (predecessor_account_id e = fee_owner_id c) (Msg OnlyOwner)) (\<lambda>_.
     Inr (c\<lparr>fee_owner_id := owner_id\<rparr>)))"

definition set_fee_rate :: "env \<Rightarrow> u32 \<Rightarrow> FeeContract \<Rightarrow> FeeContract small_result" where
  "set_fee_rate e rate c =
     rbind (require (predecessor_account_id e = fee_owner_id c) (Msg OnlyOwner)) (\<lambda>_.
     Inr (c\<lparr>fee_rate := rate\<rparr>))"

text \<open>Only the change of the owner asks for the yoctoNEAR that a full-access key must sign.\<close>

lemma only_owner_change_needs_yocto:
  "returns (fee_set_owner e a c) \<longleftrightarrow>
     predecessor_account_id e = fee_owner_id c \<and> attached_deposit e = 1"
  "returns (set_fee_rate e r c) \<longleftrightarrow> predecessor_account_id e = fee_owner_id c"
  by (auto simp: fee_set_owner_def set_fee_rate_def returns_def result_simps)

subsection \<open>Crates \<open>unused-ret\<close> and \<open>storage-gas\<close>\<close>

definition users_default :: "('s, AccountId) set_ops \<Rightarrow> bytes \<Rightarrow> 's" where
  "users_default S key = us_new S key"

definition add_single_user :: "('s, AccountId) set_ops \<Rightarrow> 's \<Rightarrow> AccountId \<Rightarrow> 's \<times> bool" where
  "add_single_user S users user = us_insert S users user"

definition remove_single_user :: "('s, AccountId) set_ops \<Rightarrow> 's \<Rightarrow> AccountId \<Rightarrow> 's \<times> bool" where
  "remove_single_user S users user = us_remove S users user"

text \<open>The loops drop the answers whether the users were new or present.\<close>

definition add_users ::
    "('s, AccountId) set_ops \<Rightarrow> env \<Rightarrow> AccountId list \<Rightarrow> 's \<Rightarrow> 's small_result" where
  "add_users S e new_users users =
     rbind (assert_not_payable e) (\<lambda>_.
     Inr (foldl (\<lambda>s user. fst (add_single_user S s user)) users new_users))"

definition remove_users ::
    "('s, AccountId) set_ops \<Rightarrow> env \<Rightarrow> AccountId list \<Rightarrow> 's \<Rightarrow> 's small_result" where
  "remove_users S e old_users users =
     rbind (assert_not_payable e) (\<lambda>_.
     Inr (foldl (\<lambda>s user. fst (remove_single_user S s user)) users old_users))"

lemma user_loops:
  assumes "unordered_set S"
  shows "add_users S e us s = Inr s' \<Longrightarrow> set (us_iter S s') = set (us_iter S s) \<union> set us"
    and "remove_users S e us s = Inr s' \<Longrightarrow> set (us_iter S s') = set (us_iter S s) - set us"
proof -
  have "set (us_iter S (foldl (\<lambda>s user. fst (add_single_user S s user)) s us)) =
      set (us_iter S s) \<union> set us"
    by (induction us arbitrary: s)
      (auto simp: add_single_user_def unordered_set.us_iter_insert [OF assms])
  then show "add_users S e us s = Inr s' \<Longrightarrow> set (us_iter S s') = set (us_iter S s) \<union> set us"
    by (auto simp: add_users_def result_simps)
  have "set (us_iter S (foldl (\<lambda>s user. fst (remove_single_user S s user)) s us)) =
      set (us_iter S s) - set us"
    by (induction us arbitrary: s)
      (auto simp: remove_single_user_def unordered_set.us_iter_remove [OF assms])
  then show "remove_users S e us s = Inr s' \<Longrightarrow> set (us_iter S s') = set (us_iter S s) - set us"
    by (auto simp: remove_users_def result_simps)
qed

record Bank =
  bank_owner :: AccountId
  bank_balance :: Balance

text \<open>What a caller sends as JSON.\<close>

record BankInterface =
  interface_owner :: AccountId
  interface_balance :: u128

definition banks_default :: "('s, Bank) set_ops \<Rightarrow> bytes \<Rightarrow> 's" where
  "banks_default S key = us_new S key"

text \<open>\<open>usage\<close> is the host's accounting of the contract's storage; neither method is payable.\<close>

definition create_bank_safe ::
    "('s, Bank) set_ops \<Rightarrow> ('s \<Rightarrow> StorageUsage) \<Rightarrow> env \<Rightarrow> BankInterface \<Rightarrow> 's \<Rightarrow> 's small_result" where
  "create_bank_safe S usage e bank banks =
     rbind (assert_not_payable e) (\<lambda>_.
     let prev_storage = usage banks;
         banks1 = fst (us_insert S banks
           \<lparr>bank_owner = interface_owner bank, bank_balance = interface_balance bank\<rparr>)
     in rbind (sub_op (overflow_checks e) (usage banks1) prev_storage) (\<lambda>used.
        rbind (mul_op (overflow_checks e) (ucast used) (storage_byte_cost e)) (\<lambda>cost.
        rbind (require (cost < attached_deposit e) (Msg InsufficientStorageGas)) (\<lambda>_.
        Inr banks1))))"

definition create_bank_unsafe ::
    "('s, Bank) set_ops \<Rightarrow> env \<Rightarrow> BankInterface \<Rightarrow> 's \<Rightarrow> 's small_result" where
  "create_bank_unsafe S e bank banks =
     rbind (assert_not_payable e) (\<lambda>_.
     Inr (fst (us_insert S banks
       \<lparr>bank_owner = interface_owner bank, bank_balance = interface_balance bank\<rparr>)))"

text \<open>Without \<open>#[payable]\<close> the deposit is zero, and no storage is cheaper than that.\<close>

lemma create_bank_safe_always_panics: "\<not> returns (create_bank_safe S usage e bank banks)"
  by (auto simp: create_bank_safe_def returns_def result_simps Let_def)

subsection \<open>Crate \<open>unsaved-changes\<close>\<close>

text \<open>\<open>checked_add\<close> on \<open>i128\<close>.\<close>

definition checked_add_i128 :: "i128 \<Rightarrow> i128 \<Rightarrow> i128 option" where
  "checked_add_i128 a b =
     (if - (2 ^ 127) \<le> sint a + sint b \<and> sint a + sint b < 2 ^ 127 then Some (a + b) else None)"

definition signed_new :: "('m, AccountId, i128) map_ops \<Rightarrow> env \<Rightarrow> bytes \<Rightarrow> 'm small_result" where
  "signed_new L e key = rbind (assert_not_payable e) (\<lambda>_. Inr (lm_new L key))"

definition register_signed ::
    "('m, AccountId, i128) map_ops \<Rightarrow> env \<Rightarrow> 'm \<Rightarrow> 'm" where
  "register_signed L e m = fst (lm_insert L m (predecessor_account_id e) 0)"

definition modify_safe ::
    "('m, AccountId, i128) map_ops \<Rightarrow> env \<Rightarrow> i128 \<Rightarrow> 'm \<Rightarrow> 'm small_result" where
  "modify_safe L e change m =
     rbind (unwrap_or_panic (Msg AccountIsNotRegistered)
              (lm_get L m (predecessor_account_id e))) (\<lambda>balance.
     rbind (unwrap_or_panic (Msg SignedOverflow) (checked_add_i128 balance change)) (\<lambda>balance.
     Inr (fst (lm_insert L m (predecessor_account_id e) balance))))"

definition modify_unsafe ::
    "('m, AccountId, i128) map_ops \<Rightarrow> env \<Rightarrow> i128 \<Rightarrow> 'm \<Rightarrow> 'm small_result" where
  "modify_unsafe L e change m =
     rbind (unwrap_or_panic (Msg AccountIsNotRegistered)
              (lm_get L m (predecessor_account_id e))) (\<lambda>balance.
     rbind (unwrap_or_panic (Msg SignedOverflow) (checked_add_i128 balance change)) (\<lambda>balance.
     Inr m))"

text \<open>The two return for the same calls; only the first one keeps the new balance.\<close>

lemma modify_unsafe_forgets:
  assumes "lookup_map L"
  shows "returns (modify_unsafe L e change m) \<longleftrightarrow> returns (modify_safe L e change m)"
    and "modify_unsafe L e change m = Inr m' \<Longrightarrow> m' = m"
    and "modify_safe L e change m = Inr m' \<Longrightarrow>
      \<exists>b c. lm_get L m (predecessor_account_id e) = Some b \<and> checked_add_i128 b change = Some c \<and>
        lm_get L m' = (lm_get L m)(predecessor_account_id e \<mapsto> c)"
  by (auto simp: modify_unsafe_def modify_safe_def returns_def result_simps
      lookup_map.get_insert [OF assms])

subsection \<open>Crate \<open>upgrade-func\<close>\<close>

record UpgradableContract =
  up_owner_id :: AccountId
  up_token_id :: AccountId
  up_depositor :: AccountId
  up_balance :: u128

record Meta =
  meta_owner_id :: AccountId
  meta_token_id :: AccountId
  meta_depositor :: AccountId
  meta_balance :: u128

definition upgradable_default :: UpgradableContract where
  "upgradable_default =
     \<lparr>up_owner_id = ''owner.near'', up_token_id = ''ft_token.near'',
      up_depositor = ''depositor.near'', up_balance = 100\<rparr>"

definition upgradable_migrate ::
    "env \<Rightarrow> UpgradableContract option \<Rightarrow> UpgradableContract small_result" where
  "upgradable_migrate e state =
     rbind (assert_private e) (\<lambda>_.
     rbind (assert_not_payable e) (\<lambda>_.
     unwrap_or_panic (Msg ContractNotInitialized) state))"

definition get_meta :: "UpgradableContract \<Rightarrow> Meta" where
  "get_meta c =
     \<lparr>meta_owner_id = up_owner_id c, meta_token_id = up_token_id c,
      meta_depositor = up_depositor c, meta_balance = up_balance c\<rparr>"

text \<open>The actions of the one promise batch, on the contract's own account, in order.\<close>

datatype UpgradeAction = DeployInput bytes | CallMigrate Gas | CallGetMeta Gas

definition GAS_FOR_COMPLETING_UPGRADE_CALL :: Gas where
  "GAS_FOR_COMPLETING_UPGRADE_CALL = 10 * 1000000000000"
definition MIN_GAS_FOR_MIGRATE_CALL :: Gas where
  "MIN_GAS_FOR_MIGRATE_CALL = 10 * 1000000000000"
definition GAS_FOR_GET_META_CALL :: Gas where
  "GAS_FOR_GET_META_CALL = 5 * 1000000000000"

definition upgrade ::
    "env \<Rightarrow> bytes \<Rightarrow> UpgradableContract option \<Rightarrow> (AccountId \<times> UpgradeAction list) small_result" where
  "upgrade e input state =
     rbind (unwrap_or_panic (Msg ContractNotInitialized) state) (\<lambda>c.
     rbind (require (predecessor_account_id e = up_owner_id c) (Msg OnlyOwner)) (\<lambda>_.
     rbind (add_op (overflow_checks e) (used_gas e) GAS_FOR_COMPLETING_UPGRADE_CALL) (\<lambda>g.
     rbind (add_op (overflow_checks e) g GAS_FOR_GET_META_CALL) (\<lambda>required_gas.
     rbind (add_op (overflow_checks e) required_gas MIN_GAS_FOR_MIGRATE_CALL) (\<lambda>least.
     rbind (require (least \<le> prepaid_gas e) (Msg NotEnoughGas)) (\<lambda>_.
     rbind (sub_op (overflow_checks e) (prepaid_gas e) required_gas) (\<lambda>migrate_attached_gas.
     Inr (current_account_id e,
          [DeployInput input, CallMigrate migrate_attached_gas,
           CallGetMeta GAS_FOR_GET_META_CALL]))))))))"

lemma upgrade_reserves_gas:
  assumes "overflow_checks e" and "upgrade e input state = Inr (a, actions)"
  shows "\<exists>c g. state = Some c \<and> predecessor_account_id e = up_owner_id c \<and>
     a = current_account_id e \<and>
     actions = [DeployInput input, CallMigrate g, CallGetMeta GAS_FOR_GET_META_CALL] \<and>
     unat (used_gas e) + unat g + unat GAS_FOR_GET_META_CALL +
       unat GAS_FOR_COMPLETING_UPGRADE_CALL = unat (prepaid_gas e) \<and>
     unat MIN_GAS_FOR_MIGRATE_CALL \<le> unat g"
proof -
  obtain c x r l g where c: "state = Some c" "predecessor_account_id e = up_owner_id c"
    and a: "a = current_account_id e"
      "actions = [DeployInput input, CallMigrate g, CallGetMeta GAS_FOR_GET_META_CALL]"
    and gas: "add_op True (used_gas e) GAS_FOR_COMPLETING_UPGRADE_CALL = (Inr x :: Gas small_result)"
      "add_op True x GAS_FOR_GET_META_CALL = (Inr r :: Gas small_result)"
      "add_op True r MIN_GAS_FOR_MIGRATE_CALL = (Inr l :: Gas small_result)"
      "l \<le> prepaid_gas e"
      "sub_op True (prepaid_gas e) r = (Inr g :: Gas small_result)"
    using assms by (auto simp: upgrade_def result_simps)
  have "unat (used_gas e) + unat g + unat GAS_FOR_GET_META_CALL +
       unat GAS_FOR_COMPLETING_UPGRADE_CALL = unat (prepaid_gas e) \<and>
     unat MIN_GAS_FOR_MIGRATE_CALL \<le> unat g"
    using gas unfolding unat_arith_simps word_le_nat_alt by linarith
  with c a show ?thesis by blast
qed

subsection \<open>Crates of one method\<close>

text \<open>
  \<open>ext-call\<close> calls a calculator on another account, without a callback and with no gas of its own
  set aside.
\<close>

datatype CalculatorCall = CalculatorSum u128 u128

definition sum_a_b ::
    "env \<Rightarrow> u128 \<Rightarrow> u128 \<Rightarrow> (string, CalculatorCall) effects small_result" where
  "sum_a_b e a b =
     rbind (assert_not_payable e) (\<lambda>_.
     Inr (schedule (FunctionCall ''calc.near'' (CalculatorSum a b) 0 0) no_effects))"

text \<open>\<open>non-callback-private\<close>: a query that only the contract itself may make.\<close>

record PoolToken =
  pool_token_id :: AccountId
  pool_alias :: string
  pool_supply :: u128

definition pool_default :: "PoolToken list" where
  "pool_default = []"

definition get_token_list :: "env \<Rightarrow> PoolToken list \<Rightarrow> PoolToken list small_result" where
  "get_token_list e token_list = rbind (assert_private e) (\<lambda>_. Inr token_list)"

lemma get_token_list_only_for_itself:
  "returns (get_token_list e ts) \<longleftrightarrow> predecessor_account_id e = current_account_id e"
  by (auto simp: get_token_list_def returns_def result_simps)

text \<open>
  \<open>dup-collection-id\<close>: two collections of one contract under one storage key.  \<open>key\<close> encodes the
  variants of the crate's \<open>StorageKey\<close>.
\<close>

datatype DupStorageKey = DupOrders | DupUsers

record DupOrder =
  dup_token_id :: AccountId
  dup_user :: AccountId
  dup_amount :: u128

record ('m, 's) DupContract =
  dup_orders :: 'm
  dup_users :: 's

definition dup_new ::
    "('m, u16, DupOrder) map_ops \<Rightarrow> ('s, AccountId) set_ops \<Rightarrow> (DupStorageKey \<Rightarrow> bytes) \<Rightarrow> env \<Rightarrow>
     ('m, 's) DupContract small_result" where
  "dup_new L S key e =
     rbind (assert_not_payable e) (\<lambda>_.
     Inr \<lparr>dup_orders = lm_new L (key DupOrders), dup_users = us_new S (key DupOrders)\<rparr>)"

text \<open>\<open>incorrect-json-type\<close>: a query that hands out numbers of 64 and 128 bits.\<close>

record StakeInfo =
  info_owner :: AccountId
  info_amount :: Balance
  info_start_date :: Timestamp
  info_end_date :: Timestamp

definition stake_infos_default :: "('m, u16, StakeInfo) map_ops \<Rightarrow> bytes \<Rightarrow> 'm" where
  "stake_infos_default L key = lm_new L key"

definition get_stake_info :: "('m, u16, StakeInfo) map_ops \<Rightarrow> 'm \<Rightarrow> u16 \<Rightarrow> StakeInfo small_result" where
  "get_stake_info L stakes stake_id = unwrap_or_panic UnwrapNone (lm_get L stakes stake_id)"

end
