(* ===== verification/TransferStandard.thy ===== *)
theory TransferStandard
  imports FungibleToken
begin

section \<open>The standard NEP-141 as the traits state it\<close>

text \<open>
  \<open>fungible_token/core.rs\<close>, \<open>receiver.rs\<close> and \<open>resolver.rs\<close> of \<open>nep-interface\<close>: the traits
  \<open>FungibleTokenCore\<close> and \<open>FungibleTokenResolver\<close> as records of methods, the call builders that
  \<open>#[ext_contract]\<close> makes of the receiver's and the resolver's trait, and one definition for each
  requirement taken from the comments of \<open>FungibleTokenCore\<close>.  The locale \<open>nep141\<close> is the contract
  between a token and those who use it: its assumptions are the requirements, its lemmas are what
  a user gets from any token that meets them.  The theory \<open>TransferConformance\<close> says which of the
  repository's tokens do.
\<close>

subsection \<open>The traits\<close>

record ('s, 'l, 'c, 'e) FungibleTokenCore =
  core_ft_transfer ::
    "env \<Rightarrow> 's \<Rightarrow> ('l, 'c) effects \<Rightarrow> AccountId \<Rightarrow> u128 \<Rightarrow> string option \<Rightarrow>
     'e panic + 's \<times> ('l, 'c) effects"
  core_ft_transfer_call ::
    "env \<Rightarrow> 's \<Rightarrow> ('l, 'c) effects \<Rightarrow> AccountId \<Rightarrow> u128 \<Rightarrow> string option \<Rightarrow> string \<Rightarrow>
     'e panic + 's \<times> ('l, 'c) effects"
  core_ft_total_supply :: "'s \<Rightarrow> u128"
  core_ft_balance_of :: "'s \<Rightarrow> AccountId \<Rightarrow> 'e panic + u128"

record ('s, 'l, 'c, 'e) FungibleTokenResolver =
  resolver_ft_resolve_transfer ::
    "env \<Rightarrow> 's \<Rightarrow> ('l, 'c) effects \<Rightarrow> AccountId \<Rightarrow> AccountId \<Rightarrow> u128 \<Rightarrow>
     'e panic + 's \<times> ('l, 'c) effects \<times> u128"

text \<open>The calls of \<open>ext_ft_receiver\<close> and \<open>ext_ft_resolver\<close>.\<close>

record 'c ext_ft =
  ext_ft_on_transfer :: "AccountId \<Rightarrow> u128 \<Rightarrow> string \<Rightarrow> 'c"
  ext_ft_resolve_transfer :: "AccountId \<Rightarrow> AccountId \<Rightarrow> u128 \<Rightarrow> 'c"

subsection \<open>The requirements\<close>

text \<open>
  The requirements speak of the registered accounts and of what they hold.  A state shows them
  through a function \<open>bal\<close>, which is \<open>None\<close> for an account that is not registered; \<open>ok\<close> is the
  invariant of the implementation.
\<close>

type_synonym 's account_view = "'s \<Rightarrow> AccountId \<Rightarrow> Balance option"

definition held :: "'s account_view \<Rightarrow> 's \<Rightarrow> AccountId \<Rightarrow> nat" where
  "held bal s a = unat (unwrap_or 0 (bal s a))"

text \<open>The caller of \<open>e\<close> sends \<open>x\<close> to \<open>r\<close>, by either of the two methods.\<close>

definition ft_sends ::
    "('s, 'l, 'c, 'e) FungibleTokenCore \<Rightarrow> env \<Rightarrow> 's \<Rightarrow> ('l, 'c) effects \<Rightarrow> AccountId \<Rightarrow> u128 \<Rightarrow>
     's \<Rightarrow> ('l, 'c) effects \<Rightarrow> bool" where
  "ft_sends M e s h r x s' h' \<longleftrightarrow>
     (\<exists>memo. core_ft_transfer M e s h r x memo = Inr (s', h')) \<or>
     (\<exists>memo msg. core_ft_transfer_call M e s h r x memo msg = Inr (s', h'))"

text \<open>``Exactly 1 yoctoNEAR must be attached.''\<close>

definition wants_one_yocto :: "('s, 'l, 'c, 'e) FungibleTokenCore \<Rightarrow> bool" where
  "wants_one_yocto M \<longleftrightarrow>
     (\<forall>e s h r x s' h'. ft_sends M e s h r x s' h' \<longrightarrow> attached_deposit e = 1)"

text \<open>``Both accounts must be registered with the contract for transfer to succeed.''\<close>

definition wants_both_registered ::
    "('s, 'l, 'c, 'e) FungibleTokenCore \<Rightarrow> 's account_view \<Rightarrow> bool" where
  "wants_both_registered M bal \<longleftrightarrow>
     (\<forall>e s h r x s' h'. ft_sends M e s h r x s' h' \<longrightarrow>
        bal s (predecessor_account_id e) \<noteq> None \<and> bal s r \<noteq> None)"

text \<open>``Must be a positive number.''\<close>

definition wants_positive_amount :: "('s, 'l, 'c, 'e) FungibleTokenCore \<Rightarrow> bool" where
  "wants_positive_amount M \<longleftrightarrow>
     (\<forall>e s h r x s' h'. ft_sends M e s h r x s' h' \<longrightarrow> 0 < x)"

text \<open>
  ``Transfers positive \<open>amount\<close> of tokens from the predecessor to \<open>receiver_id\<close>'': the sender has
  the amount, loses it, the receiver gets it, and nobody else is touched.
\<close>

definition amount_moved ::
    "(AccountId \<Rightarrow> nat) \<Rightarrow> AccountId \<Rightarrow> AccountId \<Rightarrow> nat \<Rightarrow> (AccountId \<Rightarrow> nat) \<Rightarrow> bool" where
  "amount_moved f s r n g \<longleftrightarrow>
     n \<le> f s \<and> (\<forall>a. g a + (if a = s then n else 0) = f a + (if a = r then n else 0))"

definition transfers_the_amount ::
    "('s, 'l, 'c, 'e) FungibleTokenCore \<Rightarrow> 's account_view \<Rightarrow> ('s \<Rightarrow> bool) \<Rightarrow> bool" where
  "transfers_the_amount M bal ok \<longleftrightarrow>
     (\<forall>e s h r x s' h'. ok s \<longrightarrow> ft_sends M e s h r x s' h' \<longrightarrow>
        ok s' \<and> core_ft_total_supply M s' = core_ft_total_supply M s \<and>
        amount_moved (held bal s) (predecessor_account_id e) r (unat x) (held bal s'))"

text \<open>
  And the transfer does succeed when nothing that the comments name stands against it: two different
  registered accounts, one yoctoNEAR, a positive amount that the sender has.
\<close>

definition serves_transfers ::
    "('s, 'l, 'c, 'e) FungibleTokenCore \<Rightarrow> 's account_view \<Rightarrow> ('s \<Rightarrow> bool) \<Rightarrow> bool" where
  "serves_transfers M bal ok \<longleftrightarrow>
     (\<forall>e s h r x memo. ok s \<longrightarrow> attached_deposit e = 1 \<longrightarrow> predecessor_account_id e \<noteq> r \<longrightarrow>
        bal s (predecessor_account_id e) \<noteq> None \<longrightarrow> bal s r \<noteq> None \<longrightarrow> 0 < x \<longrightarrow>
        unat x \<le> held bal s (predecessor_account_id e) \<longrightarrow>
        returns (core_ft_transfer M e s h r x memo))"

text \<open>
  ``This method must be able to accept attached deposits, and must not panic on attached deposit'',
  said of \<open>ft_transfer_call\<close> too: under the same conditions the transfer call returns, when more gas
  is prepaid than the token keeps for itself and for the callback.
\<close>

definition serves_transfer_calls ::
    "('s, 'l, 'c, 'e) FungibleTokenCore \<Rightarrow> Gas \<Rightarrow> 's account_view \<Rightarrow> ('s \<Rightarrow> bool) \<Rightarrow> bool" where
  "serves_transfer_calls M reserve bal ok \<longleftrightarrow>
     (\<forall>e s h r x memo msg. ok s \<longrightarrow> attached_deposit e = 1 \<longrightarrow> reserve < prepaid_gas e \<longrightarrow>
        predecessor_account_id e \<noteq> r \<longrightarrow>
        bal s (predecessor_account_id e) \<noteq> None \<longrightarrow> bal s r \<noteq> None \<longrightarrow> 0 < x \<longrightarrow>
        unat x \<le> held bal s (predecessor_account_id e) \<longrightarrow>
        returns (core_ft_transfer_call M e s h r x memo msg))"

text \<open>A plain transfer calls nobody.\<close>

definition transfer_calls_nobody :: "('s, 'l, 'c, 'e) FungibleTokenCore \<Rightarrow> bool" where
  "transfer_calls_nobody M \<longleftrightarrow>
     (\<forall>e s h r x memo s' h'. core_ft_transfer M e s h r x memo = Inr (s', h') \<longrightarrow>
        promises h' = promises h)"

text \<open>
  ``Then calls \<open>ft_on_transfer\<close> method on \<open>receiver_id\<close> contract and attaches a callback to resolve
  this transfer.''
\<close>

definition calls_receiver_and_resolver ::
    "('s, 'l, 'c, 'e) FungibleTokenCore \<Rightarrow> 'c ext_ft \<Rightarrow> bool" where
  "calls_receiver_and_resolver M X \<longleftrightarrow>
     (\<forall>e s h r x memo msg s' h'. core_ft_transfer_call M e s h r x memo msg = Inr (s', h') \<longrightarrow>
        (\<exists>g g'. promises h' = promises h @
           [Then (FunctionCall r (ext_ft_on_transfer X (predecessor_account_id e) x msg) 0 g)
                 (FunctionCall (current_account_id e)
                    (ext_ft_resolve_transfer X (predecessor_account_id e) r x) 0 g')]))"

text \<open>
  ``Token contract must pass all the remaining unused gas to the \<open>ft_on_transfer\<close> call'': all that is
  prepaid but what the token keeps for itself and for the callback.  A build that checks for overflow
  may do it where one that does not fails to; \<open>checks\<close> says which build it is.
\<close>

definition passes_remaining_gas ::
    "('s, 'l, 'c, 'e) FungibleTokenCore \<Rightarrow> bool \<Rightarrow> Gas \<Rightarrow> bool" where
  "passes_remaining_gas M checks reserve \<longleftrightarrow>
     (\<forall>e s h r x memo msg s' h' c d g q. overflow_checks e = checks \<longrightarrow>
        core_ft_transfer_call M e s h r x memo msg = Inr (s', h') \<longrightarrow>
        promises h' = promises h @ [Then (FunctionCall r c d g) q] \<longrightarrow>
        unat g + unat reserve = unat (prepaid_gas e))"

text \<open>``Returns the total supply of the token'': what all accounts hold together.\<close>

definition supply_answers ::
    "('s, 'l, 'c, 'e) FungibleTokenCore \<Rightarrow> 's account_view \<Rightarrow> ('s \<Rightarrow> bool) \<Rightarrow> bool" where
  "supply_answers M bal ok \<longleftrightarrow>
     (\<forall>s. ok s \<longrightarrow> finite (dom (bal s)) \<and>
        unat (core_ft_total_supply M s) = (\<Sum>a \<in> dom (bal s). held bal s a))"

text \<open>``Returns the balance of the account. If the account doesn't exist must returns \<open>0\<close>.''\<close>

definition balance_of_answers ::
    "('s, 'l, 'c, 'e) FungibleTokenCore \<Rightarrow> 's account_view \<Rightarrow> bool" where
  "balance_of_answers M bal \<longleftrightarrow>
     (\<forall>s a. core_ft_balance_of M s a = Inr (unwrap_or 0 (bal s a)))"

text \<open>
  ``If the receiver contract promise fails or returns invalid value, the full transfer amount must
  be refunded.  If the receiver contract overspent the tokens, and the \<open>receiver_id\<close> balance is lower
  than the required refund amount, the remaining balance must be refunded.''  The callback is a call
  of the contract to itself without deposit, with one result.  A refund whose sender is not
  registered any more leaves the supply.
\<close>

definition ft_callback :: "env \<Rightarrow> PromiseResult \<Rightarrow> bool" where
  "ft_callback e r \<longleftrightarrow> predecessor_account_id e = current_account_id e \<and> attached_deposit e = 0 \<and>
     promise_results e = [r] \<and> r \<noteq> NotReady"

definition refunded ::
    "'s account_view \<Rightarrow> ('s \<Rightarrow> u128) \<Rightarrow> AccountId \<Rightarrow> AccountId \<Rightarrow> u128 \<Rightarrow> nat \<Rightarrow> 's \<Rightarrow> 's \<Rightarrow> u128 \<Rightarrow> bool" where
  "refunded bal supply sender receiver amount refund s s' used \<longleftrightarrow>
     (\<forall>a. held bal s' a + (if a = receiver then refund else 0) =
          held bal s a + (if a = sender \<and> bal s sender \<noteq> None then refund else 0)) \<and>
     unat (supply s') + (if bal s sender = None then refund else 0) = unat (supply s) \<and>
     unat used + (if bal s sender = None then 0 else refund) = unat amount"

definition refunds_the_unused ::
    "('s, 'l, 'c, 'e) FungibleTokenCore \<Rightarrow> ('s, 'l, 'c, 'e) FungibleTokenResolver \<Rightarrow>
     (bytes \<Rightarrow> u128 option) \<Rightarrow> 's account_view \<Rightarrow> ('s \<Rightarrow> bool) \<Rightarrow> bool" where
  "refunds_the_unused M R from_slice bal ok \<longleftrightarrow>
     (\<forall>e s h sender receiver amount r. ok s \<longrightarrow> ft_callback e r \<longrightarrow>
        (\<exists>s' h' used. resolver_ft_resolve_transfer R e s h sender receiver amount = Inr (s', h', used) \<and>
           ok s' \<and>
           refunded bal (core_ft_total_supply M) sender receiver amount
             (min (held bal s receiver) (unat (unused_of from_slice amount r))) s s' used))"

text \<open>
  The requirements that the comments of \<open>FungibleTokenCore\<close> state of the token, each with whether
  the token meets it.
\<close>

definition nep141_report ::
    "('s, 'l, 'c, 'e) FungibleTokenCore \<Rightarrow> ('s, 'l, 'c, 'e) FungibleTokenResolver \<Rightarrow> 'c ext_ft \<Rightarrow>
     bool \<Rightarrow> Gas \<Rightarrow> (bytes \<Rightarrow> u128 option) \<Rightarrow> 's account_view \<Rightarrow> ('s \<Rightarrow> bool) \<Rightarrow> (string \<times> bool) list" where
  "nep141_report M R X checks reserve from_slice bal ok =
     [(''one yocto'', wants_one_yocto M),
      (''both registered'', wants_both_registered M bal),
      (''positive amount'', wants_positive_amount M),
      (''moves the amount'', transfers_the_amount M bal ok),
      (''serves transfers'', serves_transfers M bal ok),
      (''serves transfer calls'', serves_transfer_calls M reserve bal ok),
      (''calls nobody'', transfer_calls_nobody M),
      (''calls receiver and resolver'', calls_receiver_and_resolver M X),
      (''passes remaining gas'', passes_remaining_gas M checks reserve),
      (''refunds the unused'', refunds_the_unused M R from_slice bal ok),
      (''answers the supply'', supply_answers M bal ok),
      (''answers balances'', balance_of_answers M bal)]"

lemmas transfer_requirements = wants_one_yocto_def wants_both_registered_def
  wants_positive_amount_def transfers_the_amount_def serves_transfers_def serves_transfer_calls_def
  transfer_calls_nobody_def calls_receiver_and_resolver_def passes_remaining_gas_def
  refunds_the_unused_def supply_answers_def balance_of_answers_def

lemma held_word_sum: "(\<Sum>a \<in> dom (bal s). held bal s a) = word_sum (bal s)"
  unfolding word_sum_def by (rule sum.cong) (auto simp: held_def)

subsection \<open>Anyone sends to anyone\<close>

text \<open>
  What becomes of a token while receipts of its users arrive: a transfer that panics changes
  nothing.  A receipt is the environment of the call and its arguments.
\<close>

type_synonym transfer_receipt = "env \<times> AccountId \<times> u128 \<times> string option \<times> string option"

fun ft_deliver ::
    "('s, 'l, 'c, 'e) FungibleTokenCore \<Rightarrow> transfer_receipt \<Rightarrow> 's \<Rightarrow> 's" where
  "ft_deliver M (e, r, x, memo, msg) s =
     (case (case msg of
              None \<Rightarrow> core_ft_transfer M e s no_effects r x memo
            | Some m \<Rightarrow> core_ft_transfer_call M e s no_effects r x memo m) of
        Inl _ \<Rightarrow> s
      | Inr (s', h') \<Rightarrow> s')"

fun receipt_parties :: "transfer_receipt \<Rightarrow> AccountId set" where
  "receipt_parties (e, r, x, memo, msg) = {predecessor_account_id e, r}"

fun receipt_sender :: "transfer_receipt \<Rightarrow> AccountId" where
  "receipt_sender (e, r, x, memo, msg) = predecessor_account_id e"

lemma deliver_cases:
  obtains "ft_deliver M q s = s"
  | e r x h' where "receipt_sender q = predecessor_account_id e"
    and "receipt_parties q = {predecessor_account_id e, r}"
    and "ft_sends M e s no_effects r x (ft_deliver M q s) h'"
proof (cases q)
  case (fields e r x memo msg)
  show ?thesis
  proof (cases "case msg of None \<Rightarrow> core_ft_transfer M e s no_effects r x memo
            | Some m \<Rightarrow> core_ft_transfer_call M e s no_effects r x memo m")
    case (Inl p)
    then show ?thesis using that(1) fields by simp
  next
    case (Inr v)
    then obtain s' h' where v: "v = (s', h')" by (cases v)
    with Inr fields have "ft_deliver M q s = s'" by simp
    moreover have "ft_sends M e s no_effects r x s' h'"
      using Inr v by (cases msg) (auto simp: ft_sends_def)
    ultimately show ?thesis using that(2) fields by simp
  qed
qed

text \<open>An amount that moves inside a finite set of accounts does not change what they hold together.\<close>

lemma amount_moved_sum:
  assumes "amount_moved f s r n g" and "finite A" and "s \<in> A" and "r \<in> A"
  shows "sum g A = sum f A"
proof -
  have "(\<Sum>a\<in>A. g a + (if a = s then n else 0)) = (\<Sum>a\<in>A. f a + (if a = r then n else 0))"
    using assms(1) by (simp add: amount_moved_def)
  then show ?thesis using assms(2-4) by (simp add: sum.distrib)
qed

lemma amount_moved_grows: "amount_moved f s r n g \<Longrightarrow> a \<noteq> s \<Longrightarrow> f a \<le> g a"
  by (auto simp: amount_moved_def dest: spec [of _ a] split: if_splits)

subsection \<open>The contract between a token and its users\<close>

locale nep141 =
  fixes M :: "('s, 'l, 'c, 'e) FungibleTokenCore" and X :: "'c ext_ft" and checks :: bool
    and reserve :: Gas and bal :: "'s account_view" and ok :: "'s \<Rightarrow> bool"
  assumes one_yocto: "wants_one_yocto M"
    and both_registered: "wants_both_registered M bal"
    and positive_amount: "wants_positive_amount M"
    and moves: "transfers_the_amount M bal ok"
    and serves: "serves_transfers M bal ok"
    and serves_calls: "serves_transfer_calls M reserve bal ok"
    and calls_nobody: "transfer_calls_nobody M"
    and calls: "calls_receiver_and_resolver M X"
    and gas: "passes_remaining_gas M checks reserve"
    and shows_supply: "supply_answers M bal ok"
    and answers: "balance_of_answers M bal"
begin

lemma sends_moves:
  "ok s \<Longrightarrow> ft_sends M e s h r x s' h' \<Longrightarrow>
     ok s' \<and> core_ft_total_supply M s' = core_ft_total_supply M s \<and>
     amount_moved (held bal s) (predecessor_account_id e) r (unat x) (held bal s')"
  using moves unfolding transfers_the_amount_def by blast

lemma deliver_keeps:
  assumes "ok s"
  shows "ok (ft_deliver M q s)"
    and "core_ft_total_supply M (ft_deliver M q s) = core_ft_total_supply M s"
    and "finite A \<Longrightarrow> receipt_parties q \<subseteq> A \<Longrightarrow>
      sum (held bal (ft_deliver M q s)) A = sum (held bal s) A"
    and "a \<noteq> receipt_sender q \<Longrightarrow> held bal s a \<le> held bal (ft_deliver M q s) a"
proof -
  consider "ft_deliver M q s = s"
    | e r x h' where "receipt_sender q = predecessor_account_id e"
      and "receipt_parties q = {predecessor_account_id e, r}"
      and "ft_sends M e s no_effects r x (ft_deliver M q s) h'"
    by (rule deliver_cases)
  then have "ok (ft_deliver M q s) \<and>
      core_ft_total_supply M (ft_deliver M q s) = core_ft_total_supply M s \<and>
      (finite A \<and> receipt_parties q \<subseteq> A \<longrightarrow>
         sum (held bal (ft_deliver M q s)) A = sum (held bal s) A) \<and>
      (a \<noteq> receipt_sender q \<longrightarrow> held bal s a \<le> held bal (ft_deliver M q s) a)"
  proof cases
    case 1
    then show ?thesis using assms by simp
  next
    case (2 e r x h')
    from sends_moves [OF assms 2(3)] show ?thesis
      using amount_moved_sum amount_moved_grows 2(1,2) by (metis insert_subset)
  qed
  then show "ok (ft_deliver M q s)"
    and "core_ft_total_supply M (ft_deliver M q s) = core_ft_total_supply M s"
    and "finite A \<Longrightarrow> receipt_parties q \<subseteq> A \<Longrightarrow>
      sum (held bal (ft_deliver M q s)) A = sum (held bal s) A"
    and "a \<noteq> receipt_sender q \<Longrightarrow> held bal s a \<le> held bal (ft_deliver M q s) a"
    by blast+
qed

text \<open>Whatever receipts arrive: the users keep together what they had, and only a sender loses.\<close>

lemma deliveries_keep:
  assumes "ok s"
  shows "ok (fold (ft_deliver M) qs s)"
    and "core_ft_total_supply M (fold (ft_deliver M) qs s) = core_ft_total_supply M s"
    and "finite A \<Longrightarrow> (\<Union>q\<in>set qs. receipt_parties q) \<subseteq> A \<Longrightarrow>
      sum (held bal (fold (ft_deliver M) qs s)) A = sum (held bal s) A"
    and "a \<notin> receipt_sender ` set qs \<Longrightarrow> held bal s a \<le> held bal (fold (ft_deliver M) qs s) a"
  using assms
  by (induction qs arbitrary: s)
    (auto simp del: ft_deliver.simps receipt_sender.simps receipt_parties.simps simp: deliver_keeps
      intro: order_trans [OF deliver_keeps(4)])

text \<open>What \<open>ft_balance_of\<close> shows to a user before and after.\<close>

lemma sends_shown:
  assumes "ok s" and "ft_sends M e s h r x s' h'" and "r \<noteq> predecessor_account_id e"
  shows "\<exists>b c b' c'. core_ft_balance_of M s (predecessor_account_id e) = Inr b \<and>
      core_ft_balance_of M s r = Inr c \<and>
      core_ft_balance_of M s' (predecessor_account_id e) = Inr b' \<and>
      core_ft_balance_of M s' r = Inr c' \<and>
      unat b' + unat x = unat b \<and> unat c' = unat c + unat x"
  using sends_moves [OF assms(1,2)] assms(3) answers
  by (auto simp: balance_of_answers_def amount_moved_def held_def dest: spec [of _ r]
      spec [of _ "predecessor_account_id e"])

text \<open>
  A receiver that is still registered can send everything back, and both hold what they held.
\<close>

lemma sent_back:
  assumes "ok s" and "ft_sends M e s h r x s' h'" and "r \<noteq> predecessor_account_id e"
    and "bal s' r \<noteq> None" and "bal s' (predecessor_account_id e) \<noteq> None"
    and "predecessor_account_id e' = r" and "attached_deposit e' = 1"
  shows "\<exists>s2 h3. core_ft_transfer M e' s' h2 (predecessor_account_id e) x memo = Inr (s2, h3) \<and>
     ok s2 \<and> held bal s2 = held bal s"
proof -
  from sends_moves [OF assms(1,2)] have s': "ok s'"
    and mv: "amount_moved (held bal s) (predecessor_account_id e) r (unat x) (held bal s')"
    by simp_all
  have "unat x \<le> held bal s' r"
    using mv assms(3) by (auto simp: amount_moved_def dest!: spec [of _ r])
  moreover have "0 < x"
    using positive_amount assms(2) unfolding wants_positive_amount_def by blast
  ultimately have "returns (core_ft_transfer M e' s' h2 (predecessor_account_id e) x memo)"
    using serves assms(3-7) s' unfolding serves_transfers_def by blast
  then obtain s2 h3 where
    run: "core_ft_transfer M e' s' h2 (predecessor_account_id e) x memo = Inr (s2, h3)"
    by (auto simp: returns_def)
  then have "ft_sends M e' s' h2 (predecessor_account_id e) x s2 h3" by (auto simp: ft_sends_def)
  from sends_moves [OF s' this] have "ok s2"
    and mv2: "amount_moved (held bal s') r (predecessor_account_id e) (unat x) (held bal s2)"
    by (simp_all add: assms(6))
  have "held bal s2 a = held bal s a" for a
    using mv mv2 by (auto simp: amount_moved_def dest!: spec [of _ a] split: if_splits)
  then show ?thesis using run \<open>ok s2\<close> by auto
qed

end

text \<open>A token that also settles its transfer calls.\<close>

locale nep141_settling = nep141 M X checks reserve bal ok
  for M :: "('s, 'l, 'c, 'e) FungibleTokenCore" and X :: "'c ext_ft" and checks :: bool
    and reserve :: Gas and bal :: "'s account_view" and ok :: "'s \<Rightarrow> bool" +
  fixes R :: "('s, 'l, 'c, 'e) FungibleTokenResolver" and from_slice :: "bytes \<Rightarrow> u128 option"
  assumes refunds: "refunds_the_unused M R from_slice bal ok"
begin

text \<open>
  A transfer call settled at once: whatever the receiver answers, a registered sender has lost and
  the receiver has gained what was used, and nothing else has happened.
\<close>

lemma call_settled_at_once:
  assumes "ok s" and call: "core_ft_transfer_call M e s h rc x memo msg = Inr (s1, h1)"
    and "ft_callback e' r" and "bal s1 sender \<noteq> None" and sender: "sender = predecessor_account_id e"
  shows "\<exists>s2 h3 used. resolver_ft_resolve_transfer R e' s1 h2 sender rc x = Inr (s2, h3, used) \<and>
     ok s2 \<and> core_ft_total_supply M s2 = core_ft_total_supply M s \<and>
     unat used + unat (unused_of from_slice x r) = unat x \<and>
     amount_moved (held bal s) sender rc (unat used) (held bal s2)"
proof -
  let ?u = "unat (unused_of from_slice x r)"
  have "ft_sends M e s h rc x s1 h1" using call by (auto simp: ft_sends_def)
  from sends_moves [OF assms(1) this]
  have s1: "ok s1" "core_ft_total_supply M s1 = core_ft_total_supply M s"
    and mv: "amount_moved (held bal s) sender rc (unat x) (held bal s1)"
    by (simp_all add: sender)
  have u: "?u \<le> unat x" using unused_of_le by (simp add: word_le_nat_alt [symmetric])
  have "unat x \<le> held bal s1 rc"
    using mv by (auto simp: amount_moved_def dest: spec [of _ rc] split: if_splits)
  then have refund: "min (held bal s1 rc) ?u = ?u" using u by simp
  from refunds s1(1) assms(3) obtain s2 h3 used where
    res: "resolver_ft_resolve_transfer R e' s1 h2 sender rc x = Inr (s2, h3, used)" and "ok s2"
    and bk0: "refunded bal (core_ft_total_supply M) sender rc x (min (held bal s1 rc) ?u) s1 s2 used"
    unfolding refunds_the_unused_def by meson
  have bk: "held bal s2 a + (if a = rc then ?u else 0) = held bal s1 a + (if a = sender then ?u else 0)"
    for a
    using bk0 assms(4) unfolding refund refunded_def by simp
  have used: "unat used + ?u = unat x"
    and "unat (core_ft_total_supply M s2) = unat (core_ft_total_supply M s1)"
    using bk0 assms(4) unfolding refund refunded_def by auto
  moreover have "amount_moved (held bal s) sender rc (unat used) (held bal s2)"
    unfolding amount_moved_def
  proof (intro conjI allI)
    show "unat used \<le> held bal s sender" using mv used by (simp add: amount_moved_def)
    show "held bal s2 a + (if a = sender then unat used else 0) =
        held bal s a + (if a = rc then unat used else 0)" for a
      using mv bk [of a] used by (auto simp: amount_moved_def dest!: spec [of _ a] split: if_splits)
  qed
  ultimately show ?thesis
    using res \<open>ok s2\<close> s1(2) by (auto simp: word_unat_eq_iff)
qed

end

end
