(* ===== verification/TransferConformance.thy ===== *)
theory TransferConformance
  imports TransferStandard FtProperties
begin

section \<open>The token of \<open>nep-interface\<close> keeps to NEP-141\<close>

text \<open>
  The blocks \<open>impl FungibleTokenCore for FungibleToken\<close> and \<open>impl FungibleTokenResolver for
  FungibleToken\<close> of \<open>fungible_token/core_impl.rs\<close>, and what the macro \<open>impl_fungible_token_core!\<close> of
  \<open>fungible_token/macros.rs\<close> gives a contract, each as the record of its methods.  Both meet the
  requirements that \<open>nep141_report\<close> lists: the locales of \<open>TransferStandard\<close> are interpreted on them, over any
  collection that behaves as a \<open>LookupMap\<close>.
\<close>

subsection \<open>The implementations\<close>

definition nep_ft_ext :: "FtCall ext_ft" where
  "nep_ft_ext = \<lparr>ext_ft_on_transfer = FtOnTransfer, ext_ft_resolve_transfer = FtResolveTransfer\<rparr>"

type_synonym 's nep_core = "('s, log_line, FtCall, FtError) FungibleTokenCore"
type_synonym 's nep_resolver = "('s, log_line, FtCall, FtError) FungibleTokenResolver"

definition nep_ft_core :: "'m balances_ops \<Rightarrow> 'm FungibleToken nep_core" where
  "nep_ft_core L =
     \<lparr>core_ft_transfer = ft_transfer L,
      core_ft_transfer_call = ft_transfer_call L,
      core_ft_total_supply = ft_total_supply,
      core_ft_balance_of = (\<lambda>t account_id. Inr (ft_balance_of L t account_id))\<rparr>"

definition nep_ft_resolver ::
    "'m balances_ops \<Rightarrow> (bytes \<Rightarrow> u128 option) \<Rightarrow> 'm FungibleToken nep_resolver" where
  "nep_ft_resolver L from_slice =
     \<lparr>resolver_ft_resolve_transfer = ft_resolve_transfer L from_slice\<rparr>"

text \<open>A contract with the macro \<open>impl_fungible_token_core!\<close>, without the burn hook.\<close>

definition contract_ft_core :: "'m balances_ops \<Rightarrow> ('m, 'r) ft_contract nep_core" where
  "contract_ft_core L =
     \<lparr>core_ft_transfer = contract_ft_transfer L,
      core_ft_transfer_call = contract_ft_transfer_call L,
      core_ft_total_supply = contract_ft_total_supply,
      core_ft_balance_of = (\<lambda>c account_id. Inr (contract_ft_balance_of L c account_id))\<rparr>"

definition contract_ft_resolver ::
    "'m balances_ops \<Rightarrow> (bytes \<Rightarrow> u128 option) \<Rightarrow> ('m, 'r) ft_contract nep_resolver" where
  "contract_ft_resolver L from_slice =
     \<lparr>resolver_ft_resolve_transfer = contract_ft_resolve_transfer None L from_slice\<rparr>"

lemma core_simps [simp]:
  "core_ft_transfer (nep_ft_core L) = ft_transfer L"
  "core_ft_transfer_call (nep_ft_core L) = ft_transfer_call L"
  "core_ft_total_supply (nep_ft_core L) = ft_total_supply"
  "core_ft_balance_of (nep_ft_core L) t a = Inr (ft_balance_of L t a)"
  "resolver_ft_resolve_transfer (nep_ft_resolver L from_slice) = ft_resolve_transfer L from_slice"
  "core_ft_transfer (contract_ft_core L) = contract_ft_transfer L"
  "core_ft_transfer_call (contract_ft_core L) = contract_ft_transfer_call L"
  "core_ft_total_supply (contract_ft_core L) = contract_ft_total_supply"
  "core_ft_balance_of (contract_ft_core L) c a = Inr (contract_ft_balance_of L c a)"
  "resolver_ft_resolve_transfer (contract_ft_resolver L from_slice) =
     contract_ft_resolve_transfer None L from_slice"
  "ext_ft_on_transfer nep_ft_ext = FtOnTransfer"
  "ext_ft_resolve_transfer nep_ft_ext = FtResolveTransfer"
  by (simp_all add: nep_ft_core_def nep_ft_resolver_def contract_ft_core_def
      contract_ft_resolver_def nep_ft_ext_def)

subsection \<open>The token of \<open>nep-interface\<close>\<close>

context balance_store
begin

lemma nep_sends:
  assumes "ft_sends (nep_ft_core L) e t h r x t' h'"
  obtains memo h1 where "attached_deposit e = 1"
    and "ft_internal_transfer L t h (predecessor_account_id e) r x memo = Inr (t', h1)"
  using assms
  by (auto simp: ft_sends_def ft_transfer_def transfer_call_iff result_simps Let_def)

lemma internal_transfer_moved:
  assumes "ft_internal_transfer L t h s r x memo = Inr (t', h')"
  shows "amount_moved (held (ft_balances L) t) s r (unat x) (held (ft_balances L) t')"
proof -
  from assms obtain b c where bc: "s \<noteq> r" "ft_balances L t s = Some b" "ft_balances L t r = Some c"
    "unat x \<le> unat b" "unat c + unat x < 2 ^ 128"
    "ft_balances L t' = (ft_balances L t)(s \<mapsto> b - x, r \<mapsto> c + x)"
    by (auto simp: internal_transfer_iff ft_balances_def map_laws)
  then show ?thesis
    by (auto simp: amount_moved_def held_def unat_sub_exact unat_add_u128)
qed

lemma settled_refunded:
  assumes "ft_settled L t s rc amount u t' used burned"
  shows "refunded (ft_balances L) ft_total_supply s rc amount
     (min (held (ft_balances L) t rc) (unat u)) t t' used"
proof -
  let ?refund = "min (held (ft_balances L) t rc) (unat u)"
  have h: "held (ft_balances L) q a = unwrap_or 0 (ft_ledger L q a)" for q a
    by (cases "ft_balances L q a") (simp_all add: held_def ft_ledger_def)
  have ledger: "ft_ledger L t' = ledger_refund (ft_ledger L t) s rc (unat u)"
    and rest: "unat (total_supply t') + unat burned = unat (total_supply t)"
      "unat used + min (unat (ft_balance_of L t rc)) (unat u) = unat amount + unat burned"
      "unat burned = (if ft_balances L t s = None
         then min (unat (ft_balance_of L t rc)) (unat u) else 0)"
    using assms by (simp_all add: ft_settled_def)
  have "unat (ft_balance_of L t rc) = held (ft_balances L) t rc"
    by (simp add: held_def ft_balance_of_def ft_balances_def)
  moreover have reg: "ft_balances L t s = None \<longleftrightarrow> ft_ledger L t s = None"
    by (simp add: ft_ledger_def)
  moreover have "held (ft_balances L) t' a + (if a = rc then ?refund else 0) =
      held (ft_balances L) t a + (if a = s \<and> ft_balances L t s \<noteq> None then ?refund else 0)" for a
    unfolding h ledger reg
    by (cases "ft_ledger L t rc"; cases "ft_ledger L t s")
      (auto simp: ledger_refund_def Let_def split: option.split)
  ultimately show ?thesis using rest by (auto simp: refunded_def ft_total_supply_def)
qed

lemma nep_requirements:
  "wants_one_yocto (nep_ft_core L)"
  "wants_both_registered (nep_ft_core L) (ft_balances L)"
  "wants_positive_amount (nep_ft_core L)"
  "transfers_the_amount (nep_ft_core L) (ft_balances L) (ft_supply_ok L)"
  "serves_transfers (nep_ft_core L) (ft_balances L) (ft_supply_ok L)"
  "serves_transfer_calls (nep_ft_core L) GAS_FOR_FT_TRANSFER_CALL (ft_balances L) (ft_supply_ok L)"
  "transfer_calls_nobody (nep_ft_core L)"
  "calls_receiver_and_resolver (nep_ft_core L) nep_ft_ext"
  "passes_remaining_gas (nep_ft_core L) checks GAS_FOR_FT_TRANSFER_CALL"
  "supply_answers (nep_ft_core L) (ft_balances L) (ft_supply_ok L)"
  "balance_of_answers (nep_ft_core L) (ft_balances L)"
proof -
  show "wants_one_yocto (nep_ft_core L)"
    unfolding wants_one_yocto_def by (blast elim: nep_sends)
  show "wants_both_registered (nep_ft_core L) (ft_balances L)"
    unfolding wants_both_registered_def by (auto elim!: nep_sends simp: internal_transfer_iff)
  show "wants_positive_amount (nep_ft_core L)"
    unfolding wants_positive_amount_def by (auto elim!: nep_sends simp: internal_transfer_iff)
  show "transfers_the_amount (nep_ft_core L) (ft_balances L) (ft_supply_ok L)"
    unfolding transfers_the_amount_def core_simps ft_total_supply_def
    by (blast elim: nep_sends dest: internal_transfer_supply_ok internal_transfer_moved)
  show "serves_transfers (nep_ft_core L) (ft_balances L) (ft_supply_ok L)"
    unfolding serves_transfers_def core_simps returns_def
    by (auto simp: ft_transfer_def assert_one_yocto_def Let_def internal_transfer_ok_iff held_def)
  show "serves_transfer_calls (nep_ft_core L) GAS_FOR_FT_TRANSFER_CALL (ft_balances L) (ft_supply_ok L)"
    unfolding serves_transfer_calls_def core_simps returns_def
    by (fastforce simp: transfer_call_iff internal_transfer_ok_iff held_def)
  show "transfer_calls_nobody (nep_ft_core L)"
    by (auto simp: transfer_calls_nobody_def ft_transfer_def result_simps Let_def
        internal_transfer_iff)
  show "calls_receiver_and_resolver (nep_ft_core L) nep_ft_ext"
    by (auto simp: calls_receiver_and_resolver_def transfer_call_iff ft_call_promise_def)
  show "supply_answers (nep_ft_core L) (ft_balances L) (ft_supply_ok L)"
    unfolding supply_answers_def held_word_sum by (simp add: ft_supply_ok_def ft_total_supply_def)
  show "passes_remaining_gas (nep_ft_core L) checks GAS_FOR_FT_TRANSFER_CALL"
    by (auto simp: passes_remaining_gas_def transfer_call_iff ft_call_promise_def unat_sub_exact
        word_less_nat_alt)
  show "balance_of_answers (nep_ft_core L) (ft_balances L)"
    by (simp add: balance_of_answers_def ft_balance_of_def ft_balances_def)
qed

lemma nep_refunds:
  "refunds_the_unused (nep_ft_core L) (nep_ft_resolver L from_slice) from_slice (ft_balances L)
     (ft_supply_ok L)"
  unfolding refunds_the_unused_def core_simps
proof (intro allI impI)
  fix e :: env and t h sender receiver amount r
  assume ok: "ft_supply_ok L t" and "ft_callback e r"
  then have r: "promise_results e = [r]" "r \<noteq> NotReady" by (simp_all add: ft_callback_def)
  from resolve_settles [OF ok r, of from_slice h sender receiver amount]
  obtain t' h' used burned where
    run: "ft_internal_resolve_transfer L from_slice e t h sender receiver amount =
      Inr (t', h', used, burned)"
    and settled: "ft_settled L t sender receiver amount (unused_of from_slice amount r) t' used burned"
    by blast
  have "ft_resolve_transfer L from_slice e t h sender receiver amount = Inr (t', h', used)"
    using run by (simp add: ft_resolve_transfer_def)
  moreover have "ft_supply_ok L t'" using settled by (simp add: ft_settled_def)
  ultimately show "\<exists>s' h' used.
      ft_resolve_transfer L from_slice e t h sender receiver amount = Inr (s', h', used) \<and>
      ft_supply_ok L s' \<and>
      refunded (ft_balances L) ft_total_supply sender receiver amount
        (min (held (ft_balances L) t receiver) (unat (unused_of from_slice amount r))) t s' used"
    using settled_refunded [OF settled] by blast
qed

lemma nep_settling:
  "nep141_settling (nep_ft_core L) nep_ft_ext checks GAS_FOR_FT_TRANSFER_CALL (ft_balances L)
     (ft_supply_ok L) (nep_ft_resolver L from_slice) from_slice"
  by unfold_locales (fact nep_requirements nep_refunds)+

sublocale nep: nep141_settling "nep_ft_core L" nep_ft_ext checks GAS_FOR_FT_TRANSFER_CALL
  "ft_balances L" "ft_supply_ok L" "nep_ft_resolver L from_slice" from_slice for checks from_slice
  by (rule nep_settling)

text \<open>A contract with the macros is the token, with the rest of its state untouched.\<close>

lemma contract_methods:
  "contract_ft_transfer L e c h r x memo = Inr (c', h') \<longleftrightarrow>
     (\<exists>t. ft_transfer L e (token c) h r x memo = Inr (t, h') \<and> c' = c\<lparr>token := t\<rparr>)"
  "contract_ft_transfer_call L e c h r x memo msg = Inr (c', h') \<longleftrightarrow>
     (\<exists>t. ft_transfer_call L e (token c) h r x memo msg = Inr (t, h') \<and> c' = c\<lparr>token := t\<rparr>)"
  by (auto simp: contract_ft_transfer_def contract_ft_transfer_call_def rbind_eq_Inr)

lemma contract_sends:
  "ft_sends (contract_ft_core L) e c h r x c' h' \<Longrightarrow>
     ft_sends (nep_ft_core L) e (token c) h r x (token c') h'"
  by (auto simp: ft_sends_def contract_methods)

lemma contract_sends_by:
  assumes "ft_sends (contract_ft_core L) e c h r x c' h'"
  obtains memo h1 where "attached_deposit e = 1"
    and "ft_internal_transfer L (token c) h (predecessor_account_id e) r x memo =
      Inr (token c', h1)"
  using contract_sends [OF assms] by (blast elim: nep_sends)

lemma contract_views: "held (\<lambda>c. ft_balances L (token c)) c = held (ft_balances L) (token c)"
  by (simp add: held_def fun_eq_iff)

lemma contract_requirements:
  "wants_one_yocto (contract_ft_core L)"
  "wants_both_registered (contract_ft_core L) (\<lambda>c. ft_balances L (token c))"
  "wants_positive_amount (contract_ft_core L)"
  "transfers_the_amount (contract_ft_core L) (\<lambda>c. ft_balances L (token c))
     (\<lambda>c. ft_supply_ok L (token c))"
  "serves_transfers (contract_ft_core L) (\<lambda>c. ft_balances L (token c)) (\<lambda>c. ft_supply_ok L (token c))"
  "serves_transfer_calls (contract_ft_core L) GAS_FOR_FT_TRANSFER_CALL (\<lambda>c. ft_balances L (token c))
     (\<lambda>c. ft_supply_ok L (token c))"
  "transfer_calls_nobody (contract_ft_core L)"
  "calls_receiver_and_resolver (contract_ft_core L) nep_ft_ext"
  "passes_remaining_gas (contract_ft_core L) checks GAS_FOR_FT_TRANSFER_CALL"
  "supply_answers (contract_ft_core L) (\<lambda>c. ft_balances L (token c)) (\<lambda>c. ft_supply_ok L (token c))"
  "balance_of_answers (contract_ft_core L) (\<lambda>c. ft_balances L (token c))"
proof -
  show "wants_one_yocto (contract_ft_core L)"
    unfolding wants_one_yocto_def by (blast elim: contract_sends_by)
  show "wants_both_registered (contract_ft_core L) (\<lambda>c. ft_balances L (token c))"
    unfolding wants_both_registered_def by (auto elim!: contract_sends_by simp: internal_transfer_iff)
  show "wants_positive_amount (contract_ft_core L)"
    unfolding wants_positive_amount_def by (auto elim!: contract_sends_by simp: internal_transfer_iff)
  show "transfers_the_amount (contract_ft_core L) (\<lambda>c. ft_balances L (token c))
     (\<lambda>c. ft_supply_ok L (token c))"
    unfolding transfers_the_amount_def core_simps contract_ft_total_supply_def ft_total_supply_def
      contract_views
    by (blast elim: contract_sends_by dest: internal_transfer_supply_ok internal_transfer_moved)
  show "serves_transfers (contract_ft_core L) (\<lambda>c. ft_balances L (token c))
      (\<lambda>c. ft_supply_ok L (token c))"
    using nep_requirements(5)
    unfolding serves_transfers_def core_simps returns_def contract_views
    by (fastforce simp: contract_methods)
  show "serves_transfer_calls (contract_ft_core L) GAS_FOR_FT_TRANSFER_CALL
      (\<lambda>c. ft_balances L (token c)) (\<lambda>c. ft_supply_ok L (token c))"
    using nep_requirements(6)
    unfolding serves_transfer_calls_def core_simps returns_def contract_views
    by (fastforce simp: contract_methods)
  show "supply_answers (contract_ft_core L) (\<lambda>c. ft_balances L (token c)) (\<lambda>c. ft_supply_ok L (token c))"
    unfolding supply_answers_def held_word_sum [where bal = "\<lambda>c. ft_balances L (token c)"]
    by (simp add: ft_supply_ok_def contract_ft_total_supply_def ft_total_supply_def)
  show "transfer_calls_nobody (contract_ft_core L)"
    using nep_requirements(7) by (auto simp: transfer_calls_nobody_def contract_methods)
  show "calls_receiver_and_resolver (contract_ft_core L) nep_ft_ext"
    using nep_requirements(8) by (fastforce simp: calls_receiver_and_resolver_def contract_methods)
  show "passes_remaining_gas (contract_ft_core L) checks GAS_FOR_FT_TRANSFER_CALL"
    using nep_requirements(9) unfolding passes_remaining_gas_def core_simps contract_methods by blast
  show "balance_of_answers (contract_ft_core L) (\<lambda>c. ft_balances L (token c))"
    by (simp add: balance_of_answers_def contract_ft_balance_of_def ft_balance_of_def ft_balances_def)
qed

lemma contract_refunds:
  "refunds_the_unused (contract_ft_core L) (contract_ft_resolver L from_slice) from_slice
     (\<lambda>c. ft_balances L (token c)) (\<lambda>c. ft_supply_ok L (token c))"
  unfolding refunds_the_unused_def core_simps
proof (intro allI impI)
  fix e :: env and c :: "('m, 'r) ft_contract" and h sender receiver amount r
  assume ok: "ft_supply_ok L (token c)" and e: "ft_callback e r"
  from nep_refunds ok e obtain t' h' used where
    run: "ft_resolve_transfer L from_slice e (token c) h sender receiver amount = Inr (t', h', used)"
    and t': "ft_supply_ok L t'"
      "refunded (ft_balances L) ft_total_supply sender receiver amount
        (min (held (ft_balances L) (token c) receiver) (unat (unused_of from_slice amount r)))
        (token c) t' used"
    unfolding refunds_the_unused_def core_simps by meson
  have "contract_ft_resolve_transfer None L from_slice e c h sender receiver amount =
      Inr (c\<lparr>token := t'\<rparr>, h', used)"
    using run e
    by (auto simp: contract_ft_resolve_transfer_def ft_resolve_transfer_def result_simps
        ft_callback_def run_hook_def assert_private_def assert_not_payable_def split: if_splits)
  then show "\<exists>s' h' used. contract_ft_resolve_transfer None L from_slice e c h sender receiver amount =
        Inr (s', h', used) \<and> ft_supply_ok L (token s') \<and>
      refunded (\<lambda>c. ft_balances L (token c)) contract_ft_total_supply sender receiver amount
        (min (held (\<lambda>c. ft_balances L (token c)) c receiver) (unat (unused_of from_slice amount r)))
        c s' used"
    using t' by (fastforce simp: refunded_def contract_views contract_ft_total_supply_def)
qed

lemma contract_settling:
  "nep141_settling (contract_ft_core L :: ('m, 'r) ft_contract nep_core) nep_ft_ext
     checks GAS_FOR_FT_TRANSFER_CALL (\<lambda>c. ft_balances L (token c)) (\<lambda>c. ft_supply_ok L (token c))
     (contract_ft_resolver L from_slice) from_slice"
  by unfold_locales (fact contract_requirements contract_refunds)+

lemmas contract_nep141 = nep141_settling.axioms(1) [OF contract_settling]

end

interpretation fun_nep: nep141_settling "nep_ft_core fun_map" nep_ft_ext checks GAS_FOR_FT_TRANSFER_CALL
  "ft_balances fun_map" "ft_supply_ok fun_map" "nep_ft_resolver fun_map demo_from_slice" demo_from_slice
  for checks
  by (rule balance_store.nep_settling [OF demo_store])

interpretation fun_contract: nep141_settling
  "contract_ft_core fun_map :: (fun_accounts, 'r) ft_contract nep_core" nep_ft_ext checks
  GAS_FOR_FT_TRANSFER_CALL "\<lambda>c. ft_balances fun_map (token c)" "\<lambda>c. ft_supply_ok fun_map (token c)"
  "contract_ft_resolver fun_map demo_from_slice" demo_from_slice
  for checks
  by (rule balance_store.contract_settling [OF demo_store])

subsection \<open>Properties\<close>

text \<open>C11: a contract with the macros of \<open>nep-interface\<close> meets the requirements that the comments
  of \<open>FungibleTokenCore\<close> state, and so does the token struct itself, in every state whose books are
  right and in either build: one yoctoNEAR, both accounts registered, a positive amount, exactly the
  amount moved; every transfer served that nothing stands against, and every transfer call too, if
  more gas is prepaid than the reserve; the receiver called with all the gas that is not reserved
  and then the resolver, which refunds what the receiver did not use, all of it if the promise
  failed or returned an invalid value, or what the receiver still has; the supply, and \<open>0\<close> for an
  unknown account.\<close>

theorem nep_interface_keeps_nep141:
  fixes contract_core :: "('m, 'r) ft_contract nep_core"
  assumes "balance_store L" and "contract_core = contract_ft_core L"
  shows "list_all snd (nep141_report (nep_ft_core L) (nep_ft_resolver L from_slice) nep_ft_ext checks
       GAS_FOR_FT_TRANSFER_CALL from_slice (ft_balances L) (ft_supply_ok L)) \<and>
     list_all snd (nep141_report contract_core (contract_ft_resolver L from_slice) nep_ft_ext checks
       GAS_FOR_FT_TRANSFER_CALL from_slice (\<lambda>c. ft_balances L (token c)) (\<lambda>c. ft_supply_ok L (token c)))"
  by (simp add: assms(2) nep141_report_def balance_store.nep_requirements [OF assms(1)]
      balance_store.nep_refunds [OF assms(1)] balance_store.contract_requirements [OF assms(1)]
      balance_store.contract_refunds [OF assms(1)])

theorem nep_interface_keeps_nep141_witness:
  "balance_of_answers (nep_ft_core fun_map) (ft_balances fun_map) \<and>
   passes_remaining_gas (contract_ft_core fun_map :: (fun_accounts, unit) ft_contract nep_core)
     True 30000000000000 \<and>
   serves_transfer_calls (nep_ft_core fun_map) 30000000000000 (ft_balances fun_map) (ft_supply_ok fun_map) \<and>
   refunds_the_unused (nep_ft_core fun_map) (nep_ft_resolver fun_map demo_from_slice) demo_from_slice
     (ft_balances fun_map) (ft_supply_ok fun_map)"
  using nep_interface_keeps_nep141 [where
      contract_core = "contract_ft_core fun_map :: (fun_accounts, unit) ft_contract nep_core",
      OF demo_store refl, of demo_from_slice True]
  by (simp add: nep141_report_def GAS_FOR_FT_TRANSFER_CALL_def GAS_FOR_RESOLVE_TRANSFER_def)

text \<open>Whatever transfers and transfer calls anyone sends to a contract with the macros, in any
  order, those that panic included: the total supply stays, the accounts that take part hold together
  what they held, and an account that sends nothing loses nothing.\<close>

theorem users_keep_their_tokens:
  assumes "balance_store L" and "ft_supply_ok L (token c)"
    and "finite A" and "(\<Union>q\<in>set qs. receipt_parties q) \<subseteq> A"
    and "c' = fold (ft_deliver (contract_ft_core L)) qs c"
  shows "total_supply (token c') = total_supply (token c) \<and>
     (\<Sum>a\<in>A. unat (contract_ft_balance_of L c' a)) = (\<Sum>a\<in>A. unat (contract_ft_balance_of L c a)) \<and>
     {a. contract_ft_balance_of L c' a < contract_ft_balance_of L c a} \<subseteq> receipt_sender ` set qs"
proof -
  note keep = nep141.deliveries_keep [OF balance_store.contract_nep141 [OF assms(1)] assms(2), where qs = qs]
  have shown: "unat (contract_ft_balance_of L c a) = held (\<lambda>c. ft_balances L (token c)) c a" for c a
    by (simp add: contract_ft_balance_of_def ft_balance_of_def held_def ft_balances_def)
  show ?thesis
    using keep(2) keep(3) [OF assms(3,4)] keep(4)
    by (auto simp: assms(5) shown word_less_nat_alt contract_ft_total_supply_def ft_total_supply_def
        not_less [symmetric])
qed

text \<open>Alice sends 30 to Bob, Carol tries to send what she does not have, Bob sends 10 back.\<close>

definition demo_receipts :: "transfer_receipt list" where
  "demo_receipts =
     [(demo_env ''alice'' 1 [], ''bob'', 30, None, None),
      (demo_env ''carol'' 1 [], ''bob'', 5, None, None),
      (demo_env ''bob'' 1 [], ''alice'', 10, None, None)]"

theorem users_keep_their_tokens_witness:
  "total_supply (token (fold (ft_deliver (contract_ft_core fun_map)) demo_receipts
     \<lparr>token = demo_token, rest = ()\<rparr>)) = 100 \<and>
   contract_ft_balance_of fun_map (fold (ft_deliver (contract_ft_core fun_map)) [hd demo_receipts]
     \<lparr>token = demo_token, rest = ()\<rparr>) ''bob'' = 30"
proof
  let ?c = "\<lparr>token = demo_token, rest = ()\<rparr>"
  have ok: "ft_supply_ok fun_map (token ?c)" using demo_supply_ok by simp
  show "total_supply (token (fold (ft_deliver (contract_ft_core fun_map)) demo_receipts ?c)) = 100"
    using users_keep_their_tokens [OF demo_store ok, of "{''alice'', ''bob'', ''carol''}" demo_receipts]
    by (simp add: demo_receipts_def)
  show "contract_ft_balance_of fun_map (fold (ft_deliver (contract_ft_core fun_map))
      [hd demo_receipts] ?c) ''bob'' = 30"
    using demo_transfer
    by (simp add: demo_receipts_def contract_ft_transfer_def ft_transfer_def assert_one_yocto_def
        contract_ft_balance_of_def ft_balance_of_def demo_sent_def fun_map_def)
qed

text \<open>A transfer can be sent back.  After a transfer or a transfer call of \<open>x\<close> between two
  accounts, the receiver's transfer of \<open>x\<close> to the sender returns, and every account then holds what
  it held at first.\<close>

theorem transfer_sent_back:
  assumes "balance_store L" and "ft_supply_ok L (token c)"
    and "ft_sends (contract_ft_core L) e c h r x c1 h1"
    and "predecessor_account_id e' = r" and "attached_deposit e' = 1"
  shows "\<exists>c2 h3. contract_ft_transfer L e' c1 h2 (predecessor_account_id e) x memo = Inr (c2, h3) \<and>
     contract_ft_balance_of L c2 = contract_ft_balance_of L c"
proof -
  obtain m h' where tr: "ft_internal_transfer L (token c) h (predecessor_account_id e) r x m =
      Inr (token c1, h')"
    using balance_store.contract_sends_by [OF assms(1,3)] by metis
  then have neq: "r \<noteq> predecessor_account_id e" and reg: "ft_balances L (token c1) r \<noteq> None"
    "ft_balances L (token c1) (predecessor_account_id e) \<noteq> None"
    by (auto simp: balance_store.internal_transfer_iff [OF assms(1)]
        balance_store.balances_insert [OF assms(1)] dest!: sym [of _ "token c1"])
      (auto simp: ft_balances_def lookup_map.get_insert [OF balance_store.axioms [OF assms(1)]])
  from nep141.sent_back [OF balance_store.contract_nep141 [OF assms(1)] assms(2,3) neq reg assms(4,5), of h2 memo]
  obtain c2 h3 where run: "contract_ft_transfer L e' c1 h2 (predecessor_account_id e) x memo = Inr (c2, h3)"
    and same: "held (\<lambda>c. ft_balances L (token c)) c2 = held (\<lambda>c. ft_balances L (token c)) c"
    by auto
  have shown: "unat (contract_ft_balance_of L c a) = held (\<lambda>c. ft_balances L (token c)) c a" for c a
    by (simp add: contract_ft_balance_of_def ft_balance_of_def held_def ft_balances_def)
  have "contract_ft_balance_of L c2 a = contract_ft_balance_of L c a" for a
    unfolding word_unat_eq_iff shown same ..
  with run show ?thesis by (auto simp: fun_eq_iff)
qed

theorem transfer_sent_back_witness:
  "\<exists>c2 h3. contract_ft_transfer fun_map (demo_env ''bob'' 1 []) \<lparr>token = demo_sent, rest = ()\<rparr>
       no_effects ''alice'' 30 None = Inr (c2, h3) \<and>
     contract_ft_balance_of fun_map c2 ''alice'' = 100 \<and> contract_ft_balance_of fun_map c2 ''bob'' = 0"
proof -
  let ?c = "\<lparr>token = demo_token, rest = ()\<rparr>"
  have ok: "ft_supply_ok fun_map (token ?c)" using demo_supply_ok by simp
  have "contract_ft_transfer fun_map (demo_env ''alice'' 1 []) ?c no_effects ''bob'' 30 None =
      Inr (\<lparr>token = demo_sent, rest = ()\<rparr>,
        ft_transfer_emit (FtTransfer ''alice'' ''bob'' 30 None) no_effects)"
    using demo_transfer
    by (simp add: contract_ft_transfer_def ft_transfer_def assert_one_yocto_def)
  then have sent: "ft_sends (contract_ft_core fun_map) (demo_env ''alice'' 1 []) ?c no_effects ''bob'' 30
      \<lparr>token = demo_sent, rest = ()\<rparr> (ft_transfer_emit (FtTransfer ''alice'' ''bob'' 30 None) no_effects)"
    by (auto simp: ft_sends_def)
  have "contract_ft_balance_of fun_map ?c ''alice'' = 100" "contract_ft_balance_of fun_map ?c ''bob'' = 0"
    by (simp_all add: contract_ft_balance_of_def ft_balance_of_def fun_map_def)
  with transfer_sent_back [OF demo_store ok sent, of "demo_env ''bob'' 1 []" no_effects None]
  show ?thesis by fastforce
qed

end
