(* ===== verification/TinyTokens.thy ===== *)
theory TinyTokens
  imports Near Collections
begin

section \<open>Tokens that are registered by their balance\<close>

text \<open>
  The example crates \<open>self-transfer\<close> and \<open>unregistered-receiver\<close> (and \<open>prepaid-gas\<close>, in the theory
  \<open>PrepaidGas\<close>): three small fungible tokens in which an account is registered while its balance is
  positive.  They differ in one guard each: no check that sender and receiver differ, no check of
  the attached gas, no check that the receiver is registered.  The balances are kept in an \<open>UnorderedMap\<close> whose operations
  \<open>L\<close> are a parameter.
\<close>

subsection \<open>State\<close>

record 'm TinyToken =
  tiny_accounts :: 'm
  tiny_total_supply :: Balance

datatype TinyError =
    InvalidAccountId
  | TinyNotRegistered
  | TinyBalanceOverflow
  | TinyBalanceInsufficient
  | TinySupplyOverflow
  | TinySupplyInsufficient
  | IdenticalAccounts
  | TinyAmountNotPositive
  | InsufficientGas

text \<open>The methods of the receiver and resolver traits, and the event that a transfer emits.\<close>

datatype TinyCall =
    TinyOnTransfer AccountId u128 string
  | TinyResolveTransfer AccountId AccountId u128

datatype TinyLog = TransferEmitted AccountId AccountId u128 "string option"

type_synonym 'm tiny_ops = "('m, AccountId, Balance) map_ops"
type_synonym 'a tiny_result = "TinyError panic + 'a"
type_synonym tiny_effects = "(TinyLog, TinyCall) effects"

definition TINY_GAS_FOR_RESOLVE_TRANSFER :: Gas where
  "TINY_GAS_FOR_RESOLVE_TRANSFER = 5000000000000"

definition TINY_GAS_FOR_FT_TRANSFER_CALL :: Gas where
  "TINY_GAS_FOR_FT_TRANSFER_CALL = 25000000000000 + TINY_GAS_FOR_RESOLVE_TRANSFER"

definition tiny_default :: "'m tiny_ops \<Rightarrow> bytes \<Rightarrow> 'm TinyToken" where
  "tiny_default L key = \<lparr>tiny_accounts = lm_new L key, tiny_total_supply = 0\<rparr>"

subsection \<open>Code the three crates share\<close>

text \<open>A new balance is stored if it is positive; otherwise the account is removed.\<close>

definition put_balance :: "'m tiny_ops \<Rightarrow> 'm \<Rightarrow> AccountId \<Rightarrow> Balance \<Rightarrow> 'm" where
  "put_balance L m account_id new_balance =
     (if 0 < new_balance then fst (lm_insert L m account_id new_balance)
      else fst (lm_remove L m account_id))"

text \<open>The second halves of every \<open>internal_deposit\<close> and \<open>internal_withdraw\<close>, after the lookup.\<close>

definition tiny_credit ::
    "'m tiny_ops \<Rightarrow> 'm TinyToken \<Rightarrow> AccountId \<Rightarrow> Balance \<Rightarrow> Balance \<Rightarrow> 'm TinyToken tiny_result" where
  "tiny_credit L c account_id balance amount =
     (case checked_add balance amount of
        Some new_balance \<Rightarrow>
          rbind (unwrap_or_panic (Msg TinySupplyOverflow)
                   (checked_add (tiny_total_supply c) amount)) (\<lambda>supply.
          Inr (c\<lparr>tiny_accounts := put_balance L (tiny_accounts c) account_id new_balance,
                 tiny_total_supply := supply\<rparr>))
      | None \<Rightarrow> Inl (Msg TinyBalanceOverflow))"

definition tiny_debit ::
    "'m tiny_ops \<Rightarrow> 'm TinyToken \<Rightarrow> AccountId \<Rightarrow> Balance \<Rightarrow> Balance \<Rightarrow> 'm TinyToken tiny_result" where
  "tiny_debit L c account_id balance amount =
     (case checked_sub balance amount of
        Some new_balance \<Rightarrow>
          rbind (unwrap_or_panic (Msg TinySupplyInsufficient)
                   (checked_sub (tiny_total_supply c) amount)) (\<lambda>supply.
          Inr (c\<lparr>tiny_accounts := put_balance L (tiny_accounts c) account_id new_balance,
                 tiny_total_supply := supply\<rparr>))
      | None \<Rightarrow> Inl (Msg TinyBalanceInsufficient))"

text \<open>The receiver's call and the resolver's callback of a transfer call.\<close>

definition tiny_call_promise ::
    "env \<Rightarrow> Gas \<Rightarrow> AccountId \<Rightarrow> AccountId \<Rightarrow> u128 \<Rightarrow> string \<Rightarrow> TinyCall Promise" where
  "tiny_call_promise e gas sender_id receiver_id amount msg =
     Then (FunctionCall receiver_id (TinyOnTransfer sender_id amount msg) 0 gas)
          (FunctionCall (current_account_id e) (TinyResolveTransfer sender_id receiver_id amount) 0
             TINY_GAS_FOR_RESOLVE_TRANSFER)"

subsection \<open>Crate \<open>self-transfer\<close>\<close>

text \<open>
  \<open>insert(account_id, &0).unwrap()\<close>: the insertion returns the previous value, and there is none.
\<close>

definition st_internal_deposit ::
    "'m tiny_ops \<Rightarrow> 'm TinyToken \<Rightarrow> AccountId \<Rightarrow> Balance \<Rightarrow> 'm TinyToken tiny_result" where
  "st_internal_deposit L c account_id amount =
     rbind (case lm_get L (tiny_accounts c) account_id of
              Some balance \<Rightarrow> Inr (c, balance)
            | None \<Rightarrow>
                (let (m, old) = lm_insert L (tiny_accounts c) account_id 0
                 in rbind (unwrap_or_panic UnwrapNone old) (\<lambda>balance.
                    Inr (c\<lparr>tiny_accounts := m\<rparr>, balance)))) (\<lambda>(c1, balance).
     tiny_credit L c1 account_id balance amount)"

definition st_internal_withdraw ::
    "'m tiny_ops \<Rightarrow> 'm TinyToken \<Rightarrow> AccountId \<Rightarrow> Balance \<Rightarrow> 'm TinyToken tiny_result" where
  "st_internal_withdraw L c account_id amount =
     rbind (unwrap_or_panic (Msg InvalidAccountId) (lm_get L (tiny_accounts c) account_id))
       (\<lambda>balance. tiny_debit L c account_id balance amount)"

definition st_internal_transfer ::
    "'m tiny_ops \<Rightarrow> 'm TinyToken \<Rightarrow> tiny_effects \<Rightarrow> AccountId \<Rightarrow> AccountId \<Rightarrow> Balance \<Rightarrow>
     string option \<Rightarrow> ('m TinyToken \<times> tiny_effects) tiny_result" where
  "st_internal_transfer L c h sender_id receiver_id amount memo =
     rbind (require (0 < amount) (Msg TinyAmountNotPositive)) (\<lambda>_.
     rbind (st_internal_withdraw L c sender_id amount) (\<lambda>c1.
     rbind (st_internal_deposit L c1 receiver_id amount) (\<lambda>c2.
     Inr (c2, log (TransferEmitted sender_id receiver_id amount memo) h))))"

definition st_ft_transfer ::
    "'m tiny_ops \<Rightarrow> env \<Rightarrow> 'm TinyToken \<Rightarrow> tiny_effects \<Rightarrow> AccountId \<Rightarrow> u128 \<Rightarrow> string option \<Rightarrow>
     ('m TinyToken \<times> tiny_effects) tiny_result" where
  "st_ft_transfer L e c h receiver_id amount memo =
     rbind (assert_one_yocto e) (\<lambda>_.
     st_internal_transfer L c h (predecessor_account_id e) receiver_id amount memo)"

definition st_ft_transfer_call ::
    "'m tiny_ops \<Rightarrow> env \<Rightarrow> 'm TinyToken \<Rightarrow> tiny_effects \<Rightarrow> AccountId \<Rightarrow> u128 \<Rightarrow> string option \<Rightarrow>
     string \<Rightarrow> ('m TinyToken \<times> tiny_effects) tiny_result" where
  "st_ft_transfer_call L e c h receiver_id amount memo msg =
     rbind (assert_one_yocto e) (\<lambda>_.
     rbind (require (TINY_GAS_FOR_FT_TRANSFER_CALL < prepaid_gas e) (Msg InsufficientGas)) (\<lambda>_.
     let sender_id = predecessor_account_id e
     in rbind (st_internal_transfer L c h sender_id receiver_id amount memo) (\<lambda>(c1, h1).
        rbind (sub_op (overflow_checks e) (prepaid_gas e) TINY_GAS_FOR_FT_TRANSFER_CALL) (\<lambda>gas.
        Inr (c1, schedule (tiny_call_promise e gas sender_id receiver_id amount msg) h1)))))"

definition st_ft_total_supply :: "'m TinyToken \<Rightarrow> u128" where
  "st_ft_total_supply c = tiny_total_supply c"

definition st_ft_balance_of :: "'m tiny_ops \<Rightarrow> 'm TinyToken \<Rightarrow> AccountId \<Rightarrow> u128 tiny_result" where
  "st_ft_balance_of L c account_id =
     unwrap_or_panic (Msg InvalidAccountId) (lm_get L (tiny_accounts c) account_id)"

subsection \<open>Crate \<open>unregistered-receiver\<close>\<close>

text \<open>The struct and the two traits that the crate declares, as \<open>self-transfer\<close> does.\<close>

type_synonym 'm ur_Contract = "'m TinyToken"

type_synonym ur_calls = TinyCall

definition internal_unwrap_balance_safe ::
    "'m tiny_ops \<Rightarrow> 'm ur_Contract \<Rightarrow> AccountId \<Rightarrow> Balance tiny_result" where
  "internal_unwrap_balance_safe L c account_id =
     unwrap_or_panic (Msg TinyNotRegistered) (lm_get L (tiny_accounts c) account_id)"

definition internal_unwrap_balance_unsafe ::
    "'m tiny_ops \<Rightarrow> 'm ur_Contract \<Rightarrow> AccountId \<Rightarrow> Balance" where
  "internal_unwrap_balance_unsafe L c account_id =
     unwrap_or 0 (lm_get L (tiny_accounts c) account_id)"

definition internal_deposit_safe ::
    "'m tiny_ops \<Rightarrow> 'm ur_Contract \<Rightarrow> AccountId \<Rightarrow> Balance \<Rightarrow> 'm ur_Contract tiny_result" where
  "internal_deposit_safe L c account_id amount =
     rbind (internal_unwrap_balance_safe L c account_id) (\<lambda>balance.
     tiny_credit L c account_id balance amount)"

definition internal_deposit_unsafe ::
    "'m tiny_ops \<Rightarrow> 'm ur_Contract \<Rightarrow> AccountId \<Rightarrow> Balance \<Rightarrow> 'm ur_Contract tiny_result" where
  "internal_deposit_unsafe L c account_id amount =
     tiny_credit L c account_id (internal_unwrap_balance_unsafe L c account_id) amount"

definition ur_internal_withdraw ::
    "'m tiny_ops \<Rightarrow> 'm ur_Contract \<Rightarrow> AccountId \<Rightarrow> Balance \<Rightarrow> 'm ur_Contract tiny_result" where
  "ur_internal_withdraw L c account_id amount =
     rbind (internal_unwrap_balance_safe L c account_id) (\<lambda>balance.
     tiny_debit L c account_id balance amount)"

definition internal_transfer_safe ::
    "'m tiny_ops \<Rightarrow> 'm ur_Contract \<Rightarrow> tiny_effects \<Rightarrow> AccountId \<Rightarrow> AccountId \<Rightarrow> Balance \<Rightarrow>
     string option \<Rightarrow> ('m ur_Contract \<times> tiny_effects) tiny_result" where
  "internal_transfer_safe L c h sender_id receiver_id amount memo =
     rbind (require (sender_id \<noteq> receiver_id) (Msg IdenticalAccounts)) (\<lambda>_.
     rbind (require (0 < amount) (Msg TinyAmountNotPositive)) (\<lambda>_.
     rbind (ur_internal_withdraw L c sender_id amount) (\<lambda>c1.
     rbind (internal_deposit_safe L c1 receiver_id amount) (\<lambda>c2.
     Inr (c2, log (TransferEmitted sender_id receiver_id amount memo) h)))))"

definition internal_transfer_unsafe ::
    "'m tiny_ops \<Rightarrow> 'm ur_Contract \<Rightarrow> tiny_effects \<Rightarrow> AccountId \<Rightarrow> AccountId \<Rightarrow> Balance \<Rightarrow>
     string option \<Rightarrow> ('m ur_Contract \<times> tiny_effects) tiny_result" where
  "internal_transfer_unsafe L c h sender_id receiver_id amount memo =
     rbind (require (sender_id \<noteq> receiver_id) (Msg IdenticalAccounts)) (\<lambda>_.
     rbind (require (0 < amount) (Msg TinyAmountNotPositive)) (\<lambda>_.
     rbind (ur_internal_withdraw L c sender_id amount) (\<lambda>c1.
     rbind (internal_deposit_unsafe L c1 receiver_id amount) (\<lambda>c2.
     Inr (c2, log (TransferEmitted sender_id receiver_id amount memo) h)))))"

definition ur_ft_transfer ::
    "'m tiny_ops \<Rightarrow> env \<Rightarrow> 'm ur_Contract \<Rightarrow> tiny_effects \<Rightarrow> AccountId \<Rightarrow> u128 \<Rightarrow> string option \<Rightarrow>
     ('m ur_Contract \<times> tiny_effects) tiny_result" where
  "ur_ft_transfer L e c h receiver_id amount memo =
     rbind (assert_one_yocto e) (\<lambda>_.
     internal_transfer_unsafe L c h (predecessor_account_id e) receiver_id amount memo)"

definition ur_ft_transfer_call ::
    "'m tiny_ops \<Rightarrow> env \<Rightarrow> 'm ur_Contract \<Rightarrow> tiny_effects \<Rightarrow> AccountId \<Rightarrow> u128 \<Rightarrow> string option \<Rightarrow>
     string \<Rightarrow> ('m ur_Contract \<times> tiny_effects) tiny_result" where
  "ur_ft_transfer_call L e c h receiver_id amount memo msg =
     rbind (assert_one_yocto e) (\<lambda>_.
     rbind (require (TINY_GAS_FOR_FT_TRANSFER_CALL < prepaid_gas e) (Msg InsufficientGas)) (\<lambda>_.
     let sender_id = predecessor_account_id e
     in rbind (internal_transfer_safe L c h sender_id receiver_id amount memo) (\<lambda>(c1, h1).
        rbind (sub_op (overflow_checks e) (prepaid_gas e) TINY_GAS_FOR_FT_TRANSFER_CALL) (\<lambda>gas.
        Inr (c1, schedule (tiny_call_promise e gas sender_id receiver_id amount msg) h1)))))"

definition ur_default :: "'m tiny_ops \<Rightarrow> bytes \<Rightarrow> 'm ur_Contract" where
  "ur_default L key = \<lparr>tiny_accounts = lm_new L key, tiny_total_supply = 0\<rparr>"

definition ur_ft_total_supply :: "'m ur_Contract \<Rightarrow> u128" where
  "ur_ft_total_supply c = tiny_total_supply c"

definition ur_ft_balance_of :: "'m tiny_ops \<Rightarrow> 'm ur_Contract \<Rightarrow> AccountId \<Rightarrow> u128 tiny_result" where
  "ur_ft_balance_of L c account_id =
     unwrap_or_panic (Msg TinyNotRegistered) (lm_get L (tiny_accounts c) account_id)"

subsection \<open>Lemmas\<close>

text \<open>Balances as a function, an account holding zero being the same as none.\<close>

definition or_none :: "Balance \<Rightarrow> Balance option" where
  "or_none b = (if b = 0 then None else Some b)"

lemma or_none_simps [simp]: "or_none b \<noteq> Some 0" "b \<noteq> 0 \<Longrightarrow> or_none b = Some b" "or_none 0 = None"
  by (simp_all add: or_none_def)

lemma finite_dom_or_none [simp]: "finite (dom m) \<Longrightarrow> finite (dom (m(a := or_none b)))"
  by (simp add: or_none_def)

text \<open>
  What every reachable state satisfies: finitely many accounts, none of them at zero, and the
  supply is the sum of the balances.
\<close>

definition tiny_ok :: "'m tiny_ops \<Rightarrow> 'm ur_Contract \<Rightarrow> bool" where
  "tiny_ok L c \<longleftrightarrow> finite (dom (lm_get L (tiny_accounts c))) \<and>
     (\<forall>a. lm_get L (tiny_accounts c) a \<noteq> Some 0) \<and>
     unat (tiny_total_supply c) = word_sum (lm_get L (tiny_accounts c))"

lemma word_sum_or_none:
  assumes "finite (dom m)"
  shows "word_sum (m(a := or_none b)) + unat (unwrap_or 0 (m a)) = word_sum m + unat b"
proof -
  have "word_sum (m(a := or_none b)) = unat b + word_sum (m(a := None))"
    using word_sum_update [OF assms, of a b] by (cases "b = 0") simp_all
  moreover have "word_sum m = unat (unwrap_or 0 (m a)) + word_sum (m(a := None))"
  proof (cases "m a")
    case None
    then have "m(a := None) = m" by auto
    with None show ?thesis by simp
  next
    case (Some v)
    with word_sum_split [OF assms Some] show ?thesis by simp
  qed
  ultimately show ?thesis by simp
qed

text \<open>
  A contract of the crate \<open>unregistered-receiver\<close> on the chain: its transfers, called by anyone, and
  its own deposits and withdrawals, which are how it mints and burns.
\<close>

inductive ur_step :: "'m tiny_ops \<Rightarrow> 'm ur_Contract \<Rightarrow> 'm ur_Contract \<Rightarrow> bool"
  for L :: "'m tiny_ops" where
  ur_mint_safe: "internal_deposit_safe L c a x = Inr c' \<Longrightarrow> ur_step L c c'"
| ur_mint_unsafe: "internal_deposit_unsafe L c a x = Inr c' \<Longrightarrow> ur_step L c c'"
| ur_burn: "ur_internal_withdraw L c a x = Inr c' \<Longrightarrow> ur_step L c c'"
| ur_transfer: "ur_ft_transfer L e c h r x memo = Inr (c', h') \<Longrightarrow> ur_step L c c'"
| ur_transfer_call: "ur_ft_transfer_call L e c h r x memo msg = Inr (c', h') \<Longrightarrow> ur_step L c c'"

definition ur_init :: "'m tiny_ops \<Rightarrow> 'm ur_Contract \<Rightarrow> bool" where
  "ur_init L c \<longleftrightarrow> (\<exists>key. c = ur_default L key)"

locale tiny_store = lookup_map L
  for L :: "('m, AccountId, Balance) map_ops"
begin

abbreviation bal :: "'m TinyToken \<Rightarrow> AccountId \<rightharpoonup> Balance" where
  "bal c \<equiv> lm_get L (tiny_accounts c)"

lemma get_put_balance: "lm_get L (put_balance L m a b) = (lm_get L m)(a := or_none b)"
  by (auto simp: put_balance_def map_laws or_none_def word_gt_0)

lemma tiny_credit_iff:
  "tiny_credit L c a b x = Inr c' \<longleftrightarrow>
     unat b + unat x < 2 ^ 128 \<and> unat (tiny_total_supply c) + unat x < 2 ^ 128 \<and>
     c' = c\<lparr>tiny_accounts := put_balance L (tiny_accounts c) a (b + x),
            tiny_total_supply := tiny_total_supply c + x\<rparr>"
  by (auto simp: tiny_credit_def checked_add_def)

lemma tiny_debit_iff:
  "tiny_debit L c a b x = Inr c' \<longleftrightarrow>
     x \<le> b \<and> x \<le> tiny_total_supply c \<and>
     c' = c\<lparr>tiny_accounts := put_balance L (tiny_accounts c) a (b - x),
            tiny_total_supply := tiny_total_supply c - x\<rparr>"
  by (auto simp: tiny_debit_def checked_sub_def)

lemma tiny_credit_ok:
  assumes "tiny_ok L c" and "b = unwrap_or 0 (bal c a)" and "tiny_credit L c a b x = Inr c'"
  shows "tiny_ok L c'"
proof -
  have fits: "unat b + unat x < 2 ^ 128" "unat (tiny_total_supply c) + unat x < 2 ^ 128"
    and c': "c' = c\<lparr>tiny_accounts := put_balance L (tiny_accounts c) a (b + x),
            tiny_total_supply := tiny_total_supply c + x\<rparr>"
    using assms(3) by (simp_all add: tiny_credit_iff)
  have fin: "finite (dom (bal c))" using assms(1) by (simp add: tiny_ok_def)
  have "word_sum ((bal c)(a := or_none (b + x))) + unat b = word_sum (bal c) + unat (b + x)"
    using word_sum_or_none [OF fin, of a "b + x"] assms(2) by simp
  then have "word_sum ((bal c)(a := or_none (b + x))) = word_sum (bal c) + unat x"
    using fits by (simp add: unat_add_u128)
  then show ?thesis
    using assms(1) fits c' fin by (simp add: tiny_ok_def get_put_balance unat_add_u128)
qed

lemma tiny_debit_ok:
  assumes "tiny_ok L c" and "bal c a = Some b" and "tiny_debit L c a b x = Inr c'"
  shows "tiny_ok L c'"
proof -
  have le: "x \<le> b" "x \<le> tiny_total_supply c"
    and c': "c' = c\<lparr>tiny_accounts := put_balance L (tiny_accounts c) a (b - x),
            tiny_total_supply := tiny_total_supply c - x\<rparr>"
    using assms(3) by (simp_all add: tiny_debit_iff)
  then have le': "unat x \<le> unat b" "unat x \<le> unat (tiny_total_supply c)"
    by (simp_all add: word_le_nat_alt)
  have fin: "finite (dom (bal c))" using assms(1) by (simp add: tiny_ok_def)
  have "word_sum ((bal c)(a := or_none (b - x))) + unat b = word_sum (bal c) + unat (b - x)"
    using word_sum_or_none [OF fin, of a "b - x"] assms(2) by simp
  then have "word_sum ((bal c)(a := or_none (b - x))) = word_sum (bal c) - unat x"
    using le' by (simp add: unat_sub_exact)
  then show ?thesis
    using assms(1) le' c' fin by (simp add: tiny_ok_def get_put_balance unat_sub_exact)
qed

lemma tiny_ok_le_supply: "tiny_ok L c \<Longrightarrow> bal c a = Some b \<Longrightarrow> unat b \<le> unat (tiny_total_supply c)"
  by (simp add: tiny_ok_def word_sum_member_le)

lemma tiny_ok_two_le_supply:
  "tiny_ok L c \<Longrightarrow> bal c a = Some b \<Longrightarrow> bal c d = Some y \<Longrightarrow> a \<noteq> d \<Longrightarrow>
   unat b + unat y \<le> unat (tiny_total_supply c)"
  by (simp add: tiny_ok_def word_sum_two_le)

text \<open>A debit followed by a credit that finds the receiver's balance \<open>d\<close> after the debit.\<close>

definition moved :: "'m TinyToken \<Rightarrow> AccountId \<Rightarrow> AccountId \<Rightarrow> Balance \<Rightarrow> Balance \<Rightarrow> Balance \<Rightarrow>
    'm TinyToken" where
  "moved c s r b d x = c\<lparr>tiny_accounts :=
     put_balance L (put_balance L (tiny_accounts c) s (b - x)) r (d + x)\<rparr>"

lemma bal_moved: "bal (moved c s r b d x) = (bal c)(s := or_none (b - x), r := or_none (d + x))"
  by (simp add: moved_def get_put_balance)

lemma supply_moved [simp]: "tiny_total_supply (moved c s r b d x) = tiny_total_supply c"
  by (simp add: moved_def)

lemma supply_split:
  "x \<le> S \<Longrightarrow> unat (S - x) + unat x < 2 ^ 128" for S x :: Balance
  using u128_less_pow [of S] by (simp add: unat_sub_exact word_le_nat_alt)

lemma debit_credit_iff:
  "(\<exists>c1. tiny_debit L c s b x = Inr c1 \<and> tiny_credit L c1 r d x = Inr c') \<longleftrightarrow>
     x \<le> b \<and> x \<le> tiny_total_supply c \<and> unat d + unat x < 2 ^ 128 \<and> c' = moved c s r b d x"
  by (auto simp: tiny_debit_iff tiny_credit_iff moved_def dest: supply_split)

lemma bal_after_debit:
  "tiny_debit L c s b x = Inr c1 \<Longrightarrow> bal c1 = (bal c)(s := or_none (b - x))"
  by (simp add: tiny_debit_iff get_put_balance)

lemma debit_lookup_credit:
  "(\<exists>c1. tiny_debit L c s b x = Inr c1 \<and> (\<exists>d. f (bal c1) d \<and> tiny_credit L c1 r d x = Inr c')) \<longleftrightarrow>
     (\<exists>d. f ((bal c)(s := or_none (b - x))) d \<and> x \<le> b \<and> x \<le> tiny_total_supply c \<and>
        unat d + unat x < 2 ^ 128 \<and> c' = moved c s r b d x)"
  (is "?l \<longleftrightarrow> ?r")
proof -
  have "?l \<longleftrightarrow> (\<exists>d. f ((bal c)(s := or_none (b - x))) d \<and>
      (\<exists>c1. tiny_debit L c s b x = Inr c1 \<and> tiny_credit L c1 r d x = Inr c'))"
    by (metis bal_after_debit)
  then show ?thesis unfolding debit_credit_iff by simp
qed

lemma st_internal_deposit_iff:
  "st_internal_deposit L c a x = Inr c' \<longleftrightarrow>
     (\<exists>d. bal c a = Some d \<and> tiny_credit L c a d x = Inr c')"
proof (cases "bal c a")
  case None
  then show ?thesis
    using insert_old [of "tiny_accounts c" a 0]
    by (cases "lm_insert L (tiny_accounts c) a 0") (simp add: st_internal_deposit_def)
qed (simp add: st_internal_deposit_def)

lemma withdraw_iff:
  "st_internal_withdraw L c a x = Inr c' \<longleftrightarrow>
     (\<exists>b. bal c a = Some b \<and> tiny_debit L c a b x = Inr c')"
  "ur_internal_withdraw L c a x = Inr c' \<longleftrightarrow>
     (\<exists>b. bal c a = Some b \<and> tiny_debit L c a b x = Inr c')"
  by (auto simp: st_internal_withdraw_def ur_internal_withdraw_def internal_unwrap_balance_safe_def
      result_simps)

lemma st_internal_transfer_iff:
  "st_internal_transfer L c h s r x memo = Inr (c', h') \<longleftrightarrow>
     0 < x \<and> h' = log (TransferEmitted s r x memo) h \<and>
     (\<exists>b d. bal c s = Some b \<and> ((bal c)(s := or_none (b - x))) r = Some d \<and> x \<le> b \<and>
        x \<le> tiny_total_supply c \<and> unat d + unat x < 2 ^ 128 \<and> c' = moved c s r b d x)"
proof -
  have "st_internal_transfer L c h s r x memo = Inr (c', h') \<longleftrightarrow>
      0 < x \<and> h' = log (TransferEmitted s r x memo) h \<and>
      (\<exists>b. bal c s = Some b \<and> (\<exists>c1. tiny_debit L c s b x = Inr c1 \<and>
         (\<exists>d. bal c1 r = Some d \<and> tiny_credit L c1 r d x = Inr c')))"
    by (auto simp: st_internal_transfer_def result_simps withdraw_iff st_internal_deposit_iff)
  then show ?thesis unfolding debit_lookup_credit [where f = "\<lambda>m d. m r = Some d"] by blast
qed

lemma ur_internal_transfer_iff:
  "internal_transfer_safe L c h s r x memo = Inr (c', h') \<longleftrightarrow>
     s \<noteq> r \<and> 0 < x \<and> h' = log (TransferEmitted s r x memo) h \<and>
     (\<exists>b d. bal c s = Some b \<and> ((bal c)(s := or_none (b - x))) r = Some d \<and> x \<le> b \<and>
        x \<le> tiny_total_supply c \<and> unat d + unat x < 2 ^ 128 \<and> c' = moved c s r b d x)"
  "internal_transfer_unsafe L c h s r x memo = Inr (c', h') \<longleftrightarrow>
     s \<noteq> r \<and> 0 < x \<and> h' = log (TransferEmitted s r x memo) h \<and>
     (\<exists>b d. bal c s = Some b \<and> d = unwrap_or 0 (((bal c)(s := or_none (b - x))) r) \<and> x \<le> b \<and>
        x \<le> tiny_total_supply c \<and> unat d + unat x < 2 ^ 128 \<and> c' = moved c s r b d x)"
proof -
  have "internal_transfer_safe L c h s r x memo = Inr (c', h') \<longleftrightarrow>
      s \<noteq> r \<and> 0 < x \<and> h' = log (TransferEmitted s r x memo) h \<and>
      (\<exists>b. bal c s = Some b \<and> (\<exists>c1. tiny_debit L c s b x = Inr c1 \<and>
         (\<exists>d. bal c1 r = Some d \<and> tiny_credit L c1 r d x = Inr c')))"
    by (auto simp: internal_transfer_safe_def result_simps withdraw_iff internal_deposit_safe_def
        internal_unwrap_balance_safe_def)
  then show "internal_transfer_safe L c h s r x memo = Inr (c', h') \<longleftrightarrow>
     s \<noteq> r \<and> 0 < x \<and> h' = log (TransferEmitted s r x memo) h \<and>
     (\<exists>b d. bal c s = Some b \<and> ((bal c)(s := or_none (b - x))) r = Some d \<and> x \<le> b \<and>
        x \<le> tiny_total_supply c \<and> unat d + unat x < 2 ^ 128 \<and> c' = moved c s r b d x)"
    unfolding debit_lookup_credit [where f = "\<lambda>m d. m r = Some d"] by blast
next
  have "internal_transfer_unsafe L c h s r x memo = Inr (c', h') \<longleftrightarrow>
      s \<noteq> r \<and> 0 < x \<and> h' = log (TransferEmitted s r x memo) h \<and>
      (\<exists>b. bal c s = Some b \<and> (\<exists>c1. tiny_debit L c s b x = Inr c1 \<and>
         (\<exists>d. d = unwrap_or 0 (bal c1 r) \<and> tiny_credit L c1 r d x = Inr c')))"
    by (auto simp: internal_transfer_unsafe_def result_simps withdraw_iff internal_deposit_unsafe_def
        internal_unwrap_balance_unsafe_def)
  then show "internal_transfer_unsafe L c h s r x memo = Inr (c', h') \<longleftrightarrow>
     s \<noteq> r \<and> 0 < x \<and> h' = log (TransferEmitted s r x memo) h \<and>
     (\<exists>b d. bal c s = Some b \<and> d = unwrap_or 0 (((bal c)(s := or_none (b - x))) r) \<and> x \<le> b \<and>
        x \<le> tiny_total_supply c \<and> unat d + unat x < 2 ^ 128 \<and> c' = moved c s r b d x)"
    unfolding debit_lookup_credit [where f = "\<lambda>m d. d = unwrap_or 0 (m r)"] by blast
qed

lemma internal_deposit_ok:
  assumes "tiny_ok L c"
  shows "internal_deposit_safe L c a x = Inr c' \<Longrightarrow> tiny_ok L c'"
    and "internal_deposit_unsafe L c a x = Inr c' \<Longrightarrow> tiny_ok L c'"
proof -
  assume "internal_deposit_safe L c a x = Inr c'"
  then obtain d where "bal c a = Some d" and "tiny_credit L c a d x = Inr c'"
    by (auto simp: internal_deposit_safe_def internal_unwrap_balance_safe_def result_simps)
  then show "tiny_ok L c'" by (intro tiny_credit_ok [OF assms, of d a]) simp_all
next
  assume "internal_deposit_unsafe L c a x = Inr c'"
  then show "tiny_ok L c'"
    unfolding internal_deposit_unsafe_def internal_unwrap_balance_unsafe_def
    by (rule tiny_credit_ok [OF assms refl])
qed

lemma ur_internal_withdraw_ok:
  "tiny_ok L c \<Longrightarrow> ur_internal_withdraw L c a x = Inr c' \<Longrightarrow> tiny_ok L c'"
  by (auto simp: withdraw_iff intro: tiny_debit_ok)

lemma ur_internal_transfer_ok:
  assumes "tiny_ok L c"
  shows "internal_transfer_safe L c h s r x memo = Inr (c', h') \<Longrightarrow> tiny_ok L c'"
    and "internal_transfer_unsafe L c h s r x memo = Inr (c', h') \<Longrightarrow> tiny_ok L c'"
proof -
  assume "internal_transfer_safe L c h s r x memo = Inr (c', h')"
  then obtain c1 where "ur_internal_withdraw L c s x = Inr c1"
    and "internal_deposit_safe L c1 r x = Inr c'"
    by (auto simp: internal_transfer_safe_def result_simps)
  then show "tiny_ok L c'" by (blast intro: ur_internal_withdraw_ok [OF assms] internal_deposit_ok(1))
next
  assume "internal_transfer_unsafe L c h s r x memo = Inr (c', h')"
  then obtain c1 where "ur_internal_withdraw L c s x = Inr c1"
    and "internal_deposit_unsafe L c1 r x = Inr c'"
    by (auto simp: internal_transfer_unsafe_def result_simps)
  then show "tiny_ok L c'" by (blast intro: ur_internal_withdraw_ok [OF assms] internal_deposit_ok(2))
qed

lemma ur_step_ok:
  assumes "tiny_ok L c" and "ur_step L c c'"
  shows "tiny_ok L c'"
  using assms(2)
proof cases
  case (ur_transfer e h r x memo h')
  then show ?thesis
    using ur_internal_transfer_ok(2) [OF assms(1)] by (auto simp: ur_ft_transfer_def result_simps)
next
  case (ur_transfer_call e h r x memo msg h')
  then show ?thesis
    using ur_internal_transfer_ok(1) [OF assms(1)]
    by (auto simp: ur_ft_transfer_call_def result_simps Let_def)
qed (use assms(1) internal_deposit_ok ur_internal_withdraw_ok in blast)+

lemma ur_init_ok: "ur_init L c \<Longrightarrow> tiny_ok L c"
  by (auto simp: ur_init_def ur_default_def tiny_ok_def get_new)

sublocale ur_runs: invariant_system "ur_init L" "ur_step L" "tiny_ok L"
  by unfold_locales (auto intro: ur_init_ok ur_step_ok)

lemma ur_reachable_ok: "reachable (ur_init L) (ur_step L) c \<Longrightarrow> tiny_ok L c"
  by (rule ur_runs.reachable_inv)

end

interpretation ft_fun: tiny_store fun_map
  by unfold_locales

subsection \<open>Properties\<close>

definition tiny_demo_env :: "AccountId \<Rightarrow> env" where
  "tiny_demo_env who =
     \<lparr>current_account_id = ''app'', predecessor_account_id = who, attached_deposit = 1,
      prepaid_gas = 100000000000000, used_gas = 0, block_timestamp = 0, storage_byte_cost = 0,
      promise_results = [], overflow_checks = True\<rparr>"

lemma tiny_demo_env_simps [simp]:
  "predecessor_account_id (tiny_demo_env who) = who" "attached_deposit (tiny_demo_env who) = 1"
  "prepaid_gas (tiny_demo_env who) = 100000000000000"
  by (simp_all add: tiny_demo_env_def)

definition tiny_demo :: "(AccountId \<rightharpoonup> Balance) TinyToken" where
  "tiny_demo = \<lparr>tiny_accounts = [''alice'' \<mapsto> 100], tiny_total_supply = 100\<rparr>"

text \<open>The transfer of \<open>self-transfer\<close>, whose guard against self-transfers is commented out.  With
  one yoctoNEAR attached, it returns exactly for a positive amount that the sender has (and the
  supply covers), if the receiver is registered and does not overflow, or is the sender and keeps
  something.  A transfer to oneself changes neither balances nor supply: the code withdraws before
  it reads the receiver's balance, so the missing guard mints nothing; sending oneself the whole
  balance panics, because the withdrawal has unregistered the account.\<close>

theorem self_transfer_is_neutral:
  assumes "lookup_map (L :: 'm tiny_ops)" and "attached_deposit e = 1"
    and "s = predecessor_account_id e" and "bal = lm_get L (tiny_accounts c)"
  shows "(returns (st_ft_transfer L e c h r x memo) \<longleftrightarrow>
      0 < x \<and> x \<le> tiny_total_supply c \<and>
      (\<exists>b. bal s = Some b \<and>
         (if r = s then x < b else x \<le> b \<and> (\<exists>d. bal r = Some d \<and> unat d + unat x < 2 ^ 128)))) \<and>
    (\<forall>c' h'. st_ft_transfer L e c h r x memo = Inr (c', h') \<longrightarrow>
       h' = log (TransferEmitted s r x memo) h \<and> tiny_total_supply c' = tiny_total_supply c \<and>
       lm_get L (tiny_accounts c') =
         (if r = s then bal
          else bal(s := or_none (the (bal s) - x), r \<mapsto> the (bal r) + x)))"
proof -
  have T: "tiny_store L" using assms(1) by (rule tiny_store.intro)
  note iff = tiny_store.st_internal_transfer_iff [OF T]
  have run: "st_ft_transfer L e c h r x memo = st_internal_transfer L c h s r x memo" for r
    using assms(2,3) by (simp add: st_ft_transfer_def assert_one_yocto_def)
  have or_none_eq: "or_none v = Some d \<longleftrightarrow> d = v \<and> v \<noteq> 0" for v d
    by (auto simp: or_none_def)
  have keeps: "b - x \<noteq> 0 \<and> x \<le> b \<longleftrightarrow> x < b" for b :: Balance
    by auto
  have small: "unat (b - x) + unat x < 2 ^ 128" if "x < b" for b
    using tiny_store.supply_split [OF T, of x b] that by simp
  have grows: "or_none (d + x) = Some (d + x)" if "0 < x" and "unat d + unat x < 2 ^ 128" for d
  proof -
    have "unat (d + x) \<noteq> 0" using that by (simp add: unat_add_u128 word_less_nat_alt)
    then show ?thesis by (auto simp: or_none_def)
  qed
  show ?thesis
  proof (cases "r = s")
    case True
    then show ?thesis
      using keeps small assms(4)
      by (auto simp: run returns_def iff or_none_eq tiny_store.bal_moved [OF T]
          tiny_store.supply_moved [OF T] fun_upd_idem)
  next
    case False
    then show ?thesis
      using assms(4) grows
      by (auto simp: run returns_def iff tiny_store.bal_moved [OF T]
          tiny_store.supply_moved [OF T])
  qed
qed

theorem self_transfer_is_neutral_witness:
  "returns (st_ft_transfer fun_map (tiny_demo_env ''alice'') tiny_demo no_effects ''alice'' 40 None) \<and>
   \<not> returns (st_ft_transfer fun_map (tiny_demo_env ''alice'') tiny_demo no_effects ''alice'' 100 None)"
proof -
  note self = self_transfer_is_neutral [OF fm.lookup_map_axioms, of "tiny_demo_env ''alice''"
      "''alice''" "lm_get fun_map (tiny_accounts tiny_demo)" tiny_demo no_effects "''alice''"]
  from self [of 40 None] self [of 100 None] show ?thesis
    by (simp add: fun_map_def tiny_demo_def)
qed

text \<open>In every reachable state of \<open>unregistered-receiver\<close>, whatever it minted, burned and
  transferred, the total supply is the sum of the balances and no account is kept at balance zero:
  being registered is the same as owning something.\<close>

theorem ur_reachable_supply_is_sum:
  assumes "lookup_map (L :: 'm tiny_ops)" and "reachable (ur_init L) (ur_step L) c"
  shows "finite (dom (lm_get L (tiny_accounts c))) \<and>
     unat (tiny_total_supply c) = word_sum (lm_get L (tiny_accounts c)) \<and>
     (returns (ur_ft_balance_of L c a) \<longleftrightarrow>
        unwrap_or 0 (lm_get L (tiny_accounts c) a) \<noteq> 0)"
  using tiny_store.ur_reachable_ok [OF tiny_store.intro [OF assms(1)] assms(2)]
  by (cases "lm_get L (tiny_accounts c) a") (auto simp: tiny_ok_def ur_ft_balance_of_def)

lemma tiny_demo_reachable: "reachable (ur_init fun_map) (ur_step fun_map) tiny_demo"
proof (rule reachable_step [OF reachable_init])
  show "ur_init fun_map (ur_default fun_map [])" by (auto simp: ur_init_def)
  have "internal_deposit_unsafe fun_map (ur_default fun_map []) ''alice'' 100 = Inr tiny_demo"
    by (simp add: internal_deposit_unsafe_def internal_unwrap_balance_unsafe_def ur_default_def
        fun_map_def tiny_credit_def checked_add_def put_balance_def tiny_demo_def)
  then show "ur_step fun_map (ur_default fun_map []) tiny_demo" by (rule ur_mint_unsafe)
qed

theorem ur_reachable_supply_is_sum_witness:
  "word_sum (lm_get fun_map (tiny_accounts tiny_demo)) = 100 \<and>
   \<not> returns (ur_ft_balance_of fun_map tiny_demo ''bob'')"
  using ur_reachable_supply_is_sum [OF fm.lookup_map_axioms tiny_demo_reachable, of "''bob''"]
  by (simp add: tiny_demo_def fun_map_def)

text \<open>The two transfers of \<open>unregistered-receiver\<close> differ in nothing but the receivers they
  accept.  In a reachable state, a positive amount that the sender has can always be sent to another
  account by \<open>ft_transfer\<close>, which registers the receiver if need be at the contract's expense; with
  enough gas, \<open>ft_transfer_call\<close> can send it exactly if the receiver is registered.  Both move the
  amount, keep the supply, and unregister a sender who sends everything.\<close>

theorem unsafe_transfer_registers_receiver:
  assumes "lookup_map (L :: 'm tiny_ops)" and "reachable (ur_init L) (ur_step L) c"
    and "bal = lm_get L (tiny_accounts c)" and "bal s = Some b" and "0 < x" and "x \<le> b"
    and "r \<noteq> s" and "predecessor_account_id e = s" and "attached_deposit e = 1"
    and "TINY_GAS_FOR_FT_TRANSFER_CALL < prepaid_gas e"
  shows "(\<exists>c'. ur_ft_transfer L e c h r x memo = Inr (c', log (TransferEmitted s r x memo) h) \<and>
       lm_get L (tiny_accounts c') = bal(s := or_none (b - x), r \<mapsto> unwrap_or 0 (bal r) + x) \<and>
       tiny_total_supply c' = tiny_total_supply c) \<and>
     (returns (ur_ft_transfer_call L e c h r x memo msg) \<longleftrightarrow> bal r \<noteq> None) \<and>
     (\<forall>c' h'. ur_ft_transfer_call L e c h r x memo msg = Inr (c', h') \<longrightarrow>
       lm_get L (tiny_accounts c') = bal(s := or_none (b - x), r \<mapsto> the (bal r) + x) \<and>
       tiny_total_supply c' = tiny_total_supply c)"
proof -
  have T: "tiny_store L" using assms(1) by (rule tiny_store.intro)
  have ok: "tiny_ok L c" by (rule tiny_store.ur_reachable_ok [OF T assms(2)])
  define d where "d = unwrap_or 0 (bal r)"
  have x: "unat x \<le> unat b" using assms(6) by (simp add: word_le_nat_alt)
  have b: "unat b \<le> unat (tiny_total_supply c)"
    using tiny_store.tiny_ok_le_supply [OF T ok] assms(3,4) by simp
  have "unat b + unat d \<le> unat (tiny_total_supply c)"
  proof (cases "bal r")
    case (Some y)
    then show ?thesis
      using tiny_store.tiny_ok_two_le_supply [OF T ok] assms(3,4,7) by (simp add: d_def)
  qed (use b in \<open>simp add: d_def\<close>)
  then have fits: "unat d + unat x < 2 ^ 128"
    using x u128_less_pow [of "tiny_total_supply c"] by linarith
  have le: "x \<le> tiny_total_supply c" using x b by (simp add: word_le_nat_alt)
  have "unat (d + x) \<noteq> 0"
    using assms(5) fits by (simp add: unat_add_u128 word_less_nat_alt)
  then have grows: "or_none (d + x) = Some (d + x)" by (auto simp: or_none_def)
  have gas: "sub_op (overflow_checks e) (prepaid_gas e) TINY_GAS_FOR_FT_TRANSFER_CALL =
      (Inr (prepaid_gas e - TINY_GAS_FOR_FT_TRANSFER_CALL) :: Gas tiny_result)"
    using assms(10) by (intro sub_op_exact) (simp add: word_less_nat_alt)
  have free: "ur_ft_transfer L e c h r x memo = internal_transfer_unsafe L c h s r x memo"
    using assms(8,9) by (simp add: ur_ft_transfer_def assert_one_yocto_def)
  have guarded: "ur_ft_transfer_call L e c h r x memo msg =
      rbind (internal_transfer_safe L c h s r x memo) (\<lambda>(c1, h1).
      Inr (c1, schedule (tiny_call_promise e (prepaid_gas e - TINY_GAS_FOR_FT_TRANSFER_CALL) s r x
        msg) h1))"
    using assms(8-10) gas by (simp add: ur_ft_transfer_call_def assert_one_yocto_def Let_def)
  let ?c = "tiny_store.moved L c s r b d x"
  have balances: "lm_get L (tiny_accounts ?c) = bal(s := or_none (b - x), r \<mapsto> d + x)"
    "tiny_total_supply ?c = tiny_total_supply c"
    using tiny_store.bal_moved [OF T] tiny_store.supply_moved [OF T] grows assms(3) by auto
  have "ur_ft_transfer L e c h r x memo = Inr (?c, log (TransferEmitted s r x memo) h)"
    unfolding free tiny_store.ur_internal_transfer_iff(2) [OF T]
    using assms(3-7) fits le by (auto simp: d_def)
  moreover have safe: "internal_transfer_safe L c h s r x memo = Inr (c', h') \<longleftrightarrow>
      bal r \<noteq> None \<and> c' = ?c \<and> h' = log (TransferEmitted s r x memo) h" for c' h'
    unfolding tiny_store.ur_internal_transfer_iff(1) [OF T]
    using assms(3-7) fits le by (auto simp: d_def)
  ultimately show ?thesis
    using balances unfolding guarded d_def
    by (auto simp: returns_def rbind_eq_Inr safe d_def)
qed

theorem unsafe_transfer_registers_receiver_witness:
  "returns (ur_ft_transfer fun_map (tiny_demo_env ''alice'') tiny_demo no_effects ''bob'' 100 None) \<and>
   \<not> returns (ur_ft_transfer_call fun_map (tiny_demo_env ''alice'') tiny_demo no_effects ''bob'' 100 None ''go'')"
  using unsafe_transfer_registers_receiver [OF fm.lookup_map_axioms tiny_demo_reachable refl,
      of "''alice''" 100 100 "''bob''" "tiny_demo_env ''alice''" no_effects None "''go''"]
  by (auto simp: fun_map_def tiny_demo_def TINY_GAS_FOR_FT_TRANSFER_CALL_def
      TINY_GAS_FOR_RESOLVE_TRANSFER_def)

end
