(* ===== verification/PrepaidGas.thy ===== *)
theory PrepaidGas
  imports TinyTokens
begin

section \<open>A token that does not check the attached gas\<close>

text \<open>
  The crate \<open>prepaid-gas\<close>: a small fungible token whose \<open>ft_transfer_call\<close> has the check of the
  prepaid gas commented out.  Its state and messages are those of \<open>TinyTokens\<close>, its methods are
  defined here.  The theorem says what the missing check is worth.
\<close>

subsection \<open>Types\<close>

text \<open>The struct and the two traits that the crate declares, as \<open>self-transfer\<close> does.\<close>

type_synonym 'm pg_Contract = "'m TinyToken"

type_synonym pg_calls = TinyCall

subsection \<open>Operations\<close>

definition pg_default :: "'m tiny_ops \<Rightarrow> bytes \<Rightarrow> 'm pg_Contract" where
  "pg_default L key = \<lparr>tiny_accounts = lm_new L key, tiny_total_supply = 0\<rparr>"

text \<open>
  \<open>insert(account_id, &0).unwrap()\<close>: the insertion returns the previous value, and there is none.
\<close>

definition pg_internal_deposit ::
    "'m tiny_ops \<Rightarrow> 'm pg_Contract \<Rightarrow> AccountId \<Rightarrow> Balance \<Rightarrow> 'm pg_Contract tiny_result" where
  "pg_internal_deposit L c account_id amount =
     rbind (case lm_get L (tiny_accounts c) account_id of
              Some balance \<Rightarrow> Inr (c, balance)
            | None \<Rightarrow>
                (let (m, old) = lm_insert L (tiny_accounts c) account_id 0
                 in rbind (unwrap_or_panic UnwrapNone old) (\<lambda>balance.
                    Inr (c\<lparr>tiny_accounts := m\<rparr>, balance)))) (\<lambda>(c1, balance).
     case checked_add balance amount of
       Some new_balance \<Rightarrow>
         (let m = (if 0 < new_balance then fst (lm_insert L (tiny_accounts c1) account_id new_balance)
                   else fst (lm_remove L (tiny_accounts c1) account_id));
              c2 = c1\<lparr>tiny_accounts := m\<rparr>
          in rbind (unwrap_or_panic (Msg TinySupplyOverflow)
                      (checked_add (tiny_total_supply c2) amount)) (\<lambda>supply.
             Inr (c2\<lparr>tiny_total_supply := supply\<rparr>)))
     | None \<Rightarrow> Inl (Msg TinyBalanceOverflow))"

definition pg_internal_withdraw ::
    "'m tiny_ops \<Rightarrow> 'm pg_Contract \<Rightarrow> AccountId \<Rightarrow> Balance \<Rightarrow> 'm pg_Contract tiny_result" where
  "pg_internal_withdraw L c account_id amount =
     rbind (unwrap_or_panic (Msg InvalidAccountId) (lm_get L (tiny_accounts c) account_id)) (\<lambda>balance.
     case checked_sub balance amount of
       Some new_balance \<Rightarrow>
         (let m = (if 0 < new_balance then fst (lm_insert L (tiny_accounts c) account_id new_balance)
                   else fst (lm_remove L (tiny_accounts c) account_id));
              c1 = c\<lparr>tiny_accounts := m\<rparr>
          in rbind (unwrap_or_panic (Msg TinySupplyInsufficient)
                      (checked_sub (tiny_total_supply c1) amount)) (\<lambda>supply.
             Inr (c1\<lparr>tiny_total_supply := supply\<rparr>)))
     | None \<Rightarrow> Inl (Msg TinyBalanceInsufficient))"

definition pg_internal_transfer ::
    "'m tiny_ops \<Rightarrow> 'm pg_Contract \<Rightarrow> tiny_effects \<Rightarrow> AccountId \<Rightarrow> AccountId \<Rightarrow> Balance \<Rightarrow>
     string option \<Rightarrow> ('m pg_Contract \<times> tiny_effects) tiny_result" where
  "pg_internal_transfer L c h sender_id receiver_id amount memo =
     rbind (require (sender_id \<noteq> receiver_id) (Msg IdenticalAccounts)) (\<lambda>_.
     rbind (require (0 < amount) (Msg TinyAmountNotPositive)) (\<lambda>_.
     rbind (pg_internal_withdraw L c sender_id amount) (\<lambda>c1.
     rbind (pg_internal_deposit L c1 receiver_id amount) (\<lambda>c2.
     Inr (c2, log (TransferEmitted sender_id receiver_id amount memo) h)))))"

definition pg_ft_transfer ::
    "'m tiny_ops \<Rightarrow> env \<Rightarrow> 'm pg_Contract \<Rightarrow> tiny_effects \<Rightarrow> AccountId \<Rightarrow> u128 \<Rightarrow> string option \<Rightarrow>
     ('m pg_Contract \<times> tiny_effects) tiny_result" where
  "pg_ft_transfer L e c h receiver_id amount memo =
     rbind (assert_one_yocto e) (\<lambda>_.
     pg_internal_transfer L c h (predecessor_account_id e) receiver_id amount memo)"

definition pg_ft_transfer_call ::
    "'m tiny_ops \<Rightarrow> env \<Rightarrow> 'm pg_Contract \<Rightarrow> tiny_effects \<Rightarrow> AccountId \<Rightarrow> u128 \<Rightarrow> string option \<Rightarrow>
     string \<Rightarrow> ('m pg_Contract \<times> tiny_effects) tiny_result" where
  "pg_ft_transfer_call L e c h receiver_id amount memo msg =
     rbind (assert_one_yocto e) (\<lambda>_.
     let sender_id = predecessor_account_id e
     in rbind (pg_internal_transfer L c h sender_id receiver_id amount memo) (\<lambda>(c1, h1).
        rbind (sub_op (overflow_checks e) (prepaid_gas e) TINY_GAS_FOR_FT_TRANSFER_CALL) (\<lambda>gas.
        Inr (c1, schedule
          (Then (FunctionCall receiver_id (TinyOnTransfer sender_id amount msg) 0 gas)
             (FunctionCall (current_account_id e)
                (TinyResolveTransfer sender_id receiver_id amount) 0
                TINY_GAS_FOR_RESOLVE_TRANSFER)) h1))))"

definition pg_ft_total_supply :: "'m pg_Contract \<Rightarrow> u128" where
  "pg_ft_total_supply c = tiny_total_supply c"

definition pg_ft_balance_of :: "'m tiny_ops \<Rightarrow> 'm pg_Contract \<Rightarrow> AccountId \<Rightarrow> u128 tiny_result" where
  "pg_ft_balance_of L c account_id =
     unwrap_or_panic (Msg InvalidAccountId) (lm_get L (tiny_accounts c) account_id)"

subsection \<open>Lemmas\<close>

text \<open>Deposits and withdrawals are those of \<open>self-transfer\<close>.\<close>

lemma pg_is_st [simp]:
  "pg_internal_deposit L c a x = st_internal_deposit L c a x"
  "pg_internal_withdraw L c a x = st_internal_withdraw L c a x"
  by (simp_all add: pg_internal_deposit_def st_internal_deposit_def pg_internal_withdraw_def
      st_internal_withdraw_def tiny_credit_def tiny_debit_def put_balance_def cong: option.case_cong)

lemma pg_internal_transfer_eq:
  "pg_internal_transfer L c h s r x memo =
     (if s = r then Inl (Msg IdenticalAccounts) else st_internal_transfer L c h s r x memo)"
  by (simp add: pg_internal_transfer_def st_internal_transfer_def require_def)

lemma unat_u64_wraps:
  fixes g k :: Gas
  shows "unat (g - k) = (if k \<le> g then unat g - unat k else unat g + 2 ^ 64 - unat k)"
proof (cases "k \<le> g")
  case True
  then show ?thesis by (simp add: unat_sub word_le_nat_alt)
next
  case False
  then have "unat (g - k) = unat g + 2 ^ 64 - unat k"
    by (simp add: unat_sub_if' word_le_nat_alt)
  with False show ?thesis by simp
qed

text \<open>The transfer between two accounts, both registered.\<close>

lemma pg_internal_transfer_iff:
  assumes "lookup_map L"
  shows "pg_internal_transfer L c h s r x memo = Inr (c', h') \<longleftrightarrow>
     s \<noteq> r \<and> 0 < x \<and> h' = log (TransferEmitted s r x memo) h \<and>
     (\<exists>b d. lm_get L (tiny_accounts c) s = Some b \<and> lm_get L (tiny_accounts c) r = Some d \<and>
        x \<le> b \<and> x \<le> tiny_total_supply c \<and> unat d + unat x < 2 ^ 128 \<and>
        c' = c\<lparr>tiny_accounts :=
          put_balance L (put_balance L (tiny_accounts c) s (b - x)) r (d + x)\<rparr>)"
proof -
  have "tiny_store L" using assms by (rule tiny_store.intro)
  then show ?thesis
    by (auto simp: pg_internal_transfer_eq tiny_store.st_internal_transfer_iff
        tiny_store.moved_def)
qed

subsection \<open>Property\<close>

text \<open>What the missing gas check is worth.  \<open>ft_transfer_call\<close> returns exactly when one yoctoNEAR
  is attached, the transfer between two different registered accounts is possible, and, if the
  build has \<open>overflow-checks\<close>, at least the reserved 30 TGas are prepaid: the subtraction panics
  where the check would have.  It then reserves for the receiver's call what is prepaid less 30
  TGas.  Without \<open>overflow-checks\<close> nothing panics; the gas wraps around, and the receiver's call
  asks for more than 18 * 10^18 gas.  With more than 30 TGas prepaid, the crate and
  \<open>self-transfer\<close>, which has the check, do the same.\<close>

theorem missing_gas_check_bounds:
  assumes "lookup_map L" and "s = predecessor_account_id e"
  shows "(pg_ft_transfer_call L e c h r x memo msg = Inr (c', h') \<longleftrightarrow>
      attached_deposit e = 1 \<and>
      (overflow_checks e \<longrightarrow> 30 * 10 ^ 12 \<le> unat (prepaid_gas e)) \<and>
      s \<noteq> r \<and> 0 < x \<and>
      (\<exists>b d g. lm_get L (tiny_accounts c) s = Some b \<and> lm_get L (tiny_accounts c) r = Some d \<and>
         x \<le> b \<and> x \<le> tiny_total_supply c \<and> unat d + unat x < 2 ^ 128 \<and>
         c' = c\<lparr>tiny_accounts :=
           put_balance L (put_balance L (tiny_accounts c) s (b - x)) r (d + x)\<rparr> \<and>
         unat g = (if 30 * 10 ^ 12 \<le> unat (prepaid_gas e) then unat (prepaid_gas e) - 30 * 10 ^ 12
                   else unat (prepaid_gas e) + 2 ^ 64 - 30 * 10 ^ 12) \<and>
         h' = schedule
           (Then (FunctionCall r (TinyOnTransfer s x msg) 0 g)
              (FunctionCall (current_account_id e) (TinyResolveTransfer s r x) 0
                 TINY_GAS_FOR_RESOLVE_TRANSFER))
           (log (TransferEmitted s r x memo) h))) \<and>
    (s \<noteq> r \<and> 30 * 10 ^ 12 < unat (prepaid_gas e) \<longrightarrow>
       pg_ft_transfer_call L e c h r x memo msg = st_ft_transfer_call L e c h r x memo msg)"
proof
  have k: "TINY_GAS_FOR_FT_TRANSFER_CALL = 30000000000000"
    by (simp add: TINY_GAS_FOR_FT_TRANSFER_CALL_def TINY_GAS_FOR_RESOLVE_TRANSFER_def)
  have le: "k \<le> g \<longleftrightarrow> unat k \<le> unat g" for k g :: Gas by (rule word_le_nat_alt)
  have sub: "(sub_op ov g TINY_GAS_FOR_FT_TRANSFER_CALL :: Gas tiny_result) = Inr g' \<longleftrightarrow>
      (ov \<longrightarrow> 30 * 10 ^ 12 \<le> unat g) \<and>
      unat g' = (if 30 * 10 ^ 12 \<le> unat g then unat g - 30 * 10 ^ 12
                 else unat g + 2 ^ 64 - 30 * 10 ^ 12)" for ov and g g' :: Gas
    using unat_u64_wraps [of g 30000000000000]
    by (auto simp: k sub_op_def plain_op_def checked_sub_def le word_unat_eq_iff split: if_splits)
  show "pg_ft_transfer_call L e c h r x memo msg = Inr (c', h') \<longleftrightarrow>
      attached_deposit e = 1 \<and>
      (overflow_checks e \<longrightarrow> 30 * 10 ^ 12 \<le> unat (prepaid_gas e)) \<and>
      s \<noteq> r \<and> 0 < x \<and>
      (\<exists>b d g. lm_get L (tiny_accounts c) s = Some b \<and> lm_get L (tiny_accounts c) r = Some d \<and>
         x \<le> b \<and> x \<le> tiny_total_supply c \<and> unat d + unat x < 2 ^ 128 \<and>
         c' = c\<lparr>tiny_accounts :=
           put_balance L (put_balance L (tiny_accounts c) s (b - x)) r (d + x)\<rparr> \<and>
         unat g = (if 30 * 10 ^ 12 \<le> unat (prepaid_gas e) then unat (prepaid_gas e) - 30 * 10 ^ 12
                   else unat (prepaid_gas e) + 2 ^ 64 - 30 * 10 ^ 12) \<and>
         h' = schedule
           (Then (FunctionCall r (TinyOnTransfer s x msg) 0 g)
              (FunctionCall (current_account_id e) (TinyResolveTransfer s r x) 0
                 TINY_GAS_FOR_RESOLVE_TRANSFER))
           (log (TransferEmitted s r x memo) h))"
    unfolding pg_ft_transfer_call_def Let_def assms(2) [symmetric]
    by (auto simp: result_simps pg_internal_transfer_iff [OF assms(1)] sub)
  show "s \<noteq> r \<and> 30 * 10 ^ 12 < unat (prepaid_gas e) \<longrightarrow>
      pg_ft_transfer_call L e c h r x memo msg = st_ft_transfer_call L e c h r x memo msg"
    by (simp add: pg_ft_transfer_call_def st_ft_transfer_call_def pg_internal_transfer_eq
        tiny_call_promise_def assms(2) k word_less_nat_alt Let_def)
qed

text \<open>Alice sends Bob 40 with 20 TGas: checked, it panics; unchecked, it asks for gas nobody has.\<close>

definition pg_demo :: "(AccountId \<rightharpoonup> Balance) TinyToken" where
  "pg_demo = \<lparr>tiny_accounts = [''alice'' \<mapsto> 100, ''bob'' \<mapsto> 5], tiny_total_supply = 105\<rparr>"

theorem missing_gas_check_bounds_witness:
  "\<not> returns (pg_ft_transfer_call fun_map (tiny_demo_env ''alice''\<lparr>prepaid_gas := 20000000000000\<rparr>)
      pg_demo no_effects ''bob'' 40 None ''deal'') \<and>
   (\<exists>c' h'. pg_ft_transfer_call fun_map
      (tiny_demo_env ''alice''\<lparr>prepaid_gas := 20000000000000, overflow_checks := False\<rparr>)
      pg_demo no_effects ''bob'' 40 None ''deal'' = Inr (c', h') \<and>
      promises h' = [Then (FunctionCall ''bob'' (TinyOnTransfer ''alice'' 40 ''deal'') 0
          18446734073709551616)
        (FunctionCall ''app'' (TinyResolveTransfer ''alice'' ''bob'' 40) 0
          TINY_GAS_FOR_RESOLVE_TRANSFER)])"
proof -
  note bounds = missing_gas_check_bounds [OF fm.lookup_map_axioms refl, THEN conjunct1]
  show ?thesis
    unfolding returns_def split_paired_Ex bounds
    by (simp add: tiny_demo_env_def pg_demo_def)
      (simp add: fun_map_def, rule exI, rule conjI, rule exI [of _ "18446734073709551616"],
        rule conjI [OF _ refl], simp_all)
qed

end
