(* ===== verification/TransferDeviations.thy ===== *)
theory TransferDeviations
  imports TransferConformance PrepaidGas
begin

section \<open>Tokens that do not keep to NEP-141\<close>

text \<open>
  The blocks \<open>impl FungibleTokenCore for Contract\<close> of the example crates \<open>self-transfer\<close>,
  \<open>prepaid-gas\<close> and \<open>unregistered-receiver\<close>, measured against the requirements of
  \<open>TransferStandard\<close>: which of them each crate meets, over any collection that behaves as an
  \<open>UnorderedMap\<close>, in every state whose books are right.
\<close>

subsection \<open>The implementations\<close>

type_synonym 'm tiny_core = "('m TinyToken, TinyLog, TinyCall, TinyError) FungibleTokenCore"

text \<open>The three small tokens, which declare the receiver's and the resolver's trait again.\<close>

definition tiny_ft_ext :: "TinyCall ext_ft" where
  "tiny_ft_ext =
     \<lparr>ext_ft_on_transfer = TinyOnTransfer, ext_ft_resolve_transfer = TinyResolveTransfer\<rparr>"

definition st_ft_core :: "'m tiny_ops \<Rightarrow> 'm tiny_core" where
  "st_ft_core L =
     \<lparr>core_ft_transfer = st_ft_transfer L,
      core_ft_transfer_call = st_ft_transfer_call L,
      core_ft_total_supply = st_ft_total_supply,
      core_ft_balance_of = st_ft_balance_of L\<rparr>"

definition pg_ft_core :: "'m tiny_ops \<Rightarrow> 'm tiny_core" where
  "pg_ft_core L =
     \<lparr>core_ft_transfer = pg_ft_transfer L,
      core_ft_transfer_call = pg_ft_transfer_call L,
      core_ft_total_supply = pg_ft_total_supply,
      core_ft_balance_of = pg_ft_balance_of L\<rparr>"

definition ur_ft_core :: "'m tiny_ops \<Rightarrow> 'm tiny_core" where
  "ur_ft_core L =
     \<lparr>core_ft_transfer = ur_ft_transfer L,
      core_ft_transfer_call = ur_ft_transfer_call L,
      core_ft_total_supply = ur_ft_total_supply,
      core_ft_balance_of = ur_ft_balance_of L\<rparr>"

text \<open>
  The three crates declare \<open>ft_resolve_transfer\<close> in a trait, to build calls with, and implement it
  nowhere: the call to themselves that \<open>ft_transfer_call\<close> attaches fails, as every call to a method
  that a contract does not export.
\<close>

definition no_ft_resolver ::
    "('m TinyToken, TinyLog, TinyCall, TinyError) FungibleTokenResolver" where
  "no_ft_resolver =
     \<lparr>resolver_ft_resolve_transfer = (\<lambda>e c h sender_id receiver_id amount. Inl HostError)\<rparr>"

definition tiny_balances :: "'m tiny_ops \<Rightarrow> 'm TinyToken account_view" where
  "tiny_balances L c = lm_get L (tiny_accounts c)"

lemma tiny_core_simps [simp]:
  "core_ft_transfer (st_ft_core L) = st_ft_transfer L"
  "core_ft_transfer_call (st_ft_core L) = st_ft_transfer_call L"
  "core_ft_total_supply (st_ft_core L) = tiny_total_supply"
  "core_ft_balance_of (st_ft_core L) = st_ft_balance_of L"
  "core_ft_transfer (pg_ft_core L) = pg_ft_transfer L"
  "core_ft_transfer_call (pg_ft_core L) = pg_ft_transfer_call L"
  "core_ft_total_supply (pg_ft_core L) = tiny_total_supply"
  "core_ft_balance_of (pg_ft_core L) = pg_ft_balance_of L"
  "core_ft_transfer (ur_ft_core L) = ur_ft_transfer L"
  "core_ft_transfer_call (ur_ft_core L) = ur_ft_transfer_call L"
  "core_ft_total_supply (ur_ft_core L) = tiny_total_supply"
  "core_ft_balance_of (ur_ft_core L) = ur_ft_balance_of L"
  "ext_ft_on_transfer tiny_ft_ext = TinyOnTransfer"
  "ext_ft_resolve_transfer tiny_ft_ext = TinyResolveTransfer"
  by (simp_all add: st_ft_core_def pg_ft_core_def ur_ft_core_def tiny_ft_ext_def fun_eq_iff
      st_ft_total_supply_def pg_ft_total_supply_def ur_ft_total_supply_def)

subsection \<open>The report\<close>

text \<open>A token in which Alice holds 100 and Bob 5.\<close>

definition two_accounts :: "'m tiny_ops \<Rightarrow> 'm TinyToken" where
  "two_accounts L =
     \<lparr>tiny_accounts = fst (lm_insert L (fst (lm_insert L (lm_new L []) ''alice'' 100)) ''bob'' 5),
      tiny_total_supply = 105\<rparr>"

context tiny_store
begin

lemma held_tiny: "held (tiny_balances L) c a = unat (unwrap_or 0 (bal c a))"
  by (simp add: held_def tiny_balances_def)

lemma unwrap_or_none: "unwrap_or 0 (or_none b) = b"
  by (simp add: or_none_def)

lemma moved_amount_moved:
  assumes "bal c s = Some b" and "d = unwrap_or 0 (((bal c)(s := or_none (b - x))) r)"
    and "x \<le> b" and "unat d + unat x < 2 ^ 128"
  shows "amount_moved (held (tiny_balances L) c) s r (unat x)
     (held (tiny_balances L) (moved c s r b d x))"
  using assms
  by (auto simp: amount_moved_def held_tiny bal_moved unwrap_or_none word_le_nat_alt unat_sub_exact
      unat_add_u128)

lemma moved_ok:
  assumes "tiny_ok L c" and "bal c s = Some b"
    and "d = unwrap_or 0 (((bal c)(s := or_none (b - x))) r)"
    and "x \<le> b" and "x \<le> tiny_total_supply c" and "unat d + unat x < 2 ^ 128"
  shows "tiny_ok L (moved c s r b d x)"
proof -
  obtain c1 where c1: "tiny_debit L c s b x = Inr c1" "tiny_credit L c1 r d x = Inr (moved c s r b d x)"
    using debit_credit_iff [of c s b x r d "moved c s r b d x"] assms(4-6) by blast
  show ?thesis
    using tiny_credit_ok [OF tiny_debit_ok [OF assms(1,2) c1(1)] _ c1(2)]
      bal_after_debit [OF c1(1)] assms(3) by simp
qed

text \<open>A token whose sends are these moves keeps the books and moves the amount.\<close>

lemma tiny_transfers:
  assumes "core_ft_total_supply M = tiny_total_supply"
    and "\<And>e c h r x c' h'. ft_sends M e c h r x c' h' \<Longrightarrow>
      \<exists>b d. bal c (predecessor_account_id e) = Some b \<and>
        d = unwrap_or 0 (((bal c)(predecessor_account_id e := or_none (b - x))) r) \<and> x \<le> b \<and>
        x \<le> tiny_total_supply c \<and> unat d + unat x < 2 ^ 128 \<and>
        c' = moved c (predecessor_account_id e) r b d x"
  shows "transfers_the_amount M (tiny_balances L) (tiny_ok L)"
  unfolding transfers_the_amount_def assms(1)
  using moved_ok moved_amount_moved assms(2) supply_moved by metis

lemma tiny_room:
  assumes "tiny_ok L c" and "s \<noteq> r" and "bal c s = Some b" and "bal c r = Some d" and "x \<le> b"
  shows "x \<le> tiny_total_supply c" and "unat d + unat x < 2 ^ 128"
proof -
  have x: "unat x \<le> unat b" using assms(5) by (simp add: word_le_nat_alt)
  then show "x \<le> tiny_total_supply c"
    using tiny_ok_le_supply [OF assms(1,3)] by (simp add: word_le_nat_alt)
  show "unat d + unat x < 2 ^ 128"
    using tiny_ok_two_le_supply [OF assms(1,3,4,2)] x u128_less_pow [of "tiny_total_supply c"]
    by linarith
qed

lemma st_sends:
  assumes "ft_sends (st_ft_core L) e c h r x c' h'"
  shows "attached_deposit e = 1 \<and> 0 < x \<and>
     (\<exists>b d. bal c (predecessor_account_id e) = Some b \<and>
        ((bal c)(predecessor_account_id e := or_none (b - x))) r = Some d \<and> x \<le> b \<and>
        x \<le> tiny_total_supply c \<and> unat d + unat x < 2 ^ 128 \<and>
        c' = moved c (predecessor_account_id e) r b d x)"
  using assms
  by (auto simp: ft_sends_def st_ft_transfer_def st_ft_transfer_call_def result_simps Let_def
      st_internal_transfer_iff)

lemma pg_sends:
  assumes "ft_sends (pg_ft_core L) e c h r x c' h'"
  shows "attached_deposit e = 1 \<and> 0 < x \<and> predecessor_account_id e \<noteq> r \<and>
     (\<exists>b d. bal c (predecessor_account_id e) = Some b \<and> bal c r = Some d \<and> x \<le> b \<and>
        x \<le> tiny_total_supply c \<and> unat d + unat x < 2 ^ 128 \<and>
        c' = moved c (predecessor_account_id e) r b d x)"
  using assms
  by (auto simp: ft_sends_def pg_ft_transfer_def pg_ft_transfer_call_def result_simps Let_def
      pg_internal_transfer_iff [OF lookup_map_axioms] moved_def)

lemma ur_sends:
  assumes "ft_sends (ur_ft_core L) e c h r x c' h'"
  shows "attached_deposit e = 1 \<and> 0 < x \<and> predecessor_account_id e \<noteq> r \<and>
     (\<exists>b d. bal c (predecessor_account_id e) = Some b \<and> d = unwrap_or 0 (bal c r) \<and> x \<le> b \<and>
        x \<le> tiny_total_supply c \<and> unat d + unat x < 2 ^ 128 \<and>
        c' = moved c (predecessor_account_id e) r b d x)"
  using assms
  by (auto simp: ft_sends_def ur_ft_transfer_def ur_ft_transfer_call_def result_simps Let_def
      ur_internal_transfer_iff)

lemma balances_unanswered: 
  assumes "\<And>c a. core_ft_balance_of M c a = unwrap_or_panic p (bal c a)"
  shows "\<not> balance_of_answers M (tiny_balances L)"
proof
  assume "balance_of_answers M (tiny_balances L)"
  then have "core_ft_balance_of M (tiny_default L []) [] =
      Inr (unwrap_or 0 (tiny_balances L (tiny_default L []) []))"
    by (simp add: balance_of_answers_def)
  then show False by (simp add: assms tiny_default_def get_new)
qed

lemma remaining_gas: "k < g \<Longrightarrow> (sub_op checks g k :: Gas tiny_result) = Inr (g - k)"
  by (rule sub_op_exact) (simp add: word_less_nat_alt)

text \<open>Where the three crates agree: one yoctoNEAR, a positive amount, the balances moved.\<close>

lemma tiny_guards:
  "wants_one_yocto (st_ft_core L)" "wants_one_yocto (pg_ft_core L)" "wants_one_yocto (ur_ft_core L)"
  "wants_positive_amount (st_ft_core L)" "wants_positive_amount (pg_ft_core L)"
  "wants_positive_amount (ur_ft_core L)"
  unfolding wants_one_yocto_def wants_positive_amount_def
  by (blast dest: st_sends pg_sends ur_sends)+

lemma tiny_moves:
  "transfers_the_amount (st_ft_core L) (tiny_balances L) (tiny_ok L)"
  "transfers_the_amount (pg_ft_core L) (tiny_balances L) (tiny_ok L)"
  "transfers_the_amount (ur_ft_core L) (tiny_balances L) (tiny_ok L)"
proof -
  show "transfers_the_amount (st_ft_core L) (tiny_balances L) (tiny_ok L)"
    by (rule tiny_transfers, simp) (drule st_sends, fastforce)
  show "transfers_the_amount (pg_ft_core L) (tiny_balances L) (tiny_ok L)"
    by (rule tiny_transfers, simp) (drule pg_sends, fastforce)
  show "transfers_the_amount (ur_ft_core L) (tiny_balances L) (tiny_ok L)"
    by (rule tiny_transfers, simp) (drule ur_sends, fastforce)
qed

lemma tiny_serves:
  "serves_transfers (st_ft_core L) (tiny_balances L) (tiny_ok L)"
  "serves_transfers (pg_ft_core L) (tiny_balances L) (tiny_ok L)"
  "serves_transfers (ur_ft_core L) (tiny_balances L) (tiny_ok L)"
  using tiny_room
  by (auto simp: serves_transfers_def held_tiny tiny_balances_def returns_def st_ft_transfer_def
      pg_ft_transfer_def ur_ft_transfer_def assert_one_yocto_def st_internal_transfer_iff
      pg_internal_transfer_iff [OF lookup_map_axioms] ur_internal_transfer_iff word_le_nat_alt)

lemma tiny_calls_nobody:
  "transfer_calls_nobody (st_ft_core L)" "transfer_calls_nobody (pg_ft_core L)"
  "transfer_calls_nobody (ur_ft_core L)"
  by (auto simp: transfer_calls_nobody_def st_ft_transfer_def pg_ft_transfer_def ur_ft_transfer_def
      result_simps st_internal_transfer_iff pg_internal_transfer_iff [OF lookup_map_axioms]
      ur_internal_transfer_iff)

lemma tiny_calls:
  "calls_receiver_and_resolver (st_ft_core L) tiny_ft_ext"
  "calls_receiver_and_resolver (pg_ft_core L) tiny_ft_ext"
  "calls_receiver_and_resolver (ur_ft_core L) tiny_ft_ext"
  by (auto simp: calls_receiver_and_resolver_def st_ft_transfer_call_def pg_ft_transfer_call_def
      ur_ft_transfer_call_def result_simps Let_def st_internal_transfer_iff
      pg_internal_transfer_iff [OF lookup_map_axioms] ur_internal_transfer_iff tiny_call_promise_def)

lemma checked_gas:
  "passes_remaining_gas (st_ft_core L) checks TINY_GAS_FOR_FT_TRANSFER_CALL"
  "passes_remaining_gas (ur_ft_core L) checks TINY_GAS_FOR_FT_TRANSFER_CALL"
  "passes_remaining_gas (pg_ft_core L) True TINY_GAS_FOR_FT_TRANSFER_CALL"
proof -
  show "passes_remaining_gas (st_ft_core L) checks TINY_GAS_FOR_FT_TRANSFER_CALL"
    by (auto simp: passes_remaining_gas_def st_ft_transfer_call_def result_simps Let_def
        st_internal_transfer_iff tiny_call_promise_def remaining_gas unat_sub_exact word_less_nat_alt)
  show "passes_remaining_gas (ur_ft_core L) checks TINY_GAS_FOR_FT_TRANSFER_CALL"
    by (auto simp: passes_remaining_gas_def ur_ft_transfer_call_def result_simps Let_def
        ur_internal_transfer_iff tiny_call_promise_def remaining_gas unat_sub_exact word_less_nat_alt)
  show "passes_remaining_gas (pg_ft_core L) True TINY_GAS_FOR_FT_TRANSFER_CALL"
    by (auto simp: passes_remaining_gas_def pg_ft_transfer_call_def result_simps Let_def
        pg_internal_transfer_iff [OF lookup_map_axioms] tiny_call_promise_def sub_op_checked)
qed

text \<open>Where they do not: two accounts that the collection holds are enough to see it.\<close>

lemma two_accounts_simps [simp]:
  "bal (two_accounts L) = [''alice'' \<mapsto> 100, ''bob'' \<mapsto> 5]" "tiny_total_supply (two_accounts L) = 105"
  by (simp_all add: two_accounts_def map_laws)

lemma unchecked_gas: "\<not> passes_remaining_gas (pg_ft_core L) False reserve"
proof
  assume gas: "passes_remaining_gas (pg_ft_core L) False reserve"
  let ?e = "(tiny_demo_env ''alice'')\<lparr>prepaid_gas := 0, overflow_checks := False\<rparr>"
  let ?g = "0 - TINY_GAS_FOR_FT_TRANSFER_CALL"
  obtain c' h' where run: "pg_internal_transfer L (two_accounts L) no_effects ''alice'' ''bob'' 1 None =
      Inr (c', h')" and "promises h' = []"
    by (auto simp: pg_internal_transfer_iff [OF lookup_map_axioms])
  then have "core_ft_transfer_call (pg_ft_core L) ?e (two_accounts L) no_effects ''bob'' 1 None [] =
      Inr (c', schedule
        (Then (FunctionCall ''bob'' (TinyOnTransfer ''alice'' 1 []) 0 ?g)
          (FunctionCall ''app'' (TinyResolveTransfer ''alice'' ''bob'' 1) 0
             TINY_GAS_FOR_RESOLVE_TRANSFER)) h')"
    by (simp add: pg_ft_transfer_call_def assert_one_yocto_def tiny_demo_env_def Let_def)
  moreover have "overflow_checks ?e = False" by simp
  ultimately have "unat ?g + unat reserve = unat (prepaid_gas ?e)"
    using gas \<open>promises h' = []\<close> unfolding passes_remaining_gas_def by fastforce
  then show False
    by (simp add: TINY_GAS_FOR_FT_TRANSFER_CALL_def TINY_GAS_FOR_RESOLVE_TRANSFER_def)
qed

text \<open>
  A callback to a contract that has no \<open>ft_resolve_transfer\<close> fails, so nothing is refunded.
\<close>

lemma two_accounts_ok: "tiny_ok L (two_accounts L)"
proof -
  have "dom (bal (two_accounts L)) = {''alice'', ''bob''}" by auto
  moreover have "word_sum (bal (two_accounts L)) = 105"
    unfolding word_sum_def calculation by simp
  ultimately show ?thesis unfolding tiny_ok_def by simp
qed

lemma never_refunds: "\<not> refunds_the_unused M no_ft_resolver from_slice b (tiny_ok L)"
proof
  assume "refunds_the_unused M no_ft_resolver from_slice b (tiny_ok L)"
  moreover have "ft_callback ((tiny_demo_env ''app'')\<lparr>attached_deposit := 0, promise_results := [Failed]\<rparr>) Failed"
    by (simp add: ft_callback_def tiny_demo_env_def)
  ultimately have "\<exists>s' h' used. resolver_ft_resolve_transfer no_ft_resolver
      ((tiny_demo_env ''app'')\<lparr>attached_deposit := 0, promise_results := [Failed]\<rparr>) (two_accounts L)
      no_effects ''alice'' ''bob'' 1 = Inr (s', h', used)"
    using two_accounts_ok unfolding refunds_the_unused_def by blast
  then show False by (simp add: no_ft_resolver_def)
qed

lemma tiny_supply_answers:
  "supply_answers (st_ft_core L) (tiny_balances L) (tiny_ok L)"
  "supply_answers (pg_ft_core L) (tiny_balances L) (tiny_ok L)"
  "supply_answers (ur_ft_core L) (tiny_balances L) (tiny_ok L)"
  unfolding supply_answers_def held_word_sum by (simp_all add: tiny_ok_def tiny_balances_def)

lemma tiny_serves_calls:
  "serves_transfer_calls (st_ft_core L) TINY_GAS_FOR_FT_TRANSFER_CALL (tiny_balances L) (tiny_ok L)"
  "serves_transfer_calls (pg_ft_core L) TINY_GAS_FOR_FT_TRANSFER_CALL (tiny_balances L) (tiny_ok L)"
  "serves_transfer_calls (ur_ft_core L) TINY_GAS_FOR_FT_TRANSFER_CALL (tiny_balances L) (tiny_ok L)"
proof -
  show "serves_transfer_calls (st_ft_core L) TINY_GAS_FOR_FT_TRANSFER_CALL (tiny_balances L) (tiny_ok L)"
    unfolding serves_transfer_calls_def tiny_core_simps returns_def
    using tiny_room
    by (auto simp: held_tiny tiny_balances_def st_ft_transfer_call_def assert_one_yocto_def
        remaining_gas st_internal_transfer_iff rbind_eq_Inr word_le_nat_alt Let_def)
  show "serves_transfer_calls (pg_ft_core L) TINY_GAS_FOR_FT_TRANSFER_CALL (tiny_balances L) (tiny_ok L)"
    unfolding serves_transfer_calls_def tiny_core_simps returns_def
    using tiny_room
    by (auto simp: held_tiny tiny_balances_def pg_ft_transfer_call_def assert_one_yocto_def
        remaining_gas pg_internal_transfer_iff [OF lookup_map_axioms] rbind_eq_Inr word_le_nat_alt
        Let_def)
  show "serves_transfer_calls (ur_ft_core L) TINY_GAS_FOR_FT_TRANSFER_CALL (tiny_balances L) (tiny_ok L)"
    unfolding serves_transfer_calls_def tiny_core_simps returns_def
    using tiny_room
    by (auto simp: held_tiny tiny_balances_def ur_ft_transfer_call_def assert_one_yocto_def
        remaining_gas ur_internal_transfer_iff rbind_eq_Inr word_le_nat_alt Let_def)
qed

lemma registered_checks:
  "wants_both_registered (st_ft_core L) (tiny_balances L)"
  "wants_both_registered (pg_ft_core L) (tiny_balances L)"
  "\<not> wants_both_registered (ur_ft_core L) (tiny_balances L)"
proof -
  show "wants_both_registered (st_ft_core L) (tiny_balances L)"
    by (auto simp: wants_both_registered_def tiny_balances_def dest!: st_sends split: if_splits)
  show "wants_both_registered (pg_ft_core L) (tiny_balances L)"
    by (auto simp: wants_both_registered_def tiny_balances_def dest!: pg_sends)
  obtain c' h' where "ur_ft_transfer L (tiny_demo_env ''alice'') (two_accounts L) no_effects ''carol'' 1
      None = Inr (c', h')"
    by (auto simp: ur_ft_transfer_def assert_one_yocto_def ur_internal_transfer_iff)
  then have "ft_sends (ur_ft_core L) (tiny_demo_env ''alice'') (two_accounts L) no_effects ''carol'' 1 c' h'"
    by (auto simp: ft_sends_def)
  moreover have "tiny_balances L (two_accounts L) ''carol'' = None"
    by (simp add: tiny_balances_def)
  ultimately show "\<not> wants_both_registered (ur_ft_core L) (tiny_balances L)"
    unfolding wants_both_registered_def by blast
qed

lemma tiny_balances_unanswered:
  "\<not> balance_of_answers (st_ft_core L) (tiny_balances L)"
  "\<not> balance_of_answers (pg_ft_core L) (tiny_balances L)"
  "\<not> balance_of_answers (ur_ft_core L) (tiny_balances L)"
proof -
  show "\<not> balance_of_answers (st_ft_core L) (tiny_balances L)"
    by (rule balances_unanswered [of _ "Msg InvalidAccountId"]) (simp add: st_ft_balance_of_def)
  show "\<not> balance_of_answers (pg_ft_core L) (tiny_balances L)"
    by (rule balances_unanswered [of _ "Msg InvalidAccountId"]) (simp add: pg_ft_balance_of_def)
  show "\<not> balance_of_answers (ur_ft_core L) (tiny_balances L)"
    by (rule balances_unanswered [of _ "Msg TinyNotRegistered"]) (simp add: ur_ft_balance_of_def)
qed

lemmas tiny_report = tiny_guards tiny_moves tiny_serves tiny_serves_calls never_refunds
  tiny_supply_answers tiny_calls_nobody tiny_calls checked_gas
  unchecked_gas registered_checks tiny_balances_unanswered

end

subsection \<open>Property\<close>

text \<open>C34: the three small tokens against the standard, requirement by requirement.  Each of them
  demands one yoctoNEAR and a positive amount, moves exactly the amount and serves every transfer and
  every transfer call that it should; but none refunds what a receiver leaves unused, because none
  has the method that its transfer call names as callback, and none answers \<open>0\<close> for an account that
  does not exist, as \<open>ft_balance_of\<close> must.  \<open>unregistered-receiver\<close> sends to accounts that are not
  registered.  \<open>prepaid-gas\<close>, which does not compare the prepaid gas with its reserve, still passes
  on exactly the remaining gas as it is built, with \<open>overflow-checks\<close>; only a build without them
  would pass on gas that nobody has.\<close>

theorem small_tokens_against_nep141:
  assumes "lookup_map (L :: 'm tiny_ops)"
  shows "nep141_report (st_ft_core L) no_ft_resolver tiny_ft_ext True TINY_GAS_FOR_FT_TRANSFER_CALL
       from_slice (tiny_balances L) (tiny_ok L) =
     [(''one yocto'', True), (''both registered'', True), (''positive amount'', True),
      (''moves the amount'', True), (''serves transfers'', True), (''serves transfer calls'', True),
      (''calls nobody'', True), (''calls receiver and resolver'', True),
      (''passes remaining gas'', True), (''refunds the unused'', False),
      (''answers the supply'', True), (''answers balances'', False)] \<and>
    nep141_report (pg_ft_core L) no_ft_resolver tiny_ft_ext True TINY_GAS_FOR_FT_TRANSFER_CALL
       from_slice (tiny_balances L) (tiny_ok L) =
     [(''one yocto'', True), (''both registered'', True), (''positive amount'', True),
      (''moves the amount'', True), (''serves transfers'', True), (''serves transfer calls'', True),
      (''calls nobody'', True), (''calls receiver and resolver'', True),
      (''passes remaining gas'', True), (''refunds the unused'', False),
      (''answers the supply'', True), (''answers balances'', False)] \<and>
    \<not> passes_remaining_gas (pg_ft_core L) False TINY_GAS_FOR_FT_TRANSFER_CALL \<and>
    nep141_report (ur_ft_core L) no_ft_resolver tiny_ft_ext True TINY_GAS_FOR_FT_TRANSFER_CALL
       from_slice (tiny_balances L) (tiny_ok L) =
     [(''one yocto'', True), (''both registered'', False), (''positive amount'', True),
      (''moves the amount'', True), (''serves transfers'', True), (''serves transfer calls'', True),
      (''calls nobody'', True), (''calls receiver and resolver'', True),
      (''passes remaining gas'', True), (''refunds the unused'', False),
      (''answers the supply'', True), (''answers balances'', False)]"
proof -
  have "tiny_store L" using assms by (rule tiny_store.intro)
  from tiny_store.tiny_report [OF this] show ?thesis by (simp add: nep141_report_def)
qed

theorem small_tokens_against_nep141_witness:
  "\<not> balance_of_answers (st_ft_core fun_map) (tiny_balances fun_map) \<and>
   wants_both_registered (pg_ft_core fun_map) (tiny_balances fun_map) \<and>
   \<not> wants_both_registered (ur_ft_core fun_map) (tiny_balances fun_map)"
  using small_tokens_against_nep141 [OF fm.lookup_map_axioms, of "\<lambda>v. None"]
  by (simp add: nep141_report_def)

end
