(* ===== verification/StorageStandard.thy ===== *)
theory StorageStandard
  imports FtStorage TransferStandard
begin

section \<open>The standard NEP-145 as the trait states it\<close>

text \<open>
  \<open>storage_management/mod.rs\<close> of \<open>nep-interface\<close>: the trait \<open>StorageManagement\<close> as a record of
  methods, and one definition for each requirement its comments state.  The locale \<open>nep145\<close> has them
  as its assumptions; its lemma is what an account gets from any contract that meets them: whoever
  registers and leaves again has paid nothing.
\<close>

subsection \<open>The trait\<close>

record ('s, 'l, 'c, 'e) StorageManagement =
  sm_storage_deposit ::
    "env \<Rightarrow> 's \<Rightarrow> ('l, 'c) effects \<Rightarrow> AccountId option \<Rightarrow> bool option \<Rightarrow>
     'e panic + 's \<times> ('l, 'c) effects \<times> StorageBalance"
  sm_storage_withdraw ::
    "env \<Rightarrow> 's \<Rightarrow> ('l, 'c) effects \<Rightarrow> u128 option \<Rightarrow>
     'e panic + 's \<times> ('l, 'c) effects \<times> StorageBalance"
  sm_storage_unregister ::
    "env \<Rightarrow> 's \<Rightarrow> ('l, 'c) effects \<Rightarrow> bool option \<Rightarrow> 'e panic + 's \<times> ('l, 'c) effects \<times> bool"
  sm_storage_balance_bounds :: "env \<Rightarrow> 's \<Rightarrow> 'e panic + StorageBalanceBounds"
  sm_storage_balance_of :: "env \<Rightarrow> 's \<Rightarrow> AccountId \<Rightarrow> 'e panic + StorageBalance option"

subsection \<open>The requirements\<close>

text \<open>
  As in \<open>TransferStandard\<close>, \<open>bal\<close> shows the registered accounts and their token holdings.  The
  condition \<open>ok\<close> is the invariant of the implementation together with the condition that the price
  of an account fits into a balance, so it depends on the environment too.
\<close>

type_synonym 's storage_ok = "env \<Rightarrow> 's \<Rightarrow> bool"

text \<open>
  ``MUST refund above the minimum balance if the account didn't exist and refund full deposit if the
  account exists'', and the account is registered; a new one holds nothing.
\<close>

definition deposit_refunds_excess ::
    "('s, 'l, 'c, 'e) StorageManagement \<Rightarrow> 's account_view \<Rightarrow> 's storage_ok \<Rightarrow> bool" where
  "deposit_refunds_excess M bal ok \<longleftrightarrow>
     (\<forall>e s h a s' h' sb bounds. ok e s \<longrightarrow> sm_storage_balance_bounds M e s = Inr bounds \<longrightarrow>
        sm_storage_deposit M e s h a (Some True) = Inr (s', h', sb) \<longrightarrow>
        ok e s' \<and>
        bal s' = (let acc = unwrap_or (predecessor_account_id e) a in
                  if bal s acc = None then (bal s)(acc \<mapsto> 0) else bal s) \<and>
        total_paid_to (predecessor_account_id e) h' +
          (if bal s (unwrap_or (predecessor_account_id e) a) = None then unat (bounds_min bounds) else 0) =
        total_paid_to (predecessor_account_id e) h + unat (attached_deposit e))"

text \<open>A deposit of the minimum balance is enough.\<close>

definition deposit_accepts_minimum ::
    "('s, 'l, 'c, 'e) StorageManagement \<Rightarrow> 's storage_ok \<Rightarrow> bool" where
  "deposit_accepts_minimum M ok \<longleftrightarrow>
     (\<forall>e s h a ro bounds. ok e s \<longrightarrow> sm_storage_balance_bounds M e s = Inr bounds \<longrightarrow>
        bounds_min bounds \<le> attached_deposit e \<longrightarrow> returns (sm_storage_deposit M e s h a ro))"

text \<open>``MUST require exactly 1 yoctoNEAR attached balance'', for both methods that say so.\<close>

definition storage_wants_one_yocto :: "('s, 'l, 'c, 'e) StorageManagement \<Rightarrow> bool" where
  "storage_wants_one_yocto M \<longleftrightarrow>
     (\<forall>e s h amount force. attached_deposit e \<noteq> 1 \<longrightarrow>
        \<not> returns (sm_storage_withdraw M e s h amount) \<and>
        \<not> returns (sm_storage_unregister M e s h force))"

text \<open>``If predecessor account not registered, contract MUST panic.''\<close>

definition withdraw_wants_registration ::
    "('s, 'l, 'c, 'e) StorageManagement \<Rightarrow> 's account_view \<Rightarrow> bool" where
  "withdraw_wants_registration M bal \<longleftrightarrow>
     (\<forall>e s h amount. bal s (predecessor_account_id e) = None \<longrightarrow>
        \<not> returns (sm_storage_withdraw M e s h amount))"

text \<open>
  ``If omitted, contract MUST refund full \<open>available\<close> balance.  If \<open>amount\<close> exceeds predecessor
  account's available balance, contract MUST panic.''
\<close>

definition withdraws_available ::
    "('s, 'l, 'c, 'e) StorageManagement \<Rightarrow> 's account_view \<Rightarrow> 's storage_ok \<Rightarrow> bool" where
  "withdraws_available M bal ok \<longleftrightarrow>
     (\<forall>e s h amount b. ok e s \<longrightarrow> attached_deposit e = 1 \<longrightarrow>
        sm_storage_balance_of M e s (predecessor_account_id e) = Inr (Some b) \<longrightarrow>
        (sb_available b < unwrap_or 0 amount \<longrightarrow> \<not> returns (sm_storage_withdraw M e s h amount)) \<and>
        (unwrap_or 0 amount \<le> sb_available b \<longrightarrow>
          (\<exists>s' h' b'. sm_storage_withdraw M e s h amount = Inr (s', h', b') \<and>
             total_paid_to (predecessor_account_id e) h' =
               total_paid_to (predecessor_account_id e) h +
               unat (unwrap_or (sb_available b) amount))))"

text \<open>``It MUST NOT remove data.''\<close>

definition withdraw_keeps_data ::
    "('s, 'l, 'c, 'e) StorageManagement \<Rightarrow> 's account_view \<Rightarrow> bool" where
  "withdraw_keeps_data M bal \<longleftrightarrow>
     (\<forall>e s h amount s' h' b. sm_storage_withdraw M e s h amount = Inr (s', h', b) \<longrightarrow>
        bal s' = bal s)"

text \<open>
  ``If the predecessor account is not registered, the function MUST return \<open>false\<close> without panic.''
\<close>

definition unregister_unknown_is_false ::
    "('s, 'l, 'c, 'e) StorageManagement \<Rightarrow> 's account_view \<Rightarrow> bool" where
  "unregister_unknown_is_false M bal \<longleftrightarrow>
     (\<forall>e s h force. bal s (predecessor_account_id e) = None \<longrightarrow> attached_deposit e = 1 \<longrightarrow>
        (\<exists>h'. sm_storage_unregister M e s h force = Inr (s, h', False) \<and> promises h' = promises h))"

text \<open>
  ``If \<open>force=true\<close> the function SHOULD ignore account balances (burn them) and close the account.
  Otherwise, MUST panic if caller has a positive registered balance.''
\<close>

definition unregister_refuses_balance ::
    "('s, 'l, 'c, 'e) StorageManagement \<Rightarrow> 's account_view \<Rightarrow> bool" where
  "unregister_refuses_balance M bal \<longleftrightarrow>
     (\<forall>e s h force b. bal s (predecessor_account_id e) = Some b \<longrightarrow> 0 < b \<longrightarrow> force \<noteq> Some True \<longrightarrow>
        \<not> returns (sm_storage_unregister M e s h force))"

text \<open>
  ``Unregisters the predecessor account and returns the storage NEAR deposit back'', with the attached
  yoctoNEAR.
\<close>

definition unregister_closes ::
    "('s, 'l, 'c, 'e) StorageManagement \<Rightarrow> 's account_view \<Rightarrow> 's storage_ok \<Rightarrow> bool" where
  "unregister_closes M bal ok \<longleftrightarrow>
     (\<forall>e s h force b bounds. ok e s \<longrightarrow> attached_deposit e = 1 \<longrightarrow>
        sm_storage_balance_bounds M e s = Inr bounds \<longrightarrow>
        bal s (predecessor_account_id e) = Some b \<longrightarrow> b = 0 \<or> force = Some True \<longrightarrow>
        (\<exists>s' h'. sm_storage_unregister M e s h force = Inr (s', h', True) \<and> ok e s' \<and>
           bal s' = (bal s)(predecessor_account_id e := None) \<and>
           total_paid_to (predecessor_account_id e) h' =
             total_paid_to (predecessor_account_id e) h + unat (bounds_min bounds) + 1))"

text \<open>The bounds can be asked for, and do not change while accounts come and go.\<close>

definition bounds_answered ::
    "('s, 'l, 'c, 'e) StorageManagement \<Rightarrow> 's storage_ok \<Rightarrow> bool" where
  "bounds_answered M ok \<longleftrightarrow>
     (\<forall>e s h a ro s' h' sb. ok e s \<longrightarrow> returns (sm_storage_balance_bounds M e s) \<and>
        (sm_storage_deposit M e s h a ro = Inr (s', h', sb) \<longrightarrow>
           sm_storage_balance_bounds M e s' = sm_storage_balance_bounds M e s))"

definition nep145_report ::
    "('s, 'l, 'c, 'e) StorageManagement \<Rightarrow> 's account_view \<Rightarrow> 's storage_ok \<Rightarrow> (string \<times> bool) list" where
  "nep145_report M bal ok =
     [(''deposit refunds the excess'', deposit_refunds_excess M bal ok),
      (''deposit accepts the minimum'', deposit_accepts_minimum M ok),
      (''one yocto'', storage_wants_one_yocto M),
      (''withdraw wants registration'', withdraw_wants_registration M bal),
      (''withdraws what is available'', withdraws_available M bal ok),
      (''withdraw keeps data'', withdraw_keeps_data M bal),
      (''unregister unknown is false'', unregister_unknown_is_false M bal),
      (''unregister refuses a balance'', unregister_refuses_balance M bal),
      (''unregister closes'', unregister_closes M bal ok),
      (''bounds answered'', bounds_answered M ok)]"

subsection \<open>The contract between a token and its accounts\<close>

locale nep145 =
  fixes M :: "('s, 'l, 'c, 'e) StorageManagement" and bal :: "'s account_view"
    and ok :: "'s storage_ok"
  assumes refunds_excess: "deposit_refunds_excess M bal ok"
    and accepts_minimum: "deposit_accepts_minimum M ok"
    and one_yocto: "storage_wants_one_yocto M"
    and wants_registration: "withdraw_wants_registration M bal"
    and pays_available: "withdraws_available M bal ok"
    and keeps_data: "withdraw_keeps_data M bal"
    and unknown_is_false: "unregister_unknown_is_false M bal"
    and refuses_balance: "unregister_refuses_balance M bal"
    and closes: "unregister_closes M bal ok"
    and answered: "bounds_answered M ok"
begin

text \<open>
  An account that registers itself with any sufficient deposit and leaves again, in an environment
  with the same prices, is paid everything back, and the accounts are what they were.
\<close>

lemma register_then_leave:
  assumes "ok e s" and "sm_storage_balance_bounds M e s = Inr bounds"
    and "bal s (predecessor_account_id e) = None" and "bounds_min bounds \<le> attached_deposit e"
    and "predecessor_account_id e' = predecessor_account_id e" and "attached_deposit e' = 1"
    and same: "\<And>s. ok e s \<Longrightarrow> ok e' s"
      "\<And>s. sm_storage_balance_bounds M e' s = sm_storage_balance_bounds M e s"
  shows "\<exists>s1 h1 sb s2 h2. sm_storage_deposit M e s no_effects None (Some True) = Inr (s1, h1, sb) \<and>
     sm_storage_unregister M e' s1 no_effects force = Inr (s2, h2, True) \<and>
     bal s2 = bal s \<and>
     total_paid_to (predecessor_account_id e) h1 + total_paid_to (predecessor_account_id e) h2 =
       unat (attached_deposit e) + unat (attached_deposit e')"
proof -
  have "returns (sm_storage_deposit M e s no_effects None (Some True))"
    using accepts_minimum assms(1,2,4) unfolding deposit_accepts_minimum_def by blast
  then obtain s1 h1 sb where dep: "sm_storage_deposit M e s no_effects None (Some True) = Inr (s1, h1, sb)"
    by (auto simp: returns_def)
  with refunds_excess assms(1,2) have "ok e s1"
    and s1: "bal s1 = (bal s)(predecessor_account_id e \<mapsto> 0)"
    and paid: "total_paid_to (predecessor_account_id e) h1 + unat (bounds_min bounds) =
      unat (attached_deposit e)"
    using assms(3) unfolding deposit_refunds_excess_def by (fastforce simp: Let_def)+
  have b1: "sm_storage_balance_bounds M e' s1 = Inr bounds"
    using answered dep assms(1,2) unfolding bounds_answered_def same(2) by metis
  have "bal s1 (predecessor_account_id e') = Some 0" by (simp add: s1 assms(5))
  from closes [unfolded unregister_closes_def, rule_format, OF same(1) [OF \<open>ok e s1\<close>] assms(6) b1
      this, of force no_effects]
  obtain s2 h2 where
    "sm_storage_unregister M e' s1 no_effects force = Inr (s2, h2, True)"
    "bal s2 = (bal s1)(predecessor_account_id e' := None)"
    "total_paid_to (predecessor_account_id e') h2 =
       total_paid_to (predecessor_account_id e') (no_effects :: ('l, 'c) effects) +
       unat (bounds_min bounds) + 1"
    by auto
  moreover have "(bal s)(predecessor_account_id e := None) = bal s"
    using assms(3) by (auto simp: fun_eq_iff)
  ultimately show ?thesis using dep s1 paid assms(5,6) by fastforce
qed

end

end
