(* ===== verification/StorageFee.thy ===== *)
theory StorageFee
  imports FtProperties
begin

section \<open>Storage management that never asks about the balance\<close>

text \<open>
  The crate \<open>unclaimed-storage-fee\<close>: storage management (NEP-145) over a map of balances, whose
  \<open>storage_unregister\<close> neither looks at the balance nor at \<open>force\<close>.  The state is that of the
  fungible token of \<open>nep-interface\<close>; the methods are the crate's own.  The lemmas compare each of
  them with the standard's, and the theorem says what becomes of a balance.
\<close>

subsection \<open>Operations\<close>

text \<open>A new contract measures nothing and charges for zero bytes.\<close>

text \<open>The struct has the fields of the token of \<open>nep-interface\<close>.\<close>

type_synonym 'm unclaimed_Contract = "'m FungibleToken"

definition unclaimed_new :: "'m balances_ops \<Rightarrow> env \<Rightarrow> bytes \<Rightarrow> 'm unclaimed_Contract ft_result" where
  "unclaimed_new L e key =
     rbind (assert_not_payable e) (\<lambda>_.
     Inr \<lparr>accounts = lm_new L key, total_supply = 0, account_storage_usage = 0\<rparr>)"

definition unclaimed_storage_balance_bounds ::
    "env \<Rightarrow> 'm unclaimed_Contract \<Rightarrow> StorageBalanceBounds ft_result" where
  "unclaimed_storage_balance_bounds e t =
     rbind (mul_op (overflow_checks e) (ucast (account_storage_usage t)) (storage_byte_cost e))
       (\<lambda>required_storage_balance.
     Inr \<lparr>bounds_min = required_storage_balance, bounds_max = Some required_storage_balance\<rparr>)"

definition unclaimed_internal_storage_balance_of ::
    "'m balances_ops \<Rightarrow> env \<Rightarrow> 'm unclaimed_Contract \<Rightarrow> AccountId \<Rightarrow> StorageBalance option ft_result" where
  "unclaimed_internal_storage_balance_of L e t account_id =
     (if lm_contains_key L (accounts t) account_id
      then rbind (unclaimed_storage_balance_bounds e t) (\<lambda>bounds.
             Inr (Some \<lparr>sb_total = bounds_min bounds, sb_available = 0\<rparr>))
      else Inr None)"

definition unclaimed_storage_balance_of ::
    "'m balances_ops \<Rightarrow> env \<Rightarrow> 'm unclaimed_Contract \<Rightarrow> AccountId \<Rightarrow> StorageBalance option ft_result" where
  "unclaimed_storage_balance_of L e t account_id =
     unclaimed_internal_storage_balance_of L e t account_id"

definition unclaimed_storage_deposit ::
    "'m balances_ops \<Rightarrow> env \<Rightarrow> 'm unclaimed_Contract \<Rightarrow> ft_effects \<Rightarrow> AccountId option \<Rightarrow> bool option \<Rightarrow>
     ('m unclaimed_Contract \<times> ft_effects \<times> StorageBalance) ft_result" where
  "unclaimed_storage_deposit L e t h account_id registration_only =
     (let amount = attached_deposit e;
          account_id = unwrap_or (predecessor_account_id e) account_id in
      rbind
        (if lm_contains_key L (accounts t) account_id then
           (let h1 = log (TextLog ''The account is already registered, refunding the deposit'') h
            in Inr (t, if 0 < amount
                       then schedule (Transfer (predecessor_account_id e) amount) h1 else h1))
         else
           rbind (unclaimed_storage_balance_bounds e t) (\<lambda>bounds.
           let min_balance = bounds_min bounds in
           if amount < min_balance then Inl (Msg DepositTooSmall)
           else
             (let (m, old) = lm_insert L (accounts t) account_id 0 in
              if old \<noteq> None then Inl (Msg AlreadyRegistered)
              else
                rbind (sub_op (overflow_checks e) amount min_balance) (\<lambda>refund.
                Inr (t\<lparr>accounts := m\<rparr>,
                     if 0 < refund
                     then schedule (Transfer (predecessor_account_id e) refund) h else h)))))
        (\<lambda>(t1, h1).
      rbind (unclaimed_internal_storage_balance_of L e t1 account_id) (\<lambda>sb.
      rbind (unwrap_or_panic UnwrapNone sb) (\<lambda>storage_balance.
      Inr (t1, h1, storage_balance)))))"

definition unclaimed_storage_withdraw ::
    "'m balances_ops \<Rightarrow> env \<Rightarrow> 'm unclaimed_Contract \<Rightarrow> u128 option \<Rightarrow> StorageBalance ft_result" where
  "unclaimed_storage_withdraw L e t amount =
     rbind (assert_one_yocto e) (\<lambda>_.
     let predecessor = predecessor_account_id e in
     rbind (unclaimed_internal_storage_balance_of L e t predecessor) (\<lambda>sb.
     case sb of
       Some storage_balance \<Rightarrow>
         (case amount of
            Some a \<Rightarrow> if 0 < a then Inl (Msg AmountExceedsAvailable) else Inr storage_balance
          | None \<Rightarrow> Inr storage_balance)
     | None \<Rightarrow> Inl (Msg (NotRegistered predecessor))))"

text \<open>Unregistering does not look at the balance, and \<open>force\<close> is not used.\<close>

definition unclaimed_storage_unregister ::
    "'m balances_ops \<Rightarrow> env \<Rightarrow> 'm unclaimed_Contract \<Rightarrow> ft_effects \<Rightarrow> bool option \<Rightarrow>
     ('m unclaimed_Contract \<times> ft_effects \<times> bool) ft_result" where
  "unclaimed_storage_unregister L e t h force =
     rbind (assert_one_yocto e) (\<lambda>_.
     let account_id = predecessor_account_id e in
     case lm_get L (accounts t) account_id of
       Some balance \<Rightarrow>
         (let t1 = t\<lparr>accounts := fst (lm_remove L (accounts t) account_id)\<rparr> in
          rbind (sub_op (overflow_checks e) (total_supply t1) balance) (\<lambda>s.
          let t2 = t1\<lparr>total_supply := s\<rparr> in
          rbind (unclaimed_storage_balance_bounds e t2) (\<lambda>bounds.
          rbind (add_op (overflow_checks e) (bounds_min bounds) 1) (\<lambda>back.
          Inr (t2, schedule (Transfer account_id back) h, True)))))
     | None \<Rightarrow>
         Inr (t, log (TextLog (''The account '' @ account_id @ '' is not registered'')) h, False))"

subsection \<open>Comparison with the standard\<close>

lemma rbind_register_account:
  "rbind (ft_internal_register_account L t a) f =
     (let (m, old) = lm_insert L (accounts t) a 0
      in if old \<noteq> None then Inl (Msg AlreadyRegistered) else f (t\<lparr>accounts := m\<rparr>))"
  by (simp add: ft_internal_register_account_def case_prod_beta)

lemma unclaimed_bounds_eq: "unclaimed_storage_balance_bounds = ft_storage_balance_bounds"
  by (simp add: fun_eq_iff unclaimed_storage_balance_bounds_def ft_storage_balance_bounds_def)

lemma unclaimed_internal_eq:
  "unclaimed_internal_storage_balance_of = ft_internal_storage_balance_of"
  unfolding unclaimed_internal_storage_balance_of_def ft_internal_storage_balance_of_def
    unclaimed_bounds_eq ..

lemma unclaimed_queries_eq:
  "unclaimed_storage_balance_of L e t a = ft_storage_balance_of L e t a"
  "unclaimed_storage_withdraw L e t amount = ft_storage_withdraw L e t amount"
  by (simp_all add: unclaimed_storage_balance_of_def ft_storage_balance_of_def
      unclaimed_storage_withdraw_def ft_storage_withdraw_def unclaimed_internal_eq)

lemmas unclaimed_eqs = unclaimed_bounds_eq unclaimed_internal_eq unclaimed_queries_eq

lemma unclaimed_is_forced:
  "unclaimed_storage_deposit L e t h a r = ft_storage_deposit L e t h a r"
  "unclaimed_storage_unregister L e t h force = ft_storage_unregister L e t h (Some True)"
proof -
  show "unclaimed_storage_deposit L e t h a r = ft_storage_deposit L e t h a r"
    unfolding unclaimed_storage_deposit_def ft_storage_deposit_def Let_def rbind_register_account
      unclaimed_eqs ..
  show "unclaimed_storage_unregister L e t h force = ft_storage_unregister L e t h (Some True)"
    by (simp add: unclaimed_storage_unregister_def ft_storage_unregister_def unclaimed_eqs
        ft_internal_storage_unregister_def rbind_assoc Let_def split: option.split)
qed

subsection \<open>Property\<close>

text \<open>Unregistering burns what the account holds, unasked.  Every method of the crate is the
  standard's, except that \<open>storage_unregister\<close> is always the forced one.  So a registered caller
  with one yoctoNEAR attached is removed whatever its balance and whatever it passes for \<open>force\<close>;
  its balance leaves the supply, and all it is paid is the storage price and its yoctoNEAR.  The
  standard would have refused, for a positive balance without \<open>force\<close>.\<close>

theorem unregister_burns_unasked:
  assumes "balance_store L" and "ft_supply_ok L t" and "price_fits e t"
    and "attached_deposit e = 1" and "a = predecessor_account_id e"
    and "ft_balances L t a = Some b" and "b \<noteq> 0" and "force \<noteq> Some True"
  shows "(\<exists>t'. unclaimed_storage_unregister L e t h force =
        Inr (t', schedule (Transfer a (price e t + 1)) h, True) \<and>
        ft_balances L t' = (ft_balances L t)(a := None) \<and>
        unat (total_supply t') + unat b = unat (total_supply t) \<and> ft_supply_ok L t') \<and>
     ft_storage_unregister L e t h force = Inl (Msg PositiveBalanceWithoutForce) \<and>
     (\<forall>t h acc ro. unclaimed_storage_deposit L e t h acc ro = ft_storage_deposit L e t h acc ro) \<and>
     (\<forall>t amount. unclaimed_storage_withdraw L e t amount = ft_storage_withdraw L e t amount) \<and>
     (\<forall>t acc. unclaimed_storage_balance_of L e t acc = ft_storage_balance_of L e t acc)"
proof -
  note eq = balance_store.unregister_eq [OF assms(1-4)]
  let ?t' = "t\<lparr>accounts := fst (lm_remove L (accounts t) a), total_supply := total_supply t - b\<rparr>"
  have "unwrap_or False force = False" using assms(8) by (cases force) auto
  then have "ft_storage_unregister L e t h force = Inl (Msg PositiveBalanceWithoutForce)"
    using eq [of h force] assms(5-7) by (simp add: ft_storage_unregister_def Let_def)
  moreover have "unclaimed_storage_unregister L e t h force =
      Inr (?t', schedule (Transfer a (price e t + 1)) h, True)"
    using eq [of h "Some True"] assms(5,6)
    by (simp add: unclaimed_is_forced ft_storage_unregister_def Let_def)
  moreover have "ft_supply_ok L ?t'"
    by (rule balance_store.unregister_supply_ok [OF assms(1,2,6)])
  moreover have "ft_balances L ?t' = (ft_balances L t)(a := None)"
    using assms(1) by (simp add: ft_balances_def balance_store_def lookup_map.get_remove)
  moreover have "unat (total_supply t - b) + unat b = unat (total_supply t)"
    using balance_store.supply_ok_bounds(1) [OF assms(1,2,6)] by (simp add: unat_sub_exact)
  ultimately show ?thesis by (auto simp: unclaimed_is_forced(1) unclaimed_queries_eq)
qed

text \<open>Alice closes her account, without \<open>force\<close>, and 100 tokens are gone.\<close>

theorem unregister_burns_unasked_witness:
  "\<exists>t'. unclaimed_storage_unregister fun_map (demo_env ''alice'' 1 []) demo_token no_effects None =
      Inr (t', schedule (Transfer ''alice'' 1251) no_effects, True) \<and>
    ft_balances fun_map t' = [''bob'' \<mapsto> 0] \<and> total_supply t' = 0"
proof -
  have "price (demo_env ''alice'' 1 []) demo_token = 1250" by (simp add: price_def)
  moreover have "ft_balances fun_map demo_token ''alice'' = Some 100" by simp
  moreover have "(ft_balances fun_map demo_token)(''alice'' := None) = [''bob'' \<mapsto> 0]"
    by (auto simp: fun_eq_iff)
  ultimately show ?thesis
    using unregister_burns_unasked [OF demo_store demo_supply_ok demo_price, of "''alice''" 1 "[]"
        "''alice''" 100 None no_effects]
    by (auto simp: unat_eq_0)
qed

end
