(* ===== verification/StorageConformance.thy ===== *)
theory StorageConformance
  imports StorageStandard StorageFee
begin

section \<open>Which contracts keep to NEP-145\<close>

text \<open>
  The blocks \<open>impl StorageManagement for\<close> of the repository as records of methods: the token of
  \<open>nep-interface\<close> (\<open>fungible_token/storage_impl.rs\<close>), a contract with the macro
  \<open>impl_fungible_token_storage!\<close> and no hook, and the crate \<open>unclaimed-storage-fee\<close>.  The first two
  meet every requirement of \<open>StorageStandard\<close>, and the locale is interpreted on them; the crate
  breaks one.
\<close>

subsection \<open>The implementations\<close>

type_synonym 's nep_storage = "('s, log_line, FtCall, FtError) StorageManagement"

definition nep_storage :: "'m balances_ops \<Rightarrow> 'm FungibleToken nep_storage" where
  "nep_storage L =
     \<lparr>sm_storage_deposit = ft_storage_deposit L,
      sm_storage_withdraw = (\<lambda>e t h amount.
        rbind (ft_storage_withdraw L e t amount) (\<lambda>sb. Inr (t, h, sb))),
      sm_storage_unregister = ft_storage_unregister L,
      sm_storage_balance_bounds = ft_storage_balance_bounds,
      sm_storage_balance_of = ft_storage_balance_of L\<rparr>"

definition contract_storage :: "'m balances_ops \<Rightarrow> ('m, 'r) ft_contract nep_storage" where
  "contract_storage L =
     \<lparr>sm_storage_deposit = contract_storage_deposit L,
      sm_storage_withdraw = (\<lambda>e c h amount.
        rbind (contract_storage_withdraw L e c amount) (\<lambda>sb. Inr (c, h, sb))),
      sm_storage_unregister = contract_storage_unregister None L,
      sm_storage_balance_bounds = contract_storage_balance_bounds,
      sm_storage_balance_of = contract_storage_balance_of L\<rparr>"

definition unclaimed_storage :: "'m balances_ops \<Rightarrow> 'm FungibleToken nep_storage" where
  "unclaimed_storage L =
     \<lparr>sm_storage_deposit = unclaimed_storage_deposit L,
      sm_storage_withdraw = (\<lambda>e t h amount.
        rbind (unclaimed_storage_withdraw L e t amount) (\<lambda>sb. Inr (t, h, sb))),
      sm_storage_unregister = unclaimed_storage_unregister L,
      sm_storage_balance_bounds = unclaimed_storage_balance_bounds,
      sm_storage_balance_of = unclaimed_storage_balance_of L\<rparr>"

lemma nep_storage_simps [simp]:
  "sm_storage_deposit (nep_storage L) = ft_storage_deposit L"
  "sm_storage_withdraw (nep_storage L) e t h amount =
     rbind (ft_storage_withdraw L e t amount) (\<lambda>sb. Inr (t, h, sb))"
  "sm_storage_unregister (nep_storage L) = ft_storage_unregister L"
  "sm_storage_balance_bounds (nep_storage L) = ft_storage_balance_bounds"
  "sm_storage_balance_of (nep_storage L) = ft_storage_balance_of L"
  by (simp_all add: nep_storage_def)

lemma contract_storage_simps [simp]:
  "sm_storage_deposit (contract_storage L) = contract_storage_deposit L"
  "sm_storage_withdraw (contract_storage L) e c h amount =
     rbind (contract_storage_withdraw L e c amount) (\<lambda>sb. Inr (c, h, sb))"
  "sm_storage_unregister (contract_storage L) = contract_storage_unregister None L"
  "sm_storage_balance_bounds (contract_storage L) = contract_storage_balance_bounds"
  "sm_storage_balance_of (contract_storage L) = contract_storage_balance_of L"
  by (simp_all add: contract_storage_def)

text \<open>The crate is the standard's, with unregistering always forced.\<close>

lemma unclaimed_storage_simps [simp]:
  "sm_storage_deposit (unclaimed_storage L) = ft_storage_deposit L"
  "sm_storage_withdraw (unclaimed_storage L) e t h amount =
     rbind (ft_storage_withdraw L e t amount) (\<lambda>sb. Inr (t, h, sb))"
  "sm_storage_unregister (unclaimed_storage L) e t h force =
     ft_storage_unregister L e t h (Some True)"
  "sm_storage_balance_bounds (unclaimed_storage L) = ft_storage_balance_bounds"
  "sm_storage_balance_of (unclaimed_storage L) e t a = ft_storage_balance_of L e t a"
  by (simp_all add: unclaimed_storage_def unclaimed_is_forced unclaimed_eqs fun_eq_iff)

definition ft_storage_ok :: "'m balances_ops \<Rightarrow> 'm FungibleToken storage_ok" where
  "ft_storage_ok L e t \<longleftrightarrow> ft_supply_ok L t \<and> price_fits e t"

subsection \<open>What the methods do\<close>

context balance_store
begin

lemma storage_ok_frame:
  "ft_storage_ok L e t \<Longrightarrow> ft_storage_deposit L e t h a ro = Inr (t', h', sb) \<Longrightarrow>
     ft_storage_ok L e t' \<and> account_storage_usage t' = account_storage_usage t"
  using deposit_storage_supply_ok [of t e h a ro t' h' sb]
  by (auto simp: ft_storage_ok_def ft_storage_deposit_def result_simps Let_def register_iff
      split: if_splits)

lemma storage_bounds: "ft_storage_ok L e t \<Longrightarrow>
    ft_storage_balance_bounds e t = Inr \<lparr>bounds_min = price e t, bounds_max = Some (price e t)\<rparr>"
  by (simp add: ft_storage_ok_def bounds_eq)

lemma storage_bounds_returns: "ft_storage_ok L e t \<Longrightarrow> returns (ft_storage_balance_bounds e t)"
  by (simp add: storage_bounds)

lemma storage_bounds_frame:
  "account_storage_usage t' = account_storage_usage t \<Longrightarrow>
     ft_storage_balance_bounds e t' = ft_storage_balance_bounds e t"
  by (simp add: ft_storage_balance_bounds_def)

lemma storage_withdraw_guards:
  "ft_storage_withdraw L e t amount = Inr sb \<Longrightarrow>
     attached_deposit e = 1 \<and> ft_balances L t (predecessor_account_id e) \<noteq> None"
  by (auto simp: ft_storage_withdraw_def result_simps Let_def ft_balances_def
      ft_internal_storage_balance_of_def contains_key split: if_splits option.splits)

lemma storage_withdraw_pays:
  assumes "ft_storage_ok L e t" and "attached_deposit e = 1"
    and "ft_storage_balance_of L e t (predecessor_account_id e) = Inr (Some b)"
  shows "ft_storage_withdraw L e t amount =
     (if 0 < unwrap_or 0 amount then Inl (Msg AmountExceedsAvailable) else Inr b)"
    and "sb_available b = 0"
  using assms
  by (auto simp: ft_storage_withdraw_def assert_one_yocto_def ft_storage_balance_of_def
      ft_storage_ok_def storage_balance_of_eq split: option.splits if_splits)

lemma storage_unregister_eq:
  assumes "ft_storage_ok L e t" and "attached_deposit e = 1"
    and "ft_balances L t (predecessor_account_id e) = Some b" and "b = 0 \<or> force = Some True"
  shows "\<exists>t'. ft_storage_unregister L e t h force =
      Inr (t', schedule (Transfer (predecessor_account_id e) (price e t + 1)) h, True) \<and>
      ft_storage_ok L e t' \<and> ft_balances L t' = (ft_balances L t)(predecessor_account_id e := None) \<and>
      unat (price e t + 1) = unat (price e t) + 1"
proof -
  have ok: "ft_supply_ok L t" and fits: "price_fits e t" using assms(1) by (simp_all add: ft_storage_ok_def)
  have "unwrap_or False force \<longleftrightarrow> force = Some True" by (cases force) auto
  moreover have "unat (price e t + 1) = unat (price e t) + 1"
    using fits unat_price [OF fits] by (subst unat_add_u128) (auto simp: price_fits_def)
  ultimately show ?thesis
    using unregister_eq [OF ok fits assms(2), of h force] unregister_supply_ok [OF ok assms(3)]
      assms(3,4) fits
    by (auto simp: ft_storage_unregister_def Let_def ft_storage_ok_def) (simp_all add: ft_balances_def map_laws)
qed

lemma storage_deposit_eq:
  assumes "ft_storage_ok L e t"
    and "ft_storage_deposit L e t h a ro = Inr (t', h', sb)"
  shows "ft_balances L t' = (let acc = unwrap_or (predecessor_account_id e) a in
      if ft_balances L t acc = None then (ft_balances L t)(acc \<mapsto> 0) else ft_balances L t) \<and>
    total_paid_to (predecessor_account_id e) h' +
      (if ft_balances L t (unwrap_or (predecessor_account_id e) a) = None then unat (price e t) else 0) =
    total_paid_to (predecessor_account_id e) h + unat (attached_deposit e)"
proof -
  have fits: "price_fits e t" using assms(1) by (simp add: ft_storage_ok_def)
  show ?thesis
  proof (cases "ft_balances L t (unwrap_or (predecessor_account_id e) a)")
    case None
    with deposit_new_eq [OF fits refl None, of h ro] assms(2) have
      "\<not> attached_deposit e < price e t" and
      t': "t' = t\<lparr>accounts := fst (lm_insert L (accounts t) (unwrap_or (predecessor_account_id e) a) 0)\<rparr>"
      and h': "h' = (let refund = attached_deposit e - price e t in
         if 0 < refund then schedule (Transfer (predecessor_account_id e) refund) h else h)"
      by (auto split: if_splits)
    then have "unat (attached_deposit e - price e t) + unat (price e t) = unat (attached_deposit e)"
      by (simp add: unat_sub_exact word_less_nat_alt)
    then show ?thesis using None
      by (auto simp: t' h' balances_insert Let_def word_gt_0)
  next
    case (Some b)
    then have "ft_balances L t (unwrap_or (predecessor_account_id e) a) \<noteq> None" by simp
    from deposit_registered_eq [OF fits refl this, of h ro] assms(2) Some show ?thesis
      by (auto simp: Let_def word_gt_0)
  qed
qed

lemma storage_deposit_returns:
  assumes "ft_storage_ok L e t" and "price e t \<le> attached_deposit e"
  shows "returns (ft_storage_deposit L e t h a ro)"
proof -
  have fits: "price_fits e t" using assms(1) by (simp add: ft_storage_ok_def)
  show ?thesis
    using deposit_new_eq [OF fits refl, of a h ro] deposit_registered_eq [OF fits refl, of a h ro]
      assms(2)
    by (cases "ft_balances L t (unwrap_or (predecessor_account_id e) a)")
      (auto simp: not_less [symmetric])
qed

lemma unregister_guards:
  "attached_deposit e \<noteq> 1 \<Longrightarrow> \<not> returns (ft_storage_unregister L e t h force)"
  "ft_balances L t (predecessor_account_id e) = Some b \<Longrightarrow> 0 < b \<Longrightarrow> force \<noteq> Some True \<Longrightarrow>
     \<not> returns (ft_storage_unregister L e t h force)"
  "ft_balances L t (predecessor_account_id e) = None \<Longrightarrow> attached_deposit e = 1 \<Longrightarrow>
     \<exists>h'. ft_storage_unregister L e t h force = Inr (t, h', False) \<and> promises h' = promises h"
  by (cases force; auto simp: ft_storage_unregister_def ft_internal_storage_unregister_def returns_def
      result_simps assert_one_yocto_def ft_balances_def Let_def split: if_splits)+

subsection \<open>The token and the contract\<close>

lemma nep_storage_requirements:
  "deposit_refunds_excess (nep_storage L) (ft_balances L) (ft_storage_ok L)"
  "deposit_accepts_minimum (nep_storage L) (ft_storage_ok L)"
  "storage_wants_one_yocto (nep_storage L)"
  "withdraw_wants_registration (nep_storage L) (ft_balances L)"
  "withdraws_available (nep_storage L) (ft_balances L) (ft_storage_ok L)"
  "withdraw_keeps_data (nep_storage L) (ft_balances L)"
  "unregister_unknown_is_false (nep_storage L) (ft_balances L)"
  "unregister_refuses_balance (nep_storage L) (ft_balances L)"
  "unregister_closes (nep_storage L) (ft_balances L) (ft_storage_ok L)"
  "bounds_answered (nep_storage L) (ft_storage_ok L)"
proof -
  show "deposit_refunds_excess (nep_storage L) (ft_balances L) (ft_storage_ok L)"
    unfolding deposit_refunds_excess_def nep_storage_simps
    using storage_ok_frame storage_deposit_eq storage_bounds by fastforce
  show "deposit_accepts_minimum (nep_storage L) (ft_storage_ok L)"
    unfolding deposit_accepts_minimum_def nep_storage_simps
    using storage_deposit_returns by (auto simp: storage_bounds)
  show "storage_wants_one_yocto (nep_storage L)"
    unfolding storage_wants_one_yocto_def nep_storage_simps returns_rbind
    using unregister_guards(1) by (auto simp: returns_def dest: storage_withdraw_guards)
  show "withdraw_wants_registration (nep_storage L) (ft_balances L)"
    unfolding withdraw_wants_registration_def nep_storage_simps returns_rbind
    by (auto dest: storage_withdraw_guards)
  show "withdraws_available (nep_storage L) (ft_balances L) (ft_storage_ok L)"
    unfolding withdraws_available_def nep_storage_simps
    by (auto simp: storage_withdraw_pays split: option.splits)
  show "withdraw_keeps_data (nep_storage L) (ft_balances L)"
    by (auto simp: withdraw_keeps_data_def result_simps)
  show "unregister_unknown_is_false (nep_storage L) (ft_balances L)"
    unfolding unregister_unknown_is_false_def nep_storage_simps using unregister_guards(3) by blast
  show "unregister_refuses_balance (nep_storage L) (ft_balances L)"
    unfolding unregister_refuses_balance_def nep_storage_simps using unregister_guards(2) by blast
  show "unregister_closes (nep_storage L) (ft_balances L) (ft_storage_ok L)"
    unfolding unregister_closes_def nep_storage_simps
  proof (intro allI impI)
    fix e :: env and t and h :: ft_effects and force b bounds
    assume a: "ft_storage_ok L e t" "attached_deposit e = 1"
      "ft_balances L t (predecessor_account_id e) = Some b" "b = 0 \<or> force = Some True"
      and "ft_storage_balance_bounds e t = Inr bounds"
    then have "bounds_min bounds = price e t" by (auto simp: storage_bounds)
    with storage_unregister_eq [OF a, of h]
    show "\<exists>t' h'. ft_storage_unregister L e t h force = Inr (t', h', True) \<and> ft_storage_ok L e t' \<and>
        ft_balances L t' = (ft_balances L t)(predecessor_account_id e := None) \<and>
        total_paid_to (predecessor_account_id e) h' =
          total_paid_to (predecessor_account_id e) h + unat (bounds_min bounds) + 1"
      by fastforce
  qed
  show "bounds_answered (nep_storage L) (ft_storage_ok L)"
    unfolding bounds_answered_def nep_storage_simps
  proof (intro allI impI conjI)
    fix e :: env and t h a ro t' h' sb
    assume ok: "ft_storage_ok L e t"
    then show "returns (ft_storage_balance_bounds e t)" by (rule storage_bounds_returns)
    assume "ft_storage_deposit L e t h a ro = Inr (t', h', sb)"
    from storage_ok_frame [OF ok this]
    show "ft_storage_balance_bounds e t' = ft_storage_balance_bounds e t"
      by (intro storage_bounds_frame) blast
  qed
qed

text \<open>The contract is the token, with the rest of its state untouched.\<close>

lemma contract_storage_methods:
  "contract_storage_deposit L e c h a ro =
     rbind (ft_storage_deposit L e (token c) h a ro) (\<lambda>(t, h1, sb). Inr (c\<lparr>token := t\<rparr>, h1, sb))"
  "contract_storage_unregister None L e c h force =
     rbind (ft_storage_unregister L e (token c) h force) (\<lambda>(t, h1, b). Inr (c\<lparr>token := t\<rparr>, h1, b))"
  "contract_storage_withdraw L e c amount = ft_storage_withdraw L e (token c) amount"
  "contract_storage_balance_bounds e c = ft_storage_balance_bounds e (token c)"
  "contract_storage_balance_of L e c acc = ft_storage_balance_of L e (token c) acc"
  by (auto simp: contract_storage_deposit_def contract_storage_unregister_def
      contract_storage_withdraw_def contract_storage_balance_bounds_def
      contract_storage_balance_of_def ft_storage_unregister_def rbind_assoc run_hook_def
      intro!: arg_cong [where f = "rbind _"] split: option.split)

lemma contract_storage_returns:
  "returns (contract_storage_deposit L e c h a ro) \<longleftrightarrow> returns (ft_storage_deposit L e (token c) h a ro)"
  "returns (contract_storage_unregister None L e c h force) \<longleftrightarrow>
     returns (ft_storage_unregister L e (token c) h force)"
  by (auto simp: contract_storage_methods returns_rbind) (auto simp: returns_def)

lemma contract_storage_requirements:
  "deposit_refunds_excess (contract_storage L) (\<lambda>c. ft_balances L (token c))
     (\<lambda>e c. ft_storage_ok L e (token c))"
  "deposit_accepts_minimum (contract_storage L) (\<lambda>e c. ft_storage_ok L e (token c))"
  "storage_wants_one_yocto (contract_storage L)"
  "withdraw_wants_registration (contract_storage L) (\<lambda>c. ft_balances L (token c))"
  "withdraws_available (contract_storage L) (\<lambda>c. ft_balances L (token c))
     (\<lambda>e c. ft_storage_ok L e (token c))"
  "withdraw_keeps_data (contract_storage L) (\<lambda>c. ft_balances L (token c))"
  "unregister_unknown_is_false (contract_storage L) (\<lambda>c. ft_balances L (token c))"
  "unregister_refuses_balance (contract_storage L) (\<lambda>c. ft_balances L (token c))"
  "unregister_closes (contract_storage L) (\<lambda>c. ft_balances L (token c))
     (\<lambda>e c. ft_storage_ok L e (token c))"
  "bounds_answered (contract_storage L) (\<lambda>e c. ft_storage_ok L e (token c))"
proof -
  note req = nep_storage_requirements
  show "deposit_refunds_excess (contract_storage L) (\<lambda>c. ft_balances L (token c))
      (\<lambda>e c. ft_storage_ok L e (token c))"
    using req(1) unfolding deposit_refunds_excess_def
    by (fastforce simp: contract_storage_methods rbind_eq_Inr)
  show "deposit_accepts_minimum (contract_storage L) (\<lambda>e c. ft_storage_ok L e (token c))"
    using req(2) unfolding deposit_accepts_minimum_def
    by (simp add: contract_storage_methods(4) contract_storage_returns)
  show "storage_wants_one_yocto (contract_storage L)"
    using req(3) unfolding storage_wants_one_yocto_def
    by (simp add: contract_storage_methods(3) contract_storage_returns returns_rbind)
  show "withdraw_wants_registration (contract_storage L) (\<lambda>c. ft_balances L (token c))"
    using req(4) unfolding withdraw_wants_registration_def
    by (simp add: contract_storage_methods returns_rbind)
  show "withdraws_available (contract_storage L) (\<lambda>c. ft_balances L (token c))
      (\<lambda>e c. ft_storage_ok L e (token c))"
    unfolding withdraws_available_def contract_storage_simps contract_storage_methods
    by (auto simp: storage_withdraw_pays split: option.splits)
  show "withdraw_keeps_data (contract_storage L) (\<lambda>c. ft_balances L (token c))"
    by (auto simp: withdraw_keeps_data_def result_simps)
  show "unregister_unknown_is_false (contract_storage L) (\<lambda>c. ft_balances L (token c))"
    unfolding unregister_unknown_is_false_def contract_storage_simps contract_storage_methods
  proof (intro allI impI)
    fix e :: env and c :: "('m, 'r) ft_contract" and h :: ft_effects and force
    assume "ft_balances L (token c) (predecessor_account_id e) = None" and "attached_deposit e = 1"
    from unregister_guards(3) [OF this, of h force]
    show "\<exists>h'. rbind (ft_storage_unregister L e (token c) h force)
        (\<lambda>(t, h1, b). Inr (c\<lparr>token := t\<rparr>, h1, b)) = Inr (c, h', False) \<and> promises h' = promises h"
      by auto
  qed
  show "unregister_refuses_balance (contract_storage L) (\<lambda>c. ft_balances L (token c))"
    using req(8) unfolding unregister_refuses_balance_def
    by (simp add: contract_storage_returns)
  show "unregister_closes (contract_storage L) (\<lambda>c. ft_balances L (token c))
      (\<lambda>e c. ft_storage_ok L e (token c))"
    unfolding unregister_closes_def contract_storage_simps
  proof (intro allI impI)
    fix e :: env and c :: "('m, 'r) ft_contract" and h :: ft_effects and force b bounds
    assume "ft_storage_ok L e (token c)" "attached_deposit e = 1"
      "contract_storage_balance_bounds e c = Inr bounds"
      "ft_balances L (token c) (predecessor_account_id e) = Some b" "b = 0 \<or> force = Some True"
    from req(9) [unfolded unregister_closes_def nep_storage_simps, rule_format,
        OF this(1,2) this(3) [unfolded contract_storage_methods] this(4,5), of h]
    obtain t h' where
      "ft_storage_unregister L e (token c) h force = Inr (t, h', True) \<and> ft_storage_ok L e t \<and>
        ft_balances L t = (ft_balances L (token c))(predecessor_account_id e := None) \<and>
        total_paid_to (predecessor_account_id e) h' =
          total_paid_to (predecessor_account_id e) h + unat (bounds_min bounds) + 1"
      by blast
    then show "\<exists>c' h'. contract_storage_unregister None L e c h force = Inr (c', h', True) \<and>
        ft_storage_ok L e (token c') \<and>
        ft_balances L (token c') = (ft_balances L (token c))(predecessor_account_id e := None) \<and>
        total_paid_to (predecessor_account_id e) h' =
          total_paid_to (predecessor_account_id e) h + unat (bounds_min bounds) + 1"
      by (intro exI [of _ "c\<lparr>token := t\<rparr>"] exI [of _ h']) (simp add: contract_storage_methods)
  qed
  show "bounds_answered (contract_storage L) (\<lambda>e c. ft_storage_ok L e (token c))"
    unfolding bounds_answered_def contract_storage_simps
  proof (intro allI impI conjI)
    fix e :: env and c :: "('m, 'r) ft_contract" and h a ro c' h' sb
    assume ok: "ft_storage_ok L e (token c)"
    then show "returns (contract_storage_balance_bounds e c)"
      unfolding contract_storage_methods by (rule storage_bounds_returns)
    assume "contract_storage_deposit L e c h a ro = Inr (c', h', sb)"
    then have "ft_storage_deposit L e (token c) h a ro = Inr (token c', h', sb)"
      by (auto simp: contract_storage_methods rbind_eq_Inr)
    from storage_ok_frame [OF ok this]
    show "contract_storage_balance_bounds e c' = contract_storage_balance_bounds e c"
      unfolding contract_storage_methods by (intro storage_bounds_frame) blast
  qed
qed

lemma nep_nep145: "nep145 (nep_storage L) (ft_balances L) (ft_storage_ok L)"
  by unfold_locales (fact nep_storage_requirements)+

lemma contract_nep145:
  "nep145 (contract_storage L) (\<lambda>c. ft_balances L (token c)) (\<lambda>e c. ft_storage_ok L e (token c))"
  by unfold_locales (fact contract_storage_requirements)+

text \<open>The crate \<open>unclaimed-storage-fee\<close> does what the token does, and one thing more.\<close>

lemma unclaimed_requirements:
  "deposit_refunds_excess (unclaimed_storage L) (ft_balances L) (ft_storage_ok L)"
  "deposit_accepts_minimum (unclaimed_storage L) (ft_storage_ok L)"
  "storage_wants_one_yocto (unclaimed_storage L)"
  "withdraw_wants_registration (unclaimed_storage L) (ft_balances L)"
  "withdraws_available (unclaimed_storage L) (ft_balances L) (ft_storage_ok L)"
  "withdraw_keeps_data (unclaimed_storage L) (ft_balances L)"
  "unregister_unknown_is_false (unclaimed_storage L) (ft_balances L)"
  "unregister_closes (unclaimed_storage L) (ft_balances L) (ft_storage_ok L)"
  "bounds_answered (unclaimed_storage L) (ft_storage_ok L)"
proof -
  note req = nep_storage_requirements and simps = nep_storage_simps unclaimed_storage_simps
  show "deposit_refunds_excess (unclaimed_storage L) (ft_balances L) (ft_storage_ok L)"
    using req(1) unfolding deposit_refunds_excess_def simps .
  show "deposit_accepts_minimum (unclaimed_storage L) (ft_storage_ok L)"
    using req(2) unfolding deposit_accepts_minimum_def simps .
  show "storage_wants_one_yocto (unclaimed_storage L)"
    using req(3) unfolding storage_wants_one_yocto_def simps by blast
  show "withdraw_wants_registration (unclaimed_storage L) (ft_balances L)"
    using req(4) unfolding withdraw_wants_registration_def simps .
  show "withdraws_available (unclaimed_storage L) (ft_balances L) (ft_storage_ok L)"
    using req(5) unfolding withdraws_available_def simps .
  show "withdraw_keeps_data (unclaimed_storage L) (ft_balances L)"
    using req(6) unfolding withdraw_keeps_data_def simps .
  show "unregister_unknown_is_false (unclaimed_storage L) (ft_balances L)"
    using req(7) unfolding unregister_unknown_is_false_def simps by blast
  show "unregister_closes (unclaimed_storage L) (ft_balances L) (ft_storage_ok L)"
    using req(9) unfolding unregister_closes_def simps by blast
  show "bounds_answered (unclaimed_storage L) (ft_storage_ok L)"
    using req(10) unfolding bounds_answered_def simps .
qed

lemma unclaimed_takes_balance: "\<not> unregister_refuses_balance (unclaimed_storage L) (ft_balances L)"
proof
  assume refuses: "unregister_refuses_balance (unclaimed_storage L) (ft_balances L)"
  let ?t = "\<lparr>accounts = fst (lm_insert L (lm_new L []) ''alice'' 100), total_supply = 100,
    account_storage_usage = 0\<rparr>"
  let ?e = "demo_env ''alice'' 1 []"
  have bal: "ft_balances L ?t = [''alice'' \<mapsto> 100]"
    by (simp add: ft_balances_def map_laws)
  then have "ft_supply_ok L ?t" by (simp add: ft_supply_ok_def word_sum_def)
  then have "ft_storage_ok L ?e ?t" by (simp add: ft_storage_ok_def price_fits_def storage_price_def)
  from storage_unregister_eq [OF this, of 100 "Some True" no_effects] bal
  have "returns (sm_storage_unregister (unclaimed_storage L) ?e ?t no_effects None)"
    by (auto simp: returns_def)
  then show False
    using refuses [unfolded unregister_refuses_balance_def, THEN spec [of _ ?e], THEN spec [of _ ?t],
        THEN spec [of _ no_effects], THEN spec [of _ None], THEN spec [of _ 100]] bal
    by simp
qed

end

interpretation fun_storage: nep145 "nep_storage fun_map" "ft_balances fun_map" "ft_storage_ok fun_map"
  by (rule balance_store.nep_nep145 [OF demo_store])

interpretation fun_contract_storage: nep145
  "contract_storage fun_map :: (fun_accounts, 'r) ft_contract nep_storage"
  "\<lambda>c. ft_balances fun_map (token c)" "\<lambda>e c. ft_storage_ok fun_map e (token c)"
  by (rule balance_store.contract_nep145 [OF demo_store])

subsection \<open>Properties\<close>

text \<open>C13: storage management against the standard, requirement by requirement.  The token of
  \<open>nep-interface\<close> and a contract with its macro meet all ten; the crate \<open>unclaimed-storage-fee\<close>
  meets all but one: it must refuse to unregister an account with a balance unless it is forced.\<close>

theorem storage_against_nep145:
  fixes contract_methods :: "('m, 'r) ft_contract nep_storage"
  assumes "balance_store L" and "contract_methods = contract_storage L"
  shows "list_all snd (nep145_report (nep_storage L) (ft_balances L) (ft_storage_ok L)) \<and>
    list_all snd (nep145_report contract_methods (\<lambda>c. ft_balances L (token c))
      (\<lambda>e c. ft_storage_ok L e (token c))) \<and>
    filter (\<lambda>(name, met). \<not> met)
        (nep145_report (unclaimed_storage L) (ft_balances L) (ft_storage_ok L)) =
      [(''unregister refuses a balance'', False)]"
  by (simp add: assms(2) nep145_report_def balance_store.nep_storage_requirements [OF assms(1)]
      balance_store.contract_storage_requirements [OF assms(1)]
      balance_store.unclaimed_requirements [OF assms(1)]
      balance_store.unclaimed_takes_balance [OF assms(1)])

theorem storage_against_nep145_witness:
  "unregister_refuses_balance (nep_storage fun_map) (ft_balances fun_map) \<and>
   \<not> unregister_refuses_balance (unclaimed_storage fun_map) (ft_balances fun_map)"
  using storage_against_nep145 [where
      contract_methods = "contract_storage fun_map :: (fun_accounts, unit) ft_contract nep_storage",
      OF demo_store refl]
  by (auto simp: nep145_report_def split: if_splits)

text \<open>C36: registering with a contract and leaving it again costs nothing.  A new account that
  deposits at least the price is registered; if it then unregisters, at the same price of storage,
  it has been paid back its whole deposit and the yoctoNEAR of the second call, and the balances of
  all accounts are what they were.\<close>

theorem registration_is_refunded:
  assumes "balance_store L" and "ft_supply_ok L (token c)" and "price_fits e (token c)"
    and "ft_balances L (token c) a = None" and "price e (token c) \<le> attached_deposit e"
    and "predecessor_account_id e = a" and "predecessor_account_id e' = a"
    and "attached_deposit e' = 1" and "storage_byte_cost e' = storage_byte_cost e"
    and "overflow_checks e' = overflow_checks e"
  shows "\<exists>c1 h1 sb c2 h2.
     contract_storage_deposit L e c no_effects None (Some True) = Inr (c1, h1, sb) \<and>
     contract_storage_unregister None L e' c1 no_effects force = Inr (c2, h2, True) \<and>
     ft_balances L (token c2) = ft_balances L (token c) \<and>
     total_paid_to a h1 + total_paid_to a h2 = unat (attached_deposit e) + 1"
proof -
  have ok: "ft_storage_ok L e (token c)" using assms(2,3) by (simp add: ft_storage_ok_def)
  have bounds: "sm_storage_balance_bounds (contract_storage L) e c =
      Inr \<lparr>bounds_min = price e (token c), bounds_max = Some (price e (token c))\<rparr>"
    using balance_store.storage_bounds [OF assms(1) ok]
    by (simp add: balance_store.contract_storage_methods(4) [OF assms(1)])
  have "ft_storage_ok L e (token c) \<Longrightarrow> ft_storage_ok L e' (token c)" for c :: "('a, 'b) ft_contract"
    using assms(9) by (simp add: ft_storage_ok_def price_fits_def storage_price_def)
  moreover have "sm_storage_balance_bounds (contract_storage L) e' c =
      sm_storage_balance_bounds (contract_storage L) e c" for c :: "('a, 'b) ft_contract"
    using assms(9,10)
    by (simp add: contract_storage_balance_bounds_def ft_storage_balance_bounds_def)
  ultimately show ?thesis
    using nep145.register_then_leave [OF balance_store.contract_nep145 [OF assms(1)] ok bounds,
        of e' force] assms(4-8)
    by auto
qed

theorem registration_is_refunded_witness:
  "\<exists>c1 h1 sb c2 h2.
     contract_storage_deposit fun_map (demo_env ''carol'' 2000 []) \<lparr>token = demo_token, rest = ()\<rparr>
       no_effects None (Some True) = Inr (c1, h1, sb) \<and>
     contract_storage_unregister None fun_map (demo_env ''carol'' 1 []) c1 no_effects None =
       Inr (c2, h2, True) \<and>
     total_paid_to ''carol'' h1 + total_paid_to ''carol'' h2 = 2001"
proof -
  have "price (demo_env ''carol'' 2000 []) demo_token = 1250" by (simp add: price_def)
  then show ?thesis
    using registration_is_refunded [OF demo_store, of "\<lparr>token = demo_token, rest = ()\<rparr>"
        "demo_env ''carol'' 2000 []" "''carol''" "demo_env ''carol'' 1 []" None]
      demo_supply_ok demo_price
    by fastforce
qed

end
