(* ===== verification/NftStandard.thy ===== *)
theory NftStandard
  imports Nft
begin

section \<open>The standards NEP-171 and NEP-178 as the traits state them\<close>

text \<open>
  \<open>non_fungible_token/core/mod.rs\<close>, \<open>core/resolver.rs\<close>, \<open>core/receiver.rs\<close>, \<open>approval/mod.rs\<close> and
  \<open>approval/approval_receiver.rs\<close> of \<open>nep-interface\<close>: the traits as records of methods, and one
  definition for each requirement taken from their comments, among them what an approval costs and
  what its revocation pays back.  The locales \<open>nep171\<close> and \<open>nep178\<close> have the requirements as their
  assumptions, except the one that ties approvals to a gas limit, which no token of the repository
  meets; the lemmas of the second say what an owner and a
  market place get from any token that meets both: a sale through an approval happens once.
\<close>

subsection \<open>The traits\<close>

record ('s, 'l, 'c, 'e) NonFungibleTokenCore =
  core_nft_transfer ::
    "env \<Rightarrow> 's \<Rightarrow> ('l, 'c) effects \<Rightarrow> AccountId \<Rightarrow> TokenId \<Rightarrow> u64 option \<Rightarrow> string option \<Rightarrow>
     'e panic + 's \<times> ('l, 'c) effects"
  core_nft_transfer_call ::
    "env \<Rightarrow> 's \<Rightarrow> ('l, 'c) effects \<Rightarrow> AccountId \<Rightarrow> TokenId \<Rightarrow> u64 option \<Rightarrow> string option \<Rightarrow>
     string \<Rightarrow> 'e panic + 's \<times> ('l, 'c) effects"
  core_nft_token :: "'s \<Rightarrow> TokenId \<Rightarrow> Token option"

record ('s, 'l, 'c, 'e) NonFungibleTokenResolver =
  resolver_nft_resolve_transfer ::
    "env \<Rightarrow> 's \<Rightarrow> ('l, 'c) effects \<Rightarrow> AccountId \<Rightarrow> AccountId \<Rightarrow> TokenId \<Rightarrow> approvals option \<Rightarrow>
     'e panic + 's \<times> ('l, 'c) effects \<times> bool"

record ('s, 'l, 'c, 'e) NonFungibleTokenApproval =
  approval_nft_approve ::
    "env \<Rightarrow> 's \<Rightarrow> ('l, 'c) effects \<Rightarrow> TokenId \<Rightarrow> AccountId \<Rightarrow> string option \<Rightarrow>
     'e panic + 's \<times> ('l, 'c) effects"
  approval_nft_revoke ::
    "env \<Rightarrow> 's \<Rightarrow> ('l, 'c) effects \<Rightarrow> TokenId \<Rightarrow> AccountId \<Rightarrow> 'e panic + 's \<times> ('l, 'c) effects"
  approval_nft_revoke_all ::
    "env \<Rightarrow> 's \<Rightarrow> ('l, 'c) effects \<Rightarrow> TokenId \<Rightarrow> 'e panic + 's \<times> ('l, 'c) effects"
  approval_nft_is_approved ::
    "'s \<Rightarrow> TokenId \<Rightarrow> AccountId \<Rightarrow> u64 option \<Rightarrow> 'e panic + bool"

text \<open>The calls of \<open>ext_nft_receiver\<close>, \<open>ext_nft_resolver\<close> and \<open>ext_nft_approval_receiver\<close>.\<close>

record 'c ext_nft =
  ext_nft_on_transfer :: "AccountId \<Rightarrow> AccountId \<Rightarrow> TokenId \<Rightarrow> string \<Rightarrow> 'c"
  ext_nft_resolve_transfer :: "AccountId \<Rightarrow> AccountId \<Rightarrow> TokenId \<Rightarrow> approvals option \<Rightarrow> 'c"
  ext_nft_on_approve :: "TokenId \<Rightarrow> AccountId \<Rightarrow> u64 \<Rightarrow> string \<Rightarrow> 'c"

subsection \<open>The requirements of the core\<close>

text \<open>
  A state shows the owners and, for every token, the approved accounts with their approval ids;
  \<open>ok\<close> is the invariant of the implementation.
\<close>

type_synonym 's owner_view = "'s \<Rightarrow> TokenId \<Rightarrow> AccountId option"
type_synonym 's approval_view = "'s \<Rightarrow> TokenId \<Rightarrow> AccountId \<Rightarrow> u64 option"

definition shown_approvals :: "approvals option \<Rightarrow> AccountId \<Rightarrow> u64 option" where
  "shown_approvals A a = (case A of None \<Rightarrow> None | Some B \<Rightarrow> DAList.lookup B a)"

text \<open>Who may move a token: the owner or, with a fitting approval id, an approved account.\<close>

definition nft_may_send ::
    "'s owner_view \<Rightarrow> 's approval_view \<Rightarrow> 's \<Rightarrow> AccountId \<Rightarrow> TokenId \<Rightarrow> u64 option \<Rightarrow> bool" where
  "nft_may_send own app s a tok aid \<longleftrightarrow>
     own s tok = Some a \<or> (\<exists>i. app s tok a = Some i \<and> (aid = None \<or> aid = Some i))"

definition nft_sends ::
    "('s, 'l, 'c, 'e) NonFungibleTokenCore \<Rightarrow> env \<Rightarrow> 's \<Rightarrow> ('l, 'c) effects \<Rightarrow> AccountId \<Rightarrow> TokenId \<Rightarrow>
     u64 option \<Rightarrow> 's \<Rightarrow> ('l, 'c) effects \<Rightarrow> bool" where
  "nft_sends M e s h r tok aid s' h' \<longleftrightarrow>
     (\<exists>memo. core_nft_transfer M e s h r tok aid memo = Inr (s', h')) \<or>
     (\<exists>memo msg. core_nft_transfer_call M e s h r tok aid memo msg = Inr (s', h'))"

text \<open>``Caller of the method must attach a deposit of 1 yoctoNEAR for security purposes.''\<close>

definition nft_wants_one_yocto :: "('s, 'l, 'c, 'e) NonFungibleTokenCore \<Rightarrow> bool" where
  "nft_wants_one_yocto M \<longleftrightarrow>
     (\<forall>e s h r tok aid s' h'. nft_sends M e s h r tok aid s' h' \<longrightarrow> attached_deposit e = 1)"

text \<open>
  ``Contract MUST panic if called by someone other than token owner or, if using Approval Management,
  one of the approved accounts.''
\<close>

definition nft_wants_authority ::
    "('s, 'l, 'c, 'e) NonFungibleTokenCore \<Rightarrow> 's owner_view \<Rightarrow> 's approval_view \<Rightarrow> bool" where
  "nft_wants_authority M own app \<longleftrightarrow>
     (\<forall>e s h r tok aid s' h'. nft_sends M e s h r tok aid s' h' \<longrightarrow>
        own s tok \<noteq> None \<and> nft_may_send own app s (predecessor_account_id e) tok aid)"

text \<open>``Transfer a given \<open>token_id\<close> from current owner to \<open>receiver_id\<close>'', and no other.\<close>

definition nft_hands_over ::
    "('s, 'l, 'c, 'e) NonFungibleTokenCore \<Rightarrow> 's owner_view \<Rightarrow> ('s \<Rightarrow> bool) \<Rightarrow> bool" where
  "nft_hands_over M own ok \<longleftrightarrow>
     (\<forall>e s h r tok aid s' h'. ok s \<longrightarrow> nft_sends M e s h r tok aid s' h' \<longrightarrow>
        ok s' \<and> own s' = (own s)(tok \<mapsto> r))"

text \<open>``Contract MUST nullify approved accounts on successful transfer.''\<close>

definition nft_nullifies_approvals ::
    "('s, 'l, 'c, 'e) NonFungibleTokenCore \<Rightarrow> 's approval_view \<Rightarrow> ('s \<Rightarrow> bool) \<Rightarrow> bool" where
  "nft_nullifies_approvals M app ok \<longleftrightarrow>
     (\<forall>e s h r tok aid s' h'. ok s \<longrightarrow> nft_sends M e s h r tok aid s' h' \<longrightarrow>
        app s' = (app s)(tok := Map.empty))"

text \<open>Who may send, and attaches one yoctoNEAR, does send, unless the receiver owns the token.\<close>

definition nft_serves_transfers ::
    "('s, 'l, 'c, 'e) NonFungibleTokenCore \<Rightarrow> 's owner_view \<Rightarrow> 's approval_view \<Rightarrow> ('s \<Rightarrow> bool) \<Rightarrow> bool" where
  "nft_serves_transfers M own app ok \<longleftrightarrow>
     (\<forall>e s h r tok aid memo. ok s \<longrightarrow> attached_deposit e = 1 \<longrightarrow> own s tok \<noteq> None \<longrightarrow>
        own s tok \<noteq> Some r \<longrightarrow> nft_may_send own app s (predecessor_account_id e) tok aid \<longrightarrow>
        returns (core_nft_transfer M e s h r tok aid memo))"

text \<open>So does a transfer call, when more gas is prepaid than the token keeps for itself.\<close>

definition nft_serves_transfer_calls ::
    "('s, 'l, 'c, 'e) NonFungibleTokenCore \<Rightarrow> Gas \<Rightarrow> 's owner_view \<Rightarrow> 's approval_view \<Rightarrow>
     ('s \<Rightarrow> bool) \<Rightarrow> bool" where
  "nft_serves_transfer_calls M reserve own app ok \<longleftrightarrow>
     (\<forall>e s h r tok aid memo msg. ok s \<longrightarrow> attached_deposit e = 1 \<longrightarrow> reserve < prepaid_gas e \<longrightarrow>
        own s tok \<noteq> None \<longrightarrow> own s tok \<noteq> Some r \<longrightarrow>
        nft_may_send own app s (predecessor_account_id e) tok aid \<longrightarrow>
        returns (core_nft_transfer_call M e s h r tok aid memo msg))"

text \<open>
  The transfer call: \<open>nft_on_transfer\<close> on the receiver, with the sender and the previous owner, then
  the resolver on the contract itself, to which the ``contract MUST provide set of original approved
  accounts''.
\<close>

definition nft_calls_receiver_and_resolver ::
    "('s, 'l, 'c, 'e) NonFungibleTokenCore \<Rightarrow> 'c ext_nft \<Rightarrow> 's owner_view \<Rightarrow> 's approval_view \<Rightarrow> bool" where
  "nft_calls_receiver_and_resolver M X own app \<longleftrightarrow>
     (\<forall>e s h r tok aid memo msg s' h'.
        core_nft_transfer_call M e s h r tok aid memo msg = Inr (s', h') \<longrightarrow>
        (\<exists>g g' A owner. own s tok = Some owner \<and> shown_approvals A = app s tok \<and>
           promises h' = promises h @
             [Then (FunctionCall r
                      (ext_nft_on_transfer X (predecessor_account_id e) owner tok msg) 0 g)
                   (FunctionCall (current_account_id e)
                      (ext_nft_resolve_transfer X owner r tok A) 0 g')]))"

text \<open>``Returns the token with the given \<open>token_id\<close> or \<open>null\<close> if no such token.''\<close>

definition nft_token_answers ::
    "('s, 'l, 'c, 'e) NonFungibleTokenCore \<Rightarrow> 's owner_view \<Rightarrow> 's approval_view \<Rightarrow> bool" where
  "nft_token_answers M own app \<longleftrightarrow>
     (\<forall>s tok. case core_nft_token M s tok of
        None \<Rightarrow> own s tok = None
      | Some v \<Rightarrow> tok_token_id v = tok \<and> own s tok = Some (tok_owner_id v) \<and>
          shown_approvals (tok_approved_account_ids v) = app s tok)"

subsection \<open>The requirements of the resolver\<close>

text \<open>``Contract MUST forbid calls to this function by any account except self.''\<close>

definition resolver_only_self :: "('s, 'l, 'c, 'e) NonFungibleTokenResolver \<Rightarrow> bool" where
  "resolver_only_self R \<longleftrightarrow>
     (\<forall>e s h prev r tok A. predecessor_account_id e \<noteq> current_account_id e \<longrightarrow>
        \<not> returns (resolver_nft_resolve_transfer R e s h prev r tok A))"

text \<open>
  ``If promise chain failed, contract MUST revert token transfer.  If promise chain resolves with
  \<open>true\<close>, contract MUST return token to \<open>sender_id\<close>'', as long as the receiver still owns it.  The
  callback is a call of the contract to itself without deposit, with one result.
\<close>

definition nft_callback :: "env \<Rightarrow> PromiseResult \<Rightarrow> bool" where
  "nft_callback e r \<longleftrightarrow> predecessor_account_id e = current_account_id e \<and> attached_deposit e = 0 \<and>
     promise_results e = [r] \<and> r \<noteq> NotReady"

definition wants_return :: "(bytes \<Rightarrow> bool option) \<Rightarrow> PromiseResult \<Rightarrow> bool" where
  "wants_return from_slice r =
     (case r of Successful v \<Rightarrow> from_slice v \<noteq> Some False | _ \<Rightarrow> True)"

definition resolver_reverts ::
    "('s, 'l, 'c, 'e) NonFungibleTokenResolver \<Rightarrow> (bytes \<Rightarrow> bool option) \<Rightarrow> 's owner_view \<Rightarrow>
     ('s \<Rightarrow> bool) \<Rightarrow> bool" where
  "resolver_reverts R from_slice own ok \<longleftrightarrow>
     (\<forall>e s h prev r tok A p s' h' kept. ok s \<longrightarrow> nft_callback e p \<longrightarrow>
        resolver_nft_resolve_transfer R e s h prev r tok A = Inr (s', h', kept) \<longrightarrow>
        (if wants_return from_slice p \<and> own s tok = Some r
         then own s' = (own s)(tok \<mapsto> prev) \<and> \<not> kept else s' = s \<and> kept))"

text \<open>It does so whenever nobody has been approved since.\<close>

definition resolver_returns ::
    "('s, 'l, 'c, 'e) NonFungibleTokenResolver \<Rightarrow> 's owner_view \<Rightarrow> 's approval_view \<Rightarrow> ('s \<Rightarrow> bool) \<Rightarrow> bool" where
  "resolver_returns R own app ok \<longleftrightarrow>
     (\<forall>e s h prev r tok A p. ok s \<longrightarrow> nft_callback e p \<longrightarrow> own s tok \<noteq> None \<longrightarrow>
        app s tok = Map.empty \<longrightarrow>
        returns (resolver_nft_resolve_transfer R e s h prev r tok A))"

text \<open>``And restore these approved accounts in case of revert.''\<close>

definition resolver_restores ::
    "('s, 'l, 'c, 'e) NonFungibleTokenResolver \<Rightarrow> 's approval_view \<Rightarrow> ('s \<Rightarrow> bool) \<Rightarrow> bool" where
  "resolver_restores R app ok \<longleftrightarrow>
     (\<forall>e s h prev r tok A p s' h'. ok s \<longrightarrow> nft_callback e p \<longrightarrow>
        resolver_nft_resolve_transfer R e s h prev r tok A = Inr (s', h', False) \<longrightarrow>
        app s' tok = shown_approvals A)"

text \<open>The same, as long as the receiver has approved nobody meanwhile.\<close>

definition resolver_restores_unless_approved ::
    "('s, 'l, 'c, 'e) NonFungibleTokenResolver \<Rightarrow> 's approval_view \<Rightarrow> ('s \<Rightarrow> bool) \<Rightarrow> bool" where
  "resolver_restores_unless_approved R app ok \<longleftrightarrow>
     (\<forall>e s h prev r tok A p s' h'. ok s \<longrightarrow> nft_callback e p \<longrightarrow> app s tok = Map.empty \<longrightarrow>
        resolver_nft_resolve_transfer R e s h prev r tok A = Inr (s', h', False) \<longrightarrow>
        app s' = (app s)(tok := shown_approvals A))"

subsection \<open>The requirements of approval management\<close>

text \<open>``At least 1 yoctoNEAR'' for \<open>nft_approve\<close>, ``a deposit of 1 yoctoNEAR'' for the others.\<close>

definition approval_wants_yocto :: "('s, 'l, 'c, 'e) NonFungibleTokenApproval \<Rightarrow> bool" where
  "approval_wants_yocto M \<longleftrightarrow>
     (\<forall>e s h tok a msg.
        (returns (approval_nft_approve M e s h tok a msg) \<longrightarrow> 1 \<le> attached_deposit e) \<and>
        (returns (approval_nft_revoke M e s h tok a) \<longrightarrow> attached_deposit e = 1) \<and>
        (returns (approval_nft_revoke_all M e s h tok) \<longrightarrow> attached_deposit e = 1))"

text \<open>``Contract MUST panic if called by someone other than token owner'', of each of the three.\<close>

definition only_owner_approves ::
    "('s, 'l, 'c, 'e) NonFungibleTokenApproval \<Rightarrow> 's owner_view \<Rightarrow> bool" where
  "only_owner_approves M own \<longleftrightarrow>
     (\<forall>e s h tok a msg. own s tok \<noteq> Some (predecessor_account_id e) \<longrightarrow>
        \<not> returns (approval_nft_approve M e s h tok a msg))"

definition only_owner_revokes ::
    "('s, 'l, 'c, 'e) NonFungibleTokenApproval \<Rightarrow> 's owner_view \<Rightarrow> bool" where
  "only_owner_revokes M own \<longleftrightarrow>
     (\<forall>e s h tok a. own s tok \<noteq> Some (predecessor_account_id e) \<longrightarrow>
        \<not> returns (approval_nft_revoke M e s h tok a))"

definition only_owner_revokes_all ::
    "('s, 'l, 'c, 'e) NonFungibleTokenApproval \<Rightarrow> 's owner_view \<Rightarrow> bool" where
  "only_owner_revokes_all M own \<longleftrightarrow>
     (\<forall>e s h tok. own s tok \<noteq> Some (predecessor_account_id e) \<longrightarrow>
        \<not> returns (approval_nft_revoke_all M e s h tok))"

text \<open>
  ``Add an approved account for a specific token.  Contract MUST increment approval ID even if
  re-approving an account'': the id is larger than every id in use.
\<close>

definition approve_gives_larger_id ::
    "('s, 'l, 'c, 'e) NonFungibleTokenApproval \<Rightarrow> 's owner_view \<Rightarrow> 's approval_view \<Rightarrow>
     (bool \<Rightarrow> 's \<Rightarrow> bool) \<Rightarrow> bool" where
  "approve_gives_larger_id M own app ok \<longleftrightarrow>
     (\<forall>e s h tok a msg s' h'. ok (overflow_checks e) s \<longrightarrow> overflow_checks e \<longrightarrow>
        approval_nft_approve M e s h tok a msg = Inr (s', h') \<longrightarrow>
        ok (overflow_checks e) s' \<and> own s' = own s \<and>
        (\<exists>i. app s' = (app s)(tok := (app s tok)(a \<mapsto> i)) \<and> (\<forall>b j. app s tok b = Some j \<longrightarrow> j < i)))"

text \<open>``If \<open>msg\<close> is present, contract MUST call \<open>nft_on_approve\<close> on \<open>account_id\<close>.''\<close>

fun called_by :: "'c Promise \<Rightarrow> (AccountId \<times> 'c) list" where
  "called_by (FunctionCall b c d g) = [(b, c)]"
| "called_by (Then p q) = called_by p @ called_by q"
| "called_by _ = []"

definition approve_notifies ::
    "('s, 'l, 'c, 'e) NonFungibleTokenApproval \<Rightarrow> 'c ext_nft \<Rightarrow> 's approval_view \<Rightarrow> bool" where
  "approve_notifies M X app \<longleftrightarrow>
     (\<forall>e s tok a msg s' h'. approval_nft_approve M e s no_effects tok a msg = Inr (s', h') \<longrightarrow>
        (\<exists>i. app s' tok a = Some i \<and>
           concat (map called_by (promises h')) =
             (case msg of None \<Rightarrow> []
              | Some m \<Rightarrow> [(a, ext_nft_on_approve X tok (predecessor_account_id e) i m)])))"

text \<open>``Revoke an approved account'', ``revoke all approved accounts for a specific token.''\<close>

definition revoke_removes ::
    "('s, 'l, 'c, 'e) NonFungibleTokenApproval \<Rightarrow> 's owner_view \<Rightarrow> 's approval_view \<Rightarrow> bool" where
  "revoke_removes M own app \<longleftrightarrow>
     (\<forall>e s h tok a s' h'.
        (approval_nft_revoke M e s h tok a = Inr (s', h') \<longrightarrow>
           own s' = own s \<and> app s' = (app s)(tok := (app s tok)(a := None))) \<and>
        (approval_nft_revoke_all M e s h tok = Inr (s', h') \<longrightarrow>
           own s' = own s \<and> app s' = (app s)(tok := Map.empty)))"

text \<open>
  ``If \<open>approval_id\<close> given, \<open>true\<close> if \<open>approved_account_id\<close> is approved with given \<open>approval_id\<close>,
  otherwise, \<open>true\<close> if \<open>approved_account_id\<close> is in list of approved accounts'', for a token there is.
\<close>

definition is_approved_answers ::
    "('s, 'l, 'c, 'e) NonFungibleTokenApproval \<Rightarrow> 's owner_view \<Rightarrow> 's approval_view \<Rightarrow> bool" where
  "is_approved_answers M own app \<longleftrightarrow>
     (\<forall>s tok a aid. own s tok \<noteq> None \<longrightarrow>
        approval_nft_is_approved M s tok a aid =
          Inr (\<exists>i. app s tok a = Some i \<and> (aid = None \<or> aid = Some i)))"

text \<open>
  The terms of an approval: what \<open>nft_approve\<close> charges for a new entry, at the byte price that the
  environment has; whether a token has an approval id left; the gas kept from \<open>nft_on_approve\<close>; the gas
  that \<open>nft_revoke_all\<close> burns on a token with so many approvals, and the limit of a block.
\<close>

record 's approval_terms =
  terms_charge :: "env \<Rightarrow> AccountId \<Rightarrow> nat"
  terms_ids_left :: "'s \<Rightarrow> TokenId \<Rightarrow> bool"
  terms_notify_gas :: Gas
  terms_revoke_all_gas :: "nat \<Rightarrow> nat"
  terms_block_gas :: nat

definition approval_cost ::
    "'s approval_terms \<Rightarrow> 's approval_view \<Rightarrow> env \<Rightarrow> 's \<Rightarrow> TokenId \<Rightarrow> AccountId \<Rightarrow> nat" where
  "approval_cost T app e s tok a = (if app s tok a = None then terms_charge T e a else 0)"

text \<open>
  The sizes for which the amounts fit their machine types: a byte price of less than \<open>2^64\<close> yoctoNEAR,
  as NEAR's is, account ids of at most 64 characters, as all of NEAR's are, and at most \<open>2^32\<close>
  approvals.
\<close>

definition usual_sizes :: "'s approval_view \<Rightarrow> env \<Rightarrow> 's \<Rightarrow> TokenId \<Rightarrow> bool" where
  "usual_sizes app e s tok \<longleftrightarrow>
     unat (storage_byte_cost e) < 2 ^ 64 \<and> card (dom (app s tok)) \<le> 2 ^ 32 \<and>
     (\<forall>a \<in> dom (app s tok). length a \<le> 64)"

text \<open>
  ``Contract MAY require caller to attach larger deposit, to cover cost of storing approver data'': the
  owner's approval returns when the deposit covers the charge, of which nothing is kept for an account
  that was approved before; all else is paid back, but for a last yoctoNEAR.
\<close>

definition approve_charges ::
    "('s, 'l, 'c, 'e) NonFungibleTokenApproval \<Rightarrow> 's owner_view \<Rightarrow> 's approval_view \<Rightarrow>
     (bool \<Rightarrow> 's \<Rightarrow> bool) \<Rightarrow> 's approval_terms \<Rightarrow> bool" where
  "approve_charges M own app ok T \<longleftrightarrow>
     (\<forall>e s h tok a msg. ok (overflow_checks e) s \<longrightarrow> own s tok = Some (predecessor_account_id e) \<longrightarrow>
        terms_ids_left T s tok \<longrightarrow> usual_sizes app e s tok \<longrightarrow> length a \<le> 64 \<longrightarrow>
        1 \<le> attached_deposit e \<longrightarrow> approval_cost T app e s tok a \<le> unat (attached_deposit e) \<longrightarrow>
        (msg \<noteq> None \<longrightarrow> terms_notify_gas T \<le> prepaid_gas e) \<longrightarrow>
        (\<exists>s' h' kept. approval_nft_approve M e s h tok a msg = Inr (s', h') \<and>
           total_paid_to (predecessor_account_id e) h' + approval_cost T app e s tok a + kept =
             total_paid_to (predecessor_account_id e) h + unat (attached_deposit e) \<and> kept \<le> 1))"

text \<open>
  ``If contract requires >1yN deposit on \<open>nft_approve\<close>, contract MUST refund associated storage deposit
  when owner revokes approval'': the owner's call of \<open>nft_revoke\<close> returns and pays the owner the charge
  of the entry, that of \<open>nft_revoke_all\<close> the charges of all entries.
\<close>

definition revoke_refunds ::
    "('s, 'l, 'c, 'e) NonFungibleTokenApproval \<Rightarrow> 's owner_view \<Rightarrow> 's approval_view \<Rightarrow>
     (bool \<Rightarrow> 's \<Rightarrow> bool) \<Rightarrow> 's approval_terms \<Rightarrow> bool" where
  "revoke_refunds M own app ok T \<longleftrightarrow>
     (\<forall>e s h tok a. ok (overflow_checks e) s \<longrightarrow> own s tok = Some (predecessor_account_id e) \<longrightarrow>
        attached_deposit e = 1 \<longrightarrow> usual_sizes app e s tok \<longrightarrow>
        (\<exists>s' h'. approval_nft_revoke M e s h tok a = Inr (s', h') \<and>
           total_paid_to (predecessor_account_id e) h' = total_paid_to (predecessor_account_id e) h +
             (if app s tok a = None then 0 else terms_charge T e a)))"

definition revoke_all_refunds ::
    "('s, 'l, 'c, 'e) NonFungibleTokenApproval \<Rightarrow> 's owner_view \<Rightarrow> 's approval_view \<Rightarrow>
     (bool \<Rightarrow> 's \<Rightarrow> bool) \<Rightarrow> 's approval_terms \<Rightarrow> bool" where
  "revoke_all_refunds M own app ok T \<longleftrightarrow>
     (\<forall>e s h tok. ok (overflow_checks e) s \<longrightarrow> own s tok = Some (predecessor_account_id e) \<longrightarrow>
        attached_deposit e = 1 \<longrightarrow> usual_sizes app e s tok \<longrightarrow>
        (\<exists>s' h'. approval_nft_revoke_all M e s h tok = Inr (s', h') \<and>
           total_paid_to (predecessor_account_id e) h' = total_paid_to (predecessor_account_id e) h +
             (\<Sum>a \<in> dom (app s tok). terms_charge T e a)))"

lemma charged:
  "approve_charges M own app ok T \<Longrightarrow> ok (overflow_checks e) s \<Longrightarrow>
     own s tok = Some (predecessor_account_id e) \<Longrightarrow> terms_ids_left T s tok \<Longrightarrow>
     usual_sizes app e s tok \<Longrightarrow> length a \<le> 64 \<Longrightarrow> 1 \<le> attached_deposit e \<Longrightarrow>
     approval_cost T app e s tok a \<le> unat (attached_deposit e) \<Longrightarrow>
     (msg \<noteq> None \<Longrightarrow> terms_notify_gas T \<le> prepaid_gas e) \<Longrightarrow>
     \<exists>s' h' kept. approval_nft_approve M e s h tok a msg = Inr (s', h') \<and>
       total_paid_to (predecessor_account_id e) h' + approval_cost T app e s tok a + kept =
         total_paid_to (predecessor_account_id e) h + unat (attached_deposit e) \<and> kept \<le> 1"
  unfolding approve_charges_def by blast

lemma refunded:
  "revoke_refunds M own app ok T \<Longrightarrow> ok (overflow_checks e) s \<Longrightarrow>
     own s tok = Some (predecessor_account_id e) \<Longrightarrow> attached_deposit e = 1 \<Longrightarrow>
     usual_sizes app e s tok \<Longrightarrow>
     \<exists>s' h'. approval_nft_revoke M e s h tok a = Inr (s', h') \<and>
       total_paid_to (predecessor_account_id e) h' = total_paid_to (predecessor_account_id e) h +
         (if app s tok a = None then 0 else terms_charge T e a)"
  unfolding revoke_refunds_def by blast

text \<open>
  ``Contract MUST panic if addition would cause \<open>nft_revoke_all\<close> to exceed single-block gas limit'': an
  approval of one more account that returns leaves no more of them than \<open>nft_revoke_all\<close> can revoke.
\<close>

definition approve_within_gas_limit ::
    "('s, 'l, 'c, 'e) NonFungibleTokenApproval \<Rightarrow> 's approval_view \<Rightarrow> (bool \<Rightarrow> 's \<Rightarrow> bool) \<Rightarrow>
     's approval_terms \<Rightarrow> bool" where
  "approve_within_gas_limit M app ok T \<longleftrightarrow>
     (\<forall>e s h tok a msg s' h'. ok (overflow_checks e) s \<longrightarrow> app s tok a = None \<longrightarrow>
        approval_nft_approve M e s h tok a msg = Inr (s', h') \<longrightarrow>
        terms_revoke_all_gas T (card (dom (app s' tok))) \<le> terms_block_gas T)"

subsection \<open>The reports\<close>

text \<open>
  The requirements that the comments of the traits state, each with whether the token meets it: of
  the core, of the resolver, and of approval management.
\<close>

definition nep171_report ::
    "('s, 'l, 'c, 'e) NonFungibleTokenCore \<Rightarrow> 'c ext_nft \<Rightarrow> Gas \<Rightarrow> 's owner_view \<Rightarrow> 's approval_view \<Rightarrow>
     ('s \<Rightarrow> bool) \<Rightarrow> (string \<times> bool) list" where
  "nep171_report M X reserve own app ok =
     [(''one yocto'', nft_wants_one_yocto M),
      (''owner or approved'', nft_wants_authority M own app),
      (''hands the token over'', nft_hands_over M own ok),
      (''nullifies approvals'', nft_nullifies_approvals M app ok),
      (''serves transfers'', nft_serves_transfers M own app ok),
      (''serves transfer calls'', nft_serves_transfer_calls M reserve own app ok),
      (''calls receiver and resolver'', nft_calls_receiver_and_resolver M X own app),
      (''shows the token'', nft_token_answers M own app)]"

definition resolver_report ::
    "('s, 'l, 'c, 'e) NonFungibleTokenResolver \<Rightarrow> (bytes \<Rightarrow> bool option) \<Rightarrow> 's owner_view \<Rightarrow>
     's approval_view \<Rightarrow> ('s \<Rightarrow> bool) \<Rightarrow> (string \<times> bool) list" where
  "resolver_report R from_slice own app ok =
     [(''only self'', resolver_only_self R),
      (''reverts'', resolver_reverts R from_slice own ok),
      (''returns'', resolver_returns R own app ok),
      (''restores unless approved'', resolver_restores_unless_approved R app ok),
      (''restores approvals'', resolver_restores R app ok)]"

definition nep178_report ::
    "('s, 'l, 'c, 'e) NonFungibleTokenApproval \<Rightarrow> 'c ext_nft \<Rightarrow> 's owner_view \<Rightarrow> 's approval_view \<Rightarrow>
     (bool \<Rightarrow> 's \<Rightarrow> bool) \<Rightarrow> 's approval_terms \<Rightarrow> (string \<times> bool) list" where
  "nep178_report M X own app ok T =
     [(''yocto'', approval_wants_yocto M),
      (''only the owner approves'', only_owner_approves M own),
      (''only the owner revokes'', only_owner_revokes M own),
      (''only the owner revokes all'', only_owner_revokes_all M own),
      (''gives a larger id'', approve_gives_larger_id M own app ok),
      (''notifies the approved'', approve_notifies M X app),
      (''approve charges'', approve_charges M own app ok T),
      (''revoke removes'', revoke_removes M own app),
      (''revoke refunds'', revoke_refunds M own app ok T),
      (''revoke all refunds'', revoke_all_refunds M own app ok T),
      (''answers is_approved'', is_approved_answers M own app),
      (''stays within the gas limit'', approve_within_gas_limit M app ok T)]"

subsection \<open>The contract between a token and its holders\<close>

locale nep171 =
  fixes M :: "('s, 'l, 'c, 'e) NonFungibleTokenCore" and X :: "'c ext_nft" and reserve :: Gas
    and own :: "'s owner_view" and app :: "'s approval_view" and ok :: "'s \<Rightarrow> bool"
  assumes one_yocto: "nft_wants_one_yocto M"
    and authority: "nft_wants_authority M own app"
    and hands_over: "nft_hands_over M own ok"
    and nullifies: "nft_nullifies_approvals M app ok"
    and serves: "nft_serves_transfers M own app ok"
    and serves_calls: "nft_serves_transfer_calls M reserve own app ok"
    and calls: "nft_calls_receiver_and_resolver M X own app"
    and token_shown: "nft_token_answers M own app"
begin

lemma sends_effect:
  assumes "ok s" and "nft_sends M e s h r tok aid s' h'"
  shows "ok s'" and "own s' = (own s)(tok \<mapsto> r)" and "app s' = (app s)(tok := Map.empty)"
    and "own s tok \<noteq> None" and "nft_may_send own app s (predecessor_account_id e) tok aid"
proof -
  show "ok s'" and "own s' = (own s)(tok \<mapsto> r)" and "app s' = (app s)(tok := Map.empty)"
    using hands_over nullifies assms unfolding nft_hands_over_def nft_nullifies_approvals_def by blast+
  show "own s tok \<noteq> None" and "nft_may_send own app s (predecessor_account_id e) tok aid"
    using authority assms(2) unfolding nft_wants_authority_def by blast+
qed

text \<open>Neither owner nor approved: no transfer and no transfer call.\<close>

lemma stranger_cannot_send:
  assumes "own s tok \<noteq> Some (predecessor_account_id e)" and "app s tok (predecessor_account_id e) = None"
  shows "\<not> nft_sends M e s h r tok aid s' h'"
  using authority assms unfolding nft_wants_authority_def nft_may_send_def by fastforce

text \<open>After a transfer nobody but the receiver can move the token.\<close>

lemma sent_is_receivers:
  assumes "ok s" and "nft_sends M e s h r tok aid s' h'" and "predecessor_account_id e' \<noteq> r"
  shows "\<not> nft_sends M e' s' h2 r' tok aid' s'' h''"
  using stranger_cannot_send [of s' tok e'] sends_effect [OF assms(1,2)] assms(3) by simp

end

text \<open>A token that also settles its transfer calls.\<close>

locale nep171_settling = nep171 M X reserve own app ok
  for M :: "('s, 'l, 'c, 'e) NonFungibleTokenCore" and X :: "'c ext_nft" and reserve :: Gas
    and own :: "'s owner_view" and app :: "'s approval_view" and ok :: "'s \<Rightarrow> bool" +
  fixes R :: "('s, 'l, 'c, 'e) NonFungibleTokenResolver" and from_slice :: "bytes \<Rightarrow> bool option"
  assumes reverts: "resolver_reverts R from_slice own ok"
    and resolves: "resolver_returns R own app ok"
    and restores: "resolver_restores_unless_approved R app ok"
begin

text \<open>
  A transfer call whose receiver fails or wants to return the token, settled at once with the
  arguments of the scheduled callback: owners and approvals are what they were.
\<close>

lemma call_rolled_back:
  assumes "ok s" and call: "core_nft_transfer_call M e s h r tok aid memo msg = Inr (s1, h1)"
    and "nft_callback e' p" and "wants_return from_slice p"
  shows "\<exists>g g' A owner s2 h3.
     promises h1 = promises h @
       [Then (FunctionCall r (ext_nft_on_transfer X (predecessor_account_id e) owner tok msg) 0 g)
         (FunctionCall (current_account_id e) (ext_nft_resolve_transfer X owner r tok A) 0 g')] \<and>
     resolver_nft_resolve_transfer R e' s1 h2 owner r tok A = Inr (s2, h3, False) \<and>
     own s2 = own s \<and> app s2 = app s"
proof -
  have "nft_sends M e s h r tok aid s1 h1" using call by (auto simp: nft_sends_def)
  note s1 = sends_effect [OF assms(1) this]
  from calls call obtain g g' A owner where
    owner: "own s tok = Some owner" and A: "shown_approvals A = app s tok" and
    prom: "promises h1 = promises h @
       [Then (FunctionCall r (ext_nft_on_transfer X (predecessor_account_id e) owner tok msg) 0 g)
         (FunctionCall (current_account_id e) (ext_nft_resolve_transfer X owner r tok A) 0 g')]"
    unfolding nft_calls_receiver_and_resolver_def by blast
  have empty: "app s1 tok = Map.empty" and own1: "own s1 tok = Some r" using s1(2,3) by simp_all
  have "returns (resolver_nft_resolve_transfer R e' s1 h2 owner r tok A)"
    using resolves s1(1) assms(3) own1 empty unfolding resolver_returns_def by (metis option.distinct(1))
  then obtain s2 h3 kept where
    res: "resolver_nft_resolve_transfer R e' s1 h2 owner r tok A = Inr (s2, h3, kept)"
    by (auto simp: returns_def)
  have "if wants_return from_slice p \<and> own s1 tok = Some r
      then own s2 = (own s1)(tok \<mapsto> owner) \<and> \<not> kept else s2 = s1 \<and> kept"
    using reverts s1(1) assms(3) res unfolding resolver_reverts_def by blast
  with assms(4) own1 have own2: "own s2 = (own s1)(tok \<mapsto> owner)" and "\<not> kept" by simp_all
  then have res: "resolver_nft_resolve_transfer R e' s1 h2 owner r tok A = Inr (s2, h3, False)"
    using res by simp
  have "app s2 = (app s1)(tok := shown_approvals A)"
    using restores s1(1) assms(3) empty res unfolding resolver_restores_unless_approved_def by blast
  moreover have "own s2 = own s" unfolding own2 s1(2) using owner by (auto simp: fun_eq_iff)
  ultimately show ?thesis using prom res A s1(3) by (auto simp: fun_eq_iff)
qed

end

text \<open>A token with approval management, which need not watch the gas limit.\<close>

locale nep178 = nep171 M X reserve own app "ok True"
  for M :: "('s, 'l, 'c, 'e) NonFungibleTokenCore" and X :: "'c ext_nft" and reserve :: Gas
    and own :: "'s owner_view" and app :: "'s approval_view" and ok :: "bool \<Rightarrow> 's \<Rightarrow> bool" +
  fixes P :: "('s, 'l, 'c, 'e) NonFungibleTokenApproval" and T :: "'s approval_terms"
  assumes yocto: "approval_wants_yocto P"
    and owner_approves: "only_owner_approves P own"
    and owner_revokes: "only_owner_revokes P own"
    and owner_revokes_all: "only_owner_revokes_all P own"
    and larger_id: "approve_gives_larger_id P own app ok"
    and notifies: "approve_notifies P X app"
    and charges: "approve_charges P own app ok T"
    and removes: "revoke_removes P own app"
    and refunds: "revoke_refunds P own app ok T"
    and refunds_all: "revoke_all_refunds P own app ok T"
    and answers: "is_approved_answers P own app"
begin

text \<open>
  A sale: the owner approves the market, which hands the token to the buyer under the approval id it
  was given.  It cannot do so twice, and whoever was approved beside it cannot either.
\<close>

lemma sale_happens_once:
  assumes "ok True s" and "overflow_checks e"
    and list: "approval_nft_approve P e s h tok market msg = Inr (s1, h1)"
    and "predecessor_account_id e1 = market" and "attached_deposit e1 = 1"
    and "buyer \<noteq> predecessor_account_id e"
  shows "\<exists>i s2 h3. app s1 tok market = Some i \<and>
     core_nft_transfer M e1 s1 h2 buyer tok (Some i) memo = Inr (s2, h3) \<and>
     own s2 = (own s)(tok \<mapsto> buyer) \<and> app s2 tok = Map.empty \<and>
     (\<forall>e2 h4 r aid s3 h5. predecessor_account_id e2 \<noteq> buyer \<longrightarrow>
        \<not> nft_sends M e2 s2 h4 r tok aid s3 h5)"
proof -
  from larger_id assms(1-3) obtain i where ok1: "ok True s1" and own1: "own s1 = own s"
    and app1: "app s1 = (app s)(tok := (app s tok)(market \<mapsto> i))"
    unfolding approve_gives_larger_id_def by (metis (full_types))
  have owner: "own s tok = Some (predecessor_account_id e)"
    using owner_approves list unfolding only_owner_approves_def by (force simp: returns_def)
  have i: "app s1 tok market = Some i" by (simp add: app1)
  then have "nft_may_send own app s1 market tok (Some i)" by (simp add: nft_may_send_def)
  then have "returns (core_nft_transfer M e1 s1 h2 buyer tok (Some i) memo)"
    using serves ok1 assms(4-6) owner own1 unfolding nft_serves_transfers_def by force
  then obtain s2 h3 where run: "core_nft_transfer M e1 s1 h2 buyer tok (Some i) memo = Inr (s2, h3)"
    by (auto simp: returns_def)
  then have "nft_sends M e1 s1 h2 buyer tok (Some i) s2 h3" by (auto simp: nft_sends_def)
  from sends_effect [OF ok1 this] sent_is_receivers [OF ok1 this] show ?thesis
    using i run own1 by auto
qed

text \<open>An approval that is revoked at the same byte price has cost the owner at most two yoctoNEAR.\<close>

lemma revoked_approval_costs_nothing:
  assumes "ok True s" and "overflow_checks e" and "overflow_checks e2"
    and "approval_nft_approve P e s no_effects tok a msg = Inr (s1, h1)"
    and "terms_ids_left T s tok" and "usual_sizes app e s tok" and "length a \<le> 64"
    and "app s tok a = None" and "terms_charge T e a \<le> unat (attached_deposit e)"
    and "msg = None" and "usual_sizes app e2 s1 tok" and "terms_charge T e2 a = terms_charge T e a"
    and "predecessor_account_id e2 = predecessor_account_id e" and "attached_deposit e2 = 1"
  shows "\<exists>s2 h2. approval_nft_revoke P e2 s1 no_effects tok a = Inr (s2, h2) \<and>
     unat (attached_deposit e) + 1 \<le>
       total_paid_to (predecessor_account_id e) h1 + total_paid_to (predecessor_account_id e) h2 + 2"
proof -
  from larger_id assms(1,2,4) have ok1: "ok True s1" and own1: "own s1 = own s"
    and app1: "app s1 tok a \<noteq> None"
    unfolding approve_gives_larger_id_def by (metis (full_types) fun_upd_same option.distinct(1))+
  have owner: "own s tok = Some (predecessor_account_id e)"
    using owner_approves assms(4) unfolding only_owner_approves_def by (force simp: returns_def)
  have "1 \<le> attached_deposit e"
    using yocto assms(4) unfolding approval_wants_yocto_def by (force simp: returns_def)
  then obtain s' h' kept where "approval_nft_approve P e s no_effects tok a msg = Inr (s', h')"
    and "total_paid_to (predecessor_account_id e) h' + terms_charge T e a + kept =
      unat (attached_deposit e)" and "kept \<le> 1"
    using charged [OF charges, of e s tok a msg no_effects] assms(1,2,5-10) owner
    by (auto simp: approval_cost_def)
  moreover obtain s2 h2 where "approval_nft_revoke P e2 s1 no_effects tok a = Inr (s2, h2)"
    and "total_paid_to (predecessor_account_id e) h2 = terms_charge T e a"
    using refunded [OF refunds, of e2 s1 tok no_effects a] ok1 own1 app1 owner assms(3,11-14)
    by auto
  ultimately show ?thesis using assms(4) by auto
qed

text \<open>Revoked in time, the market cannot sell.\<close>

lemma revoked_cannot_send:
  assumes "approval_nft_revoke P e s h tok market = Inr (s1, h1) \<or>
      approval_nft_revoke_all P e s h tok = Inr (s1, h1)"
    and "predecessor_account_id e1 = market" and "own s tok \<noteq> Some market"
  shows "\<not> nft_sends M e1 s1 h2 r tok aid s2 h3"
proof -
  from removes assms(1) have "own s1 = own s" and "app s1 tok market = None"
    unfolding revoke_removes_def by (metis fun_upd_same)+
  then show ?thesis using stranger_cannot_send [of s1 tok e1] assms(2,3) by simp
qed

end

end
