(* ===== verification/NftPackage.thy ===== *)
theory NftPackage
  imports NftProperties
begin

section \<open>The package the guard-less tokens are built on\<close>

text \<open>
  The crates \<open>nft-approval-check\<close> and \<open>nft-owner-check\<close> keep the token of the theory \<open>Nft\<close> with one
  guard left out.  The helpers that \<open>nep-interface\<close> has in \<open>utils.rs\<close> and \<open>events.rs\<close>, these crates
  take from the package \<open>near_contract_standards\<close>, which is not in the repository: they are the
  record \<open>nft_package\<close>, a parameter.  \<open>nep_package\<close> is the record of the functions of
  \<open>nep-interface\<close>, which is itself written after that package.
\<close>

record nft_package =
  pkg_bytes_for_approved_account_id :: "env \<Rightarrow> AccountId \<Rightarrow> u64 nft_result"
  pkg_refund_approved_account_ids_iter ::
    "env \<Rightarrow> AccountId \<Rightarrow> AccountId list \<Rightarrow> nft_effects \<Rightarrow> nft_effects nft_result"
  pkg_refund_approved_account_ids ::
    "env \<Rightarrow> AccountId \<Rightarrow> approvals \<Rightarrow> nft_effects \<Rightarrow> nft_effects nft_result"
  pkg_refund_deposit :: "env \<Rightarrow> u64 \<Rightarrow> nft_effects \<Rightarrow> nft_effects nft_result"
  pkg_transfer_emit :: "NftTransfer \<Rightarrow> nft_effects \<Rightarrow> nft_effects"

definition nep_package :: nft_package where
  "nep_package =
     \<lparr>pkg_bytes_for_approved_account_id = bytes_for_approved_account_id,
      pkg_refund_approved_account_ids_iter = refund_approved_account_ids_iter,
      pkg_refund_approved_account_ids = refund_approved_account_ids,
      pkg_refund_deposit = refund_deposit,
      pkg_transfer_emit = nft_transfer_emit\<rparr>"

lemma nep_package_simps [simp]:
  "pkg_bytes_for_approved_account_id nep_package = bytes_for_approved_account_id"
  "pkg_refund_approved_account_ids_iter nep_package = refund_approved_account_ids_iter"
  "pkg_refund_approved_account_ids nep_package = refund_approved_account_ids"
  "pkg_refund_deposit nep_package = refund_deposit"
  "pkg_transfer_emit nep_package = nft_transfer_emit"
  by (simp_all add: nep_package_def)

text \<open>The constructor of the two crates is that of \<open>nep-interface\<close> without the measuring.\<close>

lemma nft_new_measures:
  "nft_new K usage e owner_prefix owner metadata_prefix enumeration_prefix approval_prefix =
     nft_measure_min_token_storage_cost K usage e
       \<lparr>nft_owner_id = owner,
        extra_storage_in_bytes_per_token = 0,
        owner_by_id = lm_new (owners_ops K) owner_prefix,
        token_metadata_by_id = map_option (lm_new (metadata_ops K)) metadata_prefix,
        tokens_per_owner = map_option (lm_new (per_owner_ops K)) enumeration_prefix,
        approvals_by_id = map_option (lm_new (approvals_ops K)) approval_prefix,
        next_approval_id_by_id =
          map_option (\<lambda>p. lm_new (next_id_ops K) (p @ as_bytes ''n'')) approval_prefix\<rparr>"
  by (simp add: nft_new_def)

end
