(* ===== verification/NftApprovalCheck.thy ===== *)
theory NftApprovalCheck
  imports NftPackage
begin

section \<open>A token whose transfer does not check the sender\<close>

text \<open>
  The crate \<open>nft-approval-check\<close>: the core of a non-fungible token with its own copy of every
  method, in which \<open>nft_transfer\<close> moves the token with \<open>internal_transfer_unsafe\<close>, the transfer
  without the check of sender and approval id.  One theorem says that everybody can move
  everything; the other, that all the other methods are those of \<open>nep-interface\<close>.
\<close>

subsection \<open>Types\<close>

text \<open>
  The crate declares the struct, its storage key and the traits it calls a second time, field by
  field and method by method as \<open>nep-interface\<close> does.
\<close>

type_synonym ('o, 'md, 'te, 'ap, 'nx) ac_NFT = "('o, 'md, 'te, 'ap, 'nx) NonFungibleToken"

type_synonym ac_StorageKey = StorageKey

type_synonym ac_calls = NftCall

subsection \<open>Constants and construction\<close>

definition AC_GAS_FOR_RESOLVE_TRANSFER :: Gas where
  "AC_GAS_FOR_RESOLVE_TRANSFER = 5000000000000"

definition AC_GAS_FOR_NFT_TRANSFER_CALL :: Gas where
  "AC_GAS_FOR_NFT_TRANSFER_CALL = 25000000000000 + AC_GAS_FOR_RESOLVE_TRANSFER"

definition ac_new ::
    "('o, 'md, 'te, 'us, 'ap, 'nx) nft_ops \<Rightarrow> bytes \<Rightarrow> AccountId \<Rightarrow> bytes option \<Rightarrow> bytes option \<Rightarrow>
     bytes option \<Rightarrow> ('o, 'md, 'te, 'ap, 'nx) ac_NFT" where
  "ac_new K owner_by_id_prefix owner_id token_metadata_prefix enumeration_prefix
       approval_prefix =
     \<lparr>nft_owner_id = owner_id,
      extra_storage_in_bytes_per_token = 0,
      owner_by_id = lm_new (owners_ops K) owner_by_id_prefix,
      token_metadata_by_id = map_option (lm_new (metadata_ops K)) token_metadata_prefix,
      tokens_per_owner = map_option (lm_new (per_owner_ops K)) enumeration_prefix,
      approvals_by_id = map_option (lm_new (approvals_ops K)) approval_prefix,
      next_approval_id_by_id =
        map_option (\<lambda>prefix. lm_new (next_id_ops K) (prefix @ as_bytes ''n'')) approval_prefix\<rparr>"

subsection \<open>Moving a token\<close>

definition ac_internal_transfer_unguarded ::
    "('o, 'md, 'te, 'us, 'ap, 'nx) nft_ops \<Rightarrow> ('o, 'md, 'te, 'ap, 'nx) ac_NFT \<Rightarrow>
     TokenId \<Rightarrow> AccountId \<Rightarrow> AccountId \<Rightarrow> ('o, 'md, 'te, 'ap, 'nx) ac_NFT nft_result" where
  "ac_internal_transfer_unguarded K t token_id from to =
     (let t1 = t\<lparr>owner_by_id := fst (lm_insert (owners_ops K) (owner_by_id t) token_id to)\<rparr> in
      case tokens_per_owner t1 of
        None \<Rightarrow> Inr t1
      | Some per_owner \<Rightarrow>
          rbind (unwrap_or_panic (Msg NoTokensPerOwner)
                   (lm_get (per_owner_ops K) per_owner from)) (\<lambda>owner_tokens.
          let owner_tokens1 = fst (us_remove (token_set_ops K) owner_tokens token_id);
              per_owner1 =
                (if us_is_empty (token_set_ops K) owner_tokens1
                 then fst (lm_remove (per_owner_ops K) per_owner from)
                 else fst (lm_insert (per_owner_ops K) per_owner from owner_tokens1));
              receiver_tokens =
                unwrap_or (new_token_set K to) (lm_get (per_owner_ops K) per_owner1 to);
              receiver_tokens1 = fst (us_insert (token_set_ops K) receiver_tokens token_id)
          in Inr (t1\<lparr>tokens_per_owner :=
                       Some (fst (lm_insert (per_owner_ops K) per_owner1 to receiver_tokens1))\<rparr>)))"

text \<open>\<open>sender_id.filter(|sender_id| *sender_id == owner_id)\<close> is the event's \<open>authorized_id\<close>.\<close>

definition ac_emit_transfer ::
    "nft_package \<Rightarrow> AccountId \<Rightarrow> AccountId \<Rightarrow> TokenId \<Rightarrow> AccountId option \<Rightarrow> string option \<Rightarrow>
     nft_effects \<Rightarrow> nft_effects" where
  "ac_emit_transfer P owner_id receiver_id token_id sender_id memo h =
     pkg_transfer_emit P
       (NftTransfer owner_id receiver_id [token_id]
          (case sender_id of Some s \<Rightarrow> if s = owner_id then Some s else None | None \<Rightarrow> None)
          memo) h"

text \<open>The check in the middle of \<open>internal_transfer\<close>.\<close>

definition ac_authorize ::
    "AccountId \<Rightarrow> AccountId \<Rightarrow> approvals option \<Rightarrow> u64 option \<Rightarrow> AccountId option nft_result" where
  "ac_authorize sender_id owner_id approved_account_ids approval_id =
     (if sender_id \<noteq> owner_id then
        rbind (unwrap_or_panic (Msg Unauthorized) approved_account_ids) (\<lambda>app_acc_ids.
        let actual_approval_id = DAList.lookup app_acc_ids sender_id in
        if actual_approval_id = None then Inl (Msg SenderNotApproved)
        else
          rbind (require (approval_id = None \<or> actual_approval_id = approval_id)
                   (Msg (WrongApprovalId actual_approval_id approval_id))) (\<lambda>_.
          Inr (Some sender_id)))
      else Inr None)"

definition ac_internal_transfer ::
    "nft_package \<Rightarrow> ('o, 'md, 'te, 'us, 'ap, 'nx) nft_ops \<Rightarrow> ('o, 'md, 'te, 'ap, 'nx) ac_NFT \<Rightarrow>
     nft_effects \<Rightarrow> AccountId \<Rightarrow> AccountId \<Rightarrow> TokenId \<Rightarrow> u64 option \<Rightarrow> string option \<Rightarrow>
     (('o, 'md, 'te, 'ap, 'nx) ac_NFT \<times> nft_effects \<times> AccountId \<times> approvals option)
       nft_result" where
  "ac_internal_transfer P K t h sender_id receiver_id token_id approval_id memo =
     rbind (unwrap_or_panic (Msg TokenNotFound)
              (lm_get (owners_ops K) (owner_by_id t) token_id)) (\<lambda>owner_id.
     let (by_id, approved_account_ids) =
           (case approvals_by_id t of
              None \<Rightarrow> (None, None)
            | Some m \<Rightarrow> (let (m1, old) = lm_remove (approvals_ops K) m token_id in (Some m1, old)));
         t1 = t\<lparr>approvals_by_id := by_id\<rparr>
     in
     rbind (ac_authorize sender_id owner_id approved_account_ids approval_id) (\<lambda>sender_id.
     rbind (require (owner_id \<noteq> receiver_id) (Msg OwnersMustDiffer)) (\<lambda>_.
     rbind (ac_internal_transfer_unguarded K t1 token_id owner_id receiver_id) (\<lambda>t2.
     Inr (t2, ac_emit_transfer P owner_id receiver_id token_id sender_id memo h,
          owner_id, approved_account_ids)))))"

text \<open>\<open>internal_transfer\<close> without the check of the sender and its approval id.\<close>

definition ac_internal_transfer_unsafe ::
    "nft_package \<Rightarrow> ('o, 'md, 'te, 'us, 'ap, 'nx) nft_ops \<Rightarrow> ('o, 'md, 'te, 'ap, 'nx) ac_NFT \<Rightarrow>
     nft_effects \<Rightarrow> AccountId \<Rightarrow> AccountId \<Rightarrow> TokenId \<Rightarrow> u64 option \<Rightarrow> string option \<Rightarrow>
     (('o, 'md, 'te, 'ap, 'nx) ac_NFT \<times> nft_effects \<times> AccountId \<times> approvals option)
       nft_result" where
  "ac_internal_transfer_unsafe P K t h sender_id receiver_id token_id approval_id memo =
     rbind (unwrap_or_panic (Msg TokenNotFound)
              (lm_get (owners_ops K) (owner_by_id t) token_id)) (\<lambda>owner_id.
     let (by_id, approved_account_ids) =
           (case approvals_by_id t of
              None \<Rightarrow> (None, None)
            | Some m \<Rightarrow> (let (m1, old) = lm_remove (approvals_ops K) m token_id in (Some m1, old)));
         t1 = t\<lparr>approvals_by_id := by_id\<rparr>;
         sender = (if sender_id \<noteq> owner_id then Some sender_id else None)
     in
     rbind (require (owner_id \<noteq> receiver_id) (Msg OwnersMustDiffer)) (\<lambda>_.
     rbind (ac_internal_transfer_unguarded K t1 token_id owner_id receiver_id) (\<lambda>t2.
     Inr (t2, ac_emit_transfer P owner_id receiver_id token_id sender memo h,
          owner_id, approved_account_ids))))"

subsection \<open>\<open>NonFungibleTokenCore\<close>\<close>

definition ac_nft_transfer ::
    "nft_package \<Rightarrow> ('o, 'md, 'te, 'us, 'ap, 'nx) nft_ops \<Rightarrow> env \<Rightarrow>
     ('o, 'md, 'te, 'ap, 'nx) ac_NFT \<Rightarrow> nft_effects \<Rightarrow>
     AccountId \<Rightarrow> TokenId \<Rightarrow> u64 option \<Rightarrow> string option \<Rightarrow>
     (('o, 'md, 'te, 'ap, 'nx) ac_NFT \<times> nft_effects) nft_result" where
  "ac_nft_transfer P K e t h receiver_id token_id approval_id memo =
     rbind (assert_one_yocto e) (\<lambda>_.
     let sender_id = predecessor_account_id e in
     rbind (ac_internal_transfer_unsafe P K t h sender_id receiver_id token_id approval_id memo)
       (\<lambda>(t1, h1, _, _). Inr (t1, h1)))"

definition ac_nft_transfer_call ::
    "nft_package \<Rightarrow> ('o, 'md, 'te, 'us, 'ap, 'nx) nft_ops \<Rightarrow> env \<Rightarrow>
     ('o, 'md, 'te, 'ap, 'nx) ac_NFT \<Rightarrow> nft_effects \<Rightarrow>
     AccountId \<Rightarrow> TokenId \<Rightarrow> u64 option \<Rightarrow> string option \<Rightarrow> string \<Rightarrow>
     (('o, 'md, 'te, 'ap, 'nx) ac_NFT \<times> nft_effects) nft_result" where
  "ac_nft_transfer_call P K e t h receiver_id token_id approval_id memo msg =
     rbind (assert_one_yocto e) (\<lambda>_.
     rbind (require (AC_GAS_FOR_NFT_TRANSFER_CALL < prepaid_gas e) (Msg NftMoreGasRequired)) (\<lambda>_.
     let sender_id = predecessor_account_id e in
     rbind (ac_internal_transfer P K t h sender_id receiver_id token_id approval_id memo)
       (\<lambda>(t1, h1, old_owner, old_approvals).
     rbind (sub_op (overflow_checks e) (prepaid_gas e) AC_GAS_FOR_NFT_TRANSFER_CALL) (\<lambda>gas.
     Inr (t1, schedule
       (Then (FunctionCall receiver_id (NftOnTransfer sender_id old_owner token_id msg) 0 gas)
          (FunctionCall (current_account_id e)
             (NftResolveTransfer old_owner receiver_id token_id old_approvals) 0
             AC_GAS_FOR_RESOLVE_TRANSFER)) h1)))))"

definition ac_nft_token ::
    "('o, 'md, 'te, 'us, 'ap, 'nx) nft_ops \<Rightarrow> ('o, 'md, 'te, 'ap, 'nx) ac_NFT \<Rightarrow>
     TokenId \<Rightarrow> Token option" where
  "ac_nft_token K t token_id =
     (case lm_get (owners_ops K) (owner_by_id t) token_id of
        None \<Rightarrow> None
      | Some owner_id \<Rightarrow>
          Some \<lparr>tok_token_id = token_id,
                tok_owner_id = owner_id,
                tok_metadata =
                  (case token_metadata_by_id t of
                     None \<Rightarrow> None | Some by_id \<Rightarrow> lm_get (metadata_ops K) by_id token_id),
                tok_approved_account_ids =
                  (case approvals_by_id t of
                     None \<Rightarrow> None
                   | Some by_id \<Rightarrow>
                       (case lm_get (approvals_ops K) by_id token_id of
                          None \<Rightarrow> Some DAList.empty | Some a \<Rightarrow> Some a))\<rparr>)"

subsection \<open>Settling a transfer call\<close>

text \<open>\<open>from_slice\<close> stands for \<open>serde_json::from_slice::<bool>\<close>.\<close>

definition ac_must_revert :: "(bytes \<Rightarrow> bool option) \<Rightarrow> PromiseResult \<Rightarrow> bool nft_result" where
  "ac_must_revert from_slice r =
     (case r of
        Successful value \<Rightarrow>
          (case from_slice value of Some yes_or_no \<Rightarrow> Inr yes_or_no | None \<Rightarrow> Inr True)
      | Failed \<Rightarrow> Inr True
      | NotReady \<Rightarrow> Inl UnreachableReached)"

text \<open>The last part of \<open>nft_resolve_transfer\<close>: refund the receiver's approvals, restore the owner's.\<close>

definition ac_restore_approvals ::
    "nft_package \<Rightarrow> ('o, 'md, 'te, 'us, 'ap, 'nx) nft_ops \<Rightarrow> env \<Rightarrow>
     ('o, 'md, 'te, 'ap, 'nx) ac_NFT \<Rightarrow> nft_effects \<Rightarrow>
     AccountId \<Rightarrow> TokenId \<Rightarrow> approvals option \<Rightarrow>
     (('o, 'md, 'te, 'ap, 'nx) ac_NFT \<times> nft_effects) nft_result" where
  "ac_restore_approvals P K e t h receiver_id token_id approved_account_ids =
     (case approvals_by_id t of
        None \<Rightarrow> Inr (t, h)
      | Some by_id \<Rightarrow>
          rbind (case lm_get (approvals_ops K) by_id token_id of
                   Some receiver_approvals \<Rightarrow>
                     pkg_refund_approved_account_ids P e receiver_id receiver_approvals h
                 | None \<Rightarrow> Inr h) (\<lambda>h1.
          case approved_account_ids of
            Some previous_owner_approvals \<Rightarrow>
              Inr (t\<lparr>approvals_by_id := Some (fst (lm_insert (approvals_ops K) by_id token_id
                                                previous_owner_approvals))\<rparr>, h1)
          | None \<Rightarrow> Inr (t, h1)))"

definition ac_nft_resolve_transfer ::
    "nft_package \<Rightarrow> ('o, 'md, 'te, 'us, 'ap, 'nx) nft_ops \<Rightarrow> (bytes \<Rightarrow> bool option) \<Rightarrow> env \<Rightarrow>
     ('o, 'md, 'te, 'ap, 'nx) ac_NFT \<Rightarrow> nft_effects \<Rightarrow>
     AccountId \<Rightarrow> AccountId \<Rightarrow> TokenId \<Rightarrow> approvals option \<Rightarrow>
     (('o, 'md, 'te, 'ap, 'nx) ac_NFT \<times> nft_effects \<times> bool) nft_result" where
  "ac_nft_resolve_transfer P K from_slice e t h previous_owner_id receiver_id token_id
       approved_account_ids =
     rbind (env_promise_result e 0) (\<lambda>r.
     rbind (ac_must_revert from_slice r) (\<lambda>must_revert.
     if \<not> must_revert then Inr (t, h, True)
     else
       case lm_get (owners_ops K) (owner_by_id t) token_id of
         None \<Rightarrow>
           (case approved_account_ids of
              Some a \<Rightarrow>
                rbind (pkg_refund_approved_account_ids P e previous_owner_id a h) (\<lambda>h1.
                Inr (t, h1, True))
            | None \<Rightarrow> Inr (t, h, True))
       | Some current_owner \<Rightarrow>
           if current_owner \<noteq> receiver_id then Inr (t, h, True)
           else
             rbind (ac_internal_transfer_unguarded K t token_id receiver_id previous_owner_id)
               (\<lambda>t1.
             rbind (ac_restore_approvals P K e t1 h receiver_id token_id approved_account_ids)
               (\<lambda>(t2, h1).
             Inr (t2, ac_emit_transfer P receiver_id previous_owner_id token_id None None h1,
                  False)))))"

subsection \<open>The methods that are those of \<open>nep-interface\<close>\<close>

lemma ac_gas: "AC_GAS_FOR_RESOLVE_TRANSFER = NFT_GAS_FOR_RESOLVE_TRANSFER"
    "AC_GAS_FOR_NFT_TRANSFER_CALL = GAS_FOR_NFT_TRANSFER_CALL"
  by (simp_all add: AC_GAS_FOR_RESOLVE_TRANSFER_def AC_GAS_FOR_NFT_TRANSFER_CALL_def
      NFT_GAS_FOR_RESOLVE_TRANSFER_def GAS_FOR_NFT_TRANSFER_CALL_def)

lemma ac_unguarded_eq: "ac_internal_transfer_unguarded = nft_internal_transfer_unguarded"
  unfolding ac_internal_transfer_unguarded_def nft_internal_transfer_unguarded_def ..

lemma ac_emit_eq: "ac_emit_transfer nep_package = nft_emit_transfer"
  unfolding ac_emit_transfer_def nft_emit_transfer_def nep_package_simps ..

lemma ac_authorize_eq: "ac_authorize = nft_authorize"
  unfolding ac_authorize_def nft_authorize_def ..

lemma ac_internal_transfer_eq: "ac_internal_transfer nep_package = nft_internal_transfer"
  unfolding ac_internal_transfer_def nft_internal_transfer_def ac_authorize_eq ac_unguarded_eq
    ac_emit_eq ..

lemma ac_transfer_call_eq: "ac_nft_transfer_call nep_package = nft_transfer_call"
  unfolding ac_nft_transfer_call_def nft_transfer_call_def ac_internal_transfer_eq ac_gas
    nft_call_promise_def ..

lemma ac_token_eq: "ac_nft_token = nft_token"
  unfolding ac_nft_token_def nft_token_def ..

lemma ac_restore_eq: "ac_restore_approvals nep_package = nft_restore_approvals"
  unfolding ac_restore_approvals_def nft_restore_approvals_def nep_package_simps ..

lemma ac_must_revert_iff: "ac_must_revert from_slice r = Inr b \<longleftrightarrow> nft_must_revert from_slice r = Inr b"
  by (simp add: ac_must_revert_def nft_must_revert_def split: PromiseResult.split)

lemma ac_resolve_iff:
  "ac_nft_resolve_transfer nep_package K from_slice e t h po r tok A = Inr x \<longleftrightarrow>
     nft_resolve_transfer K from_slice e t h po r tok A = Inr x"
  unfolding ac_nft_resolve_transfer_def nft_resolve_transfer_def ac_unguarded_eq ac_restore_eq
    ac_emit_eq nep_package_simps rbind_eq_Inr ac_must_revert_iff ..

subsection \<open>The transfer without a check\<close>

text \<open>It is the checked one with the token's owner in the role of the sender.\<close>

lemma unsafe_transfer_is_owners:
  assumes "nft_owners K t tok = Some owner"
  shows "ac_internal_transfer_unsafe P K t h s r tok aid memo =
     ac_internal_transfer P K t h owner r tok aid memo"
proof -
  have "ac_emit_transfer P owner r tok (if s \<noteq> owner then Some s else None) memo =
      ac_emit_transfer P owner r tok None memo"
    by (simp add: ac_emit_transfer_def fun_eq_iff)
  then show ?thesis
    using assms
    by (simp add: ac_internal_transfer_unsafe_def ac_internal_transfer_def nft_owners_def
        ac_authorize_def Let_def case_prod_beta)
qed

lemma ac_transfer_is_owners:
  "ac_nft_transfer nep_package K e t h r tok aid memo =
     (if attached_deposit e = 1 \<and> nft_owners K t tok = None then Inl (Msg TokenNotFound)
      else nft_transfer K (e\<lparr>predecessor_account_id := the (nft_owners K t tok)\<rparr>) t h r tok aid memo)"
proof (cases "nft_owners K t tok")
  case None
  then show ?thesis
    by (simp add: ac_nft_transfer_def nft_transfer_def ac_internal_transfer_unsafe_def nft_owners_def
        assert_one_yocto_def require_def)
next
  case (Some owner)
  then show ?thesis
    by (simp add: ac_nft_transfer_def nft_transfer_def unsafe_transfer_is_owners
        ac_internal_transfer_eq assert_one_yocto_def)
qed

lemma owner_transfer_outcome:
  assumes "nft_store K" and "nft_index_ok K t" and "nft_owners K t tok = Some owner"
    and "predecessor_account_id e = owner"
  shows "if attached_deposit e = 1 \<and> owner \<noteq> receiver
    then \<exists>t'. nft_transfer K e t h receiver tok aid memo =
           Inr (t', nft_transfer_emit (NftTransfer owner receiver [tok] None memo) h) \<and>
         nft_moved K t tok receiver None t' \<and> nft_index_ok K t'
    else \<exists>p. nft_transfer K e t h receiver tok aid memo = Inl p"
proof (cases "attached_deposit e = 1 \<and> owner \<noteq> receiver")
  case True
  obtain t' where "nft_internal_transfer K t h owner receiver tok aid memo =
      Inr (t', nft_transfer_emit (NftTransfer owner receiver [tok] None memo) h, owner,
        nft_approvals K t tok)"
    "nft_moved K t tok receiver None t'" "nft_index_ok K t'"
    using nft_store.internal_transfer_moves [OF assms(1-3)] True assms(3)
    by (metis nft_authorized_def)
  with True assms(4) show ?thesis by (auto simp: nft_transfer_def assert_one_yocto_def)
next
  case False
  have "nft_transfer K e t h receiver tok aid memo \<noteq> Inr (t', h')" for t' h'
    using nft_store.transfer_returns(1,3) [OF assms(1) _ assms(2)] False assms(3) by fastforce
  then show ?thesis unfolding if_not_P [OF False] by (metis sum.exhaust surj_pair)
qed

subsection \<open>Properties\<close>

text \<open>In \<open>nft-approval-check\<close> every account can move every token.  With one yoctoNEAR attached,
  \<open>nft_transfer\<close> returns for any caller and any approval id as soon as the token exists and the
  receiver does not own it yet, and the token is then the receiver's, with nobody approved for it;
  the event does not name the caller.  It is, to the state and the effects, what \<open>nft_transfer\<close> of
  \<open>nep-interface\<close> does when the owner calls it.\<close>

theorem unchecked_transfer_moves_any_token:
  assumes "nft_store K" and "nft_index_ok K t"
  shows "(if attached_deposit e = 1 \<and> nft_owners K t tok \<noteq> None \<and> nft_owners K t tok \<noteq> Some receiver
    then \<exists>t'. ac_nft_transfer nep_package K e t h receiver tok approval_id memo =
           Inr (t', nft_transfer_emit
             (NftTransfer (the (nft_owners K t tok)) receiver [tok] None memo) h) \<and>
         nft_moved K t tok receiver None t' \<and> nft_index_ok K t'
    else \<exists>p. ac_nft_transfer nep_package K e t h receiver tok approval_id memo = Inl p) \<and>
    (\<forall>owner. nft_owners K t tok = Some owner \<longrightarrow>
       ac_nft_transfer nep_package K e t h receiver tok approval_id memo =
       nft_transfer K (e\<lparr>predecessor_account_id := owner\<rparr>) t h receiver tok approval_id memo)"
proof (intro conjI allI impI)
  show "ac_nft_transfer nep_package K e t h receiver tok approval_id memo =
      nft_transfer K (e\<lparr>predecessor_account_id := owner\<rparr>) t h receiver tok approval_id memo"
    if "nft_owners K t tok = Some owner" for owner
    using that by (simp add: ac_transfer_is_owners)
  show "if attached_deposit e = 1 \<and> nft_owners K t tok \<noteq> None \<and> nft_owners K t tok \<noteq> Some receiver
    then \<exists>t'. ac_nft_transfer nep_package K e t h receiver tok approval_id memo =
           Inr (t', nft_transfer_emit
             (NftTransfer (the (nft_owners K t tok)) receiver [tok] None memo) h) \<and>
         nft_moved K t tok receiver None t' \<and> nft_index_ok K t'
    else \<exists>p. ac_nft_transfer nep_package K e t h receiver tok approval_id memo = Inl p"
  proof (cases "nft_owners K t tok")
    case None
    then show ?thesis
      by (simp add: ac_transfer_is_owners nft_transfer_def assert_one_yocto_def require_def)
  next
    case (Some owner)
    with owner_transfer_outcome [OF assms Some, of "e\<lparr>predecessor_account_id := owner\<rparr>" receiver h
        approval_id memo] show ?thesis
      by (simp add: ac_transfer_is_owners split: if_splits)
  qed
qed

text \<open>Mallory takes Alice's token, and Bob, whom Alice had approved, is approved no more.\<close>

theorem unchecked_transfer_moves_any_token_witness:
  "\<exists>t'. ac_nft_transfer nep_package list_nft_ops (nft_demo_env ''mallory'' 1 []) nft_demo no_effects
       ''mallory'' ''t1'' None None = Inr (t', nft_transfer_emit
         (NftTransfer ''alice'' ''mallory'' [''t1''] None None) no_effects) \<and>
     nft_owners list_nft_ops t' ''t1'' = Some ''mallory''"
  using unchecked_transfer_moves_any_token [OF nft_demo_store nft_demo_index_ok, of
      "nft_demo_env ''mallory'' 1 []" "''t1''" "''mallory''" no_effects None None, THEN conjunct1]
  by (auto simp: nft_moved_def)

text \<open>C39: everything else in \<open>nft-approval-check\<close> is \<open>nep-interface\<close>.  Over the package's functions
  as \<open>nep-interface\<close> has them, the transfer call, the view of a token and the constructor (up to
  the measuring of the storage) are the same functions, the unguarded move and the checked internal
  transfer behind them too, and the settlement returns the same results: the crate guards its
  \<open>nft_transfer_call\<close> and leaves \<open>nft_transfer\<close> open.\<close>

theorem approval_check_otherwise_standard:
  "ac_nft_transfer_call nep_package K e t h r tok aid memo msg =
     nft_transfer_call K e t h r tok aid memo msg \<and>
   ac_nft_token K t tok = nft_token K t tok \<and>
   ac_internal_transfer_unguarded K t tok a b = nft_internal_transfer_unguarded K t tok a b \<and>
   (\<forall>x. ac_nft_resolve_transfer nep_package K from_slice e t h a r tok A = Inr x \<longleftrightarrow>
      nft_resolve_transfer K from_slice e t h a r tok A = Inr x) \<and>
   nft_new K usage e pre owner mp ep ap =
     nft_measure_min_token_storage_cost K usage e (ac_new K pre owner mp ep ap)"
  by (simp add: ac_transfer_call_eq ac_token_eq ac_unguarded_eq ac_resolve_iff nft_new_measures
      ac_new_def)

end
