(* ===== verification/NftOwnerCheck.thy ===== *)
theory NftOwnerCheck
  imports NftPackage
begin

section \<open>A token whose approvals anybody can revoke\<close>

text \<open>
  The crate \<open>nft-owner-check\<close>: approval management with its own copy of every method, in which
  \<open>nft_revoke_all\<close> does not check that the caller owns the token.  One theorem says that anybody
  can strip any token of its approvals and collects the refund; the lemma before it, that all the
  other methods are those of \<open>nep-interface\<close>.
\<close>

subsection \<open>Types\<close>

text \<open>
  The crate declares the struct, its storage key and the trait of the approved account a second
  time, field by field and method by method as \<open>nep-interface\<close> does.
\<close>

type_synonym ('o, 'md, 'te, 'ap, 'nx) oc_NFT = "('o, 'md, 'te, 'ap, 'nx) NonFungibleToken"

type_synonym oc_StorageKey = StorageKey

type_synonym oc_calls = NftCall

subsection \<open>Construction and guards\<close>

definition OC_GAS_FOR_NFT_APPROVE :: Gas where
  "OC_GAS_FOR_NFT_APPROVE = 10000000000000"

definition oc_expect_token_found :: "'a option \<Rightarrow> 'a nft_result" where
  "oc_expect_token_found v = unwrap_or_panic (Msg TokenNotFound) v"

definition oc_expect_approval :: "'a option \<Rightarrow> 'a nft_result" where
  "oc_expect_approval v = unwrap_or_panic (Msg NextApprovalIdMissing) v"

definition oc_assert_at_least_one_yocto :: "env \<Rightarrow> unit nft_result" where
  "oc_assert_at_least_one_yocto e = require (1 \<le> attached_deposit e) (Msg AtLeastOneYocto)"

definition oc_new ::
    "('o, 'md, 'te, 'us, 'ap, 'nx) nft_ops \<Rightarrow> bytes \<Rightarrow> AccountId \<Rightarrow> bytes option \<Rightarrow> bytes option \<Rightarrow>
     bytes option \<Rightarrow> ('o, 'md, 'te, 'ap, 'nx) oc_NFT" where
  "oc_new K owner_by_id_prefix owner_id token_metadata_prefix enumeration_prefix
       approval_prefix =
     \<lparr>nft_owner_id = owner_id,
      extra_storage_in_bytes_per_token = 0,
      owner_by_id = lm_new (owners_ops K) owner_by_id_prefix,
      token_metadata_by_id = map_option (lm_new (metadata_ops K)) token_metadata_prefix,
      tokens_per_owner = map_option (lm_new (per_owner_ops K)) enumeration_prefix,
      approvals_by_id = map_option (lm_new (approvals_ops K)) approval_prefix,
      next_approval_id_by_id =
        map_option (\<lambda>prefix. lm_new (next_id_ops K) (prefix @ as_bytes ''n'')) approval_prefix\<rparr>"

subsection \<open>Approvals\<close>

definition oc_nft_approve ::
    "nft_package \<Rightarrow> ('o, 'md, 'te, 'us, 'ap, 'nx) nft_ops \<Rightarrow> env \<Rightarrow>
     ('o, 'md, 'te, 'ap, 'nx) oc_NFT \<Rightarrow> nft_effects \<Rightarrow>
     TokenId \<Rightarrow> AccountId \<Rightarrow> string option \<Rightarrow>
     (('o, 'md, 'te, 'ap, 'nx) oc_NFT \<times> nft_effects) nft_result" where
  "oc_nft_approve P K e t h token_id account_id msg =
     rbind (oc_assert_at_least_one_yocto e) (\<lambda>_.
     rbind (unwrap_or_panic (Msg NoApprovalManagement) (approvals_by_id t)) (\<lambda>by_id.
     rbind (oc_expect_token_found (lm_get (owners_ops K) (owner_by_id t) token_id)) (\<lambda>owner_id.
     rbind (require (predecessor_account_id e = owner_id) (Msg PredecessorNotTokenOwner)) (\<lambda>_.
     rbind (oc_expect_approval (next_approval_id_by_id t)) (\<lambda>next_ids.
     let approved_account_ids =
           unwrap_or DAList.empty (lm_get (approvals_ops K) by_id token_id);
         approval_id = unwrap_or 1 (lm_get (next_id_ops K) next_ids token_id);
         old_approval_id = DAList.lookup approved_account_ids account_id;
         t1 = t\<lparr>approvals_by_id :=
                  Some (fst (lm_insert (approvals_ops K) by_id token_id
                               (DAList.update account_id approval_id approved_account_ids)))\<rparr>
     in
     rbind (add_op (overflow_checks e) approval_id 1) (\<lambda>next_id.
     let t2 = t1\<lparr>next_approval_id_by_id :=
                   Some (fst (lm_insert (next_id_ops K) next_ids token_id next_id))\<rparr>
     in
     rbind (if old_approval_id = None then pkg_bytes_for_approved_account_id P e account_id
            else Inr 0) (\<lambda>storage_used.
     rbind (pkg_refund_deposit P e storage_used h) (\<lambda>h1.
     case msg of
       None \<Rightarrow> Inr (t2, h1)
     | Some msg \<Rightarrow>
         rbind (sub_op (overflow_checks e) (prepaid_gas e) OC_GAS_FOR_NFT_APPROVE) (\<lambda>gas.
         Inr (t2, schedule (FunctionCall account_id
                              (NftOnApprove token_id owner_id approval_id msg) 0 gas) h1))))))))))"

definition oc_nft_revoke ::
    "nft_package \<Rightarrow> ('o, 'md, 'te, 'us, 'ap, 'nx) nft_ops \<Rightarrow> env \<Rightarrow>
     ('o, 'md, 'te, 'ap, 'nx) oc_NFT \<Rightarrow> nft_effects \<Rightarrow>
     TokenId \<Rightarrow> AccountId \<Rightarrow>
     (('o, 'md, 'te, 'ap, 'nx) oc_NFT \<times> nft_effects) nft_result" where
  "oc_nft_revoke P K e t h token_id account_id =
     rbind (assert_one_yocto e) (\<lambda>_.
     rbind (unwrap_or_panic (Msg NoApprovalManagement) (approvals_by_id t)) (\<lambda>by_id.
     rbind (oc_expect_token_found (lm_get (owners_ops K) (owner_by_id t) token_id)) (\<lambda>owner_id.
     rbind (require (predecessor_account_id e = owner_id) (Msg PredecessorNotTokenOwner)) (\<lambda>_.
     case lm_get (approvals_ops K) by_id token_id of
       None \<Rightarrow> Inr (t, h)
     | Some approved_account_ids \<Rightarrow>
         let remaining = DAList.delete account_id approved_account_ids in
         if DAList.lookup approved_account_ids account_id = None then Inr (t, h)
         else
           rbind (pkg_refund_approved_account_ids_iter P e (predecessor_account_id e) [account_id] h)
             (\<lambda>h1.
           Inr (t\<lparr>approvals_by_id := Some
                    (if DAList.impl_of remaining = []
                     then fst (lm_remove (approvals_ops K) by_id token_id)
                     else fst (lm_insert (approvals_ops K) by_id token_id remaining))\<rparr>, h1))))))"

text \<open>Nobody asks who the caller is; the refund goes to the caller.\<close>

definition oc_nft_revoke_all ::
    "nft_package \<Rightarrow> ('o, 'md, 'te, 'us, 'ap, 'nx) nft_ops \<Rightarrow> env \<Rightarrow>
     ('o, 'md, 'te, 'ap, 'nx) oc_NFT \<Rightarrow> nft_effects \<Rightarrow> TokenId \<Rightarrow>
     (('o, 'md, 'te, 'ap, 'nx) oc_NFT \<times> nft_effects) nft_result" where
  "oc_nft_revoke_all P K e t h token_id =
     rbind (assert_one_yocto e) (\<lambda>_.
     rbind (unwrap_or_panic (Msg NoApprovalManagement) (approvals_by_id t)) (\<lambda>by_id.
     case lm_get (approvals_ops K) by_id token_id of
       None \<Rightarrow> Inr (t, h)
     | Some approved_account_ids \<Rightarrow>
         rbind (pkg_refund_approved_account_ids P e (predecessor_account_id e)
                  approved_account_ids h) (\<lambda>h1.
         Inr (t\<lparr>approvals_by_id := Some (fst (lm_remove (approvals_ops K) by_id token_id))\<rparr>, h1))))"

definition oc_nft_is_approved ::
    "('o, 'md, 'te, 'us, 'ap, 'nx) nft_ops \<Rightarrow> ('o, 'md, 'te, 'ap, 'nx) oc_NFT \<Rightarrow>
     TokenId \<Rightarrow> AccountId \<Rightarrow> u64 option \<Rightarrow> bool nft_result" where
  "oc_nft_is_approved K t token_id approved_account_id approval_id =
     rbind (oc_expect_token_found (lm_get (owners_ops K) (owner_by_id t) token_id)) (\<lambda>_.
     case approvals_by_id t of
       None \<Rightarrow> Inr False
     | Some by_id \<Rightarrow>
         (case lm_get (approvals_ops K) by_id token_id of
            None \<Rightarrow> Inr False
          | Some ids \<Rightarrow>
              (case DAList.lookup ids approved_account_id of
                 None \<Rightarrow> Inr False
               | Some actual_approval_id \<Rightarrow>
                   (case approval_id of
                      Some given_approval_id \<Rightarrow> Inr (given_approval_id = actual_approval_id)
                    | None \<Rightarrow> Inr True))))"

subsection \<open>The methods that are those of \<open>nep-interface\<close>\<close>

lemma oc_guards:
  "oc_expect_token_found = expect_token_found" "oc_expect_approval = expect_approval"
  "oc_assert_at_least_one_yocto = assert_at_least_one_yocto"
  "OC_GAS_FOR_NFT_APPROVE = GAS_FOR_NFT_APPROVE"
  by (simp_all add: fun_eq_iff oc_expect_token_found_def expect_token_found_def
      oc_expect_approval_def expect_approval_def oc_assert_at_least_one_yocto_def
      assert_at_least_one_yocto_def OC_GAS_FOR_NFT_APPROVE_def GAS_FOR_NFT_APPROVE_def)

lemma oc_expect_eq:
  "oc_expect_token_found v = expect_token_found v" "oc_expect_approval w = expect_approval w"
  by (simp_all add: oc_expect_token_found_def expect_token_found_def oc_expect_approval_def
      expect_approval_def)

lemma oc_approve_eq: "oc_nft_approve nep_package = nft_approve"
  unfolding oc_nft_approve_def nft_approve_def oc_guards(3,4) oc_expect_eq nep_package_simps ..

lemma oc_revoke_eq: "oc_nft_revoke nep_package = nft_revoke"
  unfolding oc_nft_revoke_def nft_revoke_def oc_expect_eq nep_package_simps ..

lemma oc_is_approved_eq: "oc_nft_is_approved = nft_is_approved"
  unfolding oc_nft_is_approved_def nft_is_approved_def oc_expect_eq ..

lemma oc_new_unmeasured:
  "nft_new K usage e pre owner mp ep ap =
     nft_measure_min_token_storage_cost K usage e (oc_new K pre owner mp ep ap)"
  by (simp add: nft_new_measures oc_new_def)

subsection \<open>Revoking without a check\<close>

lemma oc_revoke_all_strips:
  assumes "nft_store K" and "attached_deposit e = 1" and "nft_approvals K t tok = Some A"
    and "refund_approved_account_ids e (predecessor_account_id e) A h = Inr h1"
  shows "\<exists>t'. oc_nft_revoke_all nep_package K e t h tok = Inr (t', h1) \<and>
     nft_approvals K t' = (nft_approvals K t)(tok := None) \<and> nft_owners K t' = nft_owners K t"
  using assms nft_store.approvals_remove [OF assms(1)]
  by (auto simp: oc_nft_revoke_all_def assert_one_yocto_def nft_approvals_def nft_owners_def
      split: option.splits)

text \<open>In \<open>nft-owner-check\<close> everybody can strip every token of its approvals, and is paid for it.
  When any account calls \<open>nft_revoke_all\<close> on a token that has approvals, with one yoctoNEAR
  attached, the call returns, nobody is approved for the token any more, the owners and the
  approvals of the other tokens are as they were, and the refund for the approvals' storage, which
  the owner had paid for, goes to the caller.  \<open>nep-interface\<close> refuses everybody but the owner.  The
  other methods of the crate are those of \<open>nep-interface\<close>.\<close>

theorem anyone_revokes_all_approvals:
  assumes "nft_store K" and "attached_deposit e = 1"
    and "nft_owners K t tok = Some owner" and "nft_approvals K t tok = Some A"
    and "bytes = approval_bytes (map fst (DAList.impl_of A))"
    and "bytes < 2 ^ 64" and "bytes_price e bytes < 2 ^ 128"
  shows "(\<exists>t' x. oc_nft_revoke_all nep_package K e t h tok =
        Inr (t', schedule (Transfer (predecessor_account_id e) x) h) \<and>
        unat x = bytes_price e bytes \<and> nft_owners K t' = nft_owners K t \<and>
        (\<forall>a i. oc_nft_is_approved K t' tok a i = Inr False) \<and>
        (\<forall>tok' a i. tok' \<noteq> tok \<longrightarrow>
           oc_nft_is_approved K t' tok' a i = oc_nft_is_approved K t tok' a i)) \<and>
     (predecessor_account_id e \<noteq> owner \<longrightarrow>
        nft_revoke_all K e t h tok = Inl (Msg PredecessorNotTokenOwner)) \<and>
     oc_nft_approve nep_package K = nft_approve K \<and> oc_nft_revoke nep_package K = nft_revoke K \<and>
     oc_nft_is_approved K = nft_is_approved K"
proof -
  obtain x where refund: "refund_approved_account_ids e (predecessor_account_id e) A h =
        Inr (schedule (Transfer (predecessor_account_id e) x) h)"
    and x: "unat x = bytes_price e bytes"
    using refund_approved_account_ids_iter_eq assms(5-7)
    unfolding refund_approved_account_ids_def by metis
  obtain t' where run: "oc_nft_revoke_all nep_package K e t h tok =
        Inr (t', schedule (Transfer (predecessor_account_id e) x) h)"
    and views: "nft_approvals K t' = (nft_approvals K t)(tok := None)"
      "nft_owners K t' = nft_owners K t"
    using oc_revoke_all_strips [OF assms(1,2,4) refund] by blast
  have "nft_approval K t' tok a = None"
    and "y \<noteq> tok \<Longrightarrow> nft_approval K t' y a = nft_approval K t y a" for y a
    by (simp_all add: nft_approval_def views)
  then have approved: "oc_nft_is_approved K t' tok a i = Inr False"
    "y \<noteq> tok \<Longrightarrow> oc_nft_is_approved K t' y a i = oc_nft_is_approved K t y a i" for y a i
    using assms(3) views(2)
    by (simp_all add: oc_is_approved_eq nft_is_approved_eq split: option.split)
  have refused: "nft_revoke_all K e t h tok = Inl (Msg PredecessorNotTokenOwner)"
    if "predecessor_account_id e \<noteq> owner"
    using that assms(2-4)
    by (auto simp: nft_revoke_all_def assert_one_yocto_def expect_token_found_def nft_owners_def
        nft_approvals_def split: option.splits)
  show ?thesis
    using run x views(2) approved refused by (auto simp: oc_approve_eq oc_revoke_eq oc_is_approved_eq)
qed

text \<open>Mallory revokes Bob's approval for Alice's token and earns 150 yoctoNEAR.\<close>

theorem anyone_revokes_all_approvals_witness:
  "(\<exists>t'. oc_nft_revoke_all nep_package list_nft_ops (nft_demo_env ''mallory'' 1 []) nft_demo
        no_effects ''t1'' = Inr (t', schedule (Transfer ''mallory'' 150) no_effects) \<and>
      oc_nft_is_approved list_nft_ops t' ''t1'' ''bob'' None = Inr False) \<and>
   nft_revoke_all list_nft_ops (nft_demo_env ''mallory'' 1 []) nft_demo no_effects ''t1'' =
     Inl (Msg PredecessorNotTokenOwner)"
proof -
  have A: "nft_approvals list_nft_ops nft_demo ''t1'' = Some (DAList.update ''bob'' 1 DAList.empty)"
    by (simp add: nft_approvals_def nft_demo_def DAList.lookup_update)
  have B: "15 = approval_bytes (map fst (DAList.impl_of (DAList.update ''bob'' (1 :: u64) DAList.empty)))"
    by simp
  have "nft_owners list_nft_ops nft_demo ''t1'' = Some ''alice''"
    by (simp add: nft_owners_def nft_demo_def DAList.lookup_update)
  from anyone_revokes_all_approvals [OF nft_demo_store _ this A B, of "nft_demo_env ''mallory'' 1 []"
      no_effects]
  obtain t' x where "oc_nft_revoke_all nep_package list_nft_ops (nft_demo_env ''mallory'' 1 [])
        nft_demo no_effects ''t1'' = Inr (t', schedule (Transfer ''mallory'' x) no_effects)"
    and "unat x = 150" and "oc_nft_is_approved list_nft_ops t' ''t1'' ''bob'' None = Inr False"
    and "nft_revoke_all list_nft_ops (nft_demo_env ''mallory'' 1 []) nft_demo no_effects ''t1'' =
      Inl (Msg PredecessorNotTokenOwner)"
    by (auto simp: bytes_price_def)
  moreover have "x = 150" using \<open>unat x = 150\<close> by (simp add: word_unat_eq_iff)
  ultimately show ?thesis by blast
qed

end
