(* ===== verification/NftConformance.thy ===== *)
theory NftConformance
  imports NftStandard NftProperties NftApprovalCheck NftOwnerCheck
begin

section \<open>Which tokens keep to NEP-171 and NEP-178\<close>

text \<open>
  The blocks \<open>impl NonFungibleTokenCore for\<close>, \<open>impl NonFungibleTokenResolver for\<close> and \<open>impl
  NonFungibleTokenApproval for\<close> of the repository as records of methods: the token of
  \<open>nep-interface\<close>, the public resolver that its macro gives a contract, and the crates
  \<open>nft-approval-check\<close> and \<open>nft-owner-check\<close>.  The locales of \<open>NftStandard\<close> are interpreted on the
  token of \<open>nep-interface\<close>, over any collections that keep their laws.
\<close>

subsection \<open>The implementations\<close>

type_synonym 's nep_nft_core = "('s, log_line, NftCall, NftError) NonFungibleTokenCore"
type_synonym 's nep_nft_resolver = "('s, log_line, NftCall, NftError) NonFungibleTokenResolver"
type_synonym 's nep_nft_approval = "('s, log_line, NftCall, NftError) NonFungibleTokenApproval"

definition nep_nft_ext :: "NftCall ext_nft" where
  "nep_nft_ext =
     \<lparr>ext_nft_on_transfer = NftOnTransfer, ext_nft_resolve_transfer = NftResolveTransfer,
      ext_nft_on_approve = NftOnApprove\<rparr>"

definition nep_nft_core ::
    "('o, 'md, 'te, 'us, 'ap, 'nx) nft_ops \<Rightarrow> ('o, 'md, 'te, 'ap, 'nx) NonFungibleToken nep_nft_core" where
  "nep_nft_core K =
     \<lparr>core_nft_transfer = nft_transfer K, core_nft_transfer_call = nft_transfer_call K,
      core_nft_token = nft_token K\<rparr>"

definition nep_nft_resolver ::
    "('o, 'md, 'te, 'us, 'ap, 'nx) nft_ops \<Rightarrow> (bytes \<Rightarrow> bool option) \<Rightarrow>
     ('o, 'md, 'te, 'ap, 'nx) NonFungibleToken nep_nft_resolver" where
  "nep_nft_resolver K from_slice =
     \<lparr>resolver_nft_resolve_transfer = nft_resolve_transfer K from_slice\<rparr>"

text \<open>The resolver of a contract with the macro \<open>impl_non_fungible_token_core!\<close>.\<close>

definition contract_nft_resolver ::
    "('o, 'md, 'te, 'us, 'ap, 'nx) nft_ops \<Rightarrow> (bytes \<Rightarrow> bool option) \<Rightarrow>
     ('o, 'md, 'te, 'ap, 'nx, 'r) nft_holder nep_nft_resolver" where
  "contract_nft_resolver K from_slice =
     \<lparr>resolver_nft_resolve_transfer = contract_nft_resolve_transfer K from_slice\<rparr>"

definition nep_nft_approval ::
    "('o, 'md, 'te, 'us, 'ap, 'nx) nft_ops \<Rightarrow>
     ('o, 'md, 'te, 'ap, 'nx) NonFungibleToken nep_nft_approval" where
  "nep_nft_approval K =
     \<lparr>approval_nft_approve = nft_approve K, approval_nft_revoke = nft_revoke K,
      approval_nft_revoke_all = nft_revoke_all K, approval_nft_is_approved = nft_is_approved K\<rparr>"

definition ac_nft_core ::
    "nft_package \<Rightarrow> ('o, 'md, 'te, 'us, 'ap, 'nx) nft_ops \<Rightarrow>
     ('o, 'md, 'te, 'ap, 'nx) NonFungibleToken nep_nft_core" where
  "ac_nft_core P K =
     \<lparr>core_nft_transfer = ac_nft_transfer P K, core_nft_transfer_call = ac_nft_transfer_call P K,
      core_nft_token = ac_nft_token K\<rparr>"

definition ac_nft_resolver ::
    "nft_package \<Rightarrow> ('o, 'md, 'te, 'us, 'ap, 'nx) nft_ops \<Rightarrow> (bytes \<Rightarrow> bool option) \<Rightarrow>
     ('o, 'md, 'te, 'ap, 'nx) NonFungibleToken nep_nft_resolver" where
  "ac_nft_resolver P K from_slice =
     \<lparr>resolver_nft_resolve_transfer = ac_nft_resolve_transfer P K from_slice\<rparr>"

definition oc_nft_approval ::
    "nft_package \<Rightarrow> ('o, 'md, 'te, 'us, 'ap, 'nx) nft_ops \<Rightarrow>
     ('o, 'md, 'te, 'ap, 'nx) NonFungibleToken nep_nft_approval" where
  "oc_nft_approval P K =
     \<lparr>approval_nft_approve = oc_nft_approve P K, approval_nft_revoke = oc_nft_revoke P K,
      approval_nft_revoke_all = oc_nft_revoke_all P K,
      approval_nft_is_approved = oc_nft_is_approved K\<rparr>"

lemma nft_methods [simp]:
  "core_nft_transfer (nep_nft_core K) = nft_transfer K"
  "core_nft_transfer_call (nep_nft_core K) = nft_transfer_call K"
  "core_nft_token (nep_nft_core K) = nft_token K"
  "resolver_nft_resolve_transfer (nep_nft_resolver K from_slice) = nft_resolve_transfer K from_slice"
  "resolver_nft_resolve_transfer (contract_nft_resolver K from_slice) =
     contract_nft_resolve_transfer K from_slice"
  "approval_nft_approve (nep_nft_approval K) = nft_approve K"
  "approval_nft_revoke (nep_nft_approval K) = nft_revoke K"
  "approval_nft_revoke_all (nep_nft_approval K) = nft_revoke_all K"
  "approval_nft_is_approved (nep_nft_approval K) = nft_is_approved K"
  "ext_nft_on_transfer nep_nft_ext = NftOnTransfer"
  "ext_nft_resolve_transfer nep_nft_ext = NftResolveTransfer"
  "ext_nft_on_approve nep_nft_ext = NftOnApprove"
  by (simp_all add: nep_nft_core_def nep_nft_resolver_def contract_nft_resolver_def
      nep_nft_approval_def nep_nft_ext_def)

text \<open>What the two crates take over from \<open>nep-interface\<close>, and what they do not.\<close>

lemma crate_methods [simp]:
  "core_nft_transfer (ac_nft_core P K) = ac_nft_transfer P K"
  "core_nft_transfer_call (ac_nft_core nep_package K) = nft_transfer_call K"
  "core_nft_token (ac_nft_core P K) = nft_token K"
  "resolver_nft_resolve_transfer (ac_nft_resolver P K from_slice) =
     ac_nft_resolve_transfer P K from_slice"
  "approval_nft_approve (oc_nft_approval nep_package K) = nft_approve K"
  "approval_nft_revoke (oc_nft_approval nep_package K) = nft_revoke K"
  "approval_nft_revoke_all (oc_nft_approval P K) = oc_nft_revoke_all P K"
  "approval_nft_is_approved (oc_nft_approval P K) = nft_is_approved K"
  by (simp_all add: ac_nft_core_def ac_nft_resolver_def oc_nft_approval_def ac_transfer_call_eq
      ac_token_eq oc_approve_eq oc_revoke_eq oc_is_approved_eq)

text \<open>
  The terms of \<open>nft_approve\<close>: it charges the bytes of the account's entry, has an id left as long as
  the next one can be counted up, and keeps some gas for itself.  What \<open>nft_revoke_all\<close> burns and a
  block allows is the chain's.
\<close>

definition nep_terms ::
    "('o, 'md, 'te, 'us, 'ap, 'nx) nft_ops \<Rightarrow> (nat \<Rightarrow> nat) \<Rightarrow> nat \<Rightarrow>
     ('o, 'md, 'te, 'ap, 'nx) NonFungibleToken approval_terms" where
  "nep_terms K gas_of limit =
     \<lparr>terms_charge = (\<lambda>e a. bytes_price e (length a + 12)),
      terms_ids_left = (\<lambda>t tok. unat (nft_next_id K t tok) + 1 < 2 ^ 64),
      terms_notify_gas = GAS_FOR_NFT_APPROVE,
      terms_revoke_all_gas = gas_of, terms_block_gas = limit\<rparr>"

lemma nep_terms_simps [simp]:
  "terms_charge (nep_terms K gas_of limit) e a = bytes_price e (length a + 12)"
  "terms_ids_left (nep_terms K gas_of limit) t tok \<longleftrightarrow> unat (nft_next_id K t tok) + 1 < 2 ^ 64"
  "terms_notify_gas (nep_terms K gas_of limit) = GAS_FOR_NFT_APPROVE"
  "terms_revoke_all_gas (nep_terms K gas_of limit) = gas_of"
  "terms_block_gas (nep_terms K gas_of limit) = limit"
  by (simp_all add: nep_terms_def)

text \<open>A token that uses approval management, with its invariant.\<close>

definition nft_managed ::
    "('o, 'md, 'te, 'us, 'ap, 'nx) nft_ops \<Rightarrow> bool \<Rightarrow> ('o, 'md, 'te, 'ap, 'nx) NonFungibleToken \<Rightarrow> bool" where
  "nft_managed K checks t \<longleftrightarrow> nft_ok K checks t \<and> approvals_by_id t \<noteq> None"

lemma shown_is_approval [simp]: "shown_approvals (nft_approvals K t tok) = nft_approval K t tok"
  by (simp add: shown_approvals_def nft_approval_def fun_eq_iff)

lemma moved_views:
  assumes "nft_moved K t tok to A t'"
  shows "nft_owners K t' = (nft_owners K t)(tok \<mapsto> to)"
    and "nft_approval K t' = (nft_approval K t)(tok := shown_approvals A)"
    and "approvals_by_id t' = None \<longleftrightarrow> approvals_by_id t = None"
  using assms
  by (auto simp: nft_moved_def nft_approval_def fun_eq_iff shown_approvals_def nft_same_shape_def)

lemma managed_index: "nft_managed K checks t \<Longrightarrow> nft_index_ok K t"
  by (simp add: nft_managed_def nft_ok_def)

lemma shown_None [simp]: "shown_approvals None = Map.empty"
  by (simp add: shown_approvals_def fun_eq_iff)

lemma may_send_authorized:
  "nft_may_send (nft_owners K) (nft_approval K) t a tok aid \<longleftrightarrow> nft_authorized K t a tok aid"
  by (simp add: nft_may_send_def nft_authorized_def)

subsection \<open>The core of \<open>nep-interface\<close>\<close>

context nft_store
begin

lemma nep_sends_internal:
  assumes "nft_sends (nep_nft_core K) e t h r tok aid t' h'"
  obtains memo owner A h1 where "attached_deposit e = 1"
    and "nft_internal_transfer K t h (predecessor_account_id e) r tok aid memo = Inr (t', h1, owner, A)"
  using assms
  by (auto simp: nft_sends_def nft_transfer_def nft_transfer_call_def result_simps Let_def)

lemma nep_sends_moves:
  assumes "nft_managed K checks t" and "nft_sends (nep_nft_core K) e t h r tok aid t' h'"
  shows "nft_managed K checks t'" and "nft_moved K t tok r None t'"
proof -
  have ok: "nft_ok K checks t" using assms(1) by (simp add: nft_managed_def)
  obtain memo owner A h1 where
    tr: "nft_internal_transfer K t h (predecessor_account_id e) r tok aid memo = Inr (t', h1, owner, A)"
    using assms(2) by (rule nep_sends_internal)
  note result = internal_transfer_result [OF managed_index [OF assms(1)] tr]
  show moved: "nft_moved K t tok r None t'" by (rule result(1))
  have "nft_goes K checks t t'"
    using internal_transfer_returns(1) [OF tr] by (intro moved_goes [OF ok moved result(2)]) simp_all
  then show "nft_managed K checks t'"
    using assms(1) moved_views(3) [OF moved] by (simp add: nft_managed_def nft_goes_def)
qed

lemma internal_transfer_served:
  assumes "nft_managed K checks t" and "nft_owners K t tok \<noteq> None" and "nft_owners K t tok \<noteq> Some r"
    and "nft_authorized K t a tok aid"
  shows "\<exists>t' h' owner A. nft_internal_transfer K t h a r tok aid memo = Inr (t', h', owner, A)"
proof -
  obtain owner where "nft_owners K t tok = Some owner" "owner \<noteq> r" using assms(2,3) by auto
  then show ?thesis using internal_transfer_moves managed_index [OF assms(1)] assms(4) by metis
qed

lemma nep_core_requirements:
  "nft_wants_one_yocto (nep_nft_core K)"
  "nft_wants_authority (nep_nft_core K) (nft_owners K) (nft_approval K)"
  "nft_hands_over (nep_nft_core K) (nft_owners K) (nft_managed K checks)"
  "nft_nullifies_approvals (nep_nft_core K) (nft_approval K) (nft_managed K checks)"
  "nft_serves_transfers (nep_nft_core K) (nft_owners K) (nft_approval K) (nft_managed K checks)"
  "nft_serves_transfer_calls (nep_nft_core K) GAS_FOR_NFT_TRANSFER_CALL (nft_owners K) (nft_approval K)
     (nft_managed K checks)"
  "nft_calls_receiver_and_resolver (nep_nft_core K) nep_nft_ext (nft_owners K) (nft_approval K)"
  "nft_token_answers (nep_nft_core K) (nft_owners K) (nft_approval K)"
proof -
  show "nft_wants_one_yocto (nep_nft_core K)"
    unfolding nft_wants_one_yocto_def by (blast elim: nep_sends_internal)
  show "nft_wants_authority (nep_nft_core K) (nft_owners K) (nft_approval K)"
    unfolding nft_wants_authority_def may_send_authorized
    by (auto elim!: nep_sends_internal dest: internal_transfer_returns)
  show "nft_hands_over (nep_nft_core K) (nft_owners K) (nft_managed K checks)"
    unfolding nft_hands_over_def
    using nep_sends_moves(1) nep_sends_moves(2) [THEN moved_views(1)] by blast
  show "nft_nullifies_approvals (nep_nft_core K) (nft_approval K) (nft_managed K checks)"
    unfolding nft_nullifies_approvals_def
    using nep_sends_moves(2) [THEN moved_views(2)] by simp
  show "nft_serves_transfers (nep_nft_core K) (nft_owners K) (nft_approval K) (nft_managed K checks)"
    unfolding nft_serves_transfers_def may_send_authorized nft_methods
  proof (intro allI impI)
    fix e :: env and t h r tok aid memo
    assume "nft_managed K checks t" and yocto: "attached_deposit e = 1" and "nft_owners K t tok \<noteq> None"
      "nft_owners K t tok \<noteq> Some r" "nft_authorized K t (predecessor_account_id e) tok aid"
    from internal_transfer_served [OF this(1,3-5)] obtain t' h' owner A where
      "nft_internal_transfer K t h (predecessor_account_id e) r tok aid memo = Inr (t', h', owner, A)"
      by blast
    then show "returns (nft_transfer K e t h r tok aid memo)"
      using yocto by (simp add: nft_transfer_def assert_one_yocto_def)
  qed
  show "nft_serves_transfer_calls (nep_nft_core K) GAS_FOR_NFT_TRANSFER_CALL (nft_owners K)
      (nft_approval K) (nft_managed K checks)"
    unfolding nft_serves_transfer_calls_def may_send_authorized nft_methods
  proof (intro allI impI)
    fix e :: env and t h r tok aid memo msg
    assume "nft_managed K checks t" "attached_deposit e = 1" "nft_owners K t tok \<noteq> None"
      "nft_owners K t tok \<noteq> Some r" "nft_authorized K t (predecessor_account_id e) tok aid"
      and gas: "GAS_FOR_NFT_TRANSFER_CALL < prepaid_gas e"
    moreover from this(1,3-5) obtain t' h' owner A where
      "nft_internal_transfer K t h (predecessor_account_id e) r tok aid memo = Inr (t', h', owner, A)"
      using internal_transfer_served by metis
    moreover have "sub_op (overflow_checks e) (prepaid_gas e) GAS_FOR_NFT_TRANSFER_CALL =
        (Inr (prepaid_gas e - GAS_FOR_NFT_TRANSFER_CALL) :: Gas nft_result)"
      using gas by (intro sub_op_exact) (simp add: word_less_nat_alt)
    ultimately show "returns (nft_transfer_call K e t h r tok aid memo msg)"
      by (simp add: nft_transfer_call_def assert_one_yocto_def)
  qed
  show "nft_calls_receiver_and_resolver (nep_nft_core K) nep_nft_ext (nft_owners K) (nft_approval K)"
    unfolding nft_calls_receiver_and_resolver_def nft_methods
  proof (intro allI impI)
    fix e :: env and t h r tok aid memo msg t' h'
    assume "nft_transfer_call K e t h r tok aid memo msg = Inr (t', h')"
    then obtain owner A gas h1 where
      tr: "nft_internal_transfer K t h (predecessor_account_id e) r tok aid memo = Inr (t', h1, owner, A)"
      and h': "h' = schedule (nft_call_promise e gas (predecessor_account_id e) owner r tok A msg) h1"
      by (auto simp: nft_transfer_call_def result_simps Let_def)
    have "promises h1 = promises h"
      using tr by (auto simp: internal_transfer_eq result_simps split: option.splits)
    then show "\<exists>g g' A owner. nft_owners K t tok = Some owner \<and>
        shown_approvals A = nft_approval K t tok \<and>
        promises h' = promises h @
          [Then (FunctionCall r (NftOnTransfer (predecessor_account_id e) owner tok msg) 0 g)
            (FunctionCall (current_account_id e) (NftResolveTransfer owner r tok A) 0 g')]"
      using internal_transfer_returns [OF tr] h' by (auto simp: nft_call_promise_def)
  qed
  show "nft_token_answers (nep_nft_core K) (nft_owners K) (nft_approval K)"
    unfolding nft_token_answers_def nft_methods nft_token_eq
    by (auto simp: shown_approvals_def nft_approval_def nft_approvals_def fun_eq_iff
        split: option.splits)
qed

subsection \<open>The resolver of \<open>nep-interface\<close>\<close>

lemma callback_result:
  assumes "nft_callback e p"
  shows "env_promise_result e 0 = (Inr p :: NftError panic + PromiseResult)"
    and "nft_must_revert from_slice p = Inr (wants_return from_slice p)"
  using assms
  by (auto simp: nft_callback_def env_promise_result_def nft_must_revert_def wants_return_def
      split: PromiseResult.splits option.splits)

lemma resolve_by_callback:
  assumes "nft_callback e p"
  shows "nft_resolve_transfer K from_slice e t h prev rc tok A =
     (if \<not> wants_return from_slice p then Inr (t, h, True)
      else case nft_owners K t tok of
        None \<Rightarrow> (case A of
            Some a \<Rightarrow> rbind (refund_approved_account_ids e prev a h) (\<lambda>h1. Inr (t, h1, True))
          | None \<Rightarrow> Inr (t, h, True))
      | Some current_owner \<Rightarrow>
          if current_owner \<noteq> rc then Inr (t, h, True)
          else
            rbind (nft_internal_transfer_unguarded K t tok rc prev) (\<lambda>t1.
            rbind (nft_restore_approvals K e t1 h rc tok A) (\<lambda>(t2, h1).
            Inr (t2, nft_emit_transfer rc prev tok None None h1, False))))"
  by (rule resolve_transfer_eq [OF callback_result [OF assms]])

lemma nep_resolver_reverts:
  "resolver_reverts (nep_nft_resolver K from_slice) from_slice (nft_owners K) (nft_managed K checks)"
  unfolding resolver_reverts_def nft_methods
proof (intro allI impI)
  fix e :: env and t h prev rc tok A p t' h' kept
  assume ok: "nft_managed K checks t" and cb: "nft_callback e p"
    and res: "nft_resolve_transfer K from_slice e t h prev rc tok A = Inr (t', h', kept)"
  note ret = resolve_transfer_returns [OF res managed_index [OF ok]]
  have "kept \<longleftrightarrow> \<not> (wants_return from_slice p \<and> nft_owners K t tok = Some rc)"
    using res unfolding resolve_by_callback [OF cb]
    by (auto simp: result_simps split: option.splits if_splits)
  then show "if wants_return from_slice p \<and> nft_owners K t tok = Some rc
      then nft_owners K t' = (nft_owners K t)(tok \<mapsto> prev) \<and> \<not> kept else t' = t \<and> kept"
    using ret moved_views(1) by (auto split: if_splits)
qed

lemma refund_nothing:
  assumes "DAList.lookup A = Map.empty"
  shows "returns (refund_approved_account_ids e a A h)"
proof -
  have "DAList.impl_of A = []"
    using assms by (metis DAList.lookup.rep_eq dom_map_of_conv_image_fst dom_empty image_is_empty set_empty)
  then have "map fst (DAList.impl_of A) = []" by simp
  with refund_approved_account_ids_iter_eq [of "[]" e a h] show ?thesis
    by (auto simp: refund_approved_account_ids_def returns_def bytes_price_def)
qed

lemma nep_resolver_returns:
  "resolver_returns (nep_nft_resolver K from_slice) (nft_owners K) (nft_approval K) (nft_managed K checks)"
  unfolding resolver_returns_def nft_methods
proof (intro allI impI)
  fix e :: env and t h prev rc tok A p
  assume ok: "nft_managed K checks t" and cb: "nft_callback e p" and "nft_owners K t tok \<noteq> None"
    and none: "nft_approval K t tok = Map.empty"
  then obtain owner where owner: "nft_owners K t tok = Some owner" by blast
  show "returns (nft_resolve_transfer K from_slice e t h prev rc tok A)"
  proof (cases "wants_return from_slice p \<and> owner = rc")
    case False
    then show ?thesis using owner by (auto simp: resolve_by_callback [OF cb])
  next
    case True
    with owner have "nft_owners K t tok = Some rc" by simp
    from unguarded_spec [OF managed_index [OF ok] this, of prev] obtain t1 where
      t1: "nft_internal_transfer_unguarded K t tok rc prev = Inr t1"
      and "approvals_by_id t1 = approvals_by_id t" by metis
    then have same: "nft_approvals K t1 tok = nft_approvals K t tok" by (simp add: nft_approvals_def)
    have "DAList.lookup B = Map.empty" if "nft_approvals K t1 tok = Some B" for B
    proof -
      from that same have "nft_approvals K t tok = Some B" by simp
      with none show ?thesis by (simp add: nft_approval_def fun_eq_iff)
    qed
    then have "returns (nft_restore_approvals K e t1 h rc tok A)"
      using refund_nothing [of _ e rc h]
      by (fastforce simp: nft_restore_approvals_def nft_approvals_def returns_def
          split: option.splits)
    then show ?thesis using True owner t1
      by (auto simp: resolve_by_callback [OF cb] returns_rbind) (auto simp: returns_def)
  qed
qed

lemma nep_resolver_restores_unless_approved:
  "resolver_restores_unless_approved (nep_nft_resolver K from_slice) (nft_approval K)
     (nft_managed K checks)"
  unfolding resolver_restores_unless_approved_def nft_methods
proof (intro allI impI)
  fix e :: env and t h prev rc tok A p t' h'
  assume ok: "nft_managed K checks t" and none: "nft_approval K t tok = Map.empty"
    and res: "nft_resolve_transfer K from_slice e t h prev rc tok A = Inr (t', h', False)"
  have "approvals_by_id t \<noteq> None" using ok by (simp add: nft_managed_def)
  with resolve_transfer_returns [OF res managed_index [OF ok]]
  have "nft_moved K t tok prev (nft_resolved_approvals (nft_approvals K t tok) A) t'" by simp
  from moved_views(2) [OF this]
  show "nft_approval K t' = (nft_approval K t)(tok := shown_approvals A)"
    using none by (cases A) (simp_all add: nft_resolved_approvals_def)
qed

lemma nep_nft_settling:
  "nep171_settling (nep_nft_core K) nep_nft_ext GAS_FOR_NFT_TRANSFER_CALL (nft_owners K) (nft_approval K) (nft_managed K checks)
     (nep_nft_resolver K from_slice) from_slice"
  by unfold_locales (fact nep_core_requirements nep_resolver_reverts nep_resolver_returns
      nep_resolver_restores_unless_approved)+

sublocale nep: nep171_settling "nep_nft_core K" nep_nft_ext GAS_FOR_NFT_TRANSFER_CALL "nft_owners K" "nft_approval K"
  "nft_managed K checks" "nep_nft_resolver K from_slice" from_slice for checks from_slice
  by (rule nep_nft_settling)

subsection \<open>The approval management of \<open>nep-interface\<close>\<close>

lemma approve_update:
  assumes "nft_approve K e t h tok a msg = Inr (t', h')"
  shows "nft_owners K t' = nft_owners K t"
    and "nft_approval K t' = (nft_approval K t)(tok := (nft_approval K t tok)(a \<mapsto> nft_next_id K t tok))"
  using assms
  by (rule approve_returns; auto simp: nft_approval_def fun_eq_iff DAList.lookup_update
      split: option.splits)+

lemma approve_calls:
  assumes "nft_approve K e t no_effects tok a msg = Inr (t', h')"
  shows "concat (map called_by (promises h')) =
     (case msg of None \<Rightarrow> [] | Some m \<Rightarrow> [(a, NftOnApprove tok (predecessor_account_id e)
        (nft_next_id K t tok) m)])"
proof -
  have refund: "concat (map called_by (promises h1)) = []"
    if "refund_deposit e n no_effects = Inr h1" for n h1
  proof -
    have "h1 = no_effects \<or> (\<exists>x. h1 = schedule (Transfer (predecessor_account_id e) x) no_effects)"
      using refund_deposit_to_account_returns that by (simp add: refund_deposit_def)
    then show ?thesis by auto
  qed
  obtain n used h1 where n: "next_approval_id_by_id t = Some n"
    and h1: "refund_deposit e used no_effects = Inr h1"
    and h': "concat (map called_by (promises h')) = concat (map called_by (promises h1)) @
      (case msg of None \<Rightarrow> [] | Some m \<Rightarrow>
        [(a, NftOnApprove tok (predecessor_account_id e) (unwrap_or 1 (lm_get (next_id_ops K) n tok)) m)])"
    using assms
    by (cases msg) (auto simp: nft_approve_def expect_token_found_def expect_approval_def result_simps
        Let_def split: option.splits)
  then show ?thesis using refund [OF h1] by (cases msg) (simp_all add: nft_next_id_def)
qed

lemma approval_owner:
  "returns (nft_approve K e t h tok a msg) \<Longrightarrow> nft_owners K t tok = Some (predecessor_account_id e)"
  "returns (nft_revoke K e t h tok a) \<Longrightarrow> nft_owners K t tok = Some (predecessor_account_id e)"
  "returns (nft_revoke_all K e t h tok) \<Longrightarrow> nft_owners K t tok = Some (predecessor_account_id e)"
  using approve_returns revoke_returns(1) revoke_all_returns(1) by (fastforce simp: returns_def)+

lemma approval_yocto:
  "returns (nft_approve K e t h tok a msg) \<Longrightarrow> 1 \<le> attached_deposit e"
  "returns (nft_revoke K e t h tok a) \<Longrightarrow> attached_deposit e = 1"
  "returns (nft_revoke_all K e t h tok) \<Longrightarrow> attached_deposit e = 1"
  using approve_returns revoke_returns(2) revoke_all_returns(2) by (fastforce simp: returns_def)+

lemma nep_gives_larger_id:
  "approve_gives_larger_id (nep_nft_approval K) (nft_owners K) (nft_approval K) (nft_managed K)"
  unfolding approve_gives_larger_id_def nft_methods
proof (intro allI impI conjI)
  fix e :: env and t h tok a msg t' h'
  assume ok: "nft_managed K (overflow_checks e) t" and checks: "overflow_checks e"
    and run: "nft_approve K e t h tok a msg = Inr (t', h')"
  from ok checks have inv: "nft_index_ok K t" "nft_extensions_ok K t" "nft_ids_ok K t"
    by (simp_all add: nft_managed_def nft_ok_def)
  have "approvals_by_id t' \<noteq> None"
    using run by (rule approve_returns) (simp add: nft_same_shape_def)
  then show "nft_managed K (overflow_checks e) t'"
    using approve_keeps [OF run inv(1,2)] inv(3) checks by (simp add: nft_managed_def nft_ok_def)
  show "nft_owners K t' = nft_owners K t" by (rule approve_update(1) [OF run])
  have "j < nft_next_id K t tok" if "nft_approval K t tok b = Some j" for b j
    using that inv(3)
    by (auto simp: nft_approval_def nft_ids_ok_def approval_ids_ok_def split: option.splits)
  then show "\<exists>i. nft_approval K t' = (nft_approval K t)(tok := (nft_approval K t tok)(a \<mapsto> i)) \<and>
      (\<forall>b j. nft_approval K t tok b = Some j \<longrightarrow> j < i)"
    using approve_update(2) [OF run] by blast
qed

lemma revoke_update:
  assumes "nft_reapproved K t tok A t'"
  shows "nft_owners K t' = nft_owners K t"
    and "nft_approval K t' = (nft_approval K t)(tok := shown_approvals A)"
  using assms nft_reapproved_approval [OF assms]
  by (auto simp: nft_reapproved_def fun_eq_iff shown_approvals_def)

lemma nep_revoke_removes: "revoke_removes (nep_nft_approval K) (nft_owners K) (nft_approval K)"
  unfolding revoke_removes_def nft_methods
proof (intro allI impI conjI)
  fix e :: env and t h tok a t' h'
  show "nft_owners K t' = nft_owners K t" "nft_approval K t' = (nft_approval K t)(tok := Map.empty)"
    if "nft_revoke_all K e t h tok = Inr (t', h')"
    using revoke_update [OF revoke_all_returns(4) [OF that]] by simp_all
  assume run: "nft_revoke K e t h tok a = Inr (t', h')"
  note upd = revoke_update [OF revoke_returns(4) [OF run]]
  show "nft_owners K t' = nft_owners K t" by (rule upd(1))
  have gone: "DAList.lookup B x = None" if "DAList.impl_of (DAList.delete a B) = []" "x \<noteq> a"
    for B :: approvals and x
    using that DAList.lookup_delete [of a B]
    by (metis DAList.lookup.rep_eq fun_upd_other map_of.simps(1))
  have "shown_approvals (case nft_approvals K t tok of
              None \<Rightarrow> None
            | Some A \<Rightarrow> if DAList.lookup A a = None then Some A
                else if DAList.impl_of (DAList.delete a A) = [] then None
                else Some (DAList.delete a A)) = (nft_approval K t tok)(a := None)"
    by (cases "nft_approvals K t tok")
      (auto simp: shown_approvals_def nft_approval_def fun_eq_iff DAList.lookup_delete gone)
  then show "nft_approval K t' = (nft_approval K t)(tok := (nft_approval K t tok)(a := None))"
    using upd(2) by simp
qed

lemma nep_approval_requirements:
  "approval_wants_yocto (nep_nft_approval K)"
  "only_owner_approves (nep_nft_approval K) (nft_owners K)"
  "only_owner_revokes (nep_nft_approval K) (nft_owners K)"
  "only_owner_revokes_all (nep_nft_approval K) (nft_owners K)"
  "approve_notifies (nep_nft_approval K) nep_nft_ext (nft_approval K)"
  "is_approved_answers (nep_nft_approval K) (nft_owners K) (nft_approval K)"
proof -
  show "approval_wants_yocto (nep_nft_approval K)"
    unfolding approval_wants_yocto_def nft_methods using approval_yocto by blast
  show "only_owner_approves (nep_nft_approval K) (nft_owners K)"
    unfolding only_owner_approves_def nft_methods using approval_owner(1) by blast
  show "only_owner_revokes (nep_nft_approval K) (nft_owners K)"
    unfolding only_owner_revokes_def nft_methods using approval_owner(2) by blast
  show "only_owner_revokes_all (nep_nft_approval K) (nft_owners K)"
    unfolding only_owner_revokes_all_def nft_methods using approval_owner(3) by blast
  show "approve_notifies (nep_nft_approval K) nep_nft_ext (nft_approval K)"
    unfolding approve_notifies_def nft_methods
  proof (intro allI impI exI conjI)
    fix e :: env and t tok a msg t' h'
    assume run: "nft_approve K e t no_effects tok a msg = Inr (t', h')"
    show "nft_approval K t' tok a = Some (nft_next_id K t tok)"
      using approve_update(2) [OF run] by simp
    show "concat (map called_by (promises h')) =
      (case msg of None \<Rightarrow> [] | Some m \<Rightarrow>
        [(a, NftOnApprove tok (predecessor_account_id e) (nft_next_id K t tok) m)])"
      by (rule approve_calls [OF run])
  qed
  show "is_approved_answers (nep_nft_approval K) (nft_owners K) (nft_approval K)"
    unfolding is_approved_answers_def nft_methods nft_is_approved_eq
    by (auto split: option.splits)
qed

subsection \<open>What approvals cost\<close>

lemma managed_collections:
  assumes "nft_managed K checks t"
  obtains m n where "approvals_by_id t = Some m" and "next_approval_id_by_id t = Some n"
  using assms by (auto simp: nft_managed_def nft_ok_def nft_extensions_ok_def)

text \<open>Byte prices and account ids of the usual sizes fit the machine types.\<close>

lemma usual_price:
  assumes "unat (storage_byte_cost e) < 2 ^ 64" and "n \<le> 2 ^ 39"
  shows "n < 2 ^ 64" and "bytes_price e n < 2 ^ 128"
proof -
  show "n < 2 ^ 64" using assms(2) by simp
  have "bytes_price e n \<le> 2 ^ 39 * 2 ^ 64"
    unfolding bytes_price_def using assms by (intro mult_le_mono) simp_all
  then show "bytes_price e n < 2 ^ 128" by (rule le_less_trans) simp
qed

lemma approve_goes_through:
  assumes "nft_managed K checks t" and "nft_owners K t tok = Some (predecessor_account_id e)"
    and "unat (nft_next_id K t tok) + 1 < 2 ^ 64" and "length a \<le> 64"
    and "unat (storage_byte_cost e) < 2 ^ 64" and "1 \<le> attached_deposit e"
    and "(if nft_approval K t tok a = None then bytes_price e (length a + 12) else 0) \<le>
      unat (attached_deposit e)"
    and "msg \<noteq> None \<longrightarrow> GAS_FOR_NFT_APPROVE \<le> prepaid_gas e"
  shows "\<exists>t' h'. nft_approve K e t h tok a msg = Inr (t', h')"
proof -
  obtain m n where m: "approvals_by_id t = Some m" and n: "next_approval_id_by_id t = Some n"
    using assms(1) by (rule managed_collections)
  have owner: "lm_get (owners_ops K) (owner_by_id t) tok = Some (predecessor_account_id e)"
    using assms(2) by (simp add: nft_owners_def)
  have id: "unwrap_or 1 (lm_get (next_id_ops K) n tok) = nft_next_id K t tok"
    using n by (simp add: nft_next_id_def)
  have add: "add_op (overflow_checks e) (nft_next_id K t tok) 1 =
      (Inr (nft_next_id K t tok + 1) :: NftError panic + u64)"
    using assms(3) by (intro add_op_exact) simp
  have look: "DAList.lookup (unwrap_or DAList.empty (lm_get (approvals_ops K) m tok)) a =
      nft_approval K t tok a"
    using m by (cases "lm_get (approvals_ops K) m tok") (simp_all add: nft_approval_def nft_approvals_def)
  define b :: u64 where "b = (if nft_approval K t tok a = None then of_nat (length a + 12) else 0)"
  have bytes: "(if nft_approval K t tok a = None then bytes_for_approved_account_id e a else Inr 0) = Inr b"
    using assms(4) by (simp add: b_def bytes_for_approved_account_id_eq del: of_nat_add)
  have "unat b = (if nft_approval K t tok a = None then length a + 12 else 0)"
    using assms(4) by (simp add: b_def unat_of_nat_u64 del: of_nat_add)
  then have price: "bytes_price e (unat b) =
      (if nft_approval K t tok a = None then bytes_price e (length a + 12) else 0)"
    by (simp add: bytes_price_def)
  have "bytes_price e (unat b) < 2 ^ 128"
    using usual_price(2) [OF assms(5), of "length a + 12"] assms(4) by (simp add: price)
  from refund_deposit_to_account_eq(1) [OF this, of "predecessor_account_id e" h]
  obtain h1 where "refund_deposit e b h = Inr h1"
    using assms(7) price by (fastforce simp: refund_deposit_def Let_def)
  moreover have "sub_op (overflow_checks e) (prepaid_gas e) GAS_FOR_NFT_APPROVE =
      (Inr (prepaid_gas e - GAS_FOR_NFT_APPROVE) :: Gas nft_result)" if "msg \<noteq> None"
    using assms(8) that by (intro sub_op_exact) (simp add: word_le_nat_alt)
  ultimately show ?thesis
    using assms(6) m n owner
    by (cases msg) (simp_all add: nft_approve_def assert_at_least_one_yocto_def expect_token_found_def
        expect_approval_def id add look bytes Let_def)
qed

lemma nep_approve_charges:
  "approve_charges (nep_nft_approval K) (nft_owners K) (nft_approval K) (nft_managed K)
     (nep_terms K gas_of limit)"
  unfolding approve_charges_def nft_methods nep_terms_simps
proof (intro allI impI)
  fix e :: env and t h tok a and msg :: "string option"
  let ?cost = "approval_cost (nep_terms K gas_of limit) (nft_approval K) e t tok a"
  assume run: "nft_managed K (overflow_checks e) t" "nft_owners K t tok = Some (predecessor_account_id e)"
    "unat (nft_next_id K t tok) + 1 < 2 ^ 64" "length a \<le> 64" "1 \<le> attached_deposit e"
    "?cost \<le> unat (attached_deposit e)" "msg \<noteq> None \<longrightarrow> GAS_FOR_NFT_APPROVE \<le> prepaid_gas e"
    and "usual_sizes (nft_approval K) e t tok"
  then have small: "unat (storage_byte_cost e) < 2 ^ 64" by (simp add: usual_sizes_def)
  have cost: "?cost = (if nft_approval K t tok a = None then bytes_price e (length a + 12) else 0)"
    by (simp add: approval_cost_def)
  obtain t' h' where t': "nft_approve K e t h tok a msg = Inr (t', h')"
    using approve_goes_through [OF run(1-4) small run(5)] run(6,7) unfolding cost by blast
  have "?cost < 2 ^ 128"
    using usual_price(2) [OF small, of "length a + 12"] run(4) by (simp add: cost)
  from nft_approve_charges_storage [OF nft_store_axioms run(4) cost this] t'
  have "total_paid_to (predecessor_account_id e) h' + ?cost +
      (if unat (attached_deposit e) = ?cost + 1 then 1 else 0) =
      total_paid_to (predecessor_account_id e) h + unat (attached_deposit e)" by blast
  with t' show "\<exists>t' h' kept. nft_approve K e t h tok a msg = Inr (t', h') \<and>
      total_paid_to (predecessor_account_id e) h' + ?cost + kept =
        total_paid_to (predecessor_account_id e) h + unat (attached_deposit e) \<and> kept \<le> 1"
    by (intro exI [of _ t'] exI [of _ h'] exI conjI) (assumption+, simp)
qed

text \<open>The entries of a token, their bytes and their price.\<close>

lemma approval_dom:
  "dom (nft_approval K t tok) =
     set (case nft_approvals K t tok of None \<Rightarrow> [] | Some A \<Rightarrow> map fst (DAList.impl_of A))"
proof -
  have "nft_approval K t tok =
      (case nft_approvals K t tok of None \<Rightarrow> Map.empty | Some A \<Rightarrow> DAList.lookup A)"
    by (auto simp: nft_approval_def fun_eq_iff split: option.split)
  then show ?thesis
    by (simp add: DAList.lookup.rep_eq dom_map_of_conv_image_fst split: option.split)
qed

lemma approval_bytes_le: "\<forall>a \<in> set as. length a \<le> 64 \<Longrightarrow> approval_bytes as \<le> 76 * length as"
  by (induction as) auto

lemma approval_bytes_price: "bytes_price e (approval_bytes as) = (\<Sum>a\<leftarrow>as. bytes_price e (length a + 12))"
  by (induction as) (simp_all add: bytes_price_def algebra_simps)

lemma usual_entries:
  assumes "usual_sizes (nft_approval K) e t tok"
    and as: "as = (case nft_approvals K t tok of None \<Rightarrow> [] | Some A \<Rightarrow> map fst (DAList.impl_of A))"
  shows "approval_bytes as < 2 ^ 64" and "bytes_price e (approval_bytes as) < 2 ^ 128"
    and "bytes_price e (approval_bytes as) =
      (\<Sum>a \<in> dom (nft_approval K t tok). bytes_price e (length a + 12))"
proof -
  have dis: "distinct as" using DAList.impl_of by (auto simp: as split: option.split)
  have dom: "dom (nft_approval K t tok) = set as" unfolding as by (rule approval_dom)
  have sizes: "unat (storage_byte_cost e) < 2 ^ 64" "length as \<le> 2 ^ 32" "\<forall>a \<in> set as. length a \<le> 64"
    using assms(1) dis by (simp_all add: usual_sizes_def dom distinct_card)
  have "approval_bytes as \<le> 2 ^ 39"
    using approval_bytes_le [OF sizes(3)] sizes(2) by simp
  from usual_price [OF sizes(1) this]
  show "approval_bytes as < 2 ^ 64" and "bytes_price e (approval_bytes as) < 2 ^ 128" by simp_all
  show "bytes_price e (approval_bytes as) =
      (\<Sum>a \<in> dom (nft_approval K t tok). bytes_price e (length a + 12))"
    unfolding dom approval_bytes_price by (rule sum_list_distinct_conv_sum_set [OF dis])
qed

lemma nep_revoke_refunds:
  "revoke_refunds (nep_nft_approval K) (nft_owners K) (nft_approval K) (nft_managed K)
     (nep_terms K gas_of limit)"
  unfolding revoke_refunds_def nft_methods nep_terms_simps
proof (intro allI impI)
  fix e :: env and t h tok a
  assume ok: "nft_managed K (overflow_checks e) t"
    and owner: "nft_owners K t tok = Some (predecessor_account_id e)" "attached_deposit e = 1"
    and usual: "usual_sizes (nft_approval K) e t tok"
  obtain m where m: "approvals_by_id t = Some m" using ok by (rule managed_collections)
  have small: "bytes_price e (length a + 12) < 2 ^ 128 \<and> length a \<le> 64" if "nft_approval K t tok a \<noteq> None"
  proof -
    have "length a \<le> 64" and "unat (storage_byte_cost e) < 2 ^ 64"
      using that usual by (auto simp: usual_sizes_def)
    then show ?thesis using usual_price(2) [of e "length a + 12"] by simp
  qed
  have run: "\<exists>t' h'. nft_revoke K e t h tok a = Inr (t', h')"
  proof (cases "nft_approval K t tok a")
    case None
    with owner m show ?thesis
      by (auto simp: nft_revoke_def assert_one_yocto_def expect_token_found_def nft_owners_def
          nft_approval_def nft_approvals_def Let_def split: option.split)
  next
    case (Some i)
    then obtain x where "refund_approved_account_ids_iter e (predecessor_account_id e) [a] h =
        Inr (schedule (Transfer (predecessor_account_id e) x) h)"
      using refund_approved_account_ids_iter_eq [of "[a]" e] small by auto
    with owner m Some show ?thesis
      by (auto simp: nft_revoke_def assert_one_yocto_def expect_token_found_def nft_owners_def
          nft_approval_def nft_approvals_def Let_def split: option.splits)
  qed
  then obtain t' h' where t': "nft_revoke K e t h tok a = Inr (t', h')" by blast
  have "total_paid_to (predecessor_account_id e) h' = total_paid_to (predecessor_account_id e) h +
      (if nft_approval K t tok a = None then 0 else bytes_price e (length a + 12))"
  proof (cases "nft_approval K t tok a")
    case None
    with t' m show ?thesis
      by (auto simp: nft_revoke_def result_simps Let_def nft_approval_def nft_approvals_def
          split: option.splits if_splits)
  next
    case (Some i)
    with small have "length a \<le> 64" "bytes_price e (length a + 12) < 2 ^ 128" by simp_all
    from nft_revoke_withdraws_approval [OF nft_store_axioms this t'] show ?thesis by blast
  qed
  with t' show "\<exists>t' h'. nft_revoke K e t h tok a = Inr (t', h') \<and>
      total_paid_to (predecessor_account_id e) h' = total_paid_to (predecessor_account_id e) h +
      (if nft_approval K t tok a = None then 0 else bytes_price e (length a + 12))" by blast
qed

text \<open>The refund of all entries.\<close>

lemma refund_all:
  assumes "usual_sizes (nft_approval K) e t tok" and "nft_approvals K t tok = Some A"
  shows "\<exists>x. refund_approved_account_ids e c A h = Inr (schedule (Transfer c x) h) \<and>
     unat x = (\<Sum>a \<in> dom (nft_approval K t tok). bytes_price e (length a + 12))"
proof -
  have as: "map fst (DAList.impl_of A) =
      (case nft_approvals K t tok of None \<Rightarrow> [] | Some A \<Rightarrow> map fst (DAList.impl_of A))"
    by (simp add: assms(2))
  note entries = usual_entries [OF assms(1) as]
  show ?thesis
    using refund_approved_account_ids_iter_eq [OF entries(1,2), of c h] entries(3)
    by (simp add: refund_approved_account_ids_def)
qed

lemma nep_revoke_all_refunds:
  "revoke_all_refunds (nep_nft_approval K) (nft_owners K) (nft_approval K) (nft_managed K)
     (nep_terms K gas_of limit)"
  unfolding revoke_all_refunds_def nft_methods nep_terms_simps
proof (intro allI impI)
  fix e :: env and t h tok
  assume ok: "nft_managed K (overflow_checks e) t"
    and owner: "nft_owners K t tok = Some (predecessor_account_id e)" "attached_deposit e = 1"
    and usual: "usual_sizes (nft_approval K) e t tok"
  obtain m where m: "approvals_by_id t = Some m" using ok by (rule managed_collections)
  show "\<exists>t' h'. nft_revoke_all K e t h tok = Inr (t', h') \<and>
      total_paid_to (predecessor_account_id e) h' = total_paid_to (predecessor_account_id e) h +
      (\<Sum>a \<in> dom (nft_approval K t tok). bytes_price e (length a + 12))"
  proof (cases "nft_approvals K t tok")
    case None
    then have "dom (nft_approval K t tok) = {}" by (simp add: approval_dom)
    then show ?thesis using owner m None
      by (simp add: nft_revoke_all_def assert_one_yocto_def expect_token_found_def nft_owners_def
          nft_approvals_def)
  next
    case (Some A)
    from refund_all [OF usual this, of "predecessor_account_id e" h] owner m Some show ?thesis
      by (auto simp: nft_revoke_all_def assert_one_yocto_def expect_token_found_def nft_owners_def
          nft_approvals_def)
  qed
qed

lemma nep_nep178:
  "nep178 (nep_nft_core K) nep_nft_ext GAS_FOR_NFT_TRANSFER_CALL (nft_owners K) (nft_approval K)
     (nft_managed K) (nep_nft_approval K) (nep_terms K gas_of limit)"
  by unfold_locales (fact nep_core_requirements nep_gives_larger_id nep_revoke_removes
      nep_approval_requirements nep_approve_charges nep_revoke_refunds nep_revoke_all_refunds)+

end

interpretation list_settling: nep171_settling "nep_nft_core list_nft_ops" nep_nft_ext GAS_FOR_NFT_TRANSFER_CALL
  "nft_owners list_nft_ops" "nft_approval list_nft_ops" "nft_managed list_nft_ops True"
  "nep_nft_resolver list_nft_ops demo_bool_from_slice" demo_bool_from_slice
  by (rule ln.nep_nft_settling)

interpretation list_approvals: nep178 "nep_nft_core list_nft_ops" nep_nft_ext
  GAS_FOR_NFT_TRANSFER_CALL "nft_owners list_nft_ops" "nft_approval list_nft_ops"
  "nft_managed list_nft_ops" "nep_nft_approval list_nft_ops" "nep_terms list_nft_ops gas_of limit"
  for gas_of limit
  by (rule ln.nep_nep178)

end
