(* ===== verification/NftDeviations.thy ===== *)
theory NftDeviations
  imports NftConformance
begin

section \<open>What the non-fungible tokens leave open\<close>

text \<open>
  The resolver behind the macro of \<open>nep-interface\<close>, the one requirement of NEP-171 that it does not
  meet; the gas limit of NEP-178, which no implementation keeps; and the requirements that the crates \<open>nft-approval-check\<close> and \<open>nft-owner-check\<close> drop,
  measured against \<open>NftStandard\<close>.  At the end, the properties.
\<close>

subsection \<open>The resolver behind the macro\<close>

abbreviation holder_owners ::
    "('o, 'md, 'te, 'us, 'ap, 'nx) nft_ops \<Rightarrow> ('o, 'md, 'te, 'ap, 'nx, 'r) nft_holder owner_view" where
  "holder_owners K \<equiv> \<lambda>c. nft_owners K (nft_field c)"

abbreviation holder_approvals ::
    "('o, 'md, 'te, 'us, 'ap, 'nx) nft_ops \<Rightarrow> ('o, 'md, 'te, 'ap, 'nx, 'r) nft_holder approval_view" where
  "holder_approvals K \<equiv> \<lambda>c. nft_approval K (nft_field c)"

abbreviation holder_managed ::
    "('o, 'md, 'te, 'us, 'ap, 'nx) nft_ops \<Rightarrow> bool \<Rightarrow> ('o, 'md, 'te, 'ap, 'nx, 'r) nft_holder \<Rightarrow> bool" where
  "holder_managed K checks \<equiv> \<lambda>c. nft_managed K checks (nft_field c)"

lemma contract_resolver_only_self: "resolver_only_self (contract_nft_resolver K from_slice)"
  unfolding resolver_only_self_def nft_methods
  by (auto simp: contract_nft_resolve_transfer_def assert_private_def returns_def result_simps)

lemma contract_resolve:
  assumes "nft_callback e p"
  shows "contract_nft_resolve_transfer K from_slice e c h prev r tok A =
     rbind (nft_resolve_transfer K from_slice e (nft_field c) h prev r tok A)
       (\<lambda>(t, h1, kept). Inr (c\<lparr>nft_field := t\<rparr>, h1, kept))"
  using assms
  by (simp add: contract_nft_resolve_transfer_def assert_private_def assert_not_payable_def
      nft_callback_def)

context nft_store
begin

lemma contract_resolver_requirements:
  "resolver_reverts (contract_nft_resolver K from_slice) from_slice (holder_owners K)
     (holder_managed K checks)"
  "resolver_returns (contract_nft_resolver K from_slice) (holder_owners K) (holder_approvals K)
     (holder_managed K checks)"
  "resolver_restores_unless_approved (contract_nft_resolver K from_slice) (holder_approvals K)
     (holder_managed K checks)"
proof -
  show "resolver_reverts (contract_nft_resolver K from_slice) from_slice (holder_owners K :: ('o, 'md, 'te, 'ap, 'nx, 'r) nft_holder owner_view)
     (holder_managed K checks)"
    unfolding resolver_reverts_def nft_methods
  proof (intro allI impI)
    fix e :: env and c c' :: "('o, 'md, 'te, 'ap, 'nx, 'r) nft_holder" and h prev r tok A p h' kept
    assume ok: "nft_managed K checks (nft_field c)" and cb: "nft_callback e p"
      and "contract_nft_resolve_transfer K from_slice e c h prev r tok A = Inr (c', h', kept)"
    then obtain t where t: "c' = c\<lparr>nft_field := t\<rparr>"
      and "nft_resolve_transfer K from_slice e (nft_field c) h prev r tok A = Inr (t, h', kept)"
      by (auto simp: contract_resolve [OF cb] result_simps)
    with nep_resolver_reverts [of from_slice checks] ok cb
    have "if wants_return from_slice p \<and> nft_owners K (nft_field c) tok = Some r
        then nft_owners K t = (nft_owners K (nft_field c))(tok \<mapsto> prev) \<and> \<not> kept
        else t = nft_field c \<and> kept"
      unfolding resolver_reverts_def nft_methods by blast
    then show "if wants_return from_slice p \<and> nft_owners K (nft_field c) tok = Some r
        then nft_owners K (nft_field c') = (nft_owners K (nft_field c))(tok \<mapsto> prev) \<and> \<not> kept
        else c' = c \<and> kept"
      by (auto simp: t split: if_splits)
  qed
  show "resolver_returns (contract_nft_resolver K from_slice) (holder_owners K :: ('o, 'md, 'te, 'ap, 'nx, 'r) nft_holder owner_view) (holder_approvals K)
     (holder_managed K checks)"
    unfolding resolver_returns_def nft_methods
  proof (intro allI impI)
    fix e :: env and c :: "('o, 'md, 'te, 'ap, 'nx, 'r) nft_holder" and h prev r tok A p
    assume "nft_managed K checks (nft_field c)" and cb: "nft_callback e p"
      and "nft_owners K (nft_field c) tok \<noteq> None" "nft_approval K (nft_field c) tok = Map.empty"
    then have "returns (nft_resolve_transfer K from_slice e (nft_field c) h prev r tok A)"
      using nep_resolver_returns [of from_slice checks]
      unfolding resolver_returns_def nft_methods by blast
    then show "returns (contract_nft_resolve_transfer K from_slice e c h prev r tok A)"
      unfolding contract_resolve [OF cb] by (auto simp: returns_def)
  qed
  show "resolver_restores_unless_approved (contract_nft_resolver K from_slice) (holder_approvals K :: ('o, 'md, 'te, 'ap, 'nx, 'r) nft_holder approval_view)
     (holder_managed K checks)"
    unfolding resolver_restores_unless_approved_def nft_methods
  proof (intro allI impI)
    fix e :: env and c c' :: "('o, 'md, 'te, 'ap, 'nx, 'r) nft_holder" and h prev r tok A p h'
    assume ok: "nft_managed K checks (nft_field c)" and cb: "nft_callback e p"
      and none: "nft_approval K (nft_field c) tok = Map.empty"
      and "contract_nft_resolve_transfer K from_slice e c h prev r tok A = Inr (c', h', False)"
    then obtain t where "c' = c\<lparr>nft_field := t\<rparr>"
      and "nft_resolve_transfer K from_slice e (nft_field c) h prev r tok A = Inr (t, h', False)"
      by (auto simp: contract_resolve [OF cb] result_simps)
    then show "nft_approval K (nft_field c') = (nft_approval K (nft_field c))(tok := shown_approvals A)"
      using nep_resolver_restores_unless_approved [of from_slice checks] ok cb none
      unfolding resolver_restores_unless_approved_def nft_methods by simp blast
  qed
qed

end

subsection \<open>Approvals that are not restored\<close>

text \<open>
  Alice had approved nobody when she sent her token; the receiver has approved Mallory since.  The
  token comes back with Mallory still approved.
\<close>

definition nft_demo_kept :: list_nft where
  "nft_demo_kept = nft_demo_sent
     \<lparr>approvals_by_id := Some (DAList.update ''t1'' (DAList.update ''mallory'' 1 DAList.empty) DAList.empty)\<rparr>"

lemma nft_demo_kept_views [simp]:
  "nft_owners list_nft_ops nft_demo_kept = [''t1'' \<mapsto> ''dex'']"
  "nft_approvals list_nft_ops nft_demo_kept = [''t1'' \<mapsto> DAList.update ''mallory'' 1 DAList.empty]"
  "approvals_by_id nft_demo_kept =
     Some (DAList.update ''t1'' (DAList.update ''mallory'' 1 DAList.empty) DAList.empty)"
  "nft_next_id list_nft_ops nft_demo_kept ''t1'' = 2"
  by (auto simp: nft_owners_def nft_approvals_def nft_next_id_def nft_demo_kept_def nft_demo_sent_def
      nft_demo_def fun_eq_iff DAList.lookup_update)

lemma nft_demo_kept_managed: "nft_managed list_nft_ops True nft_demo_kept"
proof -
  have "nft_index_ok list_nft_ops nft_demo_kept"
    using nft_demo_sent_index_ok
    by (simp add: nft_index_ok_def nft_demo_kept_def nft_owners_def split: option.splits)
  moreover have "nft_extensions_ok list_nft_ops nft_demo_kept"
    unfolding nft_extensions_ok_def nft_demo_kept_views
    by (auto simp: nft_metadata_of_def nft_demo_kept_def nft_demo_sent_def nft_demo_def
        DAList.lookup_update split: if_splits)
  moreover have "nft_ids_ok list_nft_ops nft_demo_kept"
    by (auto simp: nft_ids_ok_def approval_ids_ok_def DAList.lookup_update split: if_splits)
  ultimately show ?thesis by (simp add: nft_managed_def nft_ok_def)
qed

lemma nft_demo_kept_returned:
  "\<exists>t h. nft_resolve_transfer list_nft_ops from_slice (nft_demo_env ''nft'' 0 [Failed]) nft_demo_kept
     no_effects ''alice'' ''dex'' ''t1'' None = Inr (t, h, False)"
proof -
  have "\<exists>x. refund_approved_account_ids (nft_demo_env ''nft'' 0 [Failed]) ''dex''
      (DAList.update ''mallory'' 1 DAList.empty) no_effects = Inr (schedule (Transfer ''dex'' x) no_effects)"
    using refund_approved_account_ids_iter_eq [of "[''mallory'']" "nft_demo_env ''nft'' 0 [Failed]"]
    by (auto simp: refund_approved_account_ids_def bytes_price_def)
  then show ?thesis
    by (auto simp: nft_resolve_transfer_def env_promise_result_def nft_must_revert_def
        nft_demo_kept_def nft_demo_sent_def nft_demo_def nft_internal_transfer_unguarded_def
        nft_restore_approvals_def DAList.lookup_update Let_def)
qed

lemma approvals_not_restored:
  "\<not> resolver_restores (contract_nft_resolver list_nft_ops from_slice) (holder_approvals list_nft_ops)
     (holder_managed list_nft_ops True :: (list_nft, 'r) nft_contract \<Rightarrow> bool)"
proof
  fix rest :: 'r
  let ?c = "\<lparr>nft_field = nft_demo_kept, nft_rest = rest\<rparr>" and ?e = "nft_demo_env ''nft'' 0 [Failed]"
  assume restores: "resolver_restores (contract_nft_resolver list_nft_ops from_slice)
      (holder_approvals list_nft_ops) (holder_managed list_nft_ops True :: (list_nft, 'r) nft_contract \<Rightarrow> bool)"
  obtain t h where res: "nft_resolve_transfer list_nft_ops from_slice ?e nft_demo_kept no_effects ''alice''
      ''dex'' ''t1'' None = Inr (t, h, False)" using nft_demo_kept_returned by blast
  have cb: "nft_callback ?e Failed" by (simp add: nft_callback_def)
  have "contract_nft_resolve_transfer list_nft_ops from_slice ?e ?c no_effects ''alice'' ''dex'' ''t1'' None =
      Inr (?c\<lparr>nft_field := t\<rparr>, h, False)" by (simp add: contract_resolve [OF cb] res)
  moreover have "nft_managed list_nft_ops True (nft_field ?c)" using nft_demo_kept_managed by simp
  ultimately have "nft_approval list_nft_ops (nft_field (?c\<lparr>nft_field := t\<rparr>)) ''t1'' = shown_approvals None"
    using restores cb unfolding resolver_restores_def nft_methods by blast
  then have "nft_approval list_nft_ops t ''t1'' = Map.empty" by simp
  moreover have "nft_index_ok list_nft_ops nft_demo_kept"
    using nft_demo_kept_managed by (simp add: nft_managed_def nft_ok_def)
  from ln.resolve_transfer_returns [OF res this]
  have "nft_approvals list_nft_ops t ''t1'' = Some (DAList.update ''mallory'' 1 DAList.empty)"
    by (simp add: nft_moved_def nft_resolved_approvals_def)
  ultimately have "DAList.lookup (DAList.update ''mallory'' (1 :: u64) DAList.empty) ''mallory'' = None"
    by (simp add: nft_approval_def fun_eq_iff)
  then show False by (simp add: DAList.lookup_update)
qed

subsection \<open>The two example crates\<close>

text \<open>One token, one owner, and no extension.\<close>

definition bare_nft ::
    "('o, 'md, 'te, 'us, 'ap, 'nx) nft_ops \<Rightarrow> AccountId \<Rightarrow> TokenId \<Rightarrow>
     ('o, 'md, 'te, 'ap, 'nx) NonFungibleToken" where
  "bare_nft K owner tok =
     \<lparr>nft_owner_id = owner, extra_storage_in_bytes_per_token = 0,
      owner_by_id = fst (lm_insert (owners_ops K) (lm_new (owners_ops K) []) tok owner),
      token_metadata_by_id = None, tokens_per_owner = None, approvals_by_id = None,
      next_approval_id_by_id = None\<rparr>"

text \<open>The same with approval management, and a call that pays for an approval.\<close>

definition approving_env :: "AccountId \<Rightarrow> env" where
  "approving_env owner = nft_demo_env owner 760 []"

lemma approving_env_simps [simp]:
  "predecessor_account_id (approving_env owner) = owner" "attached_deposit (approving_env owner) = 760"
  "storage_byte_cost (approving_env owner) = 10" "overflow_checks (approving_env owner) = True"
  by (simp_all add: approving_env_def nft_demo_env_def)

definition approvable_nft ::
    "('o, 'md, 'te, 'us, 'ap, 'nx) nft_ops \<Rightarrow> AccountId \<Rightarrow> TokenId \<Rightarrow>
     ('o, 'md, 'te, 'ap, 'nx) NonFungibleToken" where
  "approvable_nft K owner tok = (bare_nft K owner tok)
     \<lparr>approvals_by_id := Some (lm_new (approvals_ops K) []),
      next_approval_id_by_id := Some (lm_new (next_id_ops K) [])\<rparr>"

text \<open>There are more account ids than a block has gas.\<close>

lemma many_accounts:
  assumes "n \<le> 2 ^ 64"
  shows "\<exists>as :: AccountId list. distinct as \<and> (\<forall>a \<in> set as. length a = 64) \<and> length as = n"
proof -
  let ?S = "{a :: AccountId. set a \<subseteq> {CHR ''a'', CHR ''b''} \<and> length a = 64}"
  have fin: "finite ?S" by (rule finite_lists_length_eq) simp
  have "card ?S = 2 ^ 64"
    by (subst card_lists_length_eq) (simp_all add: numeral_2_eq_2 [symmetric])
  with assms have "n \<le> card ?S" by (simp only:)
  then obtain T where T: "T \<subseteq> ?S" "card T = n" by (rule obtain_subset_with_card_n)
  have "finite T" using T(1) fin by (rule finite_subset)
  then obtain as where as: "set as = T" "distinct as" using finite_distinct_list by blast
  then have "length as = n" using T(2) distinct_card by metis
  moreover have "\<forall>a \<in> set as. length a = 64" unfolding as(1) using T(1) by blast
  ultimately show ?thesis using as(2) by blast
qed

lemma demo_payer [simp]:
  "predecessor_account_id (nft_demo_env a n rs) = a" "attached_deposit (nft_demo_env a n rs) = n"
  by (simp_all add: nft_demo_env_def)

context nft_store
begin

lemma bare_nft_owner: "nft_owners K (bare_nft K owner tok) = [tok \<mapsto> owner]"
  by (simp add: nft_owners_def bare_nft_def ow.map_laws fun_eq_iff)

lemma ac_sends_as_owner:
  assumes "nft_sends (ac_nft_core nep_package K) e t h r tok aid t' h'"
  obtains e' where "attached_deposit e' = attached_deposit e"
    and "nft_sends (nep_nft_core K) e' t h r tok aid t' h'"
proof -
  let ?e = "e\<lparr>predecessor_account_id := the (nft_owners K t tok)\<rparr>"
  from assms consider
      memo where "nft_transfer K ?e t h r tok aid memo = Inr (t', h')"
    | memo msg where "nft_transfer_call K e t h r tok aid memo msg = Inr (t', h')"
    by (auto simp: nft_sends_def ac_transfer_is_owners split: if_splits)
  then show ?thesis
  proof cases
    case 1
    then show ?thesis by (intro that [of ?e]) (auto simp: nft_sends_def)
  next
    case 2
    then show ?thesis by (intro that [of e]) (auto simp: nft_sends_def)
  qed
qed

lemma ac_core_requirements:
  "nft_wants_one_yocto (ac_nft_core nep_package K)"
  "\<not> nft_wants_authority (ac_nft_core nep_package K) (nft_owners K) (nft_approval K)"
  "nft_hands_over (ac_nft_core nep_package K) (nft_owners K) (nft_managed K checks)"
  "nft_nullifies_approvals (ac_nft_core nep_package K) (nft_approval K) (nft_managed K checks)"
  "nft_serves_transfers (ac_nft_core nep_package K) (nft_owners K) (nft_approval K) (nft_managed K checks)"
  "nft_serves_transfer_calls (ac_nft_core nep_package K) GAS_FOR_NFT_TRANSFER_CALL (nft_owners K)
     (nft_approval K) (nft_managed K checks)"
  "nft_calls_receiver_and_resolver (ac_nft_core nep_package K) nep_nft_ext (nft_owners K) (nft_approval K)"
  "nft_token_answers (ac_nft_core nep_package K) (nft_owners K) (nft_approval K)"
proof -
  show "nft_wants_one_yocto (ac_nft_core nep_package K)"
    unfolding nft_wants_one_yocto_def
    by (metis ac_sends_as_owner nep_core_requirements(1) [unfolded nft_wants_one_yocto_def])
  show "nft_hands_over (ac_nft_core nep_package K) (nft_owners K) (nft_managed K checks)"
    unfolding nft_hands_over_def
    by (metis ac_sends_as_owner nep_core_requirements(3) [unfolded nft_hands_over_def])
  show "nft_nullifies_approvals (ac_nft_core nep_package K) (nft_approval K) (nft_managed K checks)"
    unfolding nft_nullifies_approvals_def
    by (metis ac_sends_as_owner nep_core_requirements(4) [unfolded nft_nullifies_approvals_def])
  show "nft_calls_receiver_and_resolver (ac_nft_core nep_package K) nep_nft_ext (nft_owners K) (nft_approval K)"
    using nep_core_requirements(7) unfolding nft_calls_receiver_and_resolver_def crate_methods nft_methods .
  show "nft_token_answers (ac_nft_core nep_package K) (nft_owners K) (nft_approval K)"
    using nep_core_requirements(8) unfolding nft_token_answers_def crate_methods nft_methods .
  show "nft_serves_transfer_calls (ac_nft_core nep_package K) GAS_FOR_NFT_TRANSFER_CALL (nft_owners K)
     (nft_approval K) (nft_managed K checks)"
    using nep_core_requirements(6) unfolding nft_serves_transfer_calls_def crate_methods nft_methods .
  show "nft_serves_transfers (ac_nft_core nep_package K) (nft_owners K) (nft_approval K) (nft_managed K checks)"
    unfolding nft_serves_transfers_def crate_methods
  proof (intro allI impI)
    fix e :: env and t h r tok aid memo
    assume ok: "nft_managed K checks t" and "attached_deposit e = 1" "nft_owners K t tok \<noteq> None"
      "nft_owners K t tok \<noteq> Some r"
    moreover then obtain owner where "nft_owners K t tok = Some owner" "owner \<noteq> r" by auto
    moreover define e' where "e' = e\<lparr>predecessor_account_id := owner\<rparr>"
    ultimately show "returns (ac_nft_transfer nep_package K e t h r tok aid memo)"
      using owner_transfer_outcome [OF nft_store_axioms managed_index [OF ok], of tok owner e' r h aid memo]
      by (auto simp: ac_transfer_is_owners returns_def)
  qed
  show "\<not> nft_wants_authority (ac_nft_core nep_package K) (nft_owners K) (nft_approval K)"
  proof
    let ?t = "bare_nft K ''alice'' ''t1''" and ?e = "nft_demo_env ''mallory'' 1 []"
    assume auth: "nft_wants_authority (ac_nft_core nep_package K) (nft_owners K) (nft_approval K)"
    have "nft_index_ok K ?t" by (simp add: nft_index_ok_def bare_nft_def)
    from owner_transfer_outcome [OF nft_store_axioms this, of "''t1''" "''alice''"
        "nft_demo_env ''alice'' 1 []" "''mallory''" no_effects None None]
    obtain t' h' where "nft_transfer K (nft_demo_env ''alice'' 1 []) ?t no_effects ''mallory'' ''t1'' None
        None = Inr (t', h')" by (auto simp: bare_nft_owner)
    moreover have "?e\<lparr>predecessor_account_id := ''alice''\<rparr> = nft_demo_env ''alice'' 1 []"
      by (simp add: nft_demo_env_def)
    ultimately have "ac_nft_transfer nep_package K ?e ?t no_effects ''mallory'' ''t1'' None None = Inr (t', h')"
      by (simp add: ac_transfer_is_owners bare_nft_owner)
    then have "nft_sends (ac_nft_core nep_package K) ?e ?t no_effects ''mallory'' ''t1'' None t' h'"
      by (auto simp: nft_sends_def)
    with auth have "nft_may_send (nft_owners K) (nft_approval K) ?t ''mallory'' ''t1'' None"
      unfolding nft_wants_authority_def by fastforce
    moreover have "nft_approval K ?t ''t1'' = Map.empty"
      by (simp add: nft_approval_def nft_approvals_def bare_nft_def fun_eq_iff)
    ultimately show False by (simp add: nft_may_send_def bare_nft_owner)
  qed
qed

text \<open>The resolver of \<open>nft-approval-check\<close> returns what that of \<open>nep-interface\<close> returns.\<close>

lemma ac_resolver_requirements:
  "resolver_reverts (ac_nft_resolver nep_package K from_slice) from_slice (nft_owners K)
     (nft_managed K checks)"
  "resolver_returns (ac_nft_resolver nep_package K from_slice) (nft_owners K) (nft_approval K)
     (nft_managed K checks)"
  "resolver_restores_unless_approved (ac_nft_resolver nep_package K from_slice) (nft_approval K)
     (nft_managed K checks)"
proof -
  show "resolver_reverts (ac_nft_resolver nep_package K from_slice) from_slice (nft_owners K)
      (nft_managed K checks)"
    using nep_resolver_reverts [of from_slice checks]
    unfolding resolver_reverts_def crate_methods nft_methods ac_resolve_iff .
  show "resolver_returns (ac_nft_resolver nep_package K from_slice) (nft_owners K) (nft_approval K)
      (nft_managed K checks)"
    using nep_resolver_returns [of from_slice checks]
    unfolding resolver_returns_def crate_methods nft_methods returns_def ac_resolve_iff .
  show "resolver_restores_unless_approved (ac_nft_resolver nep_package K from_slice) (nft_approval K)
      (nft_managed K checks)"
    using nep_resolver_restores_unless_approved [of from_slice checks]
    unfolding resolver_restores_unless_approved_def crate_methods nft_methods ac_resolve_iff .
qed

lemma oc_costs:
  "approve_charges (oc_nft_approval nep_package K) (nft_owners K) (nft_approval K) (nft_managed K)
     (nep_terms K gas_of limit)"
  "revoke_refunds (oc_nft_approval nep_package K) (nft_owners K) (nft_approval K) (nft_managed K)
     (nep_terms K gas_of limit)"
  "revoke_all_refunds (oc_nft_approval nep_package K) (nft_owners K) (nft_approval K) (nft_managed K)
     (nep_terms K gas_of limit)"
proof -
  show "approve_charges (oc_nft_approval nep_package K) (nft_owners K) (nft_approval K) (nft_managed K)
     (nep_terms K gas_of limit)"
    using nep_approve_charges [of gas_of limit] unfolding approve_charges_def crate_methods nft_methods .
  show "revoke_refunds (oc_nft_approval nep_package K) (nft_owners K) (nft_approval K) (nft_managed K)
     (nep_terms K gas_of limit)"
    using nep_revoke_refunds [of gas_of limit] unfolding revoke_refunds_def crate_methods nft_methods .
  show "revoke_all_refunds (oc_nft_approval nep_package K) (nft_owners K) (nft_approval K) (nft_managed K)
     (nep_terms K gas_of limit)"
    unfolding revoke_all_refunds_def crate_methods nep_terms_simps
  proof (intro allI impI)
    fix e :: env and t h tok
    assume ok: "nft_managed K (overflow_checks e) t" and "attached_deposit e = 1"
      and "nft_owners K t tok = Some (predecessor_account_id e)"
      and usual: "usual_sizes (nft_approval K) e t tok"
    obtain m where m: "approvals_by_id t = Some m" using ok by (rule managed_collections)
    show "\<exists>t' h'. oc_nft_revoke_all nep_package K e t h tok = Inr (t', h') \<and>
        total_paid_to (predecessor_account_id e) h' = total_paid_to (predecessor_account_id e) h +
        (\<Sum>a \<in> dom (nft_approval K t tok). bytes_price e (length a + 12))"
    proof (cases "nft_approvals K t tok")
      case None
      then have "dom (nft_approval K t tok) = {}" by (simp add: approval_dom)
      then show ?thesis using \<open>attached_deposit e = 1\<close> m None
        by (simp add: oc_nft_revoke_all_def assert_one_yocto_def nft_approvals_def)
    next
      case (Some A)
      from refund_all [OF usual this, of "predecessor_account_id e" h] \<open>attached_deposit e = 1\<close> m Some
      show ?thesis by (auto simp: oc_nft_revoke_all_def assert_one_yocto_def nft_approvals_def)
    qed
  qed
qed

text \<open>
  Nothing bounds the approvals of a token but its approval ids: however many accounts there are to
  approve, the owner's approvals return, one after the other.
\<close>

lemma approvable_nft_views:
  "nft_managed K True (approvable_nft K owner tok)"
  "nft_owners K (approvable_nft K owner tok) = [tok \<mapsto> owner]"
  "nft_approval K (approvable_nft K owner tok) tok = Map.empty"
  "nft_next_id K (approvable_nft K owner tok) tok = 1"
proof -
  let ?t = "approvable_nft K owner tok"
  have none: "nft_approvals K ?t = Map.empty"
    by (simp add: nft_approvals_def approvable_nft_def ap.get_new fun_eq_iff)
  show "nft_owners K ?t = [tok \<mapsto> owner]"
    using bare_nft_owner [of owner tok] by (simp add: nft_owners_def approvable_nft_def)
  show "nft_approval K ?t tok = Map.empty" by (simp add: nft_approval_def none fun_eq_iff)
  show "nft_next_id K ?t tok = 1" by (simp add: nft_next_id_def approvable_nft_def nx.get_new)
  show "nft_managed K True ?t"
    by (simp add: nft_managed_def nft_ok_def nft_extensions_ok_def nft_ids_ok_def none)
      (simp add: approvable_nft_def bare_nft_def nft_index_ok_def)
qed

lemma approve_one_more:
  assumes "nft_managed K True t" and "nft_owners K t tok = Some owner" and "length a = 64"
    and "unat (nft_next_id K t tok) + 1 < 2 ^ 64"
  shows "\<exists>t' h'. nft_approve K (approving_env owner) t no_effects tok a None = Inr (t', h') \<and>
     nft_managed K True t' \<and> nft_owners K t' = nft_owners K t \<and>
     dom (nft_approval K t' tok) = insert a (dom (nft_approval K t tok)) \<and>
     unat (nft_next_id K t' tok) = unat (nft_next_id K t tok) + 1"
proof -
  have "\<exists>t' h'. nft_approve K (approving_env owner) t no_effects tok a None = Inr (t', h')"
    by (rule approve_goes_through [OF assms(1)])
      (use assms(2-4) in \<open>simp_all add: bytes_price_def\<close>)
  then obtain t' h' where t': "nft_approve K (approving_env owner) t no_effects tok a None = Inr (t', h')"
    by blast
  have "nft_managed K True t'"
    using nep_gives_larger_id assms(1) t' unfolding approve_gives_larger_id_def nft_methods
    by (metis approving_env_simps(4))
  moreover have "unat (nft_next_id K t' tok) = unat (nft_next_id K t tok) + 1"
    using t' by (rule approve_returns) (simp add: unat_arith_simps)
  ultimately show ?thesis using t' approve_update [OF t'] by auto
qed

lemma approve_many:
  assumes "distinct as" and "\<forall>a \<in> set as. length a = 64" and "length as < 2 ^ 63"
  shows "\<exists>t. nft_managed K True t \<and> nft_owners K t tok = Some owner \<and>
     dom (nft_approval K t tok) = set as \<and> unat (nft_next_id K t tok) = length as + 1"
  using assms
proof (induction as)
  case Nil
  show ?case using approvable_nft_views [of owner tok]
    by (intro exI [of _ "approvable_nft K owner tok"]) simp
next
  case (Cons a as)
  have "distinct as" and "\<forall>a \<in> set as. length a = 64" and "length as < 2 ^ 63" and a: "length a = 64"
    using Cons.prems by simp_all
  from Cons.IH [OF this(1-3)] obtain t where
    t: "nft_managed K True t" "nft_owners K t tok = Some owner"
    and dom: "dom (nft_approval K t tok) = set as" and id: "unat (nft_next_id K t tok) = length as + 1"
    by (elim exE conjE)
  have "unat (nft_next_id K t tok) + 1 < 2 ^ 64" using id Cons.prems(3) by simp
  from approve_one_more [OF t a this] obtain t' where
    "nft_managed K True t'" "nft_owners K t' = nft_owners K t"
    "dom (nft_approval K t' tok) = insert a (dom (nft_approval K t tok))"
    "unat (nft_next_id K t' tok) = unat (nft_next_id K t tok) + 1"
    by (elim exE conjE)
  then show ?case using t(2) dom id by (intro exI [of _ t'] conjI) simp_all
qed

lemma approvals_unbounded:
  assumes "approval_nft_approve M = nft_approve K" and "\<forall>n. n \<le> gas_of n" and "limit < 2 ^ 62"
  shows "\<not> approve_within_gas_limit M (nft_approval K) (nft_managed K) (nep_terms K gas_of limit)"
proof
  assume within: "approve_within_gas_limit M (nft_approval K) (nft_managed K) (nep_terms K gas_of limit)"
  obtain as :: "AccountId list" where as: "distinct as" "\<forall>a \<in> set as. length a = 64" "length as = limit + 1"
    using many_accounts [of "limit + 1"] assms(3) by auto
  then obtain a bs where as_eq: "as = a # bs" by (cases as) auto
  with as have bs: "distinct bs" "\<forall>b \<in> set bs. length b = 64" "length bs < 2 ^ 63" "length a = 64"
    "a \<notin> set bs" "length bs = limit"
    using assms(3) by auto
  from approve_many [OF bs(1-3), of "''t1''" "''alice''"] obtain t where
    t: "nft_managed K True t" "nft_owners K t ''t1'' = Some ''alice''"
      "dom (nft_approval K t ''t1'') = set bs" "unat (nft_next_id K t ''t1'') = length bs + 1"
    by (auto simp del: not_None_eq)
  have "unat (nft_next_id K t ''t1'') + 1 < 2 ^ 64" using t(4) bs(6) assms(3) by simp
  from approve_one_more [OF t(1,2) bs(4) this] obtain t' h' where
    run: "nft_approve K (approving_env ''alice'') t no_effects ''t1'' a None = Inr (t', h')"
    and dom: "dom (nft_approval K t' ''t1'') = insert a (set bs)" using t(3) by auto
  have "nft_approval K t ''t1'' a = None" using t(3) bs(5) by (metis domIff)
  moreover have "nft_managed K (overflow_checks (approving_env ''alice'')) t" using t(1) by simp
  ultimately have "gas_of (card (dom (nft_approval K t' ''t1''))) \<le> limit"
    using within run unfolding approve_within_gas_limit_def assms(1) nep_terms_simps by blast
  moreover have "card (dom (nft_approval K t' ''t1'')) = limit + 1"
    using bs by (simp add: dom distinct_card)
  ultimately show False using assms(2) [rule_format, of "limit + 1"] by simp
qed

lemma oc_approval_requirements:
  "approval_wants_yocto (oc_nft_approval nep_package K)"
  "only_owner_approves (oc_nft_approval nep_package K) (nft_owners K)"
  "only_owner_revokes (oc_nft_approval nep_package K) (nft_owners K)"
  "\<not> only_owner_revokes_all (oc_nft_approval nep_package K) (nft_owners K)"
  "approve_gives_larger_id (oc_nft_approval nep_package K) (nft_owners K) (nft_approval K) (nft_managed K)"
  "approve_notifies (oc_nft_approval nep_package K) nep_nft_ext (nft_approval K)"
  "revoke_removes (oc_nft_approval nep_package K) (nft_owners K) (nft_approval K)"
  "is_approved_answers (oc_nft_approval nep_package K) (nft_owners K) (nft_approval K)"
proof -
  show "approval_wants_yocto (oc_nft_approval nep_package K)"
    using approval_yocto unfolding approval_wants_yocto_def crate_methods
    by (auto simp: oc_nft_revoke_all_def assert_one_yocto_def returns_def result_simps)
  show "only_owner_approves (oc_nft_approval nep_package K) (nft_owners K)"
    using nep_approval_requirements(2) unfolding only_owner_approves_def crate_methods nft_methods .
  show "only_owner_revokes (oc_nft_approval nep_package K) (nft_owners K)"
    using nep_approval_requirements(3) unfolding only_owner_revokes_def crate_methods nft_methods .
  show "approve_gives_larger_id (oc_nft_approval nep_package K) (nft_owners K) (nft_approval K)
      (nft_managed K)"
    using nep_gives_larger_id unfolding approve_gives_larger_id_def crate_methods nft_methods .
  show "approve_notifies (oc_nft_approval nep_package K) nep_nft_ext (nft_approval K)"
    using nep_approval_requirements(5) unfolding approve_notifies_def crate_methods nft_methods .
  show "is_approved_answers (oc_nft_approval nep_package K) (nft_owners K) (nft_approval K)"
    using nep_approval_requirements(6) unfolding is_approved_answers_def crate_methods nft_methods .
  show "revoke_removes (oc_nft_approval nep_package K) (nft_owners K) (nft_approval K)"
    unfolding revoke_removes_def crate_methods
  proof (intro allI conjI impI)
    fix e :: env and t h tok a t' h'
    assume run: "oc_nft_revoke_all nep_package K e t h tok = Inr (t', h')"
    then obtain m where m: "approvals_by_id t = Some m" by (auto simp: oc_nft_revoke_all_def result_simps)
    have "nft_owners K t' = nft_owners K t \<and> nft_approvals K t' = (nft_approvals K t)(tok := None)"
    proof (cases "lm_get (approvals_ops K) m tok")
      case None
      with run m show ?thesis
        by (auto simp: oc_nft_revoke_all_def result_simps nft_approvals_def fun_eq_iff)
    next
      case (Some A)
      with run m show ?thesis using approvals_remove [OF m]
        by (auto simp: oc_nft_revoke_all_def result_simps nft_owners_def)
    qed
    then show "nft_owners K t' = nft_owners K t"
      and "nft_approval K t' = (nft_approval K t)(tok := Map.empty)"
      by (auto simp: nft_approval_def fun_eq_iff)
  qed (use nep_revoke_removes in \<open>simp_all add: revoke_removes_def\<close>)
  show "\<not> only_owner_revokes_all (oc_nft_approval nep_package K) (nft_owners K)"
  proof
    let ?t = "(bare_nft K ''alice'' ''t1'')\<lparr>approvals_by_id := Some (lm_new (approvals_ops K) [])\<rparr>"
    assume "only_owner_revokes_all (oc_nft_approval nep_package K) (nft_owners K)"
    moreover have "nft_owners K ?t ''t1'' = Some ''alice''"
      using bare_nft_owner [of "''alice''" "''t1''"] by (simp add: nft_owners_def)
    moreover have "oc_nft_revoke_all nep_package K (nft_demo_env ''mallory'' 1 []) ?t no_effects ''t1'' =
        Inr (?t, no_effects)"
      by (simp add: oc_nft_revoke_all_def assert_one_yocto_def ap.get_new)
    ultimately show False
      unfolding only_owner_revokes_all_def crate_methods by (fastforce simp: returns_def)
  qed
qed

lemmas nft_standards = nep_core_requirements nep_gives_larger_id nep_revoke_removes
  nep_approval_requirements nep_approve_charges nep_revoke_refunds nep_revoke_all_refunds
  contract_resolver_only_self contract_resolver_requirements
  ac_core_requirements ac_resolver_requirements oc_approval_requirements
  oc_costs

end

subsection \<open>Properties\<close>

text \<open>C12: the non-fungible token of \<open>nep-interface\<close> against NEP-171 and NEP-178, requirement by
  requirement, over any collections that keep their laws.  It meets those on transfers, and on
  approval management all but one: only the owner approves and revokes, ids grow, the approved account
  is called, the storage is charged, and paid back by \<open>nft_revoke\<close> and \<open>nft_revoke_all\<close>; but nothing
  keeps the approvals of a token below what \<open>nft_revoke_all\<close> can revoke within the gas limit of a
  block, if each approval costs it gas.  The resolver that the macro gives a contract can be called by
  the contract alone, gives the token back whenever the receiver fails or does not answer \<open>false\<close>, and
  restores the approvals as long as the receiver has given none of its own; the last proviso is
  needed, for it does not restore the approvals in every case, as the standard demands.\<close>

theorem nep_nft_against_standards:
  assumes "nft_store K" and "c = contract_nft_resolver K from_slice"
    and "owners = holder_owners K" and "approvals = holder_approvals K"
    and "ok = (holder_managed K True :: ('o, 'md, 'te, 'ap, 'nx, 'r) nft_holder \<Rightarrow> bool)"
    and "\<forall>n. n \<le> gas_of n" and "limit < 2 ^ 62"
  shows "nep171_report (nep_nft_core K) nep_nft_ext GAS_FOR_NFT_TRANSFER_CALL (nft_owners K)
       (nft_approval K) (nft_managed K True) =
     [(''one yocto'', True), (''owner or approved'', True), (''hands the token over'', True),
      (''nullifies approvals'', True), (''serves transfers'', True), (''serves transfer calls'', True),
      (''calls receiver and resolver'', True), (''shows the token'', True)] \<and>
    nep178_report (nep_nft_approval K) nep_nft_ext (nft_owners K) (nft_approval K) (nft_managed K)
       (nep_terms K gas_of limit) =
     [(''yocto'', True), (''only the owner approves'', True), (''only the owner revokes'', True),
      (''only the owner revokes all'', True), (''gives a larger id'', True),
      (''notifies the approved'', True), (''approve charges'', True), (''revoke removes'', True),
      (''revoke refunds'', True), (''revoke all refunds'', True), (''answers is_approved'', True),
      (''stays within the gas limit'', False)] \<and>
    take 4 (resolver_report c from_slice owners approvals ok) =
     [(''only self'', True), (''reverts'', True), (''returns'', True),
      (''restores unless approved'', True)] \<and>
    \<not> resolver_restores (contract_nft_resolver list_nft_ops from_slice) (holder_approvals list_nft_ops)
       (holder_managed list_nft_ops True :: (list_nft, 'r) nft_contract \<Rightarrow> bool)"
  by (simp add: nep171_report_def nep178_report_def resolver_report_def assms(2-5)
      nft_store.nft_standards [OF assms(1)] nft_store.approvals_unbounded [OF assms(1) _ assms(6,7)]
      approvals_not_restored)

text \<open>A revocation of \<open>n\<close> approvals that burns a teragas each, in blocks of a thousand.\<close>

theorem nep_nft_against_standards_witness:
  "nft_wants_authority (nep_nft_core list_nft_ops) (nft_owners list_nft_ops) (nft_approval list_nft_ops) \<and>
   only_owner_revokes_all (nep_nft_approval list_nft_ops) (nft_owners list_nft_ops) \<and>
   \<not> approve_within_gas_limit (nep_nft_approval list_nft_ops) (nft_approval list_nft_ops)
       (nft_managed list_nft_ops) (nep_terms list_nft_ops (\<lambda>n. n * 1000000000000) 1000000000000000) \<and>
   \<not> resolver_restores (contract_nft_resolver list_nft_ops demo_bool_from_slice)
       (holder_approvals list_nft_ops)
       (holder_managed list_nft_ops True :: (list_nft, unit) nft_contract \<Rightarrow> bool)"
  using nep_nft_against_standards [OF nft_demo_store refl refl refl refl, of "\<lambda>n. n * 1000000000000"
      1000000000000000 demo_bool_from_slice, where 'r = unit]
  by (simp add: nep171_report_def nep178_report_def)

text \<open>C35: the example crates against the standards, with the helpers of \<open>nep-interface\<close> as their
  package.  \<open>nft-approval-check\<close> meets the requirements on transfers but one: a transfer by somebody who
  is neither owner nor approved goes through; its resolver reverts and restores as that of
  \<open>nep-interface\<close> does.  \<open>nft-owner-check\<close> fails two of those on approval management: \<open>nft_revoke_all\<close>
  serves others than the owner, and nothing keeps the approvals within the gas limit of a block; it
  meets the others, the refunds to an owner that revokes included.\<close>

theorem nft_crates_against_standards:
  assumes "nft_store K" and "\<forall>n. n \<le> gas_of n" and "limit < 2 ^ 62"
  shows "nep171_report (ac_nft_core nep_package K) nep_nft_ext GAS_FOR_NFT_TRANSFER_CALL (nft_owners K)
       (nft_approval K) (nft_managed K checks) =
     [(''one yocto'', True), (''owner or approved'', False), (''hands the token over'', True),
      (''nullifies approvals'', True), (''serves transfers'', True), (''serves transfer calls'', True),
      (''calls receiver and resolver'', True), (''shows the token'', True)] \<and>
    resolver_reverts (ac_nft_resolver nep_package K from_slice) from_slice (nft_owners K)
      (nft_managed K checks) \<and>
    resolver_restores_unless_approved (ac_nft_resolver nep_package K from_slice) (nft_approval K)
      (nft_managed K checks) \<and>
    nep178_report (oc_nft_approval nep_package K) nep_nft_ext (nft_owners K) (nft_approval K)
       (nft_managed K) (nep_terms K gas_of limit) =
     [(''yocto'', True), (''only the owner approves'', True), (''only the owner revokes'', True),
      (''only the owner revokes all'', False), (''gives a larger id'', True),
      (''notifies the approved'', True), (''approve charges'', True), (''revoke removes'', True),
      (''revoke refunds'', True), (''revoke all refunds'', True), (''answers is_approved'', True),
      (''stays within the gas limit'', False)]"
  by (simp add: nep171_report_def nep178_report_def nft_store.nft_standards [OF assms(1)]
      nft_store.approvals_unbounded [OF assms(1) _ assms(2,3)])

theorem nft_crates_against_standards_witness:
  "\<not> nft_wants_authority (ac_nft_core nep_package list_nft_ops) (nft_owners list_nft_ops)
      (nft_approval list_nft_ops) \<and>
   \<not> only_owner_revokes_all (oc_nft_approval nep_package list_nft_ops) (nft_owners list_nft_ops) \<and>
   only_owner_revokes (oc_nft_approval nep_package list_nft_ops) (nft_owners list_nft_ops) \<and>
   revoke_all_refunds (oc_nft_approval nep_package list_nft_ops) (nft_owners list_nft_ops)
      (nft_approval list_nft_ops) (nft_managed list_nft_ops)
      (nep_terms list_nft_ops (\<lambda>n. n * 1000000000000) 1000000000000000)"
  using nft_crates_against_standards [OF nft_demo_store, of "\<lambda>n. n * 1000000000000" 1000000000000000
      True demo_bool_from_slice]
  by (simp add: nep171_report_def nep178_report_def)

text \<open>C21: an approval sells a token once.  When the owner has approved a market, in a contract with
  \<open>overflow-checks\<close>, the market's transfer to a buyer under the approval id it was given returns,
  the buyer owns the token, nobody is approved for it, and no transfer and no transfer call by
  anybody but the buyer returns afterwards: neither the market nor the accounts approved beside it
  can sell the token again.\<close>

theorem approved_sale_happens_once:
  assumes "nft_store K" and "nft_managed K True t" and "overflow_checks e"
    and "nft_approve K e t h tok market msg = Inr (t1, h1)"
    and "predecessor_account_id e1 = market" and "attached_deposit e1 = 1"
    and "buyer \<noteq> predecessor_account_id e"
  shows "\<exists>i t2 h3. nft_is_approved K t1 tok market (Some i) = Inr True \<and>
     nft_transfer K e1 t1 h2 buyer tok (Some i) memo = Inr (t2, h3) \<and>
     nft_owners K t2 = (nft_owners K t)(tok \<mapsto> buyer) \<and> nft_approval K t2 tok = Map.empty \<and>
     (\<forall>e2 h4 r aid s3 h5. predecessor_account_id e2 \<noteq> buyer \<longrightarrow>
        \<not> nft_sends (nep_nft_core K) e2 t2 h4 r tok aid s3 h5)"
proof -
  have run: "approval_nft_approve (nep_nft_approval K) e t h tok market msg = Inr (t1, h1)"
    using assms(4) by simp
  obtain i t2 h3 where i: "nft_approval K t1 tok market = Some i"
    and "core_nft_transfer (nep_nft_core K) e1 t1 h2 buyer tok (Some i) memo = Inr (t2, h3) \<and>
       nft_owners K t2 = (nft_owners K t)(tok \<mapsto> buyer) \<and> nft_approval K t2 tok = Map.empty \<and>
       (\<forall>e2 h4 r aid s3 h5. predecessor_account_id e2 \<noteq> buyer \<longrightarrow>
          \<not> nft_sends (nep_nft_core K) e2 t2 h4 r tok aid s3 h5)"
    using nep178.sale_happens_once [OF nft_store.nep_nep178 [OF assms(1)] assms(2,3) run assms(5-7),
        of h2 memo] by blast
  moreover have "nft_owners K t1 tok \<noteq> None"
    using nft_store.approve_update(1) [OF assms(1,4)] nft_store.approve_returns [OF assms(1,4)] by auto
  ultimately show ?thesis
    by (intro exI [of _ i] exI [of _ t2] exI [of _ h3])
      (auto simp: nft_is_approved_eq split: option.splits)
qed

text \<open>Alice, who has approved Bob, approves a market as well; after the sale Bob cannot sell.\<close>

lemma nft_demo_managed: "nft_managed list_nft_ops True nft_demo"
proof -
  have "nft_extensions_ok list_nft_ops nft_demo"
    unfolding nft_extensions_ok_def nft_demo_views
    by (auto simp: nft_metadata_of_def nft_demo_def DAList.lookup_update split: if_splits)
  moreover have "nft_ids_ok list_nft_ops nft_demo"
    by (auto simp: nft_ids_ok_def approval_ids_ok_def DAList.lookup_update split: if_splits)
  ultimately show ?thesis using nft_demo_index_ok by (simp add: nft_managed_def nft_ok_def)
qed

lemma nft_demo_listed:
  "\<exists>t h. nft_approve list_nft_ops (nft_demo_env ''alice'' 200 []) nft_demo no_effects ''t1'' ''shop'' None =
     Inr (t, h)"
proof -
  have b: "bytes_for_approved_account_id (nft_demo_env ''alice'' 200 []) ''shop'' = Inr 16"
    by (subst bytes_for_approved_account_id_eq) simp_all
  have r: "refund_deposit_to_account (nft_demo_env ''alice'' 200 []) 16 ''alice'' no_effects =
      Inr (schedule (Transfer ''alice'' 40) no_effects)"
    by (subst refund_deposit_to_account_eq(1)) (simp_all add: bytes_price_def Let_def)
  show ?thesis
    by (simp add: nft_approve_def assert_at_least_one_yocto_def expect_token_found_def
        expect_approval_def b r refund_deposit_def nft_demo_def add_op_exact Let_def DAList.lookup_update)
qed

theorem approved_sale_happens_once_witness:
  "\<exists>t1 h1 i t2 h3. nft_approve list_nft_ops (nft_demo_env ''alice'' 200 []) nft_demo no_effects ''t1''
       ''shop'' None = Inr (t1, h1) \<and>
     nft_transfer list_nft_ops (nft_demo_env ''shop'' 1 []) t1 no_effects ''carol'' ''t1'' (Some i) None =
       Inr (t2, h3) \<and>
     nft_owners list_nft_ops t2 ''t1'' = Some ''carol'' \<and>
     \<not> nft_sends (nep_nft_core list_nft_ops) (nft_demo_env ''bob'' 1 []) t2 no_effects ''bob'' ''t1'' None
        t1 h1"
proof -
  obtain t1 h1 where run: "nft_approve list_nft_ops (nft_demo_env ''alice'' 200 []) nft_demo no_effects
      ''t1'' ''shop'' None = Inr (t1, h1)" using nft_demo_listed by blast
  have "overflow_checks (nft_demo_env ''alice'' 200 [])" by (simp add: nft_demo_env_def)
  from approved_sale_happens_once [OF nft_demo_store nft_demo_managed this run,
      of "nft_demo_env ''shop'' 1 []" "''carol''" no_effects None]
  obtain i t2 h3 where "nft_transfer list_nft_ops (nft_demo_env ''shop'' 1 []) t1 no_effects ''carol''
        ''t1'' (Some i) None = Inr (t2, h3)"
    and "nft_owners list_nft_ops t2 = (nft_owners list_nft_ops nft_demo)(''t1'' \<mapsto> ''carol'')"
    and stuck: "\<forall>e2 h4 r aid s3 h5. predecessor_account_id e2 \<noteq> ''carol'' \<longrightarrow>
        \<not> nft_sends (nep_nft_core list_nft_ops) e2 t2 h4 r ''t1'' aid s3 h5"
    by auto
  moreover have "\<not> nft_sends (nep_nft_core list_nft_ops) (nft_demo_env ''bob'' 1 []) t2 no_effects
      ''bob'' ''t1'' None t1 h1" using stuck by simp
  ultimately show ?thesis using run
    by (intro exI [of _ t1] exI [of _ h1] exI [of _ i] exI [of _ t2] exI [of _ h3] conjI) simp_all
qed

end
