(* ===== verification/EnumerationStandard.thy ===== *)
theory EnumerationStandard
  imports NftStandard
begin

section \<open>The standard NEP-181 as the trait states it\<close>

text \<open>
  \<open>non_fungible_token/enumeration/mod.rs\<close> of \<open>nep-interface\<close>: the trait \<open>NonFungibleTokenEnumeration\<close>
  as a record of methods, and one definition for each of the things its comments promise.  The
  locale \<open>nep181\<close> has them as its assumptions; its lemmas are what a wallet or an explorer gets from
  any contract that keeps the promises: pages that add up to all tokens, and supplies of the
  accounts that add up to the total supply.
\<close>

subsection \<open>The trait\<close>

record ('s, 'e) NonFungibleTokenEnumeration =
  enum_nft_total_supply :: "'s \<Rightarrow> u128"
  enum_nft_tokens :: "'s \<Rightarrow> u128 option \<Rightarrow> u64 option \<Rightarrow> 'e panic + Token list"
  enum_nft_supply_for_owner :: "'s \<Rightarrow> AccountId \<Rightarrow> 'e panic + u128"
  enum_nft_tokens_for_owner ::
    "'s \<Rightarrow> AccountId \<Rightarrow> u128 option \<Rightarrow> u64 option \<Rightarrow> 'e panic + Token list"

subsection \<open>The promises\<close>

text \<open>
  A list of tokens shows a set of them: each once, and each as \<open>nft_token\<close> of the core standard,
  which is \<open>shw\<close> here, returns it.
\<close>

type_synonym 's token_view = "'s \<Rightarrow> TokenId \<Rightarrow> Token option"

definition shows_tokens :: "'s token_view \<Rightarrow> 's \<Rightarrow> Token list \<Rightarrow> TokenId set \<Rightarrow> bool" where
  "shows_tokens shw s toks ids \<longleftrightarrow>
     distinct (map tok_token_id toks) \<and> set (map tok_token_id toks) = ids \<and>
     list_all (\<lambda>x. shw s (tok_token_id x) = Some x) toks"

text \<open>``Get a list of all tokens'', ``returns the total supply of non-fungible tokens''.\<close>

definition lists_all_tokens ::
    "('s, 'e) NonFungibleTokenEnumeration \<Rightarrow> 's owner_view \<Rightarrow> 's token_view \<Rightarrow> ('s \<Rightarrow> bool) \<Rightarrow> bool" where
  "lists_all_tokens E own shw ok \<longleftrightarrow>
     (\<forall>s. ok s \<longrightarrow>
        (\<exists>toks. enum_nft_tokens E s None None = Inr toks \<and> shows_tokens shw s toks (dom (own s)) \<and>
           unat (enum_nft_total_supply E s) = length toks))"

text \<open>``Get list of all tokens owned by a given account'', and their number.\<close>

definition lists_owned_tokens ::
    "('s, 'e) NonFungibleTokenEnumeration \<Rightarrow> 's owner_view \<Rightarrow> 's token_view \<Rightarrow> ('s \<Rightarrow> bool) \<Rightarrow> bool" where
  "lists_owned_tokens E own shw ok \<longleftrightarrow>
     (\<forall>s a. ok s \<longrightarrow>
        (\<exists>toks n. enum_nft_tokens_for_owner E s a None None = Inr toks \<and>
           shows_tokens shw s toks {tok. own s tok = Some a} \<and>
           enum_nft_supply_for_owner E s a = Inr n \<and> unat n = length toks))"

text \<open>
  ``The starting index of tokens to return'' and ``the maximum number of tokens to return'', for the
  limits that satisfy \<open>fits\<close>.
\<close>

definition pages_tokens ::
    "('s, 'e) NonFungibleTokenEnumeration \<Rightarrow> ('s \<Rightarrow> bool) \<Rightarrow> (u64 \<Rightarrow> bool) \<Rightarrow> bool" where
  "pages_tokens E ok fits \<longleftrightarrow>
     (\<forall>s i n toks. ok s \<longrightarrow> fits n \<longrightarrow> 0 < n \<longrightarrow> enum_nft_tokens E s None None = Inr toks \<longrightarrow>
        unat i < length toks \<longrightarrow>
        enum_nft_tokens E s (Some i) (Some n) = Inr (take (unat n) (drop (unat i) toks)))"

definition pages_owned_tokens ::
    "('s, 'e) NonFungibleTokenEnumeration \<Rightarrow> ('s \<Rightarrow> bool) \<Rightarrow> (u64 \<Rightarrow> bool) \<Rightarrow> bool" where
  "pages_owned_tokens E ok fits \<longleftrightarrow>
     (\<forall>s a i n toks. ok s \<longrightarrow> fits n \<longrightarrow> 0 < n \<longrightarrow> enum_nft_tokens_for_owner E s a None None = Inr toks \<longrightarrow>
        unat i < length toks \<longrightarrow>
        enum_nft_tokens_for_owner E s a (Some i) (Some n) = Inr (take (unat n) (drop (unat i) toks)))"

definition nep181_report ::
    "('s, 'e) NonFungibleTokenEnumeration \<Rightarrow> 's owner_view \<Rightarrow> 's token_view \<Rightarrow> ('s \<Rightarrow> bool) \<Rightarrow>
     (u64 \<Rightarrow> bool) \<Rightarrow> (string \<times> bool) list" where
  "nep181_report E own shw ok fits =
     [(''lists all tokens'', lists_all_tokens E own shw ok),
      (''lists owned tokens'', lists_owned_tokens E own shw ok),
      (''pages tokens'', pages_tokens E ok fits),
      (''pages owned tokens'', pages_owned_tokens E ok fits)]"

subsection \<open>The contract between a token and its explorers\<close>

locale nep181 =
  fixes E :: "('s, 'e) NonFungibleTokenEnumeration" and own :: "'s owner_view"
    and shw :: "'s token_view" and ok :: "'s \<Rightarrow> bool" and fits :: "u64 \<Rightarrow> bool"
  assumes lists_all: "lists_all_tokens E own shw ok"
    and lists_owned: "lists_owned_tokens E own shw ok"
    and pages: "pages_tokens E ok fits"
    and pages_owned: "pages_owned_tokens E ok fits"
begin

lemma all_tokens:
  assumes "ok s"
  obtains toks where "enum_nft_tokens E s None None = Inr toks" and "shows_tokens shw s toks (dom (own s))"
    and "unat (enum_nft_total_supply E s) = length toks"
  using lists_all assms unfolding lists_all_tokens_def by blast

lemma shown_card: "shows_tokens shw s toks ids \<Longrightarrow> finite ids \<and> card ids = length toks"
  unfolding shows_tokens_def by (metis distinct_card length_map List.finite_set)

lemma total_is_card: "ok s \<Longrightarrow> finite (dom (own s)) \<and> unat (enum_nft_total_supply E s) = card (dom (own s))"
  using all_tokens shown_card by metis

lemma owned_is_card:
  assumes "ok s"
  shows "\<exists>n. enum_nft_supply_for_owner E s a = Inr n \<and> unat n = card {tok. own s tok = Some a}"
  using lists_owned assms shown_card unfolding lists_owned_tokens_def by metis

text \<open>The supplies of the accounts that own tokens add up to the total supply.\<close>

lemma supplies_add_up:
  assumes "ok s"
  shows "unat (enum_nft_total_supply E s) =
     (\<Sum>a \<in> ran (own s). case enum_nft_supply_for_owner E s a of Inl p \<Rightarrow> 0 | Inr n \<Rightarrow> unat n)"
proof -
  have fin: "finite (dom (own s))" and total: "unat (enum_nft_total_supply E s) = card (dom (own s))"
    using total_is_card [OF assms] by simp_all
  have "dom (own s) = (\<Union>a \<in> ran (own s). {tok. own s tok = Some a})" by (auto simp: ran_def)
  moreover have "card (\<Union>a \<in> ran (own s). {tok. own s tok = Some a}) =
      (\<Sum>a \<in> ran (own s). card {tok. own s tok = Some a})"
  proof (rule card_UN_disjoint)
    show "finite (ran (own s))" using fin by (rule finite_ran)
    show "\<forall>a \<in> ran (own s). finite {tok. own s tok = Some a}"
      using fin by (auto intro: rev_finite_subset)
  qed auto
  moreover have "(case enum_nft_supply_for_owner E s a of Inl p \<Rightarrow> 0 | Inr n \<Rightarrow> unat n) =
      card {tok. own s tok = Some a}" for a
    using owned_is_card [OF assms, of a] by auto
  ultimately show ?thesis using total by simp
qed

end

end
