(* ===== verification/EnumerationConformance.thy ===== *)
theory EnumerationConformance
  imports EnumerationStandard NftProperties
begin

section \<open>The enumeration of \<open>nep-interface\<close> and NEP-181\<close>

text \<open>
  The block \<open>impl NonFungibleTokenEnumeration for NonFungibleToken\<close> as a record of methods.  It keeps
  the promises of \<open>EnumerationStandard\<close> over any collections that keep their laws, in every state
  whose index of owners is right, as it is in every reachable one, and for limits below \<open>2 ^ 32\<close>.
\<close>

definition nep_nft_enumeration ::
    "('o, 'md, 'te, 'us, 'ap, 'nx) nft_ops \<Rightarrow>
     (('o, 'md, 'te, 'ap, 'nx) NonFungibleToken, NftError) NonFungibleTokenEnumeration" where
  "nep_nft_enumeration K =
     \<lparr>enum_nft_total_supply = nft_total_supply K, enum_nft_tokens = nft_tokens K,
      enum_nft_supply_for_owner = nft_supply_for_owner K,
      enum_nft_tokens_for_owner = nft_tokens_for_owner K\<rparr>"

lemma enumeration_methods [simp]:
  "enum_nft_total_supply (nep_nft_enumeration K) = nft_total_supply K"
  "enum_nft_tokens (nep_nft_enumeration K) = nft_tokens K"
  "enum_nft_supply_for_owner (nep_nft_enumeration K) = nft_supply_for_owner K"
  "enum_nft_tokens_for_owner (nep_nft_enumeration K) = nft_tokens_for_owner K"
  by (simp_all add: nep_nft_enumeration_def)

text \<open>The enumeration extension is on, its index is right, and a \<open>usize\<close> can count the tokens.\<close>

definition nft_listed ::
    "('o, 'md, 'te, 'us, 'ap, 'nx) nft_ops \<Rightarrow> ('o, 'md, 'te, 'ap, 'nx) NonFungibleToken \<Rightarrow> bool" where
  "nft_listed K t \<longleftrightarrow>
     nft_index_ok K t \<and> tokens_per_owner t \<noteq> None \<and> card (dom (nft_owners K t)) < 2 ^ 32"

definition small_limit :: "u64 \<Rightarrow> bool" where
  "small_limit n \<longleftrightarrow> unat n < 2 ^ 32"

lemma page_all: "length xs < 2 ^ 32 \<Longrightarrow> page 0 (- 1) xs = xs"
  by (simp add: page_def unsigned_minus_1_eq_mask mask_eq_exp_minus_1)

lemma page_limit_None: "page_limit None = Inr (- 1)"
  by (simp add: page_limit_def)

lemma small_limit_usize: "small_limit n \<Longrightarrow> unat (ucast n :: usize) = unat n"
  by (simp add: small_limit_def unat_ucast_to_usize)

lemma page_limit_Some:
  assumes "small_limit n" and "0 < n"
  shows "page_limit (Some n) = Inr (ucast n)"
proof -
  have "unat n \<noteq> 0" using assms(2) by (simp add: word_less_nat_alt)
  then have "(ucast n :: usize) \<noteq> 0" using small_limit_usize [OF assms(1)] by (metis unat_0)
  then show ?thesis by (simp add: page_limit_def)
qed

lemma page_Some:
  assumes "small_limit n" and "unat i < length xs" and "length xs < 2 ^ 32"
  shows "page i (ucast n) xs = take (unat n) (drop (unat i) xs)"
  using page_eq [of i "ucast n" xs] assms small_limit_usize [OF assms(1)] by simp

lemma u128_of_count:
  assumes "n < 2 ^ 32"
  shows "unat (ucast (of_nat n :: u64) :: u128) = n"
proof -
  have "unat (of_nat n :: u64) = n" using assms by (intro unat_of_nat_u64) simp
  then show ?thesis by simp
qed

lemma enum_get_token_id [simp]: "tok_token_id (enum_get_token K t owner tok) = tok"
  by (simp add: enum_get_token_def)

context nft_store
begin

lemma listed_tokens:
  assumes "nft_listed K t"
  shows "length (tm_iter (owners_ops K) (owner_by_id t)) < 2 ^ 32"
    and "nft_tokens K t None None =
      Inr (map (\<lambda>(tok, owner). enum_get_token K t owner tok) (tm_iter (owners_ops K) (owner_by_id t)))"
proof -
  let ?xs = "tm_iter (owners_ops K) (owner_by_id t)"
  have "dom (nft_owners K t) = set (map fst ?xs)" by (simp add: nft_owners_def ow.iter_keys del: set_map)
  then have "card (dom (nft_owners K t)) = length ?xs"
    using distinct_card [OF ow.iter_distinct, of "owner_by_id t"] by simp
  then show len: "length ?xs < 2 ^ 32" using assms by (simp add: nft_listed_def)
  show "nft_tokens K t None None = Inr (map (\<lambda>(tok, owner). enum_get_token K t owner tok) ?xs)"
    by (simp add: nft_tokens_def Let_def page_limit_None page_all [OF len])
qed

lemma nep_lists_all:
  "lists_all_tokens (nep_nft_enumeration K) (nft_owners K) (nft_token K) (nft_listed K)"
  unfolding lists_all_tokens_def enumeration_methods
proof (intro allI impI)
  fix t assume ok: "nft_listed K t"
  let ?xs = "tm_iter (owners_ops K) (owner_by_id t)"
  let ?toks = "map (\<lambda>(tok, owner). enum_get_token K t owner tok) ?xs"
  have ids: "map tok_token_id ?toks = map fst ?xs" by auto
  have "nft_owners K t tok = Some owner" if "(tok, owner) \<in> set ?xs" for tok owner
    using that by (simp add: ow.iter_mem nft_owners_def)
  then have "list_all (\<lambda>x. nft_token K t (tok_token_id x) = Some x) ?toks"
    by (auto simp: list_all_iff enum_get_token_eq)
  then have "shows_tokens (nft_token K) t ?toks (dom (nft_owners K t))"
    unfolding shows_tokens_def ids by (simp add: ow.iter_distinct nft_owners_def ow.iter_keys del: set_map)
  moreover have "unat (nft_total_supply K t) = length ?toks"
    using u128_of_count [OF listed_tokens(1) [OF ok]] by (simp add: nft_total_supply_def ow.len_iter)
  ultimately show "\<exists>toks. nft_tokens K t None None = Inr toks \<and>
      shows_tokens (nft_token K) t toks (dom (nft_owners K t)) \<and>
      unat (nft_total_supply K t) = length toks"
    using listed_tokens(2) [OF ok] by blast
qed

lemma nep_pages: "pages_tokens (nep_nft_enumeration K) (nft_listed K) small_limit"
  unfolding pages_tokens_def enumeration_methods
proof (intro allI impI)
  fix t and i :: u128 and n toks
  assume ok: "nft_listed K t" and n: "small_limit n" "0 < n"
    and all: "nft_tokens K t None None = Inr toks" and i: "unat i < length toks"
  let ?xs = "tm_iter (owners_ops K) (owner_by_id t)"
  note len = listed_tokens(1) [OF ok]
  have toks: "toks = map (\<lambda>(tok, owner). enum_get_token K t owner tok) ?xs"
    using all listed_tokens(2) [OF ok] by simp
  then have i': "unat i < length ?xs" using i by simp
  then have "i \<le> ucast (tm_len (owners_ops K) (owner_by_id t))"
    using u128_of_count [OF len] by (simp add: ow.len_iter word_le_nat_alt)
  then show "nft_tokens K t (Some i) (Some n) = Inr (take (unat n) (drop (unat i) toks))"
    by (simp add: nft_tokens_def Let_def page_limit_Some [OF n] page_Some [OF n(1) i' len] toks
        take_map drop_map)
qed

text \<open>The set of an account holds its tokens; an account without tokens has none.\<close>

lemma listed_owner:
  assumes "nft_listed K t"
  obtains m where "tokens_per_owner t = Some m"
    and "case lm_get (per_owner_ops K) m a of
        None \<Rightarrow> {tok. nft_owners K t tok = Some a} = {}
      | Some S \<Rightarrow> set (us_iter (token_set_ops K) S) = {tok. nft_owners K t tok = Some a} \<and>
          us_iter (token_set_ops K) S \<noteq> [] \<and> length (us_iter (token_set_ops K) S) < 2 ^ 32"
proof -
  obtain m where m: "tokens_per_owner t = Some m" using assms by (auto simp: nft_listed_def)
  then have held: "held_sets K m a = index_of (nft_owners K t) a"
    using assms by (simp add: nft_listed_def nft_index_ok_def)
  have "finite (dom (nft_owners K t))" by (simp add: nft_owners_def ow.finite_dom)
  then have "card {tok. nft_owners K t tok = Some a} \<le> card (dom (nft_owners K t))"
    by (rule card_mono) auto
  then have small: "card {tok. nft_owners K t tok = Some a} < 2 ^ 32"
    using assms by (simp add: nft_listed_def)
  show ?thesis
  proof (rule that [OF m], cases "lm_get (per_owner_ops K) m a")
    case None
    then show "case lm_get (per_owner_ops K) m a of
        None \<Rightarrow> {tok. nft_owners K t tok = Some a} = {}
      | Some S \<Rightarrow> set (us_iter (token_set_ops K) S) = {tok. nft_owners K t tok = Some a} \<and>
          us_iter (token_set_ops K) S \<noteq> [] \<and> length (us_iter (token_set_ops K) S) < 2 ^ 32"
      using held by (auto simp: held_sets_def index_of_def split: if_splits)
  next
    case (Some S)
    then have "set (us_iter (token_set_ops K) S) = {tok. nft_owners K t tok = Some a}"
      and "us_iter (token_set_ops K) S \<noteq> []"
      using held by (auto simp: held_sets_def index_of_def split: if_splits)
    then show "case lm_get (per_owner_ops K) m a of
        None \<Rightarrow> {tok. nft_owners K t tok = Some a} = {}
      | Some S \<Rightarrow> set (us_iter (token_set_ops K) S) = {tok. nft_owners K t tok = Some a} \<and>
          us_iter (token_set_ops K) S \<noteq> [] \<and> length (us_iter (token_set_ops K) S) < 2 ^ 32"
      using Some small ts.length_us_iter [of S] by simp
  qed
qed

lemma owner_page:
  assumes "tokens_per_owner t = Some m" and "lm_get (per_owner_ops K) m a = Some S"
    and "us_iter (token_set_ops K) S \<noteq> []" and "length (us_iter (token_set_ops K) S) < 2 ^ 32"
    and "unat (unwrap_or 0 i) < length (us_iter (token_set_ops K) S)" and "page_limit n = Inr k"
  shows "nft_tokens_for_owner K t a i n =
    Inr (map (enum_get_token K t a) (page (unwrap_or 0 i) k (us_iter (token_set_ops K) S)))"
proof -
  have "unwrap_or 0 i < ucast (us_len (token_set_ops K) S)"
    using assms(5) u128_of_count [OF assms(4)] by (simp add: ts.us_len_iter word_less_nat_alt)
  then show ?thesis
    using assms(1-3,6) by (simp add: nft_tokens_for_owner_def Let_def ts.us_is_empty_iff)
qed

lemma nep_lists_owned:
  "lists_owned_tokens (nep_nft_enumeration K) (nft_owners K) (nft_token K) (nft_listed K)"
  unfolding lists_owned_tokens_def enumeration_methods
proof (intro allI impI)
  fix t a assume ok: "nft_listed K t"
  obtain m where m: "tokens_per_owner t = Some m" and
    S: "case lm_get (per_owner_ops K) m a of
        None \<Rightarrow> {tok. nft_owners K t tok = Some a} = {}
      | Some S \<Rightarrow> set (us_iter (token_set_ops K) S) = {tok. nft_owners K t tok = Some a} \<and>
          us_iter (token_set_ops K) S \<noteq> [] \<and> length (us_iter (token_set_ops K) S) < 2 ^ 32"
    by (rule listed_owner [OF ok])
  show "\<exists>toks n. nft_tokens_for_owner K t a None None = Inr toks \<and>
      shows_tokens (nft_token K) t toks {tok. nft_owners K t tok = Some a} \<and>
      nft_supply_for_owner K t a = Inr n \<and> unat n = length toks"
  proof (cases "lm_get (per_owner_ops K) m a")
    case None
    then show ?thesis using m S
      by (auto simp: nft_tokens_for_owner_def nft_supply_for_owner_def shows_tokens_def)
  next
    case (Some S')
    let ?xs = "us_iter (token_set_ops K) S'"
    have xs: "set ?xs = {tok. nft_owners K t tok = Some a}" "?xs \<noteq> []" "length ?xs < 2 ^ 32"
      using S Some by simp_all
    have "nft_tokens_for_owner K t a None None = Inr (map (enum_get_token K t a) ?xs)"
      using owner_page [OF m Some xs(2,3), of None None] xs(2)
      by (simp add: page_limit_None page_all [OF xs(3)])
    moreover have "shows_tokens (nft_token K) t (map (enum_get_token K t a) ?xs)
        {tok. nft_owners K t tok = Some a}"
      using xs(1) by (auto simp: shows_tokens_def comp_def ts.us_iter_distinct list_all_iff enum_get_token_eq)
    moreover have "nft_supply_for_owner K t a = Inr (ucast (us_len (token_set_ops K) S'))"
      using m Some by (simp add: nft_supply_for_owner_def)
    ultimately show ?thesis using u128_of_count [OF xs(3)] by (auto simp: ts.us_len_iter)
  qed
qed

lemma nep_pages_owned: "pages_owned_tokens (nep_nft_enumeration K) (nft_listed K) small_limit"
  unfolding pages_owned_tokens_def enumeration_methods
proof (intro allI impI)
  fix t a and i :: u128 and n toks
  assume ok: "nft_listed K t" and n: "small_limit n" "0 < n"
    and all: "nft_tokens_for_owner K t a None None = Inr toks" and i: "unat i < length toks"
  obtain m where m: "tokens_per_owner t = Some m" and
    S: "case lm_get (per_owner_ops K) m a of
        None \<Rightarrow> {tok. nft_owners K t tok = Some a} = {}
      | Some S \<Rightarrow> set (us_iter (token_set_ops K) S) = {tok. nft_owners K t tok = Some a} \<and>
          us_iter (token_set_ops K) S \<noteq> [] \<and> length (us_iter (token_set_ops K) S) < 2 ^ 32"
    by (rule listed_owner [OF ok])
  show "nft_tokens_for_owner K t a (Some i) (Some n) = Inr (take (unat n) (drop (unat i) toks))"
  proof (cases "lm_get (per_owner_ops K) m a")
    case None
    then show ?thesis using m all i by (simp add: nft_tokens_for_owner_def)
  next
    case (Some S')
    let ?xs = "us_iter (token_set_ops K) S'"
    have xs: "?xs \<noteq> []" "length ?xs < 2 ^ 32" using S Some by simp_all
    have toks: "toks = map (enum_get_token K t a) ?xs"
      using all owner_page [OF m Some xs, of None None] xs(1)
      by (simp add: page_limit_None page_all [OF xs(2)])
    then have i': "unat i < length ?xs" using i by simp
    then show ?thesis
      using owner_page [OF m Some xs, of "Some i" "Some n"]
      by (simp add: page_limit_Some [OF n] page_Some [OF n(1) i' xs(2)] toks take_map drop_map)
  qed
qed

lemma nep_nep181:
  "nep181 (nep_nft_enumeration K) (nft_owners K) (nft_token K) (nft_listed K) small_limit"
  by unfold_locales (fact nep_lists_all nep_lists_owned nep_pages nep_pages_owned)+

end

interpretation list_enumeration: nep181 "nep_nft_enumeration list_nft_ops" "nft_owners list_nft_ops"
  "nft_token list_nft_ops" "nft_listed list_nft_ops" small_limit
  by (rule ln.nep_nep181)

subsection \<open>Properties\<close>

lemma nft_demo_listed_ok: "nft_listed list_nft_ops nft_demo"
proof -
  have "tokens_per_owner nft_demo \<noteq> None" by (simp add: nft_demo_def)
  then show ?thesis using nft_demo_index_ok by (simp add: nft_listed_def)
qed

lemma big_limits_fail: "\<not> pages_tokens (nep_nft_enumeration list_nft_ops) (nft_listed list_nft_ops) (\<lambda>_. True)"
proof
  assume pages: "pages_tokens (nep_nft_enumeration list_nft_ops) (nft_listed list_nft_ops) (\<lambda>_. True)"
  obtain toks where toks: "nft_tokens list_nft_ops nft_demo None None = Inr toks"
    and "shows_tokens (nft_token list_nft_ops) nft_demo toks (dom (nft_owners list_nft_ops nft_demo))"
    using list_enumeration.all_tokens [OF nft_demo_listed_ok] by auto
  then have "0 < length toks" by (cases toks) (simp_all add: shows_tokens_def)
  then have "nft_tokens list_nft_ops nft_demo (Some 0) (Some 4294967296) =
      Inr (take (unat (4294967296 :: u64)) (drop (unat (0 :: u128)) toks))"
    using pages nft_demo_listed_ok toks unfolding pages_tokens_def enumeration_methods by simp
  moreover have "page_limit (Some 4294967296) = Inl (Msg LimitOfZero)" by (simp add: page_limit_def)
  ultimately show False by (simp add: nft_tokens_def Let_def require_def)
qed

text \<open>C27: the enumeration of \<open>nep-interface\<close> against NEP-181.  In every state whose index of owners
  is right and that has fewer than 2^32 tokens, \<open>nft_tokens\<close> lists every token once and as
  \<open>nft_token\<close> shows it, \<open>nft_tokens_for_owner\<close> those of the account, the two supplies are the lengths
  of these lists, and a start index and a limit below 2^32 select the part they name.  With larger
  limits this fails: a limit of 2^32 is refused as zero.\<close>

theorem nep_enumeration_against_nep181:
  assumes "nft_store K"
  shows "nep181_report (nep_nft_enumeration K) (nft_owners K) (nft_token K) (nft_listed K) small_limit =
     [(''lists all tokens'', True), (''lists owned tokens'', True), (''pages tokens'', True),
      (''pages owned tokens'', True)] \<and>
    \<not> pages_tokens (nep_nft_enumeration list_nft_ops) (nft_listed list_nft_ops) (\<lambda>_. True)"
  using nft_store.nep_lists_all [OF assms] nft_store.nep_lists_owned [OF assms]
    nft_store.nep_pages [OF assms] nft_store.nep_pages_owned [OF assms] big_limits_fail
  by (simp add: nep181_report_def)

theorem nep_enumeration_against_nep181_witness:
  "pages_owned_tokens (nep_nft_enumeration list_nft_ops) (nft_listed list_nft_ops) small_limit \<and>
   \<not> pages_tokens (nep_nft_enumeration list_nft_ops) (nft_listed list_nft_ops) (\<lambda>_. True)"
  using nep_enumeration_against_nep181 [OF nft_demo_store] by (simp add: nep181_report_def)

text \<open>C28: the supplies add up.  In every reachable state of a contract with the enumeration extension
  and fewer than 2^32 tokens, \<open>nft_supply_for_owner\<close> answers for every account, and the answers for
  the accounts that own tokens add up to \<open>nft_total_supply\<close>.\<close>

theorem nft_supplies_add_up:
  assumes "nft_store K"
    and "reachable (nft_initial K usage) (\<lambda>s s'. \<exists>l. nft_step K usage from_slice self checks s l s') s"
    and "t = nft_field (nft_contract_of s)" and "tokens_per_owner t \<noteq> None"
    and "card (dom (nft_owners K t)) < 2 ^ 32"
  shows "(\<forall>a. \<exists>n. nft_supply_for_owner K t a = Inr n) \<and>
     unat (nft_total_supply K t) =
       (\<Sum>a \<in> ran (nft_owners K t). case nft_supply_for_owner K t a of Inl p \<Rightarrow> 0 | Inr n \<Rightarrow> unat n)"
proof -
  have "nft_chain K" using assms(1) by (simp add: nft_chain_def)
  from nft_chain.chain_ok [OF this assms(2)] have ok: "nft_listed K t"
    using assms(3-5) by (simp add: nft_system_inv_def nft_ok_def nft_listed_def)
  note nep181 = nft_store.nep_nep181 [OF assms(1)]
  from nep181.supplies_add_up [OF nep181 ok] nep181.owned_is_card [OF nep181 ok] show ?thesis
    unfolding enumeration_methods by blast
qed

theorem nft_supplies_add_up_witness:
  "unat (nft_total_supply list_nft_ops nft_demo) =
     (case nft_supply_for_owner list_nft_ops nft_demo ''alice'' of Inl p \<Rightarrow> 0 | Inr n \<Rightarrow> unat n)"
proof -
  have "ran (nft_owners list_nft_ops nft_demo) = {''alice''}" by auto
  moreover have "tokens_per_owner nft_demo \<noteq> None" "card (dom (nft_owners list_nft_ops nft_demo)) < 2 ^ 32"
    by (simp add: nft_demo_def) simp
  ultimately show ?thesis
    using nft_supplies_add_up [OF nft_demo_store nft_demo_reachable refl] by simp
qed

end
