(* ===== verification/Simulation.thy ===== *)
theory Simulation
  imports Prelude
begin

section \<open>Refinement of a transition system by an abstract machine\<close>

text \<open>
  An abstract machine is a partial function \<open>next\<close> that maps a label and a state to the next state,
  or to nothing where the machine does not allow the label.  A transition system refines it when
  every step from a state with the invariant is, on the abstract states, the step of some label.
  Then every state it reaches is the replay of a list of labels.  Where the steps of the system carry
  labels of their own, the label of the machine may be a function of them: then a trace of the system
  is the replay of exactly the labels that its own labels stand for.
\<close>

fun replay :: "('l \<Rightarrow> 'a \<Rightarrow> 'a option) \<Rightarrow> 'l list \<Rightarrow> 'a \<Rightarrow> 'a option" where
  "replay next [] a = Some a"
| "replay next (l # ls) a = (case next l a of None \<Rightarrow> None | Some b \<Rightarrow> replay next ls b)"

lemma replay_append:
  "replay next (ls @ ks) a = (case replay next ls a of None \<Rightarrow> None | Some b \<Rightarrow> replay next ks b)"
  by (induction ls arbitrary: a) (auto split: option.splits)

lemma replay_snoc: "replay next ls a = Some b \<Longrightarrow> next l b = Some c \<Longrightarrow> replay next (ls @ [l]) a = Some c"
  by (simp add: replay_append)

locale refined_system = invariant_system init step inv
  for init :: "'s \<Rightarrow> bool" and step :: "'s \<Rightarrow> 's \<Rightarrow> bool" and inv :: "'s \<Rightarrow> bool" +
  fixes abs :: "'s \<Rightarrow> 'a" and start :: "'a \<Rightarrow> bool" and "next" :: "'l \<Rightarrow> 'a \<Rightarrow> 'a option"
  assumes init_abs: "init s \<Longrightarrow> start (abs s)"
    and step_abs: "inv s \<Longrightarrow> step s t \<Longrightarrow> \<exists>l. next l (abs s) = Some (abs t)"
begin

lemma reachable_step_abs: "reachable init step s \<Longrightarrow> step s t \<Longrightarrow> \<exists>l. next l (abs s) = Some (abs t)"
  using step_abs reachable_inv by blast

lemma reachable_replay:
  "reachable init step s \<Longrightarrow> \<exists>a ls. start a \<and> replay next ls a = Some (abs s)"
proof (induction rule: reachable.induct)
  case (reachable_init s)
  then have "start (abs s) \<and> replay next [] (abs s) = Some (abs s)" using init_abs by simp
  then show ?case by blast
next
  case (reachable_step s t)
  then obtain l where "next l (abs s) = Some (abs t)" using reachable_step_abs by blast
  with reachable_step.IH show ?case using replay_snoc by fast
qed

end

text \<open>
  Where the steps carry labels, a run is a list of them.  When every label is one partial function
  on the abstract states, the abstract state after a run is the replay of exactly its labels.
\<close>

inductive trace :: "('s \<Rightarrow> 'l \<Rightarrow> 's \<Rightarrow> bool) \<Rightarrow> 's \<Rightarrow> 'l list \<Rightarrow> 's \<Rightarrow> bool"
  for step :: "'s \<Rightarrow> 'l \<Rightarrow> 's \<Rightarrow> bool" where
  trace_nil: "trace step s [] s"
| trace_snoc: "trace step s ls t \<Longrightarrow> step t l u \<Longrightarrow> trace step s (ls @ [l]) u"

lemma trace_single: "step s l t \<Longrightarrow> trace step s [l] t"
  using trace_snoc [OF trace_nil] by fastforce

locale labelled_refinement =
  fixes step :: "'s \<Rightarrow> 'l \<Rightarrow> 's \<Rightarrow> bool" and inv :: "'s \<Rightarrow> bool"
    and abs :: "'s \<Rightarrow> 'a" and post :: "'l \<Rightarrow> 'a \<Rightarrow> 'a option"
  assumes step_keeps: "inv s \<Longrightarrow> step s l t \<Longrightarrow> inv t"
    and step_post: "inv s \<Longrightarrow> step s l t \<Longrightarrow> post l (abs s) = Some (abs t)"
begin

lemma trace_keeps: "trace step s ls t \<Longrightarrow> inv s \<Longrightarrow> inv t"
  by (induction rule: trace.induct) (auto intro: step_keeps)

lemma trace_replay: "trace step s ls t \<Longrightarrow> inv s \<Longrightarrow> replay post ls (abs s) = Some (abs t)"
proof (induction rule: trace.induct)
  case (trace_snoc s ls t l u)
  then show ?case using step_post [OF trace_keeps] replay_snoc by fastforce
qed simp

end

end
