(* ===== verification/LedgerMachine.thy ===== *)
theory LedgerMachine
  imports FtProperties Simulation
begin

section \<open>The fungible token as a ledger\<close>

text \<open>
  The abstract machine that a contract with \<open>nep-interface\<close>'s fungible token implements: a book of
  natural numbers, the amount issued, and the transfer calls that are not settled yet.  A receipt of
  the chain of \<open>FtContract\<close> is here a value, with the environment and the arguments of its call; the
  relation \<open>ft_executes\<close> says what executing it does, and \<open>ft_entry\<close> for which entry in the book it
  stands.  The chain, with all its receipts and late settlements, refines the book entry by entry;
  what the machine guarantees its account holders therefore holds of the contract.
\<close>

subsection \<open>The machine\<close>

record ledger_machine =
  funds :: ledger
  issued :: nat
  open_calls :: "(AccountId \<times> AccountId \<times> nat) multiset"

definition empty_ledger :: ledger_machine where
  "empty_ledger = \<lparr>funds = Map.empty, issued = 0, open_calls = {#}\<rparr>"

datatype ledger_label =
  Idle
| Opens AccountId
| Closes AccountId
| Mints AccountId nat
| Burns AccountId nat
| Sends AccountId AccountId nat
| Calls AccountId AccountId nat
| Settles AccountId AccountId nat nat
| Drops AccountId AccountId nat

text \<open>
  The last argument of \<open>Settles\<close> is what the receiver did not use, at most the amount.  What is left
  of it goes back to the sender, and out of circulation when the sender has gone.
\<close>

definition burned_by_refund :: "ledger \<Rightarrow> AccountId \<Rightarrow> AccountId \<Rightarrow> nat \<Rightarrow> nat" where
  "burned_by_refund b s r u = (if b s = None then min (unwrap_or 0 (b r)) u else 0)"

fun ledger_next :: "ledger_label \<Rightarrow> ledger_machine \<Rightarrow> ledger_machine option" where
  "ledger_next Idle m = Some m"
| "ledger_next (Opens a) m =
     (if funds m a = None then Some (m\<lparr>funds := (funds m)(a \<mapsto> 0)\<rparr>) else None)"
| "ledger_next (Closes a) m =
     (case funds m a of
        None \<Rightarrow> None
      | Some x \<Rightarrow> Some (m\<lparr>funds := (funds m)(a := None), issued := issued m - x\<rparr>))"
| "ledger_next (Mints a n) m =
     (case funds m a of
        None \<Rightarrow> None
      | Some x \<Rightarrow> if issued m + n < 2 ^ 128
          then Some (m\<lparr>funds := (funds m)(a \<mapsto> x + n), issued := issued m + n\<rparr>) else None)"
| "ledger_next (Burns a n) m =
     (case funds m a of
        None \<Rightarrow> None
      | Some x \<Rightarrow> if n \<le> x then Some (m\<lparr>funds := (funds m)(a \<mapsto> x - n), issued := issued m - n\<rparr>)
          else None)"
| "ledger_next (Sends s r n) m = map_option (\<lambda>b. m\<lparr>funds := b\<rparr>) (ledger_transfer (funds m) s r n)"
| "ledger_next (Calls s r n) m =
     map_option (\<lambda>b. m\<lparr>funds := b, open_calls := add_mset (s, r, n) (open_calls m)\<rparr>)
       (ledger_transfer (funds m) s r n)"
| "ledger_next (Settles s r n u) m =
     (if (s, r, n) \<in># open_calls m \<and> u \<le> n
      then Some \<lparr>funds = ledger_refund (funds m) s r u,
                 issued = issued m - burned_by_refund (funds m) s r u,
                 open_calls = open_calls m - {#(s, r, n)#}\<rparr>
      else None)"
| "ledger_next (Drops s r n) m =
     (if (s, r, n) \<in># open_calls m then Some (m\<lparr>open_calls := open_calls m - {#(s, r, n)#}\<rparr>) else None)"

subsection \<open>What the machine guarantees\<close>

definition ledger_held :: "ledger_machine \<Rightarrow> AccountId \<Rightarrow> nat" where
  "ledger_held m a = unwrap_or 0 (funds m a)"

lemma transfer_held:
  assumes "ledger_transfer b s r n = Some b'"
  shows "s \<noteq> r" and "unwrap_or 0 (b' s) + n = unwrap_or 0 (b s)"
    and "unwrap_or 0 (b' r) = unwrap_or 0 (b r) + n" and "a \<noteq> s \<Longrightarrow> a \<noteq> r \<Longrightarrow> b' a = b a"
  using assms by (auto simp: ledger_transfer_def split: if_splits option.splits)

lemma refund_held:
  assumes "s \<noteq> r"
  shows "unwrap_or 0 (ledger_refund b s r u r) + min (unwrap_or 0 (b r)) u = unwrap_or 0 (b r)"
    and "unwrap_or 0 (b s) \<le> unwrap_or 0 (ledger_refund b s r u s)"
    and "a \<noteq> s \<Longrightarrow> a \<noteq> r \<Longrightarrow> ledger_refund b s r u a = b a"
  using assms by (cases "b r"; auto simp: ledger_refund_def Let_def split: option.splits)+

lemma refund_lowers:
  "unwrap_or 0 (b a) \<le> unwrap_or 0 (ledger_refund b s r u a) + (if r = a then min (unwrap_or 0 (b r)) u else 0)"
proof (cases "s = r")
  case True
  then show ?thesis
    by (cases "b r") (auto simp: ledger_refund_def Let_def)
next
  case False
  then show ?thesis
    using refund_held [where b = b and s = s and r = r and u = u]
    by (cases "a = s"; cases "a = r") auto
qed

text \<open>
  An entry draws on an account when it closes it, burns of it, or sends of it.  Other entries add to
  its funds, or take back what the account has left unused of a transfer call to it; what it has
  received by calls that are still open is the most that they can take back.
\<close>

fun drawn_from :: "ledger_label \<Rightarrow> AccountId \<Rightarrow> bool" where
  "drawn_from (Closes a) b = (a = b)"
| "drawn_from (Burns a n) b = (a = b)"
| "drawn_from (Sends s r n) b = (s = b)"
| "drawn_from (Calls s r n) b = (s = b)"
| "drawn_from _ b = False"

fun gained :: "ledger_label \<Rightarrow> AccountId \<Rightarrow> nat" where
  "gained (Mints a n) b = (if a = b then n else 0)"
| "gained (Sends s r n) b = (if r = b then n else 0)"
| "gained (Calls s r n) b = (if r = b then n else 0)"
| "gained _ b = 0"

fun given_back :: "ledger_label \<Rightarrow> AccountId \<Rightarrow> nat" where
  "given_back (Settles s r n u) b = (if r = b then u else 0)"
| "given_back _ b = 0"

definition received_open :: "ledger_machine \<Rightarrow> AccountId \<Rightarrow> nat" where
  "received_open m a = (\<Sum>(s, r, n) \<in># open_calls m. if r = a then n else 0)"

lemma received_open_simps [simp]:
  "received_open (m\<lparr>funds := b\<rparr>) a = received_open m a"
  "received_open (m\<lparr>funds := b, issued := i\<rparr>) a = received_open m a"
  "received_open (m\<lparr>funds := b, open_calls := add_mset (s, r, n) c\<rparr>) a =
     (if r = a then n else 0) + received_open (m\<lparr>open_calls := c\<rparr>) a"
  "received_open (m\<lparr>open_calls := open_calls m\<rparr>) a = received_open m a"
  by (simp_all add: received_open_def)

lemma received_open_remove:
  assumes "(s, r, n) \<in># open_calls m" and "open_calls m' = open_calls m - {#(s, r, n)#}"
  shows "received_open m a = received_open m' a + (if r = a then n else 0)"
  using assms by (auto simp: received_open_def dest!: multi_member_split)

lemma undrawn_step:
  assumes step: "ledger_next l m = Some m'" and idle: "\<not> drawn_from l a"
  shows "ledger_held m a + gained l a \<le> ledger_held m' a + given_back l a"
proof (cases l)
  case (Sends s r n)
  then obtain b where b: "ledger_transfer (funds m) s r n = Some b" "m' = m\<lparr>funds := b\<rparr>"
    using step by auto
  then show ?thesis
    using transfer_held [OF b(1)] idle Sends by (cases "a = r") (auto simp: ledger_held_def)
next
  case (Calls s r n)
  then obtain b where b: "ledger_transfer (funds m) s r n = Some b" "funds m' = b"
    using step by auto
  then show ?thesis
    using transfer_held [OF b(1)] idle Calls by (cases "a = r") (auto simp: ledger_held_def)
next
  case (Settles s r n u)
  then have "funds m' = ledger_refund (funds m) s r u" using step by (auto split: if_splits)
  then show ?thesis
    using refund_lowers [of "funds m" a s r u] Settles by (auto simp: ledger_held_def split: if_splits)
qed (use assms in \<open>auto simp: ledger_held_def split: option.splits if_splits\<close>)

lemma idle_step:
  assumes step: "ledger_next l m = Some m'" and idle: "\<not> drawn_from l a"
  shows "ledger_held m a + received_open m' a \<le> ledger_held m' a + received_open m a"
proof (cases l)
  case (Sends s r n)
  then obtain b where b: "ledger_transfer (funds m) s r n = Some b" "m' = m\<lparr>funds := b\<rparr>"
    using step by auto
  then show ?thesis
    using transfer_held [OF b(1)] idle Sends by (cases "a = r") (auto simp: ledger_held_def)
next
  case (Calls s r n)
  then obtain b where b: "ledger_transfer (funds m) s r n = Some b"
    "m' = m\<lparr>funds := b, open_calls := add_mset (s, r, n) (open_calls m)\<rparr>"
    using step by auto
  then show ?thesis
    using transfer_held [OF b(1)] idle Calls by (cases "a = r") (auto simp: ledger_held_def)
next
  case (Settles s r n u)
  then have m': "(s, r, n) \<in># open_calls m" "open_calls m' = open_calls m - {#(s, r, n)#}"
    "funds m' = ledger_refund (funds m) s r u" "u \<le> n"
    using step by (auto split: if_splits)
  have "ledger_held m a \<le> ledger_held m' a + (if r = a then n else 0)"
    using refund_lowers [of "funds m" a s r u] m'(3,4) by (auto simp: ledger_held_def split: if_splits)
  then show ?thesis using received_open_remove [OF m'(1,2), of a] by simp
next
  case (Drops s r n)
  then have "(s, r, n) \<in># open_calls m" "open_calls m' = open_calls m - {#(s, r, n)#}"
    "ledger_held m' a = ledger_held m a"
    using step by (auto simp: ledger_held_def split: if_splits)
  then show ?thesis using received_open_remove by fastforce
qed (use assms in \<open>auto simp: ledger_held_def split: option.splits if_splits\<close>)

subsection \<open>The contract as the machine\<close>

text \<open>Hooks that leave the token alone and call nobody, as hooks that log do.\<close>

definition hook_quiet :: "('m, 'r) ft_hook option \<Rightarrow> bool" where
  "hook_quiet hook \<longleftrightarrow>
     (\<forall>f c h a x c' h'. hook = Some f \<longrightarrow> f c h a x = Inr (c', h') \<longrightarrow>
        token c' = token c \<and> promises h' = promises h)"

definition ft_machine :: "'m balances_ops \<Rightarrow> ('m, 'r) ft_system \<Rightarrow> ledger_machine" where
  "ft_machine L s =
     \<lparr>funds = ft_ledger L (token (contract s)),
      issued = unat (total_supply (token (contract s))),
      open_calls = image_mset (\<lambda>(a, r, x). (a, r, unat x)) (pending s)\<rparr>"

lemma quiet_run_hook:
  assumes "hook_quiet hook" and "run_hook hook c h a x = Inr (c', h')"
  shows "token c' = token c" and "promises h' = promises h"
  using assms by (auto simp: hook_quiet_def run_hook_def split: option.splits)

lemma hook_quiet_keeps: "hook_quiet hook \<Longrightarrow> hook_keeps_supply L hook"
  unfolding hook_quiet_def hook_keeps_supply_def by metis

lemma pending_of_frame [simp]:
  "pending_of self no_effects = {#}"
  "pending_of self (log x h) = pending_of self h"
  "pending_of self (schedule p h) = pending_of self h + settlements self p"
  "pending_of self (ft_transfer_emit ev h) = pending_of self h"
  by (simp_all add: pending_of_def)

lemma settlements_call [simp]:
  "current_account_id e = self \<Longrightarrow>
     settlements self (ft_call_promise e g s r x msg) = {#(s, r, x)#}"
  by (simp add: ft_call_promise_def)

lemma pending_of_promises: "promises h' = promises h \<Longrightarrow> pending_of self h' = pending_of self h"
  by (simp add: pending_of_def)

context balance_store
begin

lemma transfer_on_ledger:
  assumes "ft_supply_ok L t" and "ft_internal_transfer L t h a r x memo = Inr (t', h')"
  shows "ledger_transfer (ft_ledger L t) a r (unat x) = Some (ft_ledger L t')"
    and "total_supply t' = total_supply t" and "pending_of self h' = pending_of self h"
  using internal_transfer_ledger [OF assms(1), of h a r x memo] assms(2)
    internal_transfer_supply_ok(2) [OF assms] internal_transfer_effects [OF assms(2)] by simp_all

lemma unregister_on_ledger:
  assumes ok: "ft_supply_ok L t"
    and run: "ft_internal_storage_unregister L e t no_effects force = Inr (t', h', cl)"
  shows "pending_of self h' = {#}" and "cl = None \<Longrightarrow> t' = t"
    and "cl \<noteq> None \<Longrightarrow> \<exists>b. ft_balances L t (predecessor_account_id e) = Some b \<and>
      ft_ledger L t' = (ft_ledger L t)(predecessor_account_id e := None) \<and>
      unat (total_supply t') = unat (total_supply t) - unat b"
proof -
  show "pending_of self h' = {#}" and "cl = None \<Longrightarrow> t' = t"
    using run by (auto simp: ft_internal_storage_unregister_def result_simps Let_def
        split: option.splits if_splits)
  assume "cl \<noteq> None"
  then obtain b where b: "ft_balances L t (predecessor_account_id e) = Some b"
    using run by (auto simp: ft_internal_storage_unregister_def result_simps Let_def ft_balances_def
        split: option.splits)
  have le: "unat b \<le> unat (total_supply t)" by (rule supply_ok_bounds(1) [OF ok b])
  then have "sub_op (overflow_checks e) (total_supply t) b = (Inr (total_supply t - b) :: FtError panic + _)"
    by (rule sub_op_exact)
  then have "t' = t\<lparr>accounts := fst (lm_remove L (accounts t) (predecessor_account_id e)),
                total_supply := total_supply t - b\<rparr>"
    using run b by (auto simp: ft_internal_storage_unregister_def result_simps Let_def ft_balances_def
        split: if_splits)
  then have "ft_balances L t' = (ft_balances L t)(predecessor_account_id e := None)"
    and "unat (total_supply t') = unat (total_supply t) - unat b"
    using le by (simp_all add: ft_balances_def map_laws unat_sub_exact)
  then show "\<exists>b. ft_balances L t (predecessor_account_id e) = Some b \<and>
      ft_ledger L t' = (ft_ledger L t)(predecessor_account_id e := None) \<and>
      unat (total_supply t') = unat (total_supply t) - unat b"
    using b by (auto simp: ft_ledger_def fun_eq_iff)
qed

lemma deposit_on_ledger:
  assumes "ft_storage_deposit L e t no_effects acc ro = Inr (t', h', sb)"
  shows "pending_of self h' = {#}"
    and "t' = t \<or> ft_internal_register_account L t (unwrap_or (predecessor_account_id e) acc) = Inr t'"
  using assms by (auto simp: ft_storage_deposit_def result_simps Let_def split: if_splits)

lemma deposit_opens:
  assumes "ft_storage_deposit L e t no_effects acc ro = Inr (t', h', sb)"
  shows "if ft_ledger L t (unwrap_or (predecessor_account_id e) acc) = None
     then ft_internal_register_account L t (unwrap_or (predecessor_account_id e) acc) = Inr t'
     else t' = t"
  using assms
  by (auto simp: ft_storage_deposit_def result_simps Let_def ft_ledger_def ft_balances_def map_laws
      split: if_splits)

lemma unregister_closes:
  assumes "ft_internal_storage_unregister L e t no_effects force = Inr (t', h', cl)"
  shows "attached_deposit e = 1"
    and "cl = None \<longleftrightarrow> ft_ledger L t (predecessor_account_id e) = None"
    and "unwrap_or 0 (ft_ledger L t (predecessor_account_id e)) = 0 \<or> force = Some True"
  using assms
  by (auto simp: ft_internal_storage_unregister_def result_simps Let_def ft_ledger_def ft_balances_def
      split: option.splits if_splits) (cases force; simp)+

lemma register_on_ledger:
  assumes "ft_internal_register_account L t a = Inr t'"
  shows "ft_ledger L t a = None" and "ft_ledger L t' = (ft_ledger L t)(a \<mapsto> 0)"
    and "total_supply t' = total_supply t"
  using assms by (auto simp: register_iff balances_insert ft_ledger_def fun_eq_iff)

lemma resolve_no_promises:
  assumes "ft_internal_resolve_transfer L from_slice e t h a r x = Inr (t', h', used, b)"
  shows "promises h' = promises h"
  using assms
  by (auto simp: ft_internal_resolve_transfer_def result_simps Let_def split: option.splits if_splits)

lemma resolve_on_ledger:
  assumes "ft_supply_ok L t"
    and "ft_internal_resolve_transfer L from_slice e t h a r x = Inr (t', h', used, b)"
    and "u = unat (unused_of from_slice x (promise_results e ! 0))"
  shows "promise_results e \<noteq> []" and "promise_results e ! 0 \<noteq> NotReady" and "u \<le> unat x"
    and "ft_ledger L t' = ledger_refund (ft_ledger L t) a r u"
    and "unat (total_supply t') = unat (total_supply t) - burned_by_refund (ft_ledger L t) a r u"
proof -
  from assms(2) obtain res w where res: "env_promise_result e 0 = (Inr res :: FtError panic + PromiseResult)"
    and w: "ft_unused_amount from_slice x res = Inr w"
    by (auto simp: ft_internal_resolve_transfer_def result_simps)
  have some: "promise_results e \<noteq> []" and res0: "promise_results e ! 0 = res"
    using res by (auto simp: env_promise_result_def split: if_splits)
  have ready: "res \<noteq> NotReady" using w by (auto simp: ft_unused_amount_def)
  have "w = unused_of from_slice x res"
    using w by (auto simp: ft_unused_amount_def unused_of_def split: PromiseResult.splits option.splits)
  then have u: "u = unat w" using assms(3) res0 by simp
  from resolve_spec [OF assms(1) res w, of h a r] assms(2)
  have set: "ft_settled L t a r x w t' used b" by auto
  have "unwrap_or 0 (ft_ledger L t r) = unat (ft_balance_of L t r)"
    by (cases "lm_get L (accounts t) r") (simp_all add: ft_ledger_def ft_balances_def ft_balance_of_def)
  then have burned: "unat b = burned_by_refund (ft_ledger L t) a r u"
    using set u by (auto simp: ft_settled_def burned_by_refund_def ft_ledger_def)
  show "promise_results e \<noteq> []" by (rule some)
  show "promise_results e ! 0 \<noteq> NotReady" using ready res0 by simp
  show "u \<le> unat x" using unused_amount_le [OF w] u by (simp add: word_le_nat_alt)
  show "ft_ledger L t' = ledger_refund (ft_ledger L t) a r u" using set u by (simp add: ft_settled_def)
  show "unat (total_supply t') = unat (total_supply t) - burned_by_refund (ft_ledger L t) a r u"
    using set burned unfolding ft_settled_def by (metis add_diff_cancel_right')
qed

end

subsection \<open>Receipts and their entries\<close>

text \<open>
  A receipt that the contract executes, with the environment of its call and its arguments: a public
  call, a mint or burn by the contract's author, or the settlement of an open call, with the answer
  in its environment, that returns or panics.
\<close>

datatype ft_receipt =
  TransferBy env AccountId u128 "string option"
| TransferCallBy env AccountId u128 "string option" string
| DepositBy env "AccountId option" "bool option"
| UnregisterBy env "bool option"
| AuthorMints AccountId u128
| AuthorBurns AccountId u128
| SettledBy env AccountId AccountId u128
| PanickedBy env AccountId AccountId u128

inductive ft_executes ::
    "('m, 'r) ft_hook option \<Rightarrow> ('m, 'r) ft_hook option \<Rightarrow> 'm balances_ops \<Rightarrow>
     (bytes \<Rightarrow> u128 option) \<Rightarrow> AccountId \<Rightarrow> ('m, 'r) ft_system \<Rightarrow> ft_receipt \<Rightarrow> ('m, 'r) ft_system \<Rightarrow> bool"
  for burned closed L from_slice self where
  executes_transfer:
    "contract_ft_transfer L e (contract s) no_effects r x memo = Inr (c, h) \<Longrightarrow>
     current_account_id e = self \<Longrightarrow>
     ft_executes burned closed L from_slice self s (TransferBy e r x memo)
       (s\<lparr>contract := c, pending := pending s + pending_of self h\<rparr>)"
| executes_transfer_call:
    "contract_ft_transfer_call L e (contract s) no_effects r x memo msg = Inr (c, h) \<Longrightarrow>
     current_account_id e = self \<Longrightarrow>
     ft_executes burned closed L from_slice self s (TransferCallBy e r x memo msg)
       (s\<lparr>contract := c, pending := pending s + pending_of self h\<rparr>)"
| executes_deposit:
    "contract_storage_deposit L e (contract s) no_effects a ro = Inr (c, h, sb) \<Longrightarrow>
     current_account_id e = self \<Longrightarrow>
     ft_executes burned closed L from_slice self s (DepositBy e a ro)
       (s\<lparr>contract := c, pending := pending s + pending_of self h\<rparr>)"
| executes_unregister:
    "contract_storage_unregister closed L e (contract s) no_effects force = Inr (c, h, b) \<Longrightarrow>
     current_account_id e = self \<Longrightarrow>
     ft_executes burned closed L from_slice self s (UnregisterBy e force)
       (s\<lparr>contract := c, pending := pending s + pending_of self h\<rparr>)"
| executes_mint:
    "ft_internal_deposit L (token (contract s)) a x = Inr t \<Longrightarrow>
     ft_executes burned closed L from_slice self s (AuthorMints a x)
       (s\<lparr>contract := (contract s)\<lparr>token := t\<rparr>\<rparr>)"
| executes_burn:
    "ft_internal_withdraw L (token (contract s)) a x = Inr t \<Longrightarrow>
     ft_executes burned closed L from_slice self s (AuthorBurns a x)
       (s\<lparr>contract := (contract s)\<lparr>token := t\<rparr>\<rparr>)"
| executes_settle:
    "(snd', r, x) \<in># pending s \<Longrightarrow> current_account_id e = self \<Longrightarrow>
     contract_ft_resolve_transfer burned L from_slice e (contract s) no_effects snd' r x =
       Inr (c, h, used) \<Longrightarrow>
     ft_executes burned closed L from_slice self s (SettledBy e snd' r x)
       (s\<lparr>contract := c, pending := pending s - {#(snd', r, x)#} + pending_of self h\<rparr>)"
| executes_settle_panics:
    "(snd', r, x) \<in># pending s \<Longrightarrow> current_account_id e = self \<Longrightarrow>
     contract_ft_resolve_transfer burned L from_slice e (contract s) no_effects snd' r x = Inl p \<Longrightarrow>
     ft_executes burned closed L from_slice self s (PanickedBy e snd' r x)
       (s\<lparr>pending := pending s - {#(snd', r, x)#}\<rparr>)"

inductive_cases ft_executesE: "ft_executes burned closed L from_slice self s l s'"

text \<open>The receipts are the steps of the chain.\<close>

lemma executes_is_step:
  "ft_executes burned closed L from_slice self s l s' \<Longrightarrow> ft_step burned closed L from_slice self s s'"
  by (induction rule: ft_executes.induct) (blast intro: ft_step.intros)+

lemma step_is_executed:
  "ft_step burned closed L from_slice self s s' \<Longrightarrow>
     \<exists>l. ft_executes burned closed L from_slice self s l s'"
  by (induction rule: ft_step.induct) (blast intro: ft_executes.intros)+

lemma trace_reachable:
  assumes "trace (ft_executes burned closed L from_slice self) s ls s'"
    and "reachable init (ft_step burned closed L from_slice self) s"
  shows "reachable init (ft_step burned closed L from_slice self) s'"
  using assms by (induction rule: trace.induct) (blast intro: reachable_step executes_is_step)+

text \<open>
  The entry that a receipt stands for is read off the receipt: the account that a call concerns is
  its predecessor, the amount is the argument, and what a settlement gives back is what the answer
  leaves unused.  Only whether a deposit opens and an unregistration closes an account depends on
  the books.
\<close>

fun ft_entry :: "(bytes \<Rightarrow> u128 option) \<Rightarrow> ft_receipt \<Rightarrow> ledger_machine \<Rightarrow> ledger_label" where
  "ft_entry from_slice (TransferBy e r x memo) m = Sends (predecessor_account_id e) r (unat x)"
| "ft_entry from_slice (TransferCallBy e r x memo msg) m = Calls (predecessor_account_id e) r (unat x)"
| "ft_entry from_slice (DepositBy e a ro) m =
     (let a = unwrap_or (predecessor_account_id e) a in if funds m a = None then Opens a else Idle)"
| "ft_entry from_slice (UnregisterBy e force) m =
     (let a = predecessor_account_id e in if funds m a = None then Idle else Closes a)"
| "ft_entry from_slice (AuthorMints a x) m = Mints a (unat x)"
| "ft_entry from_slice (AuthorBurns a x) m = Burns a (unat x)"
| "ft_entry from_slice (SettledBy e a r x) m =
     Settles a r (unat x) (unat (unused_of from_slice x (promise_results e ! 0)))"
| "ft_entry from_slice (PanickedBy e a r x) m = Drops a r (unat x)"

definition ft_post ::
    "(bytes \<Rightarrow> u128 option) \<Rightarrow> ft_receipt \<Rightarrow> ledger_machine \<Rightarrow> ledger_machine option" where
  "ft_post from_slice l m = ledger_next (ft_entry from_slice l m) m"

text \<open>
  Who may have a receipt executed: the caller of a transfer, a transfer call or an unregistration
  has attached one yoctoNEAR, and with tokens left has asked to lose them; a settlement comes from
  the contract itself and brings an answer.
\<close>

fun ft_permitted :: "AccountId \<Rightarrow> ft_receipt \<Rightarrow> ledger_machine \<Rightarrow> bool" where
  "ft_permitted self (TransferBy e r x memo) m = (attached_deposit e = 1)"
| "ft_permitted self (TransferCallBy e r x memo msg) m = (attached_deposit e = 1)"
| "ft_permitted self (UnregisterBy e force) m =
     (attached_deposit e = 1 \<and> (ledger_held m (predecessor_account_id e) = 0 \<or> force = Some True))"
| "ft_permitted self (SettledBy e a r x) m =
     (predecessor_account_id e = self \<and> attached_deposit e = 0 \<and>
      promise_results e \<noteq> [] \<and> promise_results e ! 0 \<noteq> NotReady)"
| "ft_permitted self _ m = True"

text \<open>
  What a receipt means for one account: whether the account itself, or the author by a burn, draws
  on its balance; what it is given; and what a settlement takes back, which is what the answer to
  the transfer call leaves unused.
\<close>

fun ft_draws :: "ft_receipt \<Rightarrow> AccountId \<Rightarrow> bool" where
  "ft_draws (TransferBy e r x memo) a = (predecessor_account_id e = a)"
| "ft_draws (TransferCallBy e r x memo msg) a = (predecessor_account_id e = a)"
| "ft_draws (UnregisterBy e force) a = (predecessor_account_id e = a)"
| "ft_draws (AuthorBurns b x) a = (b = a)"
| "ft_draws _ a = False"

fun ft_gives :: "ft_receipt \<Rightarrow> AccountId \<Rightarrow> nat" where
  "ft_gives (TransferBy e r x memo) a = (if r = a then unat x else 0)"
| "ft_gives (TransferCallBy e r x memo msg) a = (if r = a then unat x else 0)"
| "ft_gives (AuthorMints b x) a = (if b = a then unat x else 0)"
| "ft_gives _ a = 0"

fun ft_takes_back :: "(bytes \<Rightarrow> u128 option) \<Rightarrow> ft_receipt \<Rightarrow> AccountId \<Rightarrow> nat" where
  "ft_takes_back from_slice (SettledBy e b r x) a =
     (if r = a then unat (unused_of from_slice x (promise_results e ! 0)) else 0)"
| "ft_takes_back from_slice _ a = 0"

lemma entry_draws: "\<not> ft_draws l a \<Longrightarrow> \<not> drawn_from (ft_entry from_slice l m) a"
  by (cases l) (auto simp: Let_def)

lemma entry_gives: "ft_gives l a = gained (ft_entry from_slice l m) a"
  by (cases l) (simp_all add: Let_def)

lemma entry_takes_back: "ft_takes_back from_slice l a = given_back (ft_entry from_slice l m) a"
  by (cases l) (simp_all add: Let_def)

text \<open>The chain around a contract whose hooks are quiet.\<close>

locale quiet_chain = balance_store L for L :: "'m balances_ops" +
  fixes burned closed :: "('m, 'r) ft_hook option"
    and usage :: "'m \<Rightarrow> StorageUsage"
    and from_slice :: "bytes \<Rightarrow> u128 option"
    and self :: AccountId
  assumes burned_quiet: "hook_quiet burned" and closed_quiet: "hook_quiet closed"
begin

lemma contract_unregister_machine:
  assumes ok: "ft_supply_ok L (token c)"
    and "contract_storage_unregister closed L e c no_effects force = Inr (c', h, b)"
    and who: "a = predecessor_account_id e"
  shows "pending_of self h = {#}" and "attached_deposit e = 1"
    and "unwrap_or 0 (ft_ledger L (token c) a) = 0 \<or> force = Some True"
    and "case ft_ledger L (token c) a of
        None \<Rightarrow> token c' = token c
      | Some n \<Rightarrow> ft_ledger L (token c') = (ft_ledger L (token c))(a := None) \<and>
          unat (total_supply (token c')) = unat (total_supply (token c)) - n"
proof -
  from assms(2) obtain t h1 cl where
    t: "ft_internal_storage_unregister L e (token c) no_effects force = Inr (t, h1, cl)"
    and c': "(case cl of None \<Rightarrow> Inr (c\<lparr>token := t\<rparr>, h1, False)
       | Some (a, x) \<Rightarrow> rbind (run_hook closed (c\<lparr>token := t\<rparr>) h1 a x) (\<lambda>(c1, h2). Inr (c1, h2, True))) =
         Inr (c', h, b)"
    unfolding contract_storage_unregister_def rbind_eq_Inr by (fastforce split: prod.splits)
  have same: "token c' = t" and "promises h = promises h1"
    using c' quiet_run_hook [OF closed_quiet] by (auto simp: result_simps split: option.splits)
  then show "pending_of self h = {#}"
    using unregister_on_ledger(1) [OF ok t] pending_of_promises by metis
  note closes = unregister_closes [OF t, folded who]
  show "attached_deposit e = 1" and "unwrap_or 0 (ft_ledger L (token c) a) = 0 \<or> force = Some True"
    by (rule closes)+
  show "case ft_ledger L (token c) a of
        None \<Rightarrow> token c' = token c
      | Some n \<Rightarrow> ft_ledger L (token c') = (ft_ledger L (token c))(a := None) \<and>
          unat (total_supply (token c')) = unat (total_supply (token c)) - n"
    using closes(2) unregister_on_ledger(2,3) [OF ok t, folded who] same
    by (auto simp: ft_ledger_def split: option.split)
qed

lemma contract_resolve_machine:
  assumes ok: "ft_supply_ok L (token c)"
    and "contract_ft_resolve_transfer burned L from_slice e c no_effects a r x = Inr (c', h, used)"
    and u: "u = unat (unused_of from_slice x (promise_results e ! 0))"
  shows "pending_of self h = {#}"
    and "predecessor_account_id e = current_account_id e \<and> attached_deposit e = 0 \<and>
      promise_results e \<noteq> [] \<and> promise_results e ! 0 \<noteq> NotReady"
    and "u \<le> unat x"
    and "ft_ledger L (token c') = ledger_refund (ft_ledger L (token c)) a r u"
    and "unat (total_supply (token c')) =
        unat (total_supply (token c)) - burned_by_refund (ft_ledger L (token c)) a r u"
proof -
  from assms(2) obtain t h1 us b where
    t: "ft_internal_resolve_transfer L from_slice e (token c) no_effects a r x = Inr (t, h1, us, b)"
    and c': "(if 0 < b then run_hook burned (c\<lparr>token := t\<rparr>) h1 a b else Inr (c\<lparr>token := t\<rparr>, h1)) =
      Inr (c', h)"
    and self: "predecessor_account_id e = current_account_id e \<and> attached_deposit e = 0"
    by (auto simp: contract_ft_resolve_transfer_def result_simps)
  have same: "token c' = t" and "promises h = promises h1"
    using c' quiet_run_hook [OF burned_quiet] by (auto split: if_splits)
  moreover have "promises h1 = []" using resolve_no_promises [OF t] by simp
  ultimately show "pending_of self h = {#}" by (simp add: pending_of_def)
  note res = resolve_on_ledger [OF ok t u]
  show "predecessor_account_id e = current_account_id e \<and> attached_deposit e = 0 \<and>
      promise_results e \<noteq> [] \<and> promise_results e ! 0 \<noteq> NotReady"
    using self res(1,2) by simp
  show "u \<le> unat x" by (rule res(3))
  show "ft_ledger L (token c') = ledger_refund (ft_ledger L (token c)) a r u"
    and "unat (total_supply (token c')) =
        unat (total_supply (token c)) - burned_by_refund (ft_ledger L (token c)) a r u"
    using res(4,5) same by simp_all
qed

lemma executes_posts:
  assumes ex: "ft_executes burned closed L from_slice self s l s'" and inv: "ft_system_inv L s"
  shows "ft_post from_slice l (ft_machine L s) = Some (ft_machine L s')"
    and "ft_permitted self l (ft_machine L s)"
proof -
  have ok: "ft_supply_ok L (token (contract s))" using inv by (simp add: ft_system_inv_def)
  have "ft_post from_slice l (ft_machine L s) = Some (ft_machine L s') \<and> ft_permitted self l (ft_machine L s)"
    using ex
  proof cases
    case (executes_transfer e r x memo c h)
    then obtain t where "c = (contract s)\<lparr>token := t\<rparr>" and "attached_deposit e = 1"
      and tr: "ft_internal_transfer L (token (contract s)) no_effects (predecessor_account_id e) r x memo = Inr (t, h)"
      by (auto simp: contract_ft_transfer_def ft_transfer_def result_simps Let_def)
    with transfer_on_ledger [OF ok tr] executes_transfer show ?thesis
      by (simp add: ft_post_def ft_machine_def)
  next
    case (executes_transfer_call e r x memo msg c h)
    then obtain t h1 where "c = (contract s)\<lparr>token := t\<rparr>"
      and tr: "ft_internal_transfer L (token (contract s)) no_effects (predecessor_account_id e) r x memo =
        Inr (t, h1)"
      and "pending_of self h = {#(predecessor_account_id e, r, x)#}" and "attached_deposit e = 1"
      by (auto simp: contract_ft_transfer_call_def transfer_call_iff result_simps)
    with transfer_on_ledger [OF ok tr] executes_transfer_call show ?thesis
      by (simp add: ft_post_def ft_machine_def)
  next
    case (executes_deposit e a ro c h sb)
    then obtain t where c: "c = (contract s)\<lparr>token := t\<rparr>"
      and run: "ft_storage_deposit L e (token (contract s)) no_effects a ro = Inr (t, h, sb)"
      by (auto simp: contract_storage_deposit_def result_simps)
    note quiet = deposit_on_ledger(1) [OF run]
    show ?thesis
    proof (cases "ft_ledger L (token (contract s)) (unwrap_or (predecessor_account_id e) a)")
      case None
      with deposit_opens [OF run] have
        "ft_internal_register_account L (token (contract s)) (unwrap_or (predecessor_account_id e) a) = Inr t"
        by simp
      from register_on_ledger [OF this] show ?thesis using executes_deposit(1,2) c quiet
        by (simp add: ft_post_def ft_machine_def)
    next
      case (Some n)
      with deposit_opens [OF run] show ?thesis using executes_deposit(1,2) c quiet
        by (simp add: ft_post_def ft_machine_def)
    qed
  next
    case (executes_unregister e force c h b)
    note un = contract_unregister_machine [OF ok executes_unregister(3) refl]
    show ?thesis
    proof (cases "ft_ledger L (token (contract s)) (predecessor_account_id e)")
      case None
      with un executes_unregister(1,2) show ?thesis
        by (simp add: ft_post_def ft_machine_def ledger_held_def)
    next
      case (Some n)
      with un executes_unregister(1,2) show ?thesis
        by (simp add: ft_post_def ft_machine_def ledger_held_def)
    qed
  next
    case (executes_mint a x t)
    from executes_mint(3) obtain b where "ft_balances L (token (contract s)) a = Some b"
      and "ft_balances L t = (ft_balances L (token (contract s)))(a \<mapsto> b + x)"
      and "unat (b + x) = unat b + unat x"
      and "unat (total_supply t) = unat (total_supply (token (contract s))) + unat x"
      by (rule deposit_balances)
    moreover have "unat (total_supply t) < 2 ^ 128" by (rule u128_less_pow)
    ultimately show ?thesis using executes_mint(1,2)
      by (auto simp: ft_post_def ft_machine_def ft_ledger_def fun_eq_iff)
  next
    case (executes_burn a x t)
    from executes_burn(3) obtain b where "ft_balances L (token (contract s)) a = Some b" "unat x \<le> unat b"
      and "ft_balances L t = (ft_balances L (token (contract s)))(a \<mapsto> b - x)"
      and "unat (total_supply (token (contract s))) = unat (total_supply t) + unat x"
      by (rule withdraw_balances)
    then show ?thesis using executes_burn(1,2)
      by (auto simp: ft_post_def ft_machine_def ft_ledger_def fun_eq_iff unat_sub_exact)
  next
    case (executes_settle a r x e c h used)
    note res = contract_resolve_machine [OF ok executes_settle(5) refl]
    from executes_settle res(1) have "open_calls (ft_machine L s') =
        open_calls (ft_machine L s) - {#(a, r, unat x)#}" and "(a, r, unat x) \<in># open_calls (ft_machine L s)"
      by (force simp: ft_machine_def image_mset_Diff)+
    then show ?thesis using executes_settle res(2-5)
      by (simp add: ft_post_def ft_machine_def)
  next
    case (executes_settle_panics a r x e p)
    then have "open_calls (ft_machine L s') =
        open_calls (ft_machine L s) - {#(a, r, unat x)#}" and "(a, r, unat x) \<in># open_calls (ft_machine L s)"
      by (force simp: ft_machine_def image_mset_Diff)+
    then show ?thesis using executes_settle_panics
      by (simp add: ft_post_def ft_machine_def)
  qed
  then show "ft_post from_slice l (ft_machine L s) = Some (ft_machine L s')"
    and "ft_permitted self l (ft_machine L s)" by simp_all
qed

lemma initial_machine: "ft_initial L usage s \<Longrightarrow> ft_machine L s = empty_ledger"
  using new_empty by (auto simp: ft_initial_def ft_machine_def empty_ledger_def ft_ledger_def)

end

sublocale quiet_chain \<subseteq> ft_chain
  by unfold_locales (rule hook_quiet_keeps burned_quiet closed_quiet)+

sublocale quiet_chain \<subseteq> ledger: labelled_refinement
  "ft_executes burned closed L from_slice self :: ('m, 'r) ft_system \<Rightarrow> ft_receipt \<Rightarrow> ('m, 'r) ft_system \<Rightarrow> bool"
  "ft_system_inv L" "ft_machine L" "ft_post from_slice"
  by unfold_locales (use step_supply_ok executes_is_step executes_posts(1) in blast)+

context quiet_chain
begin

lemma run_inv:
  assumes "ft_initial L usage s0" and "trace (ft_executes burned closed L from_slice self) s0 ls s"
  shows "ft_system_inv L s"
  using ledger.trace_keeps [OF assms(2) initial_supply_ok [OF assms(1)]] .

lemma chain_replay:
  assumes "ft_initial L usage s0" and "trace (ft_executes burned closed L from_slice self) s0 ls s"
  shows "replay (ft_post from_slice) ls empty_ledger = Some (ft_machine L s)"
  using ledger.trace_replay [OF assms(2) initial_supply_ok [OF assms(1)]] initial_machine [OF assms(1)]
  by simp

lemma reached_inv:
  "reachable (ft_initial L usage) (ft_step burned closed L from_slice self) s \<Longrightarrow> ft_system_inv L s"
  by (rule reachable_inv)

lemma undrawn_run:
  assumes "trace (ft_executes burned closed L from_slice self) s ls s'" and "ft_system_inv L s"
    and "\<forall>l \<in> set ls. \<not> ft_draws l a"
  shows "ft_system_inv L s'"
    and "ledger_held (ft_machine L s) a + (\<Sum>l \<leftarrow> ls. ft_gives l a) \<le>
       ledger_held (ft_machine L s') a + (\<Sum>l \<leftarrow> ls. ft_takes_back from_slice l a)"
    and "ledger_held (ft_machine L s) a + received_open (ft_machine L s') a \<le>
       ledger_held (ft_machine L s') a + received_open (ft_machine L s) a"
proof -
  from assms have "ft_system_inv L s' \<and>
    ledger_held (ft_machine L s) a + (\<Sum>l \<leftarrow> ls. ft_gives l a) \<le>
       ledger_held (ft_machine L s') a + (\<Sum>l \<leftarrow> ls. ft_takes_back from_slice l a) \<and>
    ledger_held (ft_machine L s) a + received_open (ft_machine L s') a \<le>
       ledger_held (ft_machine L s') a + received_open (ft_machine L s) a"
  proof (induction rule: trace.induct)
    case (trace_snoc s ls t l u)
    then have inv: "ft_system_inv L t" and idle: "\<not> ft_draws l a" by simp_all
    define k where "k = ft_entry from_slice l (ft_machine L t)"
    have k: "ledger_next k (ft_machine L t) = Some (ft_machine L u)" and "\<not> drawn_from k a"
      using executes_posts(1) [OF trace_snoc.hyps(2) inv] entry_draws [OF idle]
      by (simp_all add: ft_post_def k_def)
    note step = undrawn_step [OF this] idle_step [OF this]
    have "ft_system_inv L u" by (rule ledger.step_keeps [OF inv trace_snoc.hyps(2)])
    moreover have "ft_gives l a = gained k a" and "ft_takes_back from_slice l a = given_back k a"
      unfolding k_def by (rule entry_gives entry_takes_back)+
    ultimately show ?case using step trace_snoc by simp
  qed simp
  then show "ft_system_inv L s'"
    and "ledger_held (ft_machine L s) a + (\<Sum>l \<leftarrow> ls. ft_gives l a) \<le>
       ledger_held (ft_machine L s') a + (\<Sum>l \<leftarrow> ls. ft_takes_back from_slice l a)"
    and "ledger_held (ft_machine L s) a + received_open (ft_machine L s') a \<le>
       ledger_held (ft_machine L s') a + received_open (ft_machine L s) a"
    by simp_all
qed

end

interpretation fun_quiet: quiet_chain fun_map None None usage from_slice self
  for usage :: "(AccountId \<rightharpoonup> Balance) \<Rightarrow> StorageUsage" and from_slice self
  by unfold_locales (simp_all add: hook_quiet_def)

lemma quiet_None [simp]: "hook_quiet None"
  by (simp add: hook_quiet_def)

subsection \<open>Properties\<close>

lemma ft_funds: "ledger_held (ft_machine L s) a = unat (ft_balance_of L (token (contract s)) a)"
  by (cases "lm_get L (accounts (token (contract s))) a")
    (simp_all add: ledger_held_def ft_machine_def ft_ledger_def ft_balances_def ft_balance_of_def)

text \<open>C1: the contract is a ledger.  Whatever receipts a contract with the token of
  \<open>nep-interface\<close> has executed since it was set up, with hooks that only log and in whatever order
  its late settlements came, its balances, its supply and its open transfer calls are the replay of
  exactly the entries that these receipts stand for: of each transfer, a debit of its predecessor
  and a credit of its receiver by the amount, of each settlement, what its answer leaves unused.
  And each further receipt is its own entry, which the ledger allows, with one yoctoNEAR from the
  account that it debits, or from the contract itself when it settles.\<close>

theorem ft_chain_refines_ledger:
  assumes "balance_store L" and "hook_quiet burned" and "hook_quiet closed"
    and "ft_initial L usage s0" and "trace (ft_executes burned closed L from_slice self) s0 receipts s"
  shows "replay (ft_post from_slice) receipts empty_ledger = Some (ft_machine L s) \<and>
     (\<forall>l s'. ft_executes burned closed L from_slice self s l s' \<longrightarrow>
        ledger_next (ft_entry from_slice l (ft_machine L s)) (ft_machine L s) = Some (ft_machine L s') \<and>
        ft_permitted self l (ft_machine L s))"
proof -
  have chain: "quiet_chain L burned closed"
    using assms(1-3) by (simp add: quiet_chain_def quiet_chain_axioms_def)
  note inv = quiet_chain.run_inv [OF chain assms(4,5)]
  show ?thesis
    using quiet_chain.chain_replay [OF chain assms(4,5)] quiet_chain.executes_posts [OF chain _ inv]
    unfolding ft_post_def by blast
qed

text \<open>A run of receipts: Bob and Alice register, Alice is minted 100 tokens and sends 30 of them to Bob
  with a transfer call; Bob's answer leaves 10 of them unused.\<close>

definition demo_before :: "(fun_accounts, unit) ft_system" where
  "demo_before = \<lparr>contract = \<lparr>token = demo_token, rest = ()\<rparr>, pending = {#}\<rparr>"

definition demo_called :: "(fun_accounts, unit) ft_system" where
  "demo_called = \<lparr>contract = \<lparr>token = demo_sent, rest = ()\<rparr>, pending = {#(''alice'', ''bob'', 30)#}\<rparr>"

definition demo_settled :: "(fun_accounts, unit) ft_system" where
  "demo_settled = demo_system [''alice'' \<mapsto> 80, ''bob'' \<mapsto> 20] 100 {#}"

abbreviation demo_executes ::
    "(fun_accounts, unit) ft_system \<Rightarrow> ft_receipt \<Rightarrow> (fun_accounts, unit) ft_system \<Rightarrow> bool" where
  "demo_executes \<equiv> ft_executes None None fun_map demo_from_slice ''ft''"

abbreviation demo_call_receipt :: ft_receipt where
  "demo_call_receipt \<equiv> TransferCallBy (demo_env ''alice'' 1 []) ''bob'' 30 None ''deal''"

abbreviation demo_settle_receipt :: ft_receipt where
  "demo_settle_receipt \<equiv> SettledBy (demo_env ''ft'' 0 [Successful [10]]) ''alice'' ''bob'' 30"

lemma demo_next:
  "trace demo_executes s ls t \<Longrightarrow> demo_executes t l u \<Longrightarrow> trace demo_executes s (ls @ [l]) u"
  by (rule trace_snoc)

lemma demo_register_receipt:
  assumes "m a = None"
  shows "demo_executes (demo_system m s p) (DepositBy (demo_env a 1250 []) None None)
     (demo_system (m(a \<mapsto> 0)) s p)"
proof -
  from demo_register_call [of m a s p] assms obtain sb where
    "contract_storage_deposit fun_map (demo_env a 1250 []) (contract (demo_system m s p)) no_effects
      None None = Inr (contract (demo_system (m(a \<mapsto> 0)) s p), no_effects, sb)"
    by blast
  from executes_deposit [OF this, where self = "''ft''" and burned = None and closed = None
      and from_slice = demo_from_slice]
  show ?thesis by (simp add: demo_system_def)
qed

lemma demo_mint_receipt:
  "m a = Some 0 \<Longrightarrow>
     demo_executes (demo_system m 0 p) (AuthorMints a 100) (demo_system (m(a \<mapsto> 100)) 100 p)"
  using executes_mint [OF demo_mint_call [of m a p]] by (simp add: demo_system_def)

lemma demo_calls: "demo_executes demo_before demo_call_receipt demo_called"
proof -
  obtain h where h: "ft_transfer_call fun_map (demo_env ''alice'' 1 []) demo_token no_effects ''bob''
      30 None ''deal'' = Inr (demo_sent, h)"
    using demo_call by blast
  then have "pending_of ''ft'' h = {#(''alice'', ''bob'', 30)#}"
    by (auto simp: balance_store.transfer_call_iff [OF demo_store])
  moreover have "contract_ft_transfer_call fun_map (demo_env ''alice'' 1 []) (contract demo_before)
      no_effects ''bob'' 30 None ''deal'' = Inr (\<lparr>token = demo_sent, rest = ()\<rparr>, h)"
    using h by (simp add: contract_ft_transfer_call_def demo_before_def)
  moreover from executes_transfer_call [OF this] have "demo_executes demo_before demo_call_receipt
      (demo_before\<lparr>contract := \<lparr>token = demo_sent, rest = ()\<rparr>, pending := pending demo_before + pending_of ''ft'' h\<rparr>)"
    by simp
  ultimately show ?thesis by (simp add: demo_before_def demo_called_def)
qed

lemma demo_settles: "demo_executes demo_called demo_settle_receipt demo_settled"
proof -
  have "\<exists>h used. contract_ft_resolve_transfer None fun_map demo_from_slice
      (demo_env ''ft'' 0 [Successful [10]]) (contract demo_called) no_effects ''alice'' ''bob'' 30 =
        Inr (contract demo_settled, h, used) \<and> pending_of ''ft'' h = {#}"
    by (simp add: contract_ft_resolve_transfer_def ft_internal_resolve_transfer_def demo_called_def
        demo_sent_def demo_settled_def demo_system_def assert_private_def assert_not_payable_def
        require_def env_promise_result_def ft_unused_amount_def fun_map_def checked_sub_def
        checked_add_def unwrap_or_panic_def Let_def min_def fun_eq_iff)
  then obtain h used where "contract_ft_resolve_transfer None fun_map demo_from_slice
      (demo_env ''ft'' 0 [Successful [10]]) (contract demo_called) no_effects ''alice'' ''bob'' 30 =
        Inr (contract demo_settled, h, used)" and "pending_of ''ft'' h = {#}"
    by blast
  from executes_settle [OF _ _ this(1), where self = "''ft''"] this(2)
  show ?thesis by (simp add: demo_called_def demo_settled_def demo_system_def)
qed

lemma demo_balances [simp]:
  "ft_balance_of fun_map (token (contract demo_before)) ''bob'' = 0"
  "ft_balance_of fun_map (token (contract demo_settled)) ''bob'' = 20"
  "pending demo_before = {#}"
  by (simp_all add: demo_settled_def demo_system_def demo_before_def ft_balance_of_def fun_map_def)

theorem ft_chain_refines_ledger_witness:
  "replay (ft_post demo_from_slice)
       [DepositBy (demo_env ''bob'' 1250 []) None None, DepositBy (demo_env ''alice'' 1250 []) None None,
        AuthorMints ''alice'' 100, demo_call_receipt, demo_settle_receipt] empty_ledger =
     Some \<lparr>funds = [''alice'' \<mapsto> 80, ''bob'' \<mapsto> 20], issued = 100, open_calls = {#}\<rparr>"
proof -
  let ?s0 = "demo_system Map.empty 0 {#}"
  have before: "demo_system [''bob'' \<mapsto> 0, ''alice'' \<mapsto> 100] 100 {#} = demo_before"
    by (auto simp: demo_before_def demo_system_def demo_token_def fun_eq_iff)
  have "trace demo_executes ?s0 [] ?s0" by (rule trace_nil)
  from demo_next [OF this demo_register_receipt [of _ "''bob''"]]
  have "trace demo_executes ?s0 [DepositBy (demo_env ''bob'' 1250 []) None None]
      (demo_system [''bob'' \<mapsto> 0] 0 {#})" by simp
  from demo_next [OF this demo_register_receipt [of _ "''alice''"]]
  have "trace demo_executes ?s0 [DepositBy (demo_env ''bob'' 1250 []) None None,
      DepositBy (demo_env ''alice'' 1250 []) None None] (demo_system [''bob'' \<mapsto> 0, ''alice'' \<mapsto> 0] 0 {#})"
    by simp
  from demo_next [OF this demo_mint_receipt [of _ "''alice''"]]
  have "trace demo_executes ?s0 [DepositBy (demo_env ''bob'' 1250 []) None None,
      DepositBy (demo_env ''alice'' 1250 []) None None, AuthorMints ''alice'' 100] demo_before"
    by (simp add: before)
  from demo_next [OF demo_next [OF this demo_calls] demo_settles]
  have "trace demo_executes ?s0 [DepositBy (demo_env ''bob'' 1250 []) None None,
      DepositBy (demo_env ''alice'' 1250 []) None None, AuthorMints ''alice'' 100,
      demo_call_receipt, demo_settle_receipt] demo_settled" by simp
  from ft_chain_refines_ledger [OF demo_store quiet_None quiet_None demo_initial this]
  show ?thesis
    by (simp add: ft_machine_def ft_ledger_def ft_balances_def demo_settled_def demo_system_def
        fun_map_def fun_eq_iff)
qed

text \<open>C4: who keeps still keeps the money.  Take any run of receipts from a reachable state on, none of
  them a transfer, a transfer call or an unregistration called by the account itself, nor a burn of
  its tokens by the contract's author.  Then all that the run pays into the account is still there
  at the end, on top of what it held at the start, but for what the settlements of the run take
  back: exactly the part of each transfer call to it that its answer leaves unused.  So the balance
  never falls below what the account held at the start less the amounts of the transfer calls to it
  that were open then, whatever the others do and however late the settlements come.\<close>

theorem ft_idle_account_keeps_balance:
  assumes "balance_store L" and "hook_quiet burned" and "hook_quiet closed"
    and "reachable (ft_initial L usage) (ft_step burned closed L from_slice self) s"
    and "trace (ft_executes burned closed L from_slice self) s receipts s'"
    and "\<forall>l \<in> set receipts. \<not> ft_draws l a"
  shows "unat (ft_balance_of L (token (contract s)) a) + (\<Sum>l \<leftarrow> receipts. ft_gives l a) \<le>
       unat (ft_balance_of L (token (contract s')) a) + (\<Sum>l \<leftarrow> receipts. ft_takes_back from_slice l a) \<and>
     unat (ft_balance_of L (token (contract s)) a) \<le>
       unat (ft_balance_of L (token (contract s')) a) +
         (\<Sum>(b, r, x) \<in># pending s. if r = a then unat x else 0)"
proof -
  have chain: "quiet_chain L burned closed"
    using assms(1-3) by (simp add: quiet_chain_def quiet_chain_axioms_def)
  note run = quiet_chain.undrawn_run(2,3) [OF chain assms(5) quiet_chain.reached_inv [OF chain assms(4)]
      assms(6)]
  have "received_open (ft_machine L s) a = (\<Sum>(b, r, x) \<in># pending s. if r = a then unat x else 0)"
    by (simp add: received_open_def ft_machine_def multiset.map_comp comp_def case_prod_unfold
        cong: if_cong)
  then show ?thesis using run by (simp add: ft_funds)
qed

theorem ft_idle_account_keeps_balance_witness:
  "trace demo_executes demo_before [demo_call_receipt, demo_settle_receipt] demo_settled \<and>
   unat (ft_balance_of fun_map (token (contract demo_before)) ''bob'') + 30 \<le>
     unat (ft_balance_of fun_map (token (contract demo_settled)) ''bob'') + 10"
proof -
  from demo_next [OF demo_next [OF trace_nil demo_calls] demo_settles]
  have run: "trace demo_executes demo_before [demo_call_receipt, demo_settle_receipt] demo_settled" by simp
  have "reachable (ft_initial fun_map demo_usage) demo_step demo_before"
    using demo_reachable by (simp add: demo_before_def)
  from ft_idle_account_keeps_balance [OF demo_store quiet_None quiet_None this run, of "''bob''"] run
  show ?thesis by (simp add: unused_of_def min_def)
qed

end
