(* ===== verification/EventReplay.thy ===== *)
theory EventReplay
  imports EventsRoundTrip Simulation
begin

section \<open>What the event log tells\<close>

text \<open>
  An indexer knows a token only by the lines it logs.  It reads each line as \<open>EventsRoundTrip\<close> does,
  leaves lines that are no events aside, and applies the others in their order: to the holdings of
  the accounts for the events of NEP-141, to the owners of the tokens for those of NEP-171.  It is
  strict: an event that cannot have happened, such as a transfer of more than the account holds,
  ends the replay with \<open>None\<close>.  \<open>FtEventLog\<close> and \<open>NftEventLog\<close> show that the replay of what the
  contracts log succeeds and gives their state.
\<close>

subsection \<open>The events of a fungible token\<close>

type_synonym holdings = "AccountId \<Rightarrow> nat"

definition credited :: "AccountId \<Rightarrow> nat \<Rightarrow> holdings \<Rightarrow> holdings" where
  "credited a n f = f(a := f a + n)"

definition debited :: "AccountId \<Rightarrow> nat \<Rightarrow> holdings \<Rightarrow> holdings option" where
  "debited a n f = (if n \<le> f a then Some (f(a := f a - n)) else None)"

fun ft_mint_told :: "FtMint \<Rightarrow> holdings \<Rightarrow> holdings option" where
  "ft_mint_told (FtMint a x memo) f = Some (credited a (unat x) f)"

fun ft_transfer_told :: "FtTransfer \<Rightarrow> holdings \<Rightarrow> holdings option" where
  "ft_transfer_told (FtTransfer a b x memo) f =
     map_option (credited b (unat x)) (debited a (unat x) f)"

fun ft_burn_told :: "FtBurn \<Rightarrow> holdings \<Rightarrow> holdings option" where
  "ft_burn_told (FtBurn a x memo) f = debited a (unat x) f"

fun ft_kind_told :: "Nep141EventKind \<Rightarrow> holdings \<Rightarrow> holdings option" where
  "ft_kind_told (FtMintEvent xs) f = replay ft_mint_told xs f"
| "ft_kind_told (FtTransferEvent xs) f = replay ft_transfer_told xs f"
| "ft_kind_told (FtBurnEvent xs) f = replay ft_burn_told xs f"

fun ft_told :: "NearEvent \<Rightarrow> holdings \<Rightarrow> holdings option" where
  "ft_told (Nep141 ev) f = ft_kind_told (nep141_kind ev) f"
| "ft_told (Nep171 ev) f = Some f"

subsection \<open>The events of a non-fungible token\<close>

type_synonym holders = "TokenId \<rightharpoonup> AccountId"

text \<open>The token goes from a holder, or from nobody, to another, or to nobody.\<close>

definition handed :: "AccountId option \<Rightarrow> AccountId option \<Rightarrow> TokenId \<Rightarrow> holders \<Rightarrow> holders option" where
  "handed from to tok m = (if m tok = from then Some (m(tok := to)) else None)"

fun nft_mint_told :: "NftMint \<Rightarrow> holders \<Rightarrow> holders option" where
  "nft_mint_told (NftMint a ids memo) m = replay (handed None (Some a)) ids m"

fun nft_transfer_told :: "NftTransfer \<Rightarrow> holders \<Rightarrow> holders option" where
  "nft_transfer_told (NftTransfer a b ids auth memo) m = replay (handed (Some a) (Some b)) ids m"

fun nft_burn_told :: "NftBurn \<Rightarrow> holders \<Rightarrow> holders option" where
  "nft_burn_told (NftBurn a ids auth memo) m = replay (handed (Some a) None) ids m"

fun nft_kind_told :: "Nep171EventKind \<Rightarrow> holders \<Rightarrow> holders option" where
  "nft_kind_told (NftMintEvent xs) m = replay nft_mint_told xs m"
| "nft_kind_told (NftTransferEvent xs) m = replay nft_transfer_told xs m"
| "nft_kind_told (NftBurnEvent xs) m = replay nft_burn_told xs m"

fun nft_told :: "NearEvent \<Rightarrow> holders \<Rightarrow> holders option" where
  "nft_told (Nep171 ev) m = nft_kind_told (nep171_kind ev) m"
| "nft_told (Nep141 ev) m = Some m"

subsection \<open>Lines of the log\<close>

text \<open>What is replayed: an entry of the log, or a line of text in which an event may be found.\<close>

fun entry_told :: "(NearEvent \<Rightarrow> 'a \<Rightarrow> 'a option) \<Rightarrow> log_line \<Rightarrow> 'a \<Rightarrow> 'a option" where
  "entry_told told (EventLog ev) a = told ev a"
| "entry_told told (TextLog t) a = Some a"

definition read_line :: "(string \<Rightarrow> json option) \<Rightarrow> string \<Rightarrow> NearEvent option" where
  "read_line parse line =
     (if take 11 line = ''EVENT_JSON:'' then Option.bind (parse (drop 11 line)) read_event else None)"

definition line_told ::
    "(NearEvent \<Rightarrow> 'a \<Rightarrow> 'a option) \<Rightarrow> (string \<Rightarrow> json option) \<Rightarrow> string \<Rightarrow> 'a \<Rightarrow> 'a option" where
  "line_told told parse line a = (case read_line parse line of None \<Rightarrow> Some a | Some ev \<Rightarrow> told ev a)"

text \<open>The text of an entry: the event as the code prints it, or the text as it was given.\<close>

fun entry_text :: "(json \<Rightarrow> string option) \<Rightarrow> log_line \<Rightarrow> 'e panic + string" where
  "entry_text to_string (EventLog ev) = to_json_event_string to_string ev"
| "entry_text to_string (TextLog t) = Inr t"

definition printed :: "(json \<Rightarrow> string option) \<Rightarrow> log_line list \<Rightarrow> string list \<Rightarrow> bool" where
  "printed to_string entries lines \<longleftrightarrow>
     list_all2 (\<lambda>l line. entry_text to_string l = (Inr line :: unit panic + string)) entries lines"

text \<open>A text that nobody takes for an event.\<close>

fun plain :: "log_line \<Rightarrow> bool" where
  "plain (EventLog ev) = True"
| "plain (TextLog t) = (take 11 t \<noteq> ''EVENT_JSON:'')"

text \<open>\<open>serde_json\<close> reads what it has written.\<close>

definition reads_back :: "(json \<Rightarrow> string option) \<Rightarrow> (string \<Rightarrow> json option) \<Rightarrow> bool" where
  "reads_back to_string parse \<longleftrightarrow> (\<forall>j s. to_string j = Some s \<longrightarrow> parse s = Some j)"

lemma line_told_text:
  assumes "reads_back to_string parse" and "plain l"
    and "entry_text to_string l = (Inr line :: unit panic + string)"
  shows "line_told told parse line a = entry_told told l a"
proof (cases l)
  case (EventLog ev)
  then obtain s where "to_string (near_event_json ev) = Some s" and "line = ''EVENT_JSON:'' @ s"
    using assms(3) by (auto simp: to_json_event_string_def to_json_string_def result_simps)
  moreover from this(1) have "parse s = Some (near_event_json ev)"
    using assms(1) by (simp add: reads_back_def)
  ultimately show ?thesis using EventLog by (simp add: line_told_def read_line_def read_event_json)
next
  case (TextLog t)
  then show ?thesis using assms(2,3) by (simp add: line_told_def read_line_def)
qed

text \<open>Replaying the text is replaying the entries.\<close>

lemma replay_lines:
  assumes "reads_back to_string parse" and "printed to_string entries lines"
    and "\<forall>l \<in> set entries. plain l"
  shows "replay (line_told told parse) lines a = replay (entry_told told) entries a"
  using assms(2,3) unfolding printed_def
proof (induction entries lines arbitrary: a rule: list_all2_induct)
  case (Cons l entries line lines)
  then show ?case using line_told_text [OF assms(1), of l line told a]
    by (auto split: option.split)
qed simp

text \<open>One more call is logged.\<close>

lemma replay_logged:
  "replay told lg a = Some b \<Longrightarrow> replay told ls b = Some c \<Longrightarrow> replay told (lg @ ls) a = Some c"
  by (simp add: replay_append)

lemma told_event [simp]:
  "ft_told (new_141_v1 k) f = ft_kind_told k f"
  "nft_told (new_171_v1 j) m = nft_kind_told j m"
  by (simp_all add: new_141_v1_def new_141_def new_171_v1_def new_171_def)

subsection \<open>A small printer\<close>

text \<open>A printer and a parser for two events, for the examples.\<close>

definition two_print :: "NearEvent \<Rightarrow> NearEvent \<Rightarrow> json \<Rightarrow> string option" where
  "two_print ev1 ev2 j =
     (if j = near_event_json ev1 then Some ''1'' else if j = near_event_json ev2 then Some ''2'' else None)"

definition two_parse :: "NearEvent \<Rightarrow> NearEvent \<Rightarrow> string \<Rightarrow> json option" where
  "two_parse ev1 ev2 s =
     (if s = ''1'' then Some (near_event_json ev1)
      else if s = ''2'' then Some (near_event_json ev2) else None)"

lemma two_reads_back: "reads_back (two_print ev1 ev2) (two_parse ev1 ev2)"
  by (auto simp: reads_back_def two_print_def two_parse_def)

lemma near_event_json_inject: "near_event_json ev1 = near_event_json ev2 \<longleftrightarrow> ev1 = ev2"
  using read_event_json by (metis option.inject)

lemma two_printed:
  "ev1 \<noteq> ev2 \<Longrightarrow>
     printed (two_print ev1 ev2) [EventLog ev1, EventLog ev2] [''EVENT_JSON:1'', ''EVENT_JSON:2'']"
  by (simp add: printed_def to_json_event_string_def to_json_string_def two_print_def
      near_event_json_inject)

end
