(* ===== verification/FtEventLog.thy ===== *)
theory FtEventLog
  imports LedgerMachine EventReplay
begin

section \<open>The events of the fungible token tell its balances\<close>

text \<open>
  Every method of the fungible token, with the lines it logs: replaying them on the balances before
  the call gives the balances after it.  So an indexer that has read all the lines of a contract
  knows every balance, provided that the contract logs what it mints and burns itself, and that it
  uses the hook \<open>on_account_closed\<close> to log the tokens that leave with an account.  Without that hook
  nothing in the log tells of them.
\<close>

definition ft_holdings :: "'m balances_ops \<Rightarrow> 'm FungibleToken \<Rightarrow> holdings" where
  "ft_holdings L t = (\<lambda>a. unat (ft_balance_of L t a))"

definition tells ::
    "'m balances_ops \<Rightarrow> 'm FungibleToken \<Rightarrow> log_line list \<Rightarrow> 'm FungibleToken \<Rightarrow> bool" where
  "tells L t ls t' \<longleftrightarrow>
     replay (entry_told ft_told) ls (ft_holdings L t) = Some (ft_holdings L t') \<and>
     (\<forall>l \<in> set ls. plain l)"

text \<open>A hook that leaves the token alone and logs that the account has lost \<open>lost x\<close> tokens.\<close>

definition hook_tells :: "('m, 'r) ft_hook option \<Rightarrow> (u128 \<Rightarrow> nat) \<Rightarrow> bool" where
  "hook_tells hook lost \<longleftrightarrow>
     (\<forall>c h a x c' h'. run_hook hook c h a x = Inr (c', h') \<longrightarrow>
        token c' = token c \<and> promises h' = promises h \<and>
        (\<exists>ls. logs h' = logs h @ ls \<and> (\<forall>l \<in> set ls. plain l) \<and>
           (\<forall>f. lost x \<le> f a \<longrightarrow>
              replay (entry_told ft_told) ls f = Some (f(a := f a - lost x)))))"

definition burn_on_close :: "('m, 'r) ft_hook" where
  "burn_on_close c h a x = Inr (c, if 0 < x then ft_burn_emit (FtBurn a x None) h else h)"

lemma hook_tells_quiet: "hook_tells hook lost \<Longrightarrow> hook_quiet hook"
  unfolding hook_tells_def hook_quiet_def by (auto simp: run_hook_def)

lemma hook_tells_None: "hook_tells None (\<lambda>_. 0)"
  by (simp add: hook_tells_def run_hook_def)

lemma hook_tells_burn: "hook_tells (Some burn_on_close) unat"
  by (auto simp: hook_tells_def run_hook_def burn_on_close_def debited_def word_gt_0)

subsection \<open>What each method tells\<close>

lemma tells_nothing: "tells L t [] t"
  by (simp add: tells_def)

lemma tells_text: "take 11 x \<noteq> ''EVENT_JSON:'' \<Longrightarrow> tells L t [TextLog x] t"
  by (simp add: tells_def)

lemma tells_append: "tells L t ls t' \<Longrightarrow> tells L t' ks t'' \<Longrightarrow> tells L t (ls @ ks) t''"
  by (auto simp: tells_def replay_append)

lemma ft_holdings_token [simp]:
  "ft_holdings L (t\<lparr>total_supply := n\<rparr>) = ft_holdings L t"
  by (simp add: ft_holdings_def ft_balance_of_def)

context balance_store
begin

lemma holdings_eq: "ft_holdings L t a = (case ft_balances L t a of None \<Rightarrow> 0 | Some b \<Rightarrow> unat b)"
  by (simp add: ft_holdings_def ft_balance_of_def ft_balances_def split: option.split)

lemma holdings_upd:
  assumes "ft_balances L t' = (ft_balances L t)(a := v)"
  shows "ft_holdings L t' = (ft_holdings L t)(a := (case v of None \<Rightarrow> 0 | Some b \<Rightarrow> unat b))"
  by (simp add: fun_eq_iff holdings_eq assms)

lemma transfer_tells:
  assumes "ft_internal_transfer L t h a r x memo = Inr (t', h')"
  shows "tells L t [EventLog (new_141_v1 (FtTransferEvent [FtTransfer a r x memo]))] t'"
proof -
  from assms obtain b c where "a \<noteq> r" and bc: "ft_balances L t a = Some b" "ft_balances L t r = Some c"
    and x: "unat x \<le> unat b" "unat c + unat x < 2 ^ 128"
    and t': "ft_balances L t' = (ft_balances L t)(a \<mapsto> b - x, r \<mapsto> c + x)"
    by (auto simp: internal_transfer_iff ft_balances_def map_laws)
  have "ft_holdings L t' = (ft_holdings L t)(a := unat b - unat x, r := unat c + unat x)"
    using x by (auto simp: fun_eq_iff holdings_eq t' unat_sub_exact unat_add_u128)
  then show ?thesis
    using \<open>a \<noteq> r\<close> bc x(1) by (simp add: tells_def debited_def credited_def holdings_eq)
qed

lemma transfer_logs_tell:
  "ft_internal_transfer L t no_effects a r x memo = Inr (t', h') \<Longrightarrow> tells L t (logs h') t'"
  using transfer_tells internal_transfer_effects by fastforce

lemma mint_tells:
  assumes "ft_internal_deposit L t a x = Inr t'"
  shows "tells L t [EventLog (new_141_v1 (FtMintEvent [FtMint a x memo]))] t'"
proof -
  from assms obtain b where "ft_balances L t a = Some b"
    and "ft_balances L t' = (ft_balances L t)(a \<mapsto> b + x)" and "unat (b + x) = unat b + unat x"
    by (rule deposit_balances)
  then show ?thesis by (simp add: tells_def credited_def holdings_upd [of t' t] holdings_eq)
qed

lemma burn_tells:
  assumes "ft_internal_withdraw L t a x = Inr t'"
  shows "tells L t [EventLog (new_141_v1 (FtBurnEvent [FtBurn a x memo]))] t'"
proof -
  from assms obtain b where "ft_balances L t a = Some b" and "unat x \<le> unat b"
    and "ft_balances L t' = (ft_balances L t)(a \<mapsto> b - x)"
    by (rule withdraw_balances)
  then show ?thesis
    by (simp add: tells_def debited_def holdings_upd [of t' t] holdings_eq unat_sub_exact)
qed

lemma deposit_tells:
  assumes "ft_storage_deposit L e t no_effects acc ro = Inr (t', h', sb)"
  shows "tells L t (logs h') t'"
proof -
  from deposit_on_ledger(2) [OF assms] have "ft_holdings L t' = ft_holdings L t"
  proof
    assume "ft_internal_register_account L t (unwrap_or (predecessor_account_id e) acc) = Inr t'"
    then show ?thesis by (auto simp: register_iff fun_eq_iff holdings_eq balances_insert)
  qed simp
  moreover have "logs h' = [] \<or> logs h' = [TextLog ''The account is already registered, refunding the deposit'']"
    using assms by (auto simp: ft_storage_deposit_def result_simps Let_def split: if_splits)
  ultimately show ?thesis by (auto simp: tells_def)
qed

text \<open>Closing an account logs no event: the holdings before the hook still have its tokens.\<close>

lemma unregister_tells:
  assumes ok: "ft_supply_ok L t"
    and run: "ft_internal_storage_unregister L e t no_effects force = Inr (t', h', cl)"
  shows "cl = None \<Longrightarrow> tells L t (logs h') t'"
    and "cl = Some (a, x) \<Longrightarrow> a = predecessor_account_id e \<and> logs h' = [] \<and>
      ft_balances L t a = Some x \<and> ft_holdings L t' = (ft_holdings L t)(a := 0)"
proof -
  show "cl = None \<Longrightarrow> tells L t (logs h') t'"
    using run by (auto simp: ft_internal_storage_unregister_def result_simps Let_def tells_def
        split: option.splits if_splits)
  assume cl: "cl = Some (a, x)"
  have a: "a = predecessor_account_id e" and logs: "logs h' = []"
    and x: "ft_balances L t a = Some x"
    using run cl by (auto simp: ft_internal_storage_unregister_def result_simps Let_def ft_balances_def
        split: option.splits if_splits)
  from unregister_on_ledger(3) [OF ok run] cl a
  have "ft_ledger L t' = (ft_ledger L t)(a := None)" by auto
  then have "ft_holdings L t' = (ft_holdings L t)(a := 0)"
    by (auto simp: fun_eq_iff holdings_eq ft_ledger_def split: option.splits if_splits)
  with a logs x show "a = predecessor_account_id e \<and> logs h' = [] \<and>
      ft_balances L t a = Some x \<and> ft_holdings L t' = (ft_holdings L t)(a := 0)" by simp
qed

lemma contract_unregister_silent:
  assumes ok: "ft_supply_ok L (token c)"
    and "contract_storage_unregister None L e c no_effects force = Inr (c', h, True)"
  shows "logs h = [] \<and> contract_ft_balance_of L c' (predecessor_account_id e) = 0 \<and>
     unat (total_supply (token c')) =
       unat (total_supply (token c)) - unat (contract_ft_balance_of L c (predecessor_account_id e))"
proof -
  from assms(2) obtain t a x where
    t: "ft_internal_storage_unregister L e (token c) no_effects force = Inr (t, h, Some (a, x))"
    and c': "token c' = t"
    by (auto simp: contract_storage_unregister_def run_hook_def result_simps split: option.splits)
  from unregister_tells(2) [OF ok t refl] have "a = predecessor_account_id e" and "logs h = []"
    and x: "ft_balances L (token c) a = Some x"
    and f: "ft_holdings L t = (ft_holdings L (token c))(a := 0)"
    by blast+
  moreover from unregister_on_ledger(3) [OF ok t] x \<open>a = predecessor_account_id e\<close>
  have "unat (total_supply t) = unat (total_supply (token c)) - unat x" by auto
  moreover have "unat (ft_balance_of L t a) = 0" and "unat (ft_balance_of L (token c) a) = unat x"
    using fun_cong [OF f, of a] x holdings_eq [of "token c" a] by (simp_all add: ft_holdings_def)
  ultimately show ?thesis by (simp add: c' contract_ft_balance_of_def unat_eq_0)
qed

lemma resolve_tells:
  assumes ok: "ft_supply_ok L t"
    and run: "ft_internal_resolve_transfer L from_slice e t no_effects s rc x = Inr (t', h', used, bu)"
  shows "tells L t (logs h') t'"
proof -
  from run obtain r u where r: "env_promise_result e 0 = (Inr r :: FtError panic + PromiseResult)"
    and u: "ft_unused_amount from_slice x r = Inr u"
    by (auto simp: ft_internal_resolve_transfer_def result_simps)
  show ?thesis
  proof (cases "u = 0 \<or> unwrap_or 0 (ft_balances L t rc) = 0")
    case True
    from resolve_nothing [OF r u True] run show ?thesis by (simp add: tells_nothing)
  next
    case False
    then obtain b where b: "ft_balances L t rc = Some b" "0 < b" "0 < u"
      by (cases "ft_balances L t rc") (auto simp: word_neq_0_conv)
    define refund where "refund = min b u"
    define t1 where "t1 = t\<lparr>accounts := fst (lm_insert L (accounts t) rc (b - refund))\<rparr>"
    have pos: "0 < refund" using b by (simp add: refund_def min_def)
    have le: "unat refund \<le> unat b" by (simp add: refund_def unat_min)
    have f1: "ft_holdings L t1 = (ft_holdings L t)(rc := unat b - unat refund)"
      using le holdings_upd [of t1 t rc "Some (b - refund)"]
      by (simp add: t1_def balances_insert unat_sub_exact)
    have taken: "debited rc (unat refund) (ft_holdings L t) = Some (ft_holdings L t1)"
      using le b(1) by (simp add: debited_def f1 holdings_eq)
    note eq = resolve_refund [OF r u b(3,1,2) refund_def t1_def, of no_effects s]
    show ?thesis
    proof (cases "ft_balances L t1 s")
      case None
      with eq run resolve_burns(1) [OF ok b(1) refund_def pos t1_def None]
      have "t' = t1\<lparr>total_supply := total_supply t - refund\<rparr>"
        and "logs h' = [TextLog ''The account of the sender was deleted'',
          EventLog (new_141_v1 (FtBurnEvent [FtBurn rc refund (Some ''refund'')]))]"
        by auto
      then show ?thesis using taken by (simp add: tells_def)
    next
      case (Some y)
      note ret = resolve_returns(1,2) [OF ok b(1) refund_def pos unused_amount_le [OF u] t1_def Some]
      from eq run ret Some
      have t': "t' = t1\<lparr>accounts := fst (lm_insert L (accounts t1) s (y + refund))\<rparr>"
        and "logs h' = [EventLog (new_141_v1 (FtTransferEvent [FtTransfer rc s refund (Some ''refund'')]))]"
        by auto
      moreover have "unat (y + refund) = unat y + unat refund"
        using ret(1) by (simp add: checked_add_def unat_add_u128 split: if_splits)
      then have "ft_holdings L t' = credited s (unat refund) (ft_holdings L t1)"
        using holdings_upd [of t' t1 s "Some (y + refund)"] Some
        by (simp add: t' balances_insert credited_def holdings_eq)
      ultimately show ?thesis using taken by (simp add: tells_def)
    qed
  qed
qed

end

subsection \<open>A contract and its log\<close>

text \<open>
  The steps of \<open>ft_step\<close>, with the lines that each call logs.  A call that panics logs nothing.  What
  the contract's author mints or burns goes with the event that \<open>events.rs\<close> has for it.
\<close>

inductive ft_logged_step ::
    "('m, 'r) ft_hook option \<Rightarrow> ('m, 'r) ft_hook option \<Rightarrow> 'm balances_ops \<Rightarrow>
     (bytes \<Rightarrow> u128 option) \<Rightarrow> AccountId \<Rightarrow> ('m, 'r) ft_system \<times> log_line list \<Rightarrow>
     ('m, 'r) ft_system \<times> log_line list \<Rightarrow> bool"
  for burned closed L from_slice self where
  logged_transfer:
    "contract_ft_transfer L e (contract s) no_effects r x memo = Inr (c, h) \<Longrightarrow>
     current_account_id e = self \<Longrightarrow>
     ft_logged_step burned closed L from_slice self (s, lg)
       (s\<lparr>contract := c, pending := pending s + pending_of self h\<rparr>, lg @ logs h)"
| logged_transfer_call:
    "contract_ft_transfer_call L e (contract s) no_effects r x memo msg = Inr (c, h) \<Longrightarrow>
     current_account_id e = self \<Longrightarrow>
     ft_logged_step burned closed L from_slice self (s, lg)
       (s\<lparr>contract := c, pending := pending s + pending_of self h\<rparr>, lg @ logs h)"
| logged_deposit:
    "contract_storage_deposit L e (contract s) no_effects a ro = Inr (c, h, sb) \<Longrightarrow>
     current_account_id e = self \<Longrightarrow>
     ft_logged_step burned closed L from_slice self (s, lg)
       (s\<lparr>contract := c, pending := pending s + pending_of self h\<rparr>, lg @ logs h)"
| logged_unregister:
    "contract_storage_unregister closed L e (contract s) no_effects force = Inr (c, h, b) \<Longrightarrow>
     current_account_id e = self \<Longrightarrow>
     ft_logged_step burned closed L from_slice self (s, lg)
       (s\<lparr>contract := c, pending := pending s + pending_of self h\<rparr>, lg @ logs h)"
| logged_mint:
    "ft_internal_deposit L (token (contract s)) a x = Inr t \<Longrightarrow>
     ft_logged_step burned closed L from_slice self (s, lg)
       (s\<lparr>contract := (contract s)\<lparr>token := t\<rparr>\<rparr>,
        lg @ logs (ft_mint_emit (FtMint a x memo) (no_effects :: ft_effects)))"
| logged_burn:
    "ft_internal_withdraw L (token (contract s)) a x = Inr t \<Longrightarrow>
     ft_logged_step burned closed L from_slice self (s, lg)
       (s\<lparr>contract := (contract s)\<lparr>token := t\<rparr>\<rparr>,
        lg @ logs (ft_burn_emit (FtBurn a x memo) (no_effects :: ft_effects)))"
| logged_settle:
    "(snd', r, x) \<in># pending s \<Longrightarrow> current_account_id e = self \<Longrightarrow>
     contract_ft_resolve_transfer burned L from_slice e (contract s) no_effects snd' r x =
       Inr (c, h, used) \<Longrightarrow>
     ft_logged_step burned closed L from_slice self (s, lg)
       (s\<lparr>contract := c, pending := pending s - {#(snd', r, x)#} + pending_of self h\<rparr>, lg @ logs h)"
| logged_settle_panics:
    "(snd', r, x) \<in># pending s \<Longrightarrow> current_account_id e = self \<Longrightarrow>
     contract_ft_resolve_transfer burned L from_slice e (contract s) no_effects snd' r x = Inl p \<Longrightarrow>
     ft_logged_step burned closed L from_slice self (s, lg)
       (s\<lparr>pending := pending s - {#(snd', r, x)#}\<rparr>, lg)"

definition ft_logged_initial ::
    "'m balances_ops \<Rightarrow> ('m \<Rightarrow> StorageUsage) \<Rightarrow> ('m, 'r) ft_system \<times> log_line list \<Rightarrow> bool" where
  "ft_logged_initial L usage sl \<longleftrightarrow> ft_initial L usage (fst sl) \<and> snd sl = []"

inductive_cases ft_logged_stepE: "ft_logged_step burned closed L from_slice self (s, lg) (s', lg')"

text \<open>The log only watches: its steps are the steps of the chain.\<close>

lemma logged_step_is_step:
  "ft_logged_step burned closed L from_slice self sl sl' \<Longrightarrow>
     ft_step burned closed L from_slice self (fst sl) (fst sl')"
  by (induction rule: ft_logged_step.induct; unfold fst_conv) (blast intro: ft_step.intros)+

text \<open>The invariant: the books are right, and the log so far tells the balances.\<close>

definition ft_log_ok :: "'m balances_ops \<Rightarrow> ('m, 'r) ft_system \<times> log_line list \<Rightarrow> bool" where
  "ft_log_ok L sl \<longleftrightarrow>
     ft_supply_ok L (token (contract (fst sl))) \<and> (\<forall>l \<in> set (snd sl). plain l) \<and>
     replay (entry_told ft_told) (snd sl) (\<lambda>_. 0) = Some (ft_holdings L (token (contract (fst sl))))"

lemma log_ok_tells:
  assumes "ft_log_ok L (s, lg)" and "tells L (token (contract s)) ls (token (contract s'))"
    and "ft_supply_ok L (token (contract s'))"
  shows "ft_log_ok L (s', lg @ ls)"
  using assms by (auto simp: ft_log_ok_def tells_def replay_append)

locale telling_chain = balance_store L for L :: "'m balances_ops" +
  fixes burned closed :: "('m, 'r) ft_hook option"
    and usage :: "'m \<Rightarrow> StorageUsage"
    and from_slice :: "bytes \<Rightarrow> u128 option"
    and self :: AccountId
  assumes burned_tells: "hook_tells burned (\<lambda>_. 0)" and closed_tells: "hook_tells closed unat"

sublocale telling_chain \<subseteq> quiet_chain
  by unfold_locales (rule hook_tells_quiet, rule burned_tells closed_tells)+

context telling_chain
begin

lemma contract_resolve_tells:
  assumes ok: "ft_supply_ok L (token c)"
    and "contract_ft_resolve_transfer burned L from_slice e c no_effects a r x = Inr (c', h, used)"
  shows "tells L (token c) (logs h) (token c')"
proof -
  from assms(2) obtain t h1 us b where
    t: "ft_internal_resolve_transfer L from_slice e (token c) no_effects a r x = Inr (t, h1, us, b)"
    and c': "(if 0 < b then run_hook burned (c\<lparr>token := t\<rparr>) h1 a b else Inr (c\<lparr>token := t\<rparr>, h1)) =
      Inr (c', h)"
    by (auto simp: contract_ft_resolve_transfer_def result_simps)
  note first = resolve_tells [OF ok t]
  show ?thesis
  proof (cases "0 < b")
    case True
    with c' burned_tells obtain ls where "token c' = t" and "logs h = logs h1 @ ls"
      and "\<forall>l \<in> set ls. plain l" and "\<forall>f. replay (entry_told ft_told) ls f = Some f"
      unfolding hook_tells_def by fastforce
    then show ?thesis using tells_append [OF first, of ls t] by (simp add: tells_def)
  next
    case False
    with c' have "c' = c\<lparr>token := t\<rparr>" and "h = h1" by auto
    then show ?thesis using first by simp
  qed
qed

lemma contract_unregister_tells:
  assumes ok: "ft_supply_ok L (token c)"
    and "contract_storage_unregister closed L e c no_effects force = Inr (c', h, b)"
  shows "tells L (token c) (logs h) (token c')"
proof -
  from assms(2) obtain t h1 cl where
    t: "ft_internal_storage_unregister L e (token c) no_effects force = Inr (t, h1, cl)"
    and c': "(case cl of None \<Rightarrow> Inr (c\<lparr>token := t\<rparr>, h1, False)
       | Some (a, x) \<Rightarrow> rbind (run_hook closed (c\<lparr>token := t\<rparr>) h1 a x) (\<lambda>(c1, h2). Inr (c1, h2, True))) =
         Inr (c', h, b)"
    unfolding contract_storage_unregister_def rbind_eq_Inr by (fastforce split: prod.splits)
  show ?thesis
  proof (cases cl)
    case None
    with c' unregister_tells(1) [OF ok t] show ?thesis by auto
  next
    case (Some ax)
    obtain a x where ax: "ax = (a, x)" by (cases ax)
    from unregister_tells(2) [OF ok t] Some ax have "logs h1 = []"
      and b: "ft_balances L (token c) a = Some x"
      and f: "ft_holdings L t = (ft_holdings L (token c))(a := 0)"
      by auto
    moreover have "run_hook closed (c\<lparr>token := t\<rparr>) h1 a x = Inr (c', h)"
      using c' Some ax by (auto simp: result_simps)
    ultimately show ?thesis
      using closed_tells unfolding hook_tells_def tells_def
      by (fastforce simp: holdings_eq)
  qed
qed

lemma logged_step_ok:
  assumes "ft_logged_step burned closed L from_slice self sl sl'" and "ft_log_ok L sl"
  shows "ft_log_ok L sl'"
proof -
  have ok: "ft_supply_ok L (token (contract (fst sl)))" using assms(2) by (simp add: ft_log_ok_def)
  have ok': "ft_supply_ok L (token (contract (fst sl')))"
    using step_supply_ok [OF logged_step_is_step [OF assms(1)]] ok by (simp add: ft_system_inv_def)
  obtain lg lg' where lg: "sl = (fst sl, lg)" "sl' = (fst sl', lg')" by (metis prod.collapse)
  have "\<exists>ls. lg' = lg @ ls \<and> tells L (token (contract (fst sl))) ls (token (contract (fst sl')))"
    using assms(1) ok lg
  proof (induction rule: ft_logged_step.induct)
    case (logged_transfer e s r x memo c h lg)
    then show ?case
      by (auto simp: contract_ft_transfer_def ft_transfer_def result_simps Let_def
          dest: transfer_logs_tell)
  next
    case (logged_transfer_call e s r x memo msg c h lg)
    then show ?case
      by (auto simp: contract_ft_transfer_call_def transfer_call_iff result_simps dest!: transfer_tells)
  next
    case (logged_deposit e s a ro c h sb lg)
    then show ?case
      by (auto simp: contract_storage_deposit_def result_simps dest: deposit_tells)
  next
    case (logged_unregister e s force c h b lg)
    then show ?case using contract_unregister_tells by auto
  next
    case (logged_mint s a x t lg memo)
    then show ?case using mint_tells [of _ a x t memo] by (auto simp: emit_defs)
  next
    case (logged_burn s a x t lg memo)
    then show ?case using burn_tells [of _ a x t memo] by auto
  next
    case (logged_settle snd' r x s e c h used lg)
    then show ?case using contract_resolve_tells by auto
  next
    case (logged_settle_panics snd' r x s e p lg)
    then show ?case by (auto simp: tells_nothing)
  qed
  then show ?thesis using log_ok_tells lg assms(2) ok' by metis
qed

lemma logged_initial_ok: "ft_logged_initial L usage sl \<Longrightarrow> ft_log_ok L sl"
  using initial_supply_ok [of "fst sl"] new_empty
  by (auto simp: ft_logged_initial_def ft_log_ok_def ft_initial_def ft_system_inv_def fun_eq_iff
      holdings_eq)

sublocale told: invariant_system
  "ft_logged_initial L usage :: ('m, 'r) ft_system \<times> log_line list \<Rightarrow> bool"
  "ft_logged_step burned closed L from_slice self" "ft_log_ok L"
  by unfold_locales (rule logged_initial_ok, assumption, rule logged_step_ok)

lemma chain_log_ok:
  "reachable (ft_logged_initial L usage) (ft_logged_step burned closed L from_slice self) sl \<Longrightarrow>
     ft_log_ok L sl"
  by (rule told.reachable_inv)

end

interpretation fun_telling: telling_chain fun_map None "Some burn_on_close" usage from_slice self
  for usage :: "(AccountId \<rightharpoonup> Balance) \<Rightarrow> StorageUsage" and from_slice self
  by unfold_locales (rule hook_tells_None hook_tells_burn)+

subsection \<open>Property\<close>

text \<open>C7: the log tells the balances.  Take the lines that a contract with the token of
  \<open>nep-interface\<close> has logged, as they were printed, in any of its reachable states, where the hook
  for closed accounts logs the tokens that go with them: an indexer that reads the lines, strictly,
  comes to what \<open>ft_balance_of\<close> answers, for every account.  Without a hook this would fail: the
  call that closes an account then logs nothing, whatever balance and supply it takes away.\<close>

theorem ft_log_tells_balances:
  assumes "balance_store L" and "reads_back to_string parse"
    and "hook_tells burned (\<lambda>_. 0)" and "hook_tells closed unat"
    and "reachable (ft_logged_initial L usage) (ft_logged_step burned closed L from_slice self) (s, lg)"
    and "printed to_string lg lines"
  shows "replay (line_told ft_told parse) lines (\<lambda>_. 0) =
       Some (\<lambda>a. unat (contract_ft_balance_of L (contract s) a)) \<and>
     (\<forall>e force c' h. contract_storage_unregister None L e (contract s) no_effects force = Inr (c', h, True) \<longrightarrow>
        logs h = [] \<and> contract_ft_balance_of L c' (predecessor_account_id e) = 0 \<and>
        unat (total_supply (token c')) = unat (total_supply (token (contract s))) -
          unat (contract_ft_balance_of L (contract s) (predecessor_account_id e)))"
proof -
  have chain: "telling_chain L burned closed"
    using assms(1,3,4) by (simp add: telling_chain_def telling_chain_axioms_def)
  from telling_chain.chain_log_ok [OF chain assms(5)]
  have ok: "ft_supply_ok L (token (contract s))" and plain: "\<forall>l \<in> set lg. plain l"
    and log: "replay (entry_told ft_told) lg (\<lambda>_. 0) = Some (ft_holdings L (token (contract s)))"
    by (simp_all add: ft_log_ok_def)
  have "logs h = [] \<and> contract_ft_balance_of L c' (predecessor_account_id e) = 0 \<and>
        unat (total_supply (token c')) = unat (total_supply (token (contract s))) -
          unat (contract_ft_balance_of L (contract s) (predecessor_account_id e))"
    if run: "contract_storage_unregister None L e (contract s) no_effects force = Inr (c', h, True)"
    for e force c' h
    using balance_store.contract_unregister_silent [OF assms(1) ok run] by simp
  then show ?thesis
    using log replay_lines [OF assms(2,6) plain, of ft_told]
    by (simp add: ft_holdings_def contract_ft_balance_of_def)
qed

text \<open>Alice registers, is given 100 tokens, and leaves with them.\<close>

abbreviation demo_logged_step ::
    "(fun_accounts, unit) ft_system \<times> log_line list \<Rightarrow> (fun_accounts, unit) ft_system \<times> log_line list \<Rightarrow> bool" where
  "demo_logged_step \<equiv> ft_logged_step None (Some burn_on_close) fun_map demo_from_slice ''ft''"

definition alice_minted :: NearEvent where
  "alice_minted = new_141_v1 (FtMintEvent [FtMint ''alice'' 100 None])"

definition alice_burned :: NearEvent where
  "alice_burned = new_141_v1 (FtBurnEvent [FtBurn ''alice'' 100 None])"

lemmas alice_events = alice_minted_def alice_burned_def

lemma demo_logged_reachable:
  "reachable (ft_logged_initial fun_map demo_usage) demo_logged_step (demo_system Map.empty 0 {#}, [EventLog alice_minted, EventLog alice_burned])"
proof -
  let ?reach = "reachable (ft_logged_initial fun_map demo_usage) demo_logged_step"
  have "?reach (demo_system Map.empty 0 {#}, [])"
    by (rule reachable_init) (simp add: ft_logged_initial_def demo_initial)
  moreover obtain sb where sb: "contract_storage_deposit fun_map (demo_env ''alice'' 1250 [])
      (contract (demo_system Map.empty 0 {#})) no_effects None None =
        Inr (contract (demo_system [''alice'' \<mapsto> 0] 0 {#}), no_effects, sb)"
    using demo_register_call [of Map.empty "''alice''" 0 "{#}"] by auto
  from logged_deposit [OF this, where self = "''ft''" and lg = "[]"]
  have "demo_logged_step (demo_system Map.empty 0 {#}, []) (demo_system [''alice'' \<mapsto> 0] 0 {#}, [])"
    by (simp add: demo_system_def)
  ultimately have "?reach (demo_system [''alice'' \<mapsto> 0] 0 {#}, [])" by (rule reachable_step)
  moreover from logged_mint [OF demo_mint_call [of "[''alice'' \<mapsto> 0]" "''alice''" "{#}"],
      where lg = "[]" and memo = None]
  have "demo_logged_step (demo_system [''alice'' \<mapsto> 0] 0 {#}, [])
      (demo_system [''alice'' \<mapsto> 100] 100 {#}, [EventLog alice_minted])"
    by (simp add: demo_system_def alice_events emit_defs)
  ultimately have "?reach (demo_system [''alice'' \<mapsto> 100] 100 {#}, [EventLog alice_minted])"
    by (rule reachable_step)
  moreover have "contract_storage_unregister (Some burn_on_close) fun_map (demo_env ''alice'' 1 [])
      (contract (demo_system [''alice'' \<mapsto> 100] 100 {#})) no_effects (Some True) =
        Inr (contract (demo_system Map.empty 0 {#}),
          ft_burn_emit (FtBurn ''alice'' 100 None) (schedule (Transfer ''alice'' 1251) no_effects), True)"
    by (simp add: contract_storage_unregister_def ft_internal_storage_unregister_def demo_system_def
        assert_one_yocto_def fun_map_def sub_op_exact add_op_exact mul_op_exact run_hook_def
        burn_on_close_def ft_storage_balance_bounds_def Let_def)
  from logged_unregister [OF this, where self = "''ft''" and lg = "[EventLog alice_minted]"]
  have "demo_logged_step (demo_system [''alice'' \<mapsto> 100] 100 {#}, [EventLog alice_minted])
      (demo_system Map.empty 0 {#}, [EventLog alice_minted, EventLog alice_burned])"
    by (simp add: demo_system_def alice_events pending_of_def)
  ultimately show ?thesis by (rule reachable_step)
qed

theorem ft_log_tells_balances_witness:
  "replay (line_told ft_told (two_parse alice_minted alice_burned))
     [''EVENT_JSON:1'', ''EVENT_JSON:2''] (\<lambda>_. 0) = Some (\<lambda>_. 0)"
proof -
  have "contract_ft_balance_of fun_map (contract (demo_system Map.empty 0 {#})) a = 0" for a
    by (simp add: contract_ft_balance_of_def ft_balance_of_def demo_system_def fun_map_def)
  moreover have "alice_minted \<noteq> alice_burned"
    by (simp add: alice_events new_141_v1_def new_141_def)
  ultimately show ?thesis
    using ft_log_tells_balances [OF demo_store two_reads_back hook_tells_None hook_tells_burn
        demo_logged_reachable two_printed]
    by simp
qed

end
