(* ===== verification/RegistryMachine.thy ===== *)
theory RegistryMachine
  imports NftConformance Simulation
begin

section \<open>The non-fungible token as a registry\<close>

text \<open>
  The abstract machine that a contract with \<open>nep-interface\<close>'s non-fungible token implements: who owns
  each token, who may move it under which approval id, the next id, and the transfer calls that are
  not settled yet.  The chain of \<open>NftContract\<close> refines it over any collections that keep their laws,
  with or without approval management, and under either \<open>overflow-checks\<close> setting.
\<close>

subsection \<open>The machine\<close>

record registry =
  reg_owner :: "TokenId \<rightharpoonup> AccountId"
  reg_approved :: "TokenId \<Rightarrow> AccountId \<rightharpoonup> u64"
  reg_next :: "TokenId \<Rightarrow> u64"
  reg_managed :: bool
  reg_open :: "nft_settlement multiset"

definition empty_registry :: "bool \<Rightarrow> registry" where
  "empty_registry managed =
     \<lparr>reg_owner = Map.empty, reg_approved = (\<lambda>_. Map.empty), reg_next = (\<lambda>_. 1),
      reg_managed = managed, reg_open = {#}\<rparr>"

datatype registry_label =
  Registers TokenId AccountId
| Hands AccountId AccountId TokenId "u64 option"
| HandsInCall AccountId AccountId TokenId "u64 option" "approvals option"
| Approves AccountId TokenId AccountId
| Revokes AccountId TokenId AccountId
| RevokesAll AccountId TokenId
| Returns nft_settlement
| Forgets nft_settlement

definition reg_may_move :: "registry \<Rightarrow> AccountId \<Rightarrow> TokenId \<Rightarrow> u64 option \<Rightarrow> bool" where
  "reg_may_move m who tok aid \<longleftrightarrow>
     reg_owner m tok = Some who \<or>
     (case reg_approved m tok who of None \<Rightarrow> False | Some i \<Rightarrow> aid = None \<or> aid = Some i)"

text \<open>A token moves: it has a new owner, and its approvals are \<open>A\<close>.\<close>

definition reg_move :: "registry \<Rightarrow> TokenId \<Rightarrow> AccountId \<Rightarrow> (AccountId \<rightharpoonup> u64) \<Rightarrow> registry" where
  "reg_move m tok to A =
     m\<lparr>reg_owner := (reg_owner m)(tok \<mapsto> to), reg_approved := (reg_approved m)(tok := A)\<rparr>"

text \<open>
  A returned token has the approvals it had before the transfer call, or keeps the receiver's if it
  had none.
\<close>

definition reg_restored :: "registry \<Rightarrow> TokenId \<Rightarrow> approvals option \<Rightarrow> (AccountId \<rightharpoonup> u64)" where
  "reg_restored m tok A =
     (if \<not> reg_managed m then Map.empty
      else case A of None \<Rightarrow> reg_approved m tok | Some B \<Rightarrow> DAList.lookup B)"

fun registry_next :: "bool \<Rightarrow> registry_label \<Rightarrow> registry \<Rightarrow> registry option" where
  "registry_next checks (Registers tok a) m =
     (if reg_owner m tok = None then Some (m\<lparr>reg_owner := (reg_owner m)(tok \<mapsto> a)\<rparr>) else None)"
| "registry_next checks (Hands who to tok aid) m =
     (if reg_owner m tok \<noteq> None \<and> reg_owner m tok \<noteq> Some to \<and> reg_may_move m who tok aid
      then Some (reg_move m tok to Map.empty) else None)"
| "registry_next checks (HandsInCall who to tok aid A) m =
     (case reg_owner m tok of
        None \<Rightarrow> None
      | Some owner \<Rightarrow>
          if owner \<noteq> to \<and> reg_may_move m who tok aid \<and> shown_approvals A = reg_approved m tok
          then Some ((reg_move m tok to Map.empty)\<lparr>reg_open := add_mset (owner, to, tok, A) (reg_open m)\<rparr>)
          else None)"
| "registry_next checks (Approves who tok a) m =
     (if reg_managed m \<and> reg_owner m tok = Some who \<and>
         (checks \<longrightarrow> unat (reg_next m tok) + 1 < 2 ^ 64)
      then Some (m\<lparr>reg_approved :=
             (reg_approved m)(tok := (reg_approved m tok)(a \<mapsto> reg_next m tok)),
             reg_next := (reg_next m)(tok := reg_next m tok + 1)\<rparr>)
      else None)"
| "registry_next checks (Revokes who tok a) m =
     (if reg_managed m \<and> reg_owner m tok = Some who
      then Some (m\<lparr>reg_approved := (reg_approved m)(tok := (reg_approved m tok)(a := None))\<rparr>) else None)"
| "registry_next checks (RevokesAll who tok) m =
     (if reg_managed m \<and> reg_owner m tok = Some who
      then Some (m\<lparr>reg_approved := (reg_approved m)(tok := Map.empty)\<rparr>) else None)"
| "registry_next checks (Returns (prev, r, tok, A)) m =
     (if (prev, r, tok, A) \<in># reg_open m \<and> reg_owner m tok = Some r
      then Some ((reg_move m tok prev (reg_restored m tok A))
             \<lparr>reg_open := reg_open m - {#(prev, r, tok, A)#}\<rparr>)
      else None)"
| "registry_next checks (Forgets x) m =
     (if x \<in># reg_open m then Some (m\<lparr>reg_open := reg_open m - {#x#}\<rparr>) else None)"

subsection \<open>What the machine guarantees\<close>

text \<open>
  A token in a wallet: its owner has approved nobody, and holds it by no transfer call that is
  still open.
\<close>

definition in_wallet :: "registry \<Rightarrow> AccountId \<Rightarrow> TokenId \<Rightarrow> bool" where
  "in_wallet m a tok \<longleftrightarrow>
     reg_owner m tok = Some a \<and> reg_approved m tok = Map.empty \<and>
     (\<forall>x \<in># reg_open m. fst (snd x) = a \<longrightarrow> fst (snd (snd x)) \<noteq> tok)"

fun label_actor :: "registry_label \<Rightarrow> AccountId option" where
  "label_actor (Hands who to tok aid) = Some who"
| "label_actor (HandsInCall who to tok aid A) = Some who"
| "label_actor (Approves who tok a) = Some who"
| "label_actor (Revokes who tok a) = Some who"
| "label_actor (RevokesAll who tok) = Some who"
| "label_actor _ = None"

lemma in_wallet_step:
  assumes "in_wallet m a tok" and "registry_next checks l m = Some m'" and "label_actor l \<noteq> Some a"
  shows "in_wallet m' a tok"
proof (cases l)
  case (Hands who to t aid)
  then have "t \<noteq> tok" using assms by (auto simp: in_wallet_def reg_may_move_def split: if_splits)
  then show ?thesis using assms Hands by (auto simp: in_wallet_def reg_move_def split: if_splits)
next
  case (HandsInCall who to t aid A)
  then have "t \<noteq> tok"
    using assms by (auto simp: in_wallet_def reg_may_move_def split: if_splits option.splits)
  then show ?thesis
    using assms HandsInCall by (auto simp: in_wallet_def reg_move_def split: if_splits option.splits)
next
  case (Returns x)
  obtain prev r t A where x: "x = (prev, r, t, A)" by (cases x)
  with Returns assms have "t \<noteq> tok" by (auto simp: in_wallet_def split: if_splits)
  then show ?thesis using assms Returns x
    by (fastforce simp: in_wallet_def reg_move_def dest: in_diffD split: if_splits)
qed (use assms in \<open>fastforce simp: in_wallet_def dest: in_diffD split: if_splits\<close>)+

subsection \<open>The contract as the machine\<close>

definition nft_machine ::
    "('o, 'md, 'te, 'us, 'ap, 'nx) nft_ops \<Rightarrow>
     (('o, 'md, 'te, 'ap, 'nx) NonFungibleToken, 'r) nft_system \<Rightarrow> registry" where
  "nft_machine K s =
     (let t = nft_field (nft_contract_of s) in
      \<lparr>reg_owner = nft_owners K t, reg_approved = nft_approval K t, reg_next = nft_next_id K t,
       reg_managed = (approvals_by_id t \<noteq> None), reg_open = nft_pending s\<rparr>)"

text \<open>What a step of the chain may stand for: the caller is the one who acts.\<close>

fun reg_asked :: "nft_label \<Rightarrow> registry_label \<Rightarrow> bool" where
  "reg_asked (CallBy e) l = (label_actor l = Some (predecessor_account_id e) \<and> 1 \<le> attached_deposit e)"
| "reg_asked OwnMint l = (case l of Registers tok a \<Rightarrow> True | _ \<Rightarrow> False)"
| "reg_asked (SettleOf x) l = (l = Returns x \<or> l = Forgets x)"

context nft_store
begin

lemma transfer_call_machine:
  assumes "nft_transfer_call K e t no_effects r tok aid memo msg = Inr (t', h)" and "nft_index_ok K t"
    and "current_account_id e = self"
  obtains owner where "attached_deposit e = 1" and "nft_authorized K t (predecessor_account_id e) tok aid"
    and "nft_owners K t tok = Some owner" and "owner \<noteq> r" and "nft_moved K t tok r None t'"
    and "nft_pending_of self h = {#(owner, r, tok, nft_approvals K t tok)#}"
proof -
  obtain owner gas where "attached_deposit e = 1" "nft_authorized K t (predecessor_account_id e) tok aid"
    "nft_owners K t tok = Some owner" "owner \<noteq> r" "nft_moved K t tok r None t'"
    "h = schedule (nft_call_promise e gas (predecessor_account_id e) owner r tok
           (nft_approvals K t tok) msg) (nft_transfer_emit (NftTransfer owner r [tok] None memo) no_effects)"
    by (rule transfer_call_returns [OF assms(1,2)]) blast
  then show ?thesis using assms(3) by (intro that [of owner]) simp_all
qed

lemma moved_machine:
  assumes "nft_moved K t tok to A t'"
  shows "nft_owners K t' = (nft_owners K t)(tok \<mapsto> to)"
    and "nft_approval K t' = (nft_approval K t)(tok := shown_approvals A)"
    and "nft_next_id K t' = nft_next_id K t"
    and "approvals_by_id t' = None \<longleftrightarrow> approvals_by_id t = None"
  using moved_views [OF assms] assms by (simp_all add: nft_moved_def)

lemma approve_machine:
  assumes "nft_approve K e t h tok a msg = Inr (t', h')"
  shows "nft_owners K t tok = Some (predecessor_account_id e)" and "approvals_by_id t \<noteq> None"
    and "approvals_by_id t' \<noteq> None"
    and "nft_next_id K t' = (nft_next_id K t)(tok := nft_next_id K t tok + 1)"
    and "overflow_checks e \<longrightarrow> unat (nft_next_id K t tok) + 1 < 2 ^ 64"
  using assms by (rule approve_returns;
    auto simp: nft_same_shape_def add_op_def plain_op_def checked_add_def split: if_splits)+

lemma reapproved_machine:
  assumes "nft_reapproved K t tok A t'"
  shows "nft_next_id K t' = nft_next_id K t"
    and "approvals_by_id t' = None \<longleftrightarrow> approvals_by_id t = None"
  using assms by (simp_all add: nft_reapproved_def nft_same_shape_def)

end

lemma authorized_machine:
  "nft_authorized K (nft_field (nft_contract_of s)) a tok aid \<longleftrightarrow> reg_may_move (nft_machine K s) a tok aid"
  by (auto simp: nft_authorized_def reg_may_move_def nft_machine_def Let_def split: option.splits)

context nft_chain
begin

lemma step_machine:
  assumes step: "nft_step K usage from_slice self checks s l s'" and inv: "nft_system_inv K checks s"
  shows "\<exists>k. registry_next checks k (nft_machine K s) = Some (nft_machine K s') \<and> reg_asked l k"
proof -
  have index: "nft_index_ok K (nft_field (nft_contract_of s))"
    using inv by (simp add: nft_system_inv_def nft_ok_def)
  note machine = nft_machine_def Let_def reg_move_def
  from step show ?thesis
  proof cases
    case (nft_step_transfer e r tok aid memo c h)
    then obtain t where t: "nft_transfer K e (nft_field (nft_contract_of s)) no_effects r tok aid memo = Inr (t, h)"
      "c = (nft_contract_of s)\<lparr>nft_field := t\<rparr>"
      by (auto simp: contract_nft_transfer_def result_simps)
    note ret = transfer_returns [OF t(1) index]
    have "registry_next checks (Hands (predecessor_account_id e) r tok aid) (nft_machine K s) =
        Some (nft_machine K s')"
      using ret(2-4) ret(7) [of self] moved_machine [OF ret(5)] nft_step_transfer(2) t(2)
      unfolding authorized_machine by (simp add: machine del: not_None_eq)
    then show ?thesis using ret(1) nft_step_transfer(1)
      by (intro exI [of _ "Hands (predecessor_account_id e) r tok aid"]) simp
  next
    case (nft_step_transfer_call e r tok aid memo msg c h)
    then obtain t where t: "nft_transfer_call K e (nft_field (nft_contract_of s)) no_effects r tok aid memo msg = Inr (t, h)"
      "c = (nft_contract_of s)\<lparr>nft_field := t\<rparr>"
      by (auto simp: contract_nft_transfer_call_def result_simps)
    from transfer_call_machine [OF t(1) index nft_step_transfer_call(4)] obtain owner where
      ret: "attached_deposit e = 1"
        "nft_authorized K (nft_field (nft_contract_of s)) (predecessor_account_id e) tok aid"
        "nft_owners K (nft_field (nft_contract_of s)) tok = Some owner" "owner \<noteq> r"
        "nft_moved K (nft_field (nft_contract_of s)) tok r None t"
        "nft_pending_of self h = {#(owner, r, tok, nft_approvals K (nft_field (nft_contract_of s)) tok)#}"
      by metis
    let ?k = "HandsInCall (predecessor_account_id e) r tok aid
      (nft_approvals K (nft_field (nft_contract_of s)) tok)"
    have "registry_next checks ?k (nft_machine K s) = Some (nft_machine K s')"
      using ret(2-4,6) moved_machine [OF ret(5)] nft_step_transfer_call(2) t(2)
      unfolding authorized_machine by (simp add: machine del: not_None_eq)
    then show ?thesis using ret(1) nft_step_transfer_call(1) by (intro exI [of _ ?k]) simp
  next
    case (nft_step_approve e tok a omsg c h)
    then obtain t where t: "nft_approve K e (nft_field (nft_contract_of s)) no_effects tok a omsg = Inr (t, h)"
      "c = (nft_contract_of s)\<lparr>nft_field := t\<rparr>"
      by (auto simp: contract_nft_approve_def result_simps)
    have "registry_next checks (Approves (predecessor_account_id e) tok a) (nft_machine K s) =
        Some (nft_machine K s')"
      using approve_machine [OF t(1)] approve_update [OF t(1)] nft_step_approve t(2)
        no_new_settlements(1) [OF t(1)]
      by (simp add: machine del: not_None_eq)
    moreover have "1 \<le> attached_deposit e" by (rule approve_returns [OF t(1)])
    ultimately show ?thesis using nft_step_approve(1)
      by (intro exI [of _ "Approves (predecessor_account_id e) tok a"]) simp
  next
    case (nft_step_revoke e tok a c h)
    then obtain t where t: "nft_revoke K e (nft_field (nft_contract_of s)) no_effects tok a = Inr (t, h)"
      "c = (nft_contract_of s)\<lparr>nft_field := t\<rparr>"
      by (auto simp: contract_nft_revoke_def result_simps)
    note ret = revoke_returns [OF t(1)]
    have "registry_next checks (Revokes (predecessor_account_id e) tok a) (nft_machine K s) =
        Some (nft_machine K s')"
      using ret(1,3) reapproved_machine [OF ret(4)] nep_revoke_removes t(1) nft_step_revoke(2) t(2)
        no_new_settlements(2) [OF t(1)]
      unfolding revoke_removes_def nft_methods by (simp add: machine del: not_None_eq)
    then show ?thesis using ret(2) nft_step_revoke(1)
      by (intro exI [of _ "Revokes (predecessor_account_id e) tok a"]) simp
  next
    case (nft_step_revoke_all e tok c h)
    then obtain t where t: "nft_revoke_all K e (nft_field (nft_contract_of s)) no_effects tok = Inr (t, h)"
      "c = (nft_contract_of s)\<lparr>nft_field := t\<rparr>"
      by (auto simp: contract_nft_revoke_all_def result_simps)
    note ret = revoke_all_returns [OF t(1)]
    have "registry_next checks (RevokesAll (predecessor_account_id e) tok) (nft_machine K s) =
        Some (nft_machine K s')"
      using ret(1,3) reapproved_machine [OF ret(4)] nep_revoke_removes t(1) nft_step_revoke_all(2) t(2)
        no_new_settlements(3) [OF t(1)]
      unfolding revoke_removes_def nft_methods by (simp add: machine del: not_None_eq)
    then show ?thesis using ret(2) nft_step_revoke_all(1)
      by (intro exI [of _ "RevokesAll (predecessor_account_id e) tok"]) simp
  next
    case (nft_step_mint e tok a md rf t h token)
    note ret = mint_with_refund_returns(1) [OF nft_step_mint(3)]
    have "nft_approval K t = nft_approval K (nft_field (nft_contract_of s))"
      using ret by (simp add: nft_minted_def nft_approval_def fun_eq_iff)
    then have "registry_next checks (Registers tok a) (nft_machine K s) = Some (nft_machine K s')"
      using ret nft_step_mint(2) no_new_settlements(4) [OF nft_step_mint(3)]
      by (simp add: machine nft_minted_def nft_same_shape_def del: not_None_eq)
    then show ?thesis using nft_step_mint(1) by (intro exI [of _ "Registers tok a"]) simp
  next
    case (nft_step_settle o1 r tok A e c h kept)
    then obtain t where t: "nft_resolve_transfer K from_slice e (nft_field (nft_contract_of s)) no_effects o1 r tok A = Inr (t, h, kept)"
      "c = (nft_contract_of s)\<lparr>nft_field := t\<rparr>"
      by (auto simp: contract_nft_resolve_transfer_def result_simps)
    note ret = resolve_transfer_returns [OF t(1) index]
    show ?thesis
    proof (cases kept)
      case True
      then have "registry_next checks (Forgets (o1, r, tok, A)) (nft_machine K s) = Some (nft_machine K s')"
        using ret nft_step_settle(2,3) t(2) no_new_settlements(5) [OF t(1)] by (simp add: machine del: not_None_eq)
      then show ?thesis using nft_step_settle(1) by (intro exI [of _ "Forgets (o1, r, tok, A)"]) simp
    next
      case False
      let ?t = "nft_field (nft_contract_of s)"
      have owner: "nft_owners K ?t tok = Some r" and moved: "nft_moved K ?t tok o1
          (if approvals_by_id ?t = None then None else nft_resolved_approvals (nft_approvals K ?t tok) A) t"
        using ret False by simp_all
      have "shown_approvals (if approvals_by_id ?t = None then None
          else nft_resolved_approvals (nft_approvals K ?t tok) A) = reg_restored (nft_machine K s) tok A"
        by (cases A) (auto simp: reg_restored_def machine nft_resolved_approvals_def shown_approvals_def
            nft_approval_def fun_eq_iff)
      then have "registry_next checks (Returns (o1, r, tok, A)) (nft_machine K s) = Some (nft_machine K s')"
        using owner moved_machine [OF moved] nft_step_settle(2,3) t(2) no_new_settlements(5) [OF t(1)]
        by (simp add: machine del: not_None_eq)
      then show ?thesis using nft_step_settle(1) by (intro exI [of _ "Returns (o1, r, tok, A)"]) simp
    qed
  next
    case (nft_step_settle_panics o1 r tok A e p)
    then have "registry_next checks (Forgets (o1, r, tok, A)) (nft_machine K s) = Some (nft_machine K s')"
      by (simp add: machine del: not_None_eq)
    then show ?thesis using nft_step_settle_panics(1) by (intro exI [of _ "Forgets (o1, r, tok, A)"]) simp
  qed
qed

lemma new_next_id:
  assumes "nft_new K usage e pre owner mp ep app = Inr t"
  shows "nft_next_id K t = (\<lambda>_. 1)"
  using assms
  by (auto simp: nft_new_def nft_measure_min_token_storage_cost_def nft_set_dummy_def
      nft_roll_back_def result_simps Let_def case_prod_beta nft_next_id_def nx.map_laws fun_eq_iff
      split: option.splits)

lemma initial_machine:
  assumes "nft_initial K usage s"
  shows "\<exists>managed. nft_machine K s = empty_registry managed"
proof -
  from assms obtain e op owner mp ep app where
    new: "nft_new K usage e op owner mp ep app = Inr (nft_field (nft_contract_of s))"
    and "nft_pending s = {#}" by (auto simp: nft_initial_def)
  moreover have "nft_approval K (nft_field (nft_contract_of s)) = (\<lambda>_. Map.empty)"
    using new_empty(2) [OF new] by (simp add: nft_approval_def fun_eq_iff)
  ultimately show ?thesis
    using new_empty(1) [OF new] new_next_id [OF new]
    by (simp add: nft_machine_def empty_registry_def Let_def)
qed

end

sublocale nft_chain \<subseteq> registry: refined_system
  "nft_initial K usage :: (('o, 'md, 'te, 'ap, 'nx) NonFungibleToken, 'r) nft_system \<Rightarrow> bool"
  "\<lambda>s s'. \<exists>l. nft_step K usage from_slice self checks s l s'" "nft_system_inv K checks"
  "nft_machine K" "\<lambda>m. \<exists>managed. m = empty_registry managed" "registry_next checks"
  by unfold_locales (use step_machine initial_machine in blast)+

context nft_chain
begin

lemma chain_replay:
  "reachable (nft_initial K usage) (\<lambda>s s'. \<exists>l. nft_step K usage from_slice self checks s l s') s \<Longrightarrow>
     \<exists>managed entries. replay (registry_next checks) entries (empty_registry managed) =
       Some (nft_machine K s)"
  using registry.reachable_replay by blast

lemma chain_step:
  "reachable (nft_initial K usage) (\<lambda>s s'. \<exists>l. nft_step K usage from_slice self checks s l s') s \<Longrightarrow>
     nft_step K usage from_slice self checks s l s' \<Longrightarrow>
     \<exists>k. registry_next checks k (nft_machine K s) = Some (nft_machine K s') \<and> reg_asked l k"
  using step_machine chain_ok by blast

end

subsection \<open>Properties\<close>

text \<open>C2: the contract is a registry.  Whatever calls, mints and late settlements a contract with the
  non-fungible token of \<open>nep-interface\<close> has executed, its owners, approvals, next approval ids and
  open transfer calls are the replay of a list of registry entries on the empty registry; and each
  further step is one more entry that the registry allows, acted by the caller with a deposit of at
  least one yoctoNEAR, or the return or end of the open call that is settled.\<close>

theorem nft_chain_refines_registry:
  assumes "nft_store K"
    and "reachable (nft_initial K usage) (\<lambda>s s'. \<exists>l. nft_step K usage from_slice self checks s l s') s"
  shows "(\<exists>managed entries. replay (registry_next checks) entries (empty_registry managed) =
        Some (nft_machine K s)) \<and>
     (\<forall>l s'. nft_step K usage from_slice self checks s l s' \<longrightarrow>
        (\<exists>k. registry_next checks k (nft_machine K s) = Some (nft_machine K s') \<and> reg_asked l k))"
proof -
  have "nft_chain K" using assms(1) by (simp add: nft_chain_def)
  from nft_chain.chain_replay [OF this assms(2)] nft_chain.chain_step [OF this assms(2)]
  show ?thesis by blast
qed

definition nft_demo_system :: "list_nft \<Rightarrow> (list_nft, unit) nft_system" where
  "nft_demo_system t = \<lparr>nft_contract_of = \<lparr>nft_field = t, nft_rest = ()\<rparr>, nft_pending = {#}\<rparr>"

abbreviation nft_demo_step ::
    "(list_nft, unit) nft_system \<Rightarrow> nft_label \<Rightarrow> (list_nft, unit) nft_system \<Rightarrow> bool" where
  "nft_demo_step \<equiv> nft_step list_nft_ops nft_demo_usage demo_bool_from_slice ''nft'' True"

lemma nft_demo_field [simp]: "nft_field (nft_contract_of (nft_demo_system t)) = t"
  "nft_pending (nft_demo_system t) = {#}"
  by (simp_all add: nft_demo_system_def)

theorem nft_chain_refines_registry_witness:
  "\<exists>managed entries m. replay (registry_next True) entries (empty_registry managed) = Some m \<and>
     reg_owner m = [''t1'' \<mapsto> ''alice''] \<and> reg_approved m ''t1'' ''bob'' = Some 1 \<and> reg_next m ''t1'' = 2"
proof -
  let ?m = "nft_machine list_nft_ops (nft_demo_system nft_demo)"
  have "reachable (nft_initial list_nft_ops nft_demo_usage) (\<lambda>s s'. \<exists>l. nft_demo_step s l s')
      (nft_demo_system nft_demo)"
    using nft_demo_reachable by (simp add: nft_demo_system_def)
  from nft_chain_refines_registry [OF nft_demo_store this]
  have "\<exists>managed entries. replay (registry_next True) entries (empty_registry managed) = Some ?m" by blast
  moreover have "reg_owner ?m = [''t1'' \<mapsto> ''alice'']" "reg_approved ?m ''t1'' ''bob'' = Some 1"
    "reg_next ?m ''t1'' = 2"
    by (simp_all add: nft_machine_def Let_def nft_approval_def DAList.lookup_update)
  ultimately show ?thesis by blast
qed

text \<open>C5: what is in the wallet stays there.  When an account owns a token, has approved nobody for it
  and did not get it by a transfer call that is still open, then it owns the token as long as it
  does not call the contract itself, whatever anybody else calls, whatever is minted, and however
  late the settlements of other calls come.\<close>

theorem nft_stays_in_wallet:
  assumes "nft_store K"
    and "reachable (nft_initial K usage) (\<lambda>s s'. \<exists>l. nft_step K usage from_slice self checks s l s') s"
    and "nft_owners K (nft_field (nft_contract_of s)) tok = Some a"
    and "nft_approval K (nft_field (nft_contract_of s)) tok = Map.empty"
    and "\<forall>b A. (b, a, tok, A) \<notin># nft_pending s"
    and "(\<lambda>s s'. \<exists>l. nft_step K usage from_slice self checks s l s' \<and>
        (\<forall>e. l = CallBy e \<longrightarrow> predecessor_account_id e \<noteq> a))\<^sup>*\<^sup>* s s'"
  shows "nft_owners K (nft_field (nft_contract_of s')) tok = Some a"
proof -
  have chain: "nft_chain K" using assms(1) by (simp add: nft_chain_def)
  let ?reach = "reachable (nft_initial K usage) (\<lambda>s s'. \<exists>l. nft_step K usage from_slice self checks s l s')"
  have wallet: "in_wallet (nft_machine K s) a tok"
    using assms(3-5) by (auto simp: in_wallet_def nft_machine_def Let_def)
  from assms(6) have "?reach s' \<and> in_wallet (nft_machine K s') a tok"
  proof (induction rule: rtranclp_induct)
    case base
    then show ?case using assms(2) wallet by simp
  next
    case (step s1 s2)
    then obtain l where l: "nft_step K usage from_slice self checks s1 l s2"
      "\<forall>e. l = CallBy e \<longrightarrow> predecessor_account_id e \<noteq> a" by blast
    from step.IH have reach: "?reach s1" and wallet: "in_wallet (nft_machine K s1) a tok" by simp_all
    from nft_chain.chain_step [OF chain reach l(1)] obtain k where
      k: "registry_next checks k (nft_machine K s1) = Some (nft_machine K s2)" "reg_asked l k" by blast
    have "label_actor k \<noteq> Some a"
      using k(2) l(2) by (cases l) (auto split: registry_label.splits)
    from in_wallet_step [OF wallet k(1) this] have "in_wallet (nft_machine K s2) a tok" .
    moreover have "?reach s2" using reachable_step [OF reach] l(1) by blast
    ultimately show ?case by simp
  qed
  then show ?thesis by (simp add: in_wallet_def nft_machine_def Let_def)
qed

text \<open>The exchange owns the token that Alice has sent it, and keeps it while another is minted.\<close>

lemma nft_demo_sent_reachable:
  "reachable (nft_initial list_nft_ops nft_demo_usage) (\<lambda>s s'. \<exists>l. nft_demo_step s l s')
     (nft_demo_system nft_demo_sent)"
proof -
  have "nft_demo_step (nft_demo_system nft_demo) (CallBy (nft_demo_env ''alice'' 1 []))
      (nft_demo_system nft_demo_sent)"
    using nft_step_transfer [of list_nft_ops "nft_demo_env ''alice'' 1 []" "nft_demo_system nft_demo" "''dex''"
        "''t1''" None None "\<lparr>nft_field = nft_demo_sent, nft_rest = ()\<rparr>" _ "''nft''" True nft_demo_usage
        demo_bool_from_slice]
    by (simp add: contract_nft_transfer_def nft_demo_transfer nft_demo_system_def)
  then show ?thesis
    using reachable_step [OF nft_demo_reachable] by (auto simp: nft_demo_system_def)
qed

lemma nft_demo_second_mint:
  "\<exists>t. nft_demo_step (nft_demo_system nft_demo_sent) OwnMint (nft_demo_system t) \<and>
     nft_owners list_nft_ops t ''t2'' = Some ''carol''"
proof -
  obtain t h token where mint: "nft_internal_mint_with_refund list_nft_ops nft_demo_usage
      (nft_demo_env ''nft'' 0 []) nft_demo_sent no_effects ''t2'' ''carol'' (Some tmp_metadata) None =
      Inr (t, h, token)"
    by (auto simp: nft_mint_eq)
  then have "nft_owners list_nft_ops t ''t2'' = Some ''carol''"
    using ln.mint_with_refund_returns(1) [OF mint] by (simp add: nft_minted_def)
  then show ?thesis
    using nft_step_mint [of list_nft_ops nft_demo_usage "nft_demo_env ''nft'' 0 []"
        "nft_demo_system nft_demo_sent" "''t2''" "''carol''" "Some tmp_metadata" None t h token "''nft''" True
        demo_bool_from_slice] mint no_new_settlements(4) [OF mint]
    by (auto simp: nft_demo_system_def)
qed

theorem nft_stays_in_wallet_witness:
  "\<exists>t. nft_demo_step (nft_demo_system nft_demo_sent) OwnMint (nft_demo_system t) \<and>
     nft_owners list_nft_ops t ''t1'' = Some ''dex''"
proof -
  obtain t where step: "nft_demo_step (nft_demo_system nft_demo_sent) OwnMint (nft_demo_system t)"
    using nft_demo_second_mint by blast
  then have "(\<lambda>s s'. \<exists>l. nft_demo_step s l s' \<and>
      (\<forall>e. l = CallBy e \<longrightarrow> predecessor_account_id e \<noteq> ''dex''))\<^sup>*\<^sup>*
      (nft_demo_system nft_demo_sent) (nft_demo_system t)" by blast
  from nft_stays_in_wallet [OF nft_demo_store nft_demo_sent_reachable _ _ _ this, of "''t1''"] step
  show ?thesis by (auto simp: nft_approval_def fun_eq_iff)
qed

end
