(* ===== verification/NftEventLog.thy ===== *)
theory NftEventLog
  imports RegistryMachine EventReplay
begin

section \<open>The events of the non-fungible token tell its owners\<close>

text \<open>
  Every method of the non-fungible token, with the lines it logs: replaying them on the owners before
  the call gives the owners after it.  So an indexer that has read all the lines of a contract which
  mints by \<open>internal_mint\<close> or \<open>mint\<close> knows who owns what.  The approvals leave no trace in the log,
  and neither do refunds.
\<close>

definition nft_tells ::
    "('o, 'md, 'te, 'us, 'ap, 'nx) nft_ops \<Rightarrow> ('o, 'md, 'te, 'ap, 'nx) NonFungibleToken \<Rightarrow>
     log_line list \<Rightarrow> ('o, 'md, 'te, 'ap, 'nx) NonFungibleToken \<Rightarrow> bool" where
  "nft_tells K t ls t' \<longleftrightarrow>
     replay (entry_told nft_told) ls (nft_owners K t) = Some (nft_owners K t') \<and>
     (\<forall>l \<in> set ls. plain l)"

subsection \<open>What each method logs\<close>

lemma refund_deposit_logs:
  "refund_deposit_to_account e n a h = Inr h' \<Longrightarrow> logs h' = logs h"
  by (auto simp: refund_deposit_to_account_def result_simps split: if_splits)

lemma refund_ids_logs:
  "refund_approved_account_ids_iter e a as h = Inr h' \<Longrightarrow> logs h' = logs h"
  "refund_approved_account_ids e a A h = Inr h' \<Longrightarrow> logs h' = logs h"
  by (auto simp: refund_approved_account_ids_def refund_approved_account_ids_iter_def result_simps)

lemma approve_logs: "nft_approve K e t h tok a omsg = Inr (t', h') \<Longrightarrow> logs h' = logs h"
  by (auto simp: nft_approve_def refund_deposit_def result_simps Let_def split: option.splits
      dest!: refund_deposit_logs)

lemma revoke_logs:
  assumes "nft_revoke K e t h tok a = Inr (t', h')"
  shows "logs h' = logs h"
proof -
  from assms obtain m where m: "approvals_by_id t = Some m"
    by (auto simp: nft_revoke_def result_simps)
  with assms show ?thesis
    by (cases "lm_get (approvals_ops K) m tok")
      (auto simp: nft_revoke_def result_simps Let_def split: if_splits dest!: refund_ids_logs)
qed

lemma revoke_all_logs:
  assumes "nft_revoke_all K e t h tok = Inr (t', h')"
  shows "logs h' = logs h"
proof -
  from assms obtain m where m: "approvals_by_id t = Some m"
    by (auto simp: nft_revoke_all_def result_simps)
  with assms show ?thesis
    by (cases "lm_get (approvals_ops K) m tok")
      (auto simp: nft_revoke_all_def result_simps dest!: refund_ids_logs)
qed

lemma mint_logs:
  "nft_internal_mint_with_refund K usage e t h tok a md rf = Inr (t', h', token) \<Longrightarrow> logs h' = logs h"
  by (auto simp: nft_mint_eq result_simps split: option.splits if_splits dest!: refund_deposit_logs)

lemma nft_tells_nothing: "nft_owners K t' = nft_owners K t \<Longrightarrow> nft_tells K t [] t'"
  by (simp add: nft_tells_def)

lemma handed_on:
  assumes "m tok = from"
  shows "handed from to tok m = Some (m(tok := to))"
  using assms by (simp add: handed_def)

lemma nft_tells_transfer:
  assumes "nft_owners K t tok = Some a" and "nft_owners K t' = (nft_owners K t)(tok \<mapsto> b)"
  shows "nft_tells K t [EventLog (new_171_v1 (NftTransferEvent [NftTransfer a b [tok] auth memo]))] t'"
  using assms by (simp add: nft_tells_def handed_on)

context nft_store
begin

lemma resolve_logs:
  assumes res: "nft_resolve_transfer K from_slice e t h prev rc tok A = Inr (t', h', kept)"
  shows "logs h' = logs h @ (if kept then [] else
     [EventLog (new_171_v1 (NftTransferEvent [NftTransfer rc prev [tok] None None]))])"
proof -
  from res obtain r must_revert where
    r: "env_promise_result e 0 = (Inr r :: NftError panic + PromiseResult)"
      "nft_must_revert from_slice r = Inr must_revert"
    by (auto simp: nft_resolve_transfer_def result_simps)
  note eq = resolve_transfer_eq [OF r, of t h prev rc tok A]
  show ?thesis
  proof (cases "must_revert \<and> nft_owners K t tok = Some rc")
    case False
    then show ?thesis using res unfolding eq
      by (auto simp: result_simps split: option.splits if_splits dest: refund_ids_logs)
  next
    case True
    with res obtain t1 h1 where "nft_restore_approvals K e t1 h rc tok A = Inr (t', h1)"
      and "h' = nft_emit_transfer rc prev tok None None h1" and "\<not> kept"
      unfolding eq by (auto simp: result_simps)
    then show ?thesis using restore_approvals_returns(2) by (fastforce simp: nft_emit_transfer_def)
  qed
qed

lemma resolve_tells:
  assumes "nft_resolve_transfer K from_slice e t no_effects prev rc tok A = Inr (t', h', kept)"
    and "nft_index_ok K t"
  shows "nft_tells K t (logs h') t'"
  using resolve_transfer_returns [OF assms] resolve_logs [OF assms(1)]
  by (auto simp: nft_moved_def intro: nft_tells_nothing nft_tells_transfer split: if_splits)

lemma nft_transfer_tells:
  assumes "nft_transfer K e t no_effects r tok aid memo = Inr (t', h')" and "nft_index_ok K t"
  shows "nft_tells K t (logs h') t'"
proof -
  from assms(1) obtain owner A where
    tr: "nft_internal_transfer K t no_effects (predecessor_account_id e) r tok aid memo = Inr (t', h', owner, A)"
    by (auto simp: nft_transfer_def result_simps Let_def)
  note ret = internal_transfer_returns [OF tr] internal_transfer_result [OF assms(2) tr]
  have "logs h' = [EventLog (new_171_v1 (NftTransferEvent [NftTransfer owner r [tok] None memo]))]"
    by (simp add: ret(7))
  then show ?thesis using ret(1,5) nft_tells_transfer [of K t tok owner t' r None memo]
    by (simp add: nft_moved_def)
qed

lemma nft_transfer_call_tells:
  assumes "nft_transfer_call K e t no_effects r tok aid memo msg = Inr (t', h')" and "nft_index_ok K t"
  shows "nft_tells K t (logs h') t'"
  by (rule transfer_call_returns [OF assms]) (simp add: nft_tells_transfer nft_moved_def)

lemma nft_mint_tells:
  assumes "nft_internal_mint K usage e t no_effects tok a md = Inr (t', h', token)"
  shows "nft_tells K t (logs h') t'"
    and "\<exists>h1. nft_internal_mint_with_refund K usage e t no_effects tok a md
        (Some (predecessor_account_id e)) = Inr (t', h1, token) \<and> nft_pending_of self h' = nft_pending_of self h1"
proof -
  from assms obtain h1 where
    run: "nft_internal_mint_with_refund K usage e t no_effects tok a md
      (Some (predecessor_account_id e)) = Inr (t', h1, token)"
    and h': "h' = nft_mint_emit (NftMint (tok_owner_id token) [tok_token_id token] None) h1"
    by (auto simp: nft_internal_mint_def result_simps)
  note ret = mint_with_refund_returns(1,4) [OF run]
  show "nft_tells K t (logs h') t'"
    using ret mint_logs [OF run] by (simp add: nft_tells_def h' nft_minted_def handed_on)
  show "\<exists>h1. nft_internal_mint_with_refund K usage e t no_effects tok a md
        (Some (predecessor_account_id e)) = Inr (t', h1, token) \<and> nft_pending_of self h' = nft_pending_of self h1"
    using run by (simp add: h' nft_pending_of_def)
qed

end

subsection \<open>A contract and its log\<close>

inductive nft_logged_step ::
    "('o, 'md, 'te, 'us, 'ap, 'nx) nft_ops \<Rightarrow>
     (('o, 'md, 'te, 'ap, 'nx) NonFungibleToken \<Rightarrow> StorageUsage) \<Rightarrow>
     (bytes \<Rightarrow> bool option) \<Rightarrow> AccountId \<Rightarrow> bool \<Rightarrow>
     (('o, 'md, 'te, 'ap, 'nx) NonFungibleToken, 'r) nft_system \<times> log_line list \<Rightarrow>
     (('o, 'md, 'te, 'ap, 'nx) NonFungibleToken, 'r) nft_system \<times> log_line list \<Rightarrow> bool"
  for K usage from_slice self checks where
  nft_logged_transfer:
    "contract_nft_transfer K e (nft_contract_of s) no_effects r tok aid memo = Inr (c, h) \<Longrightarrow>
     current_account_id e = self \<Longrightarrow> overflow_checks e = checks \<Longrightarrow>
     nft_logged_step K usage from_slice self checks (s, lg)
       (s\<lparr>nft_contract_of := c, nft_pending := nft_pending s + nft_pending_of self h\<rparr>, lg @ logs h)"
| nft_logged_transfer_call:
    "contract_nft_transfer_call K e (nft_contract_of s) no_effects r tok aid memo msg = Inr (c, h) \<Longrightarrow>
     current_account_id e = self \<Longrightarrow> overflow_checks e = checks \<Longrightarrow>
     nft_logged_step K usage from_slice self checks (s, lg)
       (s\<lparr>nft_contract_of := c, nft_pending := nft_pending s + nft_pending_of self h\<rparr>, lg @ logs h)"
| nft_logged_approve:
    "contract_nft_approve K e (nft_contract_of s) no_effects tok a omsg = Inr (c, h) \<Longrightarrow>
     current_account_id e = self \<Longrightarrow> overflow_checks e = checks \<Longrightarrow>
     nft_logged_step K usage from_slice self checks (s, lg)
       (s\<lparr>nft_contract_of := c, nft_pending := nft_pending s + nft_pending_of self h\<rparr>, lg @ logs h)"
| nft_logged_revoke:
    "contract_nft_revoke K e (nft_contract_of s) no_effects tok a = Inr (c, h) \<Longrightarrow>
     current_account_id e = self \<Longrightarrow> overflow_checks e = checks \<Longrightarrow>
     nft_logged_step K usage from_slice self checks (s, lg)
       (s\<lparr>nft_contract_of := c, nft_pending := nft_pending s + nft_pending_of self h\<rparr>, lg @ logs h)"
| nft_logged_revoke_all:
    "contract_nft_revoke_all K e (nft_contract_of s) no_effects tok = Inr (c, h) \<Longrightarrow>
     current_account_id e = self \<Longrightarrow> overflow_checks e = checks \<Longrightarrow>
     nft_logged_step K usage from_slice self checks (s, lg)
       (s\<lparr>nft_contract_of := c, nft_pending := nft_pending s + nft_pending_of self h\<rparr>, lg @ logs h)"
| nft_logged_mint:
    "nft_internal_mint K usage e (nft_field (nft_contract_of s)) no_effects tok a md = Inr (t, h, token) \<Longrightarrow>
     current_account_id e = self \<Longrightarrow> overflow_checks e = checks \<Longrightarrow>
     nft_logged_step K usage from_slice self checks (s, lg)
       (s\<lparr>nft_contract_of := (nft_contract_of s)\<lparr>nft_field := t\<rparr>,
         nft_pending := nft_pending s + nft_pending_of self h\<rparr>, lg @ logs h)"
| nft_logged_settle:
    "(o1, r, tok, A) \<in># nft_pending s \<Longrightarrow>
     current_account_id e = self \<Longrightarrow> overflow_checks e = checks \<Longrightarrow>
     contract_nft_resolve_transfer K from_slice e (nft_contract_of s) no_effects o1 r tok A =
       Inr (c, h, kept) \<Longrightarrow>
     nft_logged_step K usage from_slice self checks (s, lg)
       (s\<lparr>nft_contract_of := c,
         nft_pending := nft_pending s - {#(o1, r, tok, A)#} + nft_pending_of self h\<rparr>, lg @ logs h)"
| nft_logged_settle_panics:
    "(o1, r, tok, A) \<in># nft_pending s \<Longrightarrow>
     current_account_id e = self \<Longrightarrow> overflow_checks e = checks \<Longrightarrow>
     contract_nft_resolve_transfer K from_slice e (nft_contract_of s) no_effects o1 r tok A = Inl p \<Longrightarrow>
     nft_logged_step K usage from_slice self checks (s, lg)
       (s\<lparr>nft_pending := nft_pending s - {#(o1, r, tok, A)#}\<rparr>, lg)"

definition nft_logged_initial ::
    "('o, 'md, 'te, 'us, 'ap, 'nx) nft_ops \<Rightarrow>
     (('o, 'md, 'te, 'ap, 'nx) NonFungibleToken \<Rightarrow> StorageUsage) \<Rightarrow>
     (('o, 'md, 'te, 'ap, 'nx) NonFungibleToken, 'r) nft_system \<times> log_line list \<Rightarrow> bool" where
  "nft_logged_initial K usage sl \<longleftrightarrow> nft_initial K usage (fst sl) \<and> snd sl = []"

text \<open>The invariant: that of the chain, and the log so far tells the owners.\<close>

definition nft_log_ok ::
    "('o, 'md, 'te, 'us, 'ap, 'nx) nft_ops \<Rightarrow> bool \<Rightarrow>
     (('o, 'md, 'te, 'ap, 'nx) NonFungibleToken, 'r) nft_system \<times> log_line list \<Rightarrow> bool" where
  "nft_log_ok K checks sl \<longleftrightarrow>
     nft_system_inv K checks (fst sl) \<and> (\<forall>l \<in> set (snd sl). plain l) \<and>
     replay (entry_told nft_told) (snd sl) Map.empty =
       Some (nft_owners K (nft_field (nft_contract_of (fst sl))))"

lemma nft_log_ok_tells:
  assumes "nft_log_ok K checks (s, lg)"
    and "nft_tells K (nft_field (nft_contract_of s)) ls (nft_field (nft_contract_of s'))"
    and "nft_system_inv K checks s'"
  shows "nft_log_ok K checks (s', lg @ ls)"
  using assms by (auto simp: nft_log_ok_def nft_tells_def replay_append)

context nft_chain
begin

text \<open>The log only watches: its steps are the steps of the chain.\<close>

lemma nft_logged_step_is_step:
  assumes "nft_logged_step K usage from_slice self checks sl sl'"
  shows "\<exists>l. nft_step K usage from_slice self checks (fst sl) l (fst sl')"
  using assms
proof (induction rule: nft_logged_step.induct)
  case (nft_logged_mint e s tok a md t h token lg)
  from nft_mint_tells(2) [OF nft_logged_mint(1)] obtain h1 where
    run: "nft_internal_mint_with_refund K usage e (nft_field (nft_contract_of s)) no_effects tok a md
        (Some (predecessor_account_id e)) = Inr (t, h1, token)"
    and "nft_pending_of self h = nft_pending_of self h1" by blast
  with nft_step_mint [OF run nft_logged_mint(2,3)] show ?case by auto
qed (simp only: fst_conv, blast intro: nft_step.intros)+

lemma nft_logged_step_ok:
  assumes "nft_logged_step K usage from_slice self checks sl sl'" and "nft_log_ok K checks sl"
  shows "nft_log_ok K checks sl'"
proof -
  have inv: "nft_system_inv K checks (fst sl)" using assms(2) by (simp add: nft_log_ok_def)
  then have index: "nft_index_ok K (nft_field (nft_contract_of (fst sl)))"
    by (simp add: nft_system_inv_def nft_ok_def)
  have inv': "nft_system_inv K checks (fst sl')"
    using nft_logged_step_is_step [OF assms(1)] step_keeps_inv inv by blast
  obtain lg lg' where lg: "sl = (fst sl, lg)" "sl' = (fst sl', lg')" by (metis prod.collapse)
  have "\<exists>ls. lg' = lg @ ls \<and>
      nft_tells K (nft_field (nft_contract_of (fst sl))) ls (nft_field (nft_contract_of (fst sl')))"
    using assms(1) index lg
  proof (induction rule: nft_logged_step.induct)
    case (nft_logged_transfer e s r tok aid memo c h lg)
    then show ?case
      by (auto simp: contract_nft_transfer_def result_simps dest: nft_transfer_tells)
  next
    case (nft_logged_transfer_call e s r tok aid memo msg c h lg)
    then show ?case
      by (auto simp: contract_nft_transfer_call_def result_simps dest: nft_transfer_call_tells)
  next
    case (nft_logged_approve e s tok a omsg c h lg)
    then obtain t where t: "nft_approve K e (nft_field (nft_contract_of s)) no_effects tok a omsg = Inr (t, h)"
      "c = (nft_contract_of s)\<lparr>nft_field := t\<rparr>"
      by (auto simp: contract_nft_approve_def result_simps)
    then show ?case using nft_logged_approve approve_logs [OF t(1)] approve_update [OF t(1)]
      by (auto intro: nft_tells_nothing)
  next
    case (nft_logged_revoke e s tok a c h lg)
    then obtain t where t: "nft_revoke K e (nft_field (nft_contract_of s)) no_effects tok a = Inr (t, h)"
      "c = (nft_contract_of s)\<lparr>nft_field := t\<rparr>"
      by (auto simp: contract_nft_revoke_def result_simps)
    then show ?case using nft_logged_revoke revoke_logs [OF t(1)] revoke_returns(4) [OF t(1)]
      by (auto simp: nft_reapproved_def intro: nft_tells_nothing)
  next
    case (nft_logged_revoke_all e s tok c h lg)
    then obtain t where t: "nft_revoke_all K e (nft_field (nft_contract_of s)) no_effects tok = Inr (t, h)"
      "c = (nft_contract_of s)\<lparr>nft_field := t\<rparr>"
      by (auto simp: contract_nft_revoke_all_def result_simps)
    then show ?case using nft_logged_revoke_all revoke_all_logs [OF t(1)] revoke_all_returns(4) [OF t(1)]
      by (auto simp: nft_reapproved_def intro: nft_tells_nothing)
  next
    case (nft_logged_mint e s tok a md t h token lg)
    then show ?case using nft_mint_tells(1) by auto
  next
    case (nft_logged_settle o1 r tok A s e c h kept lg)
    then show ?case
      by (auto simp: contract_nft_resolve_transfer_def result_simps dest: resolve_tells)
  next
    case (nft_logged_settle_panics o1 r tok A s e p lg)
    then show ?case by (auto intro: nft_tells_nothing)
  qed
  then show ?thesis using nft_log_ok_tells lg assms(2) inv' by metis
qed

lemma nft_logged_initial_ok: "nft_logged_initial K usage sl \<Longrightarrow> nft_log_ok K checks sl"
  using initial_inv [of "fst sl"] new_empty(1)
  by (auto simp: nft_logged_initial_def nft_log_ok_def nft_initial_def)

sublocale nft_told: invariant_system
  "nft_logged_initial K usage :: (('o, 'md, 'te, 'ap, 'nx) NonFungibleToken, 'r) nft_system \<times> log_line list \<Rightarrow> bool"
  "nft_logged_step K usage from_slice self checks" "nft_log_ok K checks"
  by unfold_locales (rule nft_logged_initial_ok, assumption, rule nft_logged_step_ok)

lemma nft_chain_log_ok:
  "reachable (nft_logged_initial K usage) (nft_logged_step K usage from_slice self checks) sl \<Longrightarrow>
     nft_log_ok K checks sl"
  by (rule nft_told.reachable_inv)

end

subsection \<open>Property\<close>

text \<open>C8: the log tells the owners.  Take the lines that a contract with the non-fungible token of
  \<open>nep-interface\<close> has logged, as they were printed, in any of its reachable states: an indexer that
  reads the lines, strictly, comes to the owners that \<open>nft_token\<close> shows, token by token, whatever
  transfers, transfer calls, late settlements, approvals and mints there were.\<close>

theorem nft_log_tells_owners:
  assumes "nft_store K" and "reads_back to_string parse"
    and "reachable (nft_logged_initial K usage) (nft_logged_step K usage from_slice self checks) (s, lg)"
    and "printed to_string lg lines"
  shows "replay (line_told nft_told parse) lines Map.empty =
     Some (\<lambda>tok. map_option tok_owner_id (nft_token K (nft_field (nft_contract_of s)) tok))"
proof -
  have "nft_chain K" using assms(1) by (simp add: nft_chain_def)
  from nft_chain.nft_chain_log_ok [OF this assms(3)]
  have inv: "nft_system_inv K checks s" and plain: "\<forall>l \<in> set lg. plain l"
    and log: "replay (entry_told nft_told) lg Map.empty =
      Some (nft_owners K (nft_field (nft_contract_of s)))"
    by (simp_all add: nft_log_ok_def)
  have "map_option tok_owner_id (nft_token K t tok) = nft_owners K t tok" for t tok
    by (simp add: nft_token_def nft_owners_def split: option.split)
  then show ?thesis using log replay_lines [OF assms(2,4) plain, of nft_told] by simp
qed

text \<open>A token is minted for Alice, she approves Bob, and then sends it away.\<close>

abbreviation nft_demo_logged_step ::
    "(list_nft, unit) nft_system \<times> log_line list \<Rightarrow> (list_nft, unit) nft_system \<times> log_line list \<Rightarrow> bool" where
  "nft_demo_logged_step \<equiv> nft_logged_step list_nft_ops nft_demo_usage demo_bool_from_slice ''nft'' True"

definition t1_minted :: NearEvent where
  "t1_minted = new_171_v1 (NftMintEvent [NftMint ''alice'' [''t1''] None])"

definition t1_sent :: NearEvent where
  "t1_sent = new_171_v1 (NftTransferEvent [NftTransfer ''alice'' ''dex'' [''t1''] None None])"

lemma nft_demo_internal_mint:
  "\<exists>t h token. nft_internal_mint list_nft_ops nft_demo_usage (nft_demo_env ''nft'' 2000 [])
     nft_demo_empty no_effects ''t1'' ''alice'' (Some tmp_metadata) = Inr (t, h, token) \<and>
     logs h = [EventLog t1_minted] \<and> nft_pending_of ''nft'' h = {#} \<and>
     nft_approve list_nft_ops (nft_demo_env ''alice'' 200 []) t no_effects ''t1'' ''bob'' None =
       Inr (nft_demo, schedule (Transfer ''alice'' 50) no_effects)"
proof -
  obtain t h token where
    mint: "nft_internal_mint_with_refund list_nft_ops nft_demo_usage (nft_demo_env ''nft'' 2000 [])
      nft_demo_empty no_effects ''t1'' ''alice'' (Some tmp_metadata) None = Inr (t, h, token)"
    and ap: "nft_approve list_nft_ops (nft_demo_env ''alice'' 200 []) t no_effects ''t1'' ''bob'' None =
      Inr (nft_demo, schedule (Transfer ''alice'' 50) no_effects)"
    using nft_demo_mint by blast
  note t = ln.mint_with_refund_returns(3) [OF mint]
  have used: "sub_op True (nft_demo_usage t) (nft_demo_usage nft_demo_empty) = (Inr 100 :: NftError panic + u64)"
    by (simp add: t nft_with_token_def nft_demo_empty_def nft_demo_usage_def Let_def sub_op_exact)
  have pay: "\<exists>h1. refund_deposit_to_account (nft_demo_env ''nft'' 2000 []) 100 ''nft'' no_effects = Inr h1"
    by (subst refund_deposit_to_account_eq(1)) (simp_all add: bytes_price_def Let_def)
  have "\<exists>h2. nft_internal_mint list_nft_ops nft_demo_usage (nft_demo_env ''nft'' 2000 [])
      nft_demo_empty no_effects ''t1'' ''alice'' (Some tmp_metadata) = Inr (t, h2, token)"
    using mint used pay unfolding t
    by (auto simp: nft_internal_mint_def nft_mint_eq split: if_splits)
  then obtain h2 where h2: "nft_internal_mint list_nft_ops nft_demo_usage (nft_demo_env ''nft'' 2000 [])
      nft_demo_empty no_effects ''t1'' ''alice'' (Some tmp_metadata) = Inr (t, h2, token)" by blast
  from ln.nft_mint_tells(2) [OF h2, of "''nft''"] have "nft_pending_of ''nft'' h2 = {#}"
    using no_new_settlements(4) by fastforce
  moreover have "logs h2 = [EventLog t1_minted]"
    using h2 ln.mint_with_refund_returns(4) mint_logs
    by (fastforce simp: nft_internal_mint_def result_simps t1_minted_def)
  ultimately show ?thesis using h2 ap by blast
qed

lemma nft_demo_logged_reachable:
  "reachable (nft_logged_initial list_nft_ops nft_demo_usage) nft_demo_logged_step
     (nft_demo_system nft_demo_sent, [EventLog t1_minted, EventLog t1_sent])"
proof -
  let ?reach = "reachable (nft_logged_initial list_nft_ops nft_demo_usage) nft_demo_logged_step"
  have "nft_initial list_nft_ops nft_demo_usage (nft_demo_system nft_demo_empty)"
    unfolding nft_initial_def by (simp, intro exI, rule nft_demo_new)
  then have 0: "?reach (nft_demo_system nft_demo_empty, [])"
    by (intro reachable_init) (simp add: nft_logged_initial_def)
  obtain t h token where t: "nft_internal_mint list_nft_ops nft_demo_usage
      (nft_demo_env ''nft'' 2000 []) nft_demo_empty no_effects ''t1'' ''alice'' (Some tmp_metadata) =
      Inr (t, h, token)" "logs h = [EventLog t1_minted]" "nft_pending_of ''nft'' h = {#}"
    and ap: "nft_approve list_nft_ops (nft_demo_env ''alice'' 200 []) t no_effects ''t1'' ''bob'' None =
      Inr (nft_demo, schedule (Transfer ''alice'' 50) no_effects)"
    using nft_demo_internal_mint by blast
  from nft_logged_mint [of list_nft_ops nft_demo_usage "nft_demo_env ''nft'' 2000 []"
      "nft_demo_system nft_demo_empty" "''t1''" "''alice''" "Some tmp_metadata" t h token "''nft''" True
      demo_bool_from_slice "[]"] t
  have "nft_demo_logged_step (nft_demo_system nft_demo_empty, []) (nft_demo_system t, [EventLog t1_minted])"
    by (simp add: nft_demo_system_def)
  with 0 have 1: "?reach (nft_demo_system t, [EventLog t1_minted])" by (rule reachable_step)
  from nft_logged_approve [of list_nft_ops "nft_demo_env ''alice'' 200 []" "nft_demo_system t" "''t1''"
      "''bob''" None "\<lparr>nft_field = nft_demo, nft_rest = ()\<rparr>" _ "''nft''" True nft_demo_usage
      demo_bool_from_slice "[EventLog t1_minted]"] ap
  have "nft_demo_logged_step (nft_demo_system t, [EventLog t1_minted])
      (nft_demo_system nft_demo, [EventLog t1_minted])"
    by (simp add: contract_nft_approve_def nft_demo_system_def)
  with 1 have 2: "?reach (nft_demo_system nft_demo, [EventLog t1_minted])" by (rule reachable_step)
  from nft_logged_transfer [of list_nft_ops "nft_demo_env ''alice'' 1 []" "nft_demo_system nft_demo"
      "''dex''" "''t1''" None None "\<lparr>nft_field = nft_demo_sent, nft_rest = ()\<rparr>" _ "''nft''" True
      nft_demo_usage demo_bool_from_slice "[EventLog t1_minted]"] nft_demo_transfer
  have "nft_demo_logged_step (nft_demo_system nft_demo, [EventLog t1_minted])
      (nft_demo_system nft_demo_sent, [EventLog t1_minted, EventLog t1_sent])"
    by (simp add: contract_nft_transfer_def nft_demo_system_def t1_sent_def nft_pending_of_def)
  with 2 show ?thesis by (rule reachable_step)
qed

theorem nft_log_tells_owners_witness:
  "replay (line_told nft_told (two_parse t1_minted t1_sent)) [''EVENT_JSON:1'', ''EVENT_JSON:2''] Map.empty =
     Some [''t1'' \<mapsto> ''dex'']"
proof -
  have "t1_minted \<noteq> t1_sent"
    by (simp add: t1_minted_def t1_sent_def new_171_v1_def new_171_def)
  moreover have "(\<lambda>tok. map_option tok_owner_id (nft_token list_nft_ops nft_demo_sent tok)) =
      [''t1'' \<mapsto> ''dex'']"
    by (auto simp: nft_token_def nft_demo_sent_def nft_demo_def DAList.lookup_update fun_eq_iff)
  ultimately show ?thesis
    using nft_log_tells_owners [OF nft_demo_store two_reads_back nft_demo_logged_reachable two_printed]
    by simp
qed

end
