(* ===== verification/UpgradeStandard.thy ===== *)
theory UpgradeStandard
  imports Upgrade
begin

section \<open>The traits of owned and upgradable contracts\<close>

text \<open>
  The traits \<open>Ownable\<close> and \<open>Upgradable\<close> of \<open>upgrade/mod.rs\<close> as records of methods, \<open>Upgrade\<close> as their
  implementation, and as locales what a user of the two relies on: only the owner names the next
  owner and stages code, and code is deployed once, as it was staged.
\<close>

subsection \<open>The traits\<close>

record ('s, 'e) Ownable =
  ownable_get_owner :: "'s \<Rightarrow> AccountId"
  ownable_set_owner :: "env \<Rightarrow> 's \<Rightarrow> AccountId \<Rightarrow> 'e panic + 's"

record ('s, 'l, 'c, 'e) Upgradable =
  upgradable_get_staging_duration :: "'s \<Rightarrow> u64"
  upgradable_stage_code :: "env \<Rightarrow> 's \<Rightarrow> bytes \<Rightarrow> Timestamp \<Rightarrow> 'e panic + 's"
  upgradable_deploy_code :: "env \<Rightarrow> 's \<Rightarrow> ('l, 'c) effects \<Rightarrow> 'e panic + 's \<times> ('l, 'c) effects"
  upgradable_migrate :: "'e panic + unit"

definition upgrade_ownable :: "(upgrade_contract, UpgradeError) Ownable" where
  "upgrade_ownable =
     \<lparr>ownable_get_owner = (\<lambda>c. get_owner (upgrade_state c)),
      ownable_set_owner = (\<lambda>e c owner.
        rbind (set_owner e (upgrade_state c) owner) (\<lambda>u. Inr (c\<lparr>upgrade_state := u\<rparr>)))\<rparr>"

definition upgrade_upgradable :: "(upgrade_contract, string, unit, UpgradeError) Upgradable" where
  "upgrade_upgradable =
     \<lparr>upgradable_get_staging_duration = (\<lambda>c. get_staging_duration (upgrade_state c)),
      upgradable_stage_code = stage_code,
      upgradable_deploy_code = deploy_code,
      upgradable_migrate = migrate\<rparr>"

lemma upgrade_methods [simp]:
  "ownable_get_owner upgrade_ownable c = get_owner (upgrade_state c)"
  "ownable_set_owner upgrade_ownable e c owner =
     rbind (set_owner e (upgrade_state c) owner) (\<lambda>u. Inr (c\<lparr>upgrade_state := u\<rparr>))"
  "upgradable_stage_code upgrade_upgradable = stage_code"
  "upgradable_deploy_code upgrade_upgradable = deploy_code"
  by (simp_all add: upgrade_ownable_def upgrade_upgradable_def)

subsection \<open>A contract with an owner\<close>

text \<open>A receipt that names a new owner; one that panics changes nothing.\<close>

fun owner_deliver :: "('s, 'e) Ownable \<Rightarrow> env \<times> AccountId \<Rightarrow> 's \<Rightarrow> 's" where
  "owner_deliver M (e, a) s = (case ownable_set_owner M e s a of Inl p \<Rightarrow> s | Inr s' \<Rightarrow> s')"

locale ownable =
  fixes M :: "('s, 'e) Ownable"
  assumes set_by_owner: "ownable_set_owner M e s a = Inr s' \<Longrightarrow> predecessor_account_id e = ownable_get_owner M s"
    and set_names: "ownable_set_owner M e s a = Inr s' \<Longrightarrow> ownable_get_owner M s' = a"
    and set_serves: "predecessor_account_id e = ownable_get_owner M s \<Longrightarrow> returns (ownable_set_owner M e s a)"
begin

lemma strangers_change_nothing:
  "\<forall>q \<in> set qs. predecessor_account_id (fst q) \<noteq> ownable_get_owner M s \<Longrightarrow>
     fold (owner_deliver M) qs s = s"
proof (induction qs)
  case (Cons q qs)
  obtain e a where q: "q = (e, a)" by (cases q)
  with Cons.prems have "\<And>s'. ownable_set_owner M e s a \<noteq> Inr s'" using set_by_owner by fastforce
  then have "owner_deliver M q s = s" using q by (auto split: sum.split)
  then show ?case using Cons by simp
qed simp

lemma owner_was_named:
  "ownable_get_owner M (fold (owner_deliver M) qs s) \<in> insert (ownable_get_owner M s) (snd ` set qs)"
proof (induction qs arbitrary: s)
  case (Cons q qs)
  obtain e a where q: "q = (e, a)" by (cases q)
  then have "ownable_get_owner M (owner_deliver M q s) \<in> {ownable_get_owner M s, a}"
    using set_names by (auto split: sum.split)
  then show ?case using Cons [of "owner_deliver M q s"] q by auto
qed simp

end

subsection \<open>A contract that its owner upgrades\<close>

locale upgradable = ownable M
  for M :: "('s, 'e) Ownable" +
  fixes U :: "('s, 'l, 'c, 'e) Upgradable" and staged :: "'s \<Rightarrow> bytes option"
  assumes stage_by_owner:
      "upgradable_stage_code U e s code time = Inr s' \<Longrightarrow> predecessor_account_id e = ownable_get_owner M s"
    and stage_stages: "upgradable_stage_code U e s code time = Inr s' \<Longrightarrow>
      staged s' = Some code \<and> ownable_get_owner M s' = ownable_get_owner M s"
    and deploy_staged: "upgradable_deploy_code U e s h = Inr (s', h') \<Longrightarrow>
      \<exists>code. staged s = Some code \<and> promises h' = promises h @ [DeployContract (current_account_id e) code] \<and>
        staged s' = None \<and> ownable_get_owner M s' = ownable_get_owner M s"
begin

lemma deployed_once:
  assumes "upgradable_deploy_code U e s h = Inr (s', h')"
  shows "upgradable_deploy_code U e' s' h2 \<noteq> Inr r"
proof
  assume r: "upgradable_deploy_code U e' s' h2 = Inr r"
  obtain s'' h'' where "r = (s'', h'')" by (cases r)
  with r deploy_staged [of e' s' h2] have "staged s' \<noteq> None" by auto
  moreover have "staged s' = None" using deploy_staged [OF assms] by blast
  ultimately show False by simp
qed

lemma deploys_what_the_owner_staged:
  assumes "upgradable_stage_code U e s code time = Inr s1"
    and "upgradable_deploy_code U e' s1 h = Inr (s2, h')"
  shows "predecessor_account_id e = ownable_get_owner M s2 \<and>
     promises h' = promises h @ [DeployContract (current_account_id e') code]"
  using stage_by_owner [OF assms(1)] stage_stages [OF assms(1)] deploy_staged [OF assms(2)] by auto

end

interpretation upgrade: upgradable upgrade_ownable upgrade_upgradable
  "\<lambda>c. upgrade_storage c ''upgrade''"
  by unfold_locales
    (auto simp: set_owner_def assert_owner_def get_owner_def stage_code_iff deploy_code_iff
      result_simps returns_rbind require_eq_Inr)

end
