(* ===== verification/Spec2Isabelle.thy ===== *)
theory Spec2Isabelle
  imports FtSolvency NftRefunding Metadata EventTests Upgrade VaultProperties Callbacks
    Rounding SmallContracts
    TransferDeviations StorageConformance NftDeviations EnumerationConformance
    FtEventLog NftEventLog UpgradeStandard
begin

text \<open>
  A verification library for the Rust code of rustle.

  Rustle is a static analyser for NEAR smart contracts: LLVM passes in C++, driven by Python and
  shell scripts.  The Rust in the repository is the contracts under \<open>src/examples\<close> on which the
  detectors are tried: a complete implementation of the NEAR token standards in
  \<open>nep-interface\<close>, and some thirty small crates that each exhibit one kind of mistake.  This library
  models those contracts and proves what they keep and, for the crates with a mistake, exactly what
  goes wrong.

  How a contract is modelled.  A method is a function from the inputs of the call, the contract's
  state and the effects so far to a sum: \<open>Inl\<close> of a panic, which on the chain discards everything
  the call did, or \<open>Inr\<close> of the new state, the effects and the returned value (\<open>Prelude\<close>).  What a
  method reads through \<open>env\<close> is the record \<open>env\<close>, what it asks of the host, log lines and promises
  with their callbacks, gas and deposits, is the record \<open>effects\<close>, both in \<open>Near\<close>.  Integers keep
  their width: \<open>checked_add\<close> and the like, and the plain operators under both settings of the
  build's \<open>overflow-checks\<close>, which is an input.  The collections of \<open>near_sdk\<close> are not in the
  repository: a definition takes their operations as an argument, and a theorem assumes the
  documented laws, stated as the locales \<open>lookup_map\<close>, \<open>tree_map\<close> and \<open>unordered_set\<close> of
  \<open>Collections\<close>, where they are interpreted by maps and sets that evaluate.  \<open>serde_json\<close>,
  \<open>sha256\<close>, the encoding of storage keys and the host's storage accounting are parameters as well.
  A callback arrives as a separate call, at any later time: the theories that have callbacks define
  a step relation over contract and pending callbacks, and prove invariants of all its reachable
  states through the locale \<open>invariant_system\<close> of \<open>Prelude\<close>, and refinements of abstract machines
  through \<open>refined_system\<close> and, where each step carries the call that it executes,
  \<open>labelled_refinement\<close> of \<open>Simulation\<close>.

  The theories, and what they model (paths under \<open>src/examples\<close>).
  \<^item> \<open>Events\<close>: \<open>nep-interface/src/event.rs\<close> and the two \<open>events.rs\<close>, that is the events of NEP-141
    and NEP-171, their JSON value and the logged line; \<open>EventsRoundTrip\<close> reads the line back (C32);
    \<open>EventTests\<close> types the values, says what each kind of event reports (C33), prints the lines, and
    runs the unit tests of both files.
    \<open>EventReplay\<close> is an indexer that follows a contract by its lines alone, strictly; \<open>FtEventLog\<close>
    and \<open>NftEventLog\<close> show that it comes to the balances and to the owners (C7, C8).
  \<^item> \<open>FungibleToken\<close>, \<open>FtStorage\<close>, \<open>FtContract\<close>: \<open>fungible_token/core_impl.rs\<close>,
    \<open>storage_impl.rs\<close> with \<open>storage_management/mod.rs\<close>, and \<open>macros.rs\<close>.  The record
    \<open>FungibleToken\<close> is the struct; \<open>ft_internal_deposit\<close>, \<open>ft_internal_withdraw\<close>,
    \<open>ft_internal_transfer\<close>, \<open>ft_transfer_call\<close>, \<open>ft_internal_resolve_transfer\<close> and the storage
    methods are its methods, each with every branch.  The locale \<open>balance_store\<close> holds their
    lemmas; the invariant is that the supply is the sum of the balances.  \<open>FtProperties\<close> refines the
    operations of the token to those of an abstract ledger and proves its life on the chain (C14 to
    C16, C24).  \<open>LedgerMachine\<close> refines that life as a whole: an abstract book of balances,
    supply and open calls, in which each receipt, with the environment and the arguments of its call,
    stands for one determined entry (C1), and what follows for an account that keeps still (C4).
    \<open>FtSolvency\<close> runs the token with the native tokens that come in and go out (\<open>NativeTokens\<close>), and
    shows that the storage deposits are always there (C9).
  \<^item> \<open>Metadata\<close>: the metadata structs and their three checks.
  \<^item> \<open>Nft\<close>, \<open>NftExtensions\<close>: \<open>non_fungible_token/core/core_impl.rs\<close>, \<open>token.rs\<close>, \<open>utils.rs\<close>,
    \<open>approval/approval_impl.rs\<close> and \<open>enumeration/enumeration_impl.rs\<close>.  \<open>NftStore\<close> states the views
    of the token (who owns what, with which approvals) and the agreement of the index by owner with
    the owners, in the locale \<open>nft_store\<close>; \<open>NftRefunds\<close> and \<open>NftOps\<close> hold the lemmas of storage
    refunds, minting, approvals, enumeration and settlement; \<open>NftContract\<close> has the methods of
    \<open>macros.rs\<close> and the labelled steps of a contract on the chain; \<open>NftProperties\<close> the theorems (C17
    to C19, C22, C23, C25, C26).  \<open>RegistryMachine\<close> refines the contract to a registry of owners,
    approvals, next ids and open calls (C2), and shows that an unapproved token stays with its owner
    (C5).  \<open>NftRefunding\<close> repeats a failed transfer call with approvals in between, which pays the
    same deposit back twice (C10).
  \<^item> \<open>TransferStandard\<close>, \<open>StorageStandard\<close>, \<open>NftStandard\<close>, \<open>EnumerationStandard\<close>: the traits
    (\<open>fungible_token/core.rs\<close>, \<open>resolver.rs\<close>, \<open>storage_management/mod.rs\<close>,
    \<open>non_fungible_token/core/mod.rs\<close>, \<open>core/resolver.rs\<close>, \<open>approval/mod.rs\<close>,
    \<open>enumeration/mod.rs\<close>).  A trait is a record of methods; each requirement taken from its
    comments is a definition over the record, under a name, and these requirements are the assumptions
    of the locale of the standard (but for the gas limit of approvals, which no code here keeps):
    \<open>nep141\<close>, \<open>nep141_settling\<close>, \<open>nep145\<close>, \<open>nep171\<close>, \<open>nep171_settling\<close>, \<open>nep178\<close>, \<open>nep181\<close>.  What a user of any such contract can rely on is proved
    inside the locales.
  \<^item> \<open>TransferConformance\<close>, \<open>StorageConformance\<close>, \<open>NftConformance\<close>, \<open>EnumerationConformance\<close>: the
    \<open>impl\<close> blocks as such records, which of the requirements those of \<open>nep-interface\<close> meet (C11, C13,
    C27), the interpretations of the locales on them, and what they give (C28, C36).
    \<open>TransferDeviations\<close> and \<open>NftDeviations\<close> say requirement by requirement where the example
    crates, and the resolver of \<open>nep-interface\<close>, part from the standards (C12, C34, C35), and sell a
    token through an approval (C21).
  \<^item> \<open>Upgrade\<close>: \<open>nep-interface/src/upgrade/mod.rs\<close>, staged upgrades, and their histories (C20, C37);
    \<open>UpgradeStandard\<close>: its traits, with the locales \<open>ownable\<close> and \<open>upgradable\<close>.
  \<^item> \<open>Withdrawals\<close>: the crates \<open>transfer\<close>, \<open>inconsistency\<close>, \<open>promise-result\<close> and
    \<open>public-interface\<close>, which keep the interface \<open>vault_contract\<close> between a withdrawal and its
    callback: what is not paid is credited back, or, of a transfer call, stranded (C31), and
    \<open>reentrancy\<close> and \<open>unhandled-promise\<close>, which do not.  \<open>TokenVaults\<close> puts a
    vault and the fungible token of \<open>nep-interface\<close> on one chain, with the payments and callbacks
    between them in flight, under the interface \<open>token_vault\<close>; \<open>VaultProperties\<close> interprets it and
    states what the two promise each other, and what the other crates lose (C3, C6, C29, C30).
  \<^item> \<open>Callbacks\<close>: \<open>lock-callback\<close> (C40) and \<open>non-private-callback\<close>.
  \<^item> \<open>TinyTokens\<close>: \<open>self-transfer\<close> and \<open>unregistered-receiver\<close>, with the code they share;
    \<open>PrepaidGas\<close>: \<open>prepaid-gas\<close> (all three: C34).
  \<^item> \<open>NftPackage\<close>, \<open>NftApprovalCheck\<close>, \<open>NftOwnerCheck\<close>: \<open>nft-approval-check\<close> (C35, C39) and
    \<open>nft-owner-check\<close> (C35).  The functions that the two crates call in the package
    \<open>near_contract_standards\<close> are the fields of the record \<open>nft_package\<close>; the theorems instantiate
    them by those of \<open>nep-interface\<close>, which is written after that package.
  \<^item> \<open>StorageFee\<close>: \<open>unclaimed-storage-fee\<close> (C13).
  \<^item> \<open>Rounding\<close>: \<open>round\<close>, with the arithmetic of \<open>f64\<close> it uses (C38).
  \<^item> \<open>SmallContracts\<close>: \<open>unsafe-math\<close>, \<open>div-before-mul\<close>, \<open>timestamp\<close>, \<open>complex-loop\<close>,
    \<open>tautology\<close>, \<open>yocto-attach\<close>, \<open>unused-ret\<close>, \<open>storage-gas\<close>, \<open>unsaved-changes\<close>, \<open>upgrade-func\<close>,
    \<open>ext-call\<close>, \<open>non-callback-private\<close>, \<open>dup-collection-id\<close> and \<open>incorrect-json-type\<close>.

  What the groups of theorems show.  For the standards: every transfer, approval, mint and storage
  operation returns exactly under the stated conditions and changes exactly what is stated; a
  transfer call schedules the right settlement, and the settlement restores or accepts; in every
  reachable state supply and balances, owners and index, approvals and approval counters agree;
  tokens change hands only by authority; paging lists everything once; logged events have the type
  of the standards, say what happened, and can be read back.  Seen from outside, the two contracts
  are a ledger and a registry that execute the entries of their receipts, and for each requirement
  listed for a trait it is said whether it is met; and their logs tell their state, except
  for tokens that leave with a closed account.  A vault and its token, run together, stay solvent and
  always drain; the fungible token always holds the deposits of its accounts.  Where the code does
  something else than it says, the theorem states what it does: the inverted guard of
  \<open>deploy_code\<close> (C37), approvals that survive a returned token (C26) and are refunded twice (C10),
  page limits cut to 32 bits (C27).  For the small crates: the
  loss, overwriting or theft that each guard would have prevented, and for \<open>self-transfer\<close> that
  the missing guard is harmless there.

  Bounds.  No theorem bounds the number of accounts, tokens, steps or callbacks, and no definition
  needs fuel: every loop of the code runs over a finite collection.  \<open>usize\<close> has 32 bits, as on
  wasm32, where the code casts to it.  An \<open>f64\<close> is the rational number it denotes, without bounds
  on the exponent, which the code's numbers stay far from.  Gas is only what the code computes
  with; running out of gas is not modelled, nor is the price of storage beyond the deposits that
  the code itself checks.  Only for the requirement that a token may not have more approvals than
  \<open>nft_revoke_all\<close> can revoke within a gas limit (\<open>approval/mod.rs\<close>, line 29) the gas that a revocation
  burns is a parameter, of which it is assumed that each approval costs some; the refunds of
  revocations are stated for approvals whose storage, at its price, fits the integers it is computed
  in.

  Not modelled.  The analyser itself (C++, Python, shell); module declarations, re-exports and
  imports, which have no content of their own; of the requirements in the traits' comments those
  that speak of the shape of JSON arguments; borsh serialisation, so for \<open>dup-collection-id\<close> and
  \<open>incorrect-json-type\<close> what two collections under one key, or large numbers in JSON, do outside the
  contract; and the code that \<open>#[near_bindgen]\<close> generates beyond its checks for private and payable
  methods.
\<close>

end
